(* ===== verification/Cachalot_Prelude.thy ===== *)
theory Cachalot_Prelude
  imports Main "HOL-Library.Word"
begin

text \<open>
  Shared vocabulary of the development: the outcome of a Go call, the two combinators that
  stand for the ubiquitous \<open>if err != nil { return zero, err }\<close>, the names of the basic
  types, the collections of simplification rules, and generic lemmas on lists and words.

  A Go function returning \<open>(T, error)\<close> returns either a usable value or an error; the
  third possibility is that it panics. The value that accompanies a non-nil error is not
  modelled (callers of this repository discard it).
\<close>

named_theorems cache_ops \<open>equations that unfold the operations of a cache or store\<close>
named_theorems build_simps \<open>equations that unfold the builders\<close>

type_synonym key = string
type_synonym bytes = "8 word list"
type_synonym duration = int   \<comment> \<open>time.Duration: nanoseconds, an int64\<close>

text \<open>The conversion \<open>[]byte(s)\<close>: a Go string is a sequence of bytes.\<close>

definition bytes_of :: "string \<Rightarrow> bytes" where
  "bytes_of s = map of_char s"

definition Millisecond :: duration where "Millisecond = 1000000"
definition Second :: duration where "Second = 1000 * Millisecond"
definition Minute :: duration where "Minute = 60 * Second"
definition Hour :: duration where "Hour = 60 * Minute"

lemmas duration_defs = Millisecond_def Second_def Minute_def Hour_def

lemma duration_pos [simp]: "0 < Millisecond" "0 < Second" "0 < Minute" "0 < Hour"
  by (simp_all add: duration_defs)

lemma duration_nonneg [simp]: "\<not> Minute < 0" "\<not> Hour < 0" "0 \<le> Minute"
  by (simp_all add: duration_defs)

text \<open>Two's complement wrap-around of an int64 computation.\<close>

definition wrap64 :: "int \<Rightarrow> int" where
  "wrap64 i = sint (word_of_int i :: 64 word)"

lemma wrap64_id: "- (2 ^ 63) \<le> i \<Longrightarrow> i < 2 ^ 63 \<Longrightarrow> wrap64 i = i"
  by (simp add: wrap64_def int_word_sint)

lemma wrap64_fixed_iff: "wrap64 i = i \<longleftrightarrow> - (2 ^ 63) \<le> i \<and> i < 2 ^ 63"
  using sint_lt [of "word_of_int i :: 64 word"] sint_ge [of "word_of_int i :: 64 word"] wrap64_id [of i]
  by (auto simp: wrap64_def)

section \<open>Outcomes of calls\<close>

datatype ('e, 'a) outcome = Ok 'a | Err 'e | Panic string

text \<open>
  \<open>on_ok p f\<close> continues with \<open>f\<close> after a call that returned a nil error; an error is
  returned to the caller and a panic unwinds. \<open>bind_ok\<close> is the same for calls without effects.
\<close>

definition on_ok :: "('e, 'a) outcome \<times> 'w \<Rightarrow> ('a \<Rightarrow> 'w \<Rightarrow> ('e, 'b) outcome \<times> 'w) \<Rightarrow> ('e, 'b) outcome \<times> 'w" where
  "on_ok p f = (case p of (Ok v, w) \<Rightarrow> f v w | (Err e, w) \<Rightarrow> (Err e, w) | (Panic m, w) \<Rightarrow> (Panic m, w))"

definition bind_ok :: "('e, 'a) outcome \<Rightarrow> ('a \<Rightarrow> ('e, 'b) outcome) \<Rightarrow> ('e, 'b) outcome" where
  "bind_ok r f = (case r of Ok v \<Rightarrow> f v | Err e \<Rightarrow> Err e | Panic m \<Rightarrow> Panic m)"

lemma on_ok_simps [simp]:
  "on_ok (Ok v, w) f = f v w"
  "on_ok (Err e, w) f = (Err e, w)"
  "on_ok (Panic m, w) f = (Panic m, w)"
  by (simp_all add: on_ok_def)

lemma bind_ok_simps [simp]:
  "bind_ok (Ok v) f = f v"
  "bind_ok (Err e) f = Err e"
  "bind_ok (Panic m) f = Panic m"
  by (simp_all add: bind_ok_def)

lemma on_ok_Ok_iff: "on_ok p f = (Ok b, w') \<longleftrightarrow> (\<exists>a w. p = (Ok a, w) \<and> f a w = (Ok b, w'))"
  by (auto simp: on_ok_def split: prod.splits outcome.splits)

lemma bind_ok_Ok_iff: "bind_ok r f = Ok b \<longleftrightarrow> (\<exists>a. r = Ok a \<and> f a = Ok b)"
  by (auto simp: bind_ok_def split: outcome.splits)

lemma on_ok_snd_const: "(\<And>v w. snd (f v w) = w) \<Longrightarrow> snd (on_ok p f) = snd p"
  by (auto simp: on_ok_def split: prod.splits outcome.splits)

lemma on_ok_return [simp]: "on_ok p (\<lambda>v w. (Ok v, w)) = p"
  by (auto simp: on_ok_def split: prod.splits outcome.splits)

definition is_panic :: "('e, 'a) outcome \<Rightarrow> bool" where
  "is_panic r = (case r of Panic _ \<Rightarrow> True | _ \<Rightarrow> False)"

lemma is_panic_simps [simp]: "\<not> is_panic (Ok v)" "\<not> is_panic (Err e)" "is_panic (Panic m)"
  by (simp_all add: is_panic_def)

lemmas outcome_splits = prod.splits outcome.splits option.splits if_splits

end
