(* ===== verification/Go_Values.thy ===== *)
theory Go_Values
  imports Cachalot_Prelude
begin

text \<open>
  Dynamically typed Go values as far as the repository inspects them. The caches are generic
  in the value type \<open>T\<close>; the code turns a stored \<open>any\<close> back into a \<open>T\<close> with type
  assertions, so the model keeps run-time types: a \<open>gotype\<close> stands for the type argument
  and \<open>type_assert T v\<close> for \<open>v.(T)\<close>. \<open>TLogic T\<close> is \<open>decorator.LogicTTLValue[T]\<close>,
  \<open>TWithTTL T\<close> the private \<open>withTTL[T]\<close> of the singleflight decorator and
  \<open>TSetFeatures\<close> the ristretto store's \<open>*setFeatures\<close>; \<open>TAny\<close> is an interface type.

  An instant (\<open>time.Time\<close>) is a number of nanoseconds since the Unix epoch; the zero
  \<open>time.Time\<close> is January 1 of year 1. The monotonic reading that \<open>time.Now\<close> attaches to
  an instant is not modelled.
\<close>

datatype gotype =
    TBytes | TString | TInt | TStruct string | TAny
  | TLogic gotype | TWithTTL gotype | TSetFeatures

datatype gval =
    VNil
  | VBytes bytes
  | VString string
  | VInt int
  | VStruct string "(string \<times> gval) list"
  | VLogic gotype gval int          \<comment> \<open>LogicTTLValue[T]: Val and ExpireAt\<close>
  | VWithTTL gotype gval duration   \<comment> \<open>withTTL[T]: V and TTL\<close>
  | VSetFeatures bool int           \<comment> \<open>setFeatures: flush and cost\<close>

fun type_of :: "gval \<Rightarrow> gotype option" where
  "type_of VNil = None"
| "type_of (VBytes b) = Some TBytes"
| "type_of (VString s) = Some TString"
| "type_of (VInt i) = Some TInt"
| "type_of (VStruct n fs) = Some (TStruct n)"
| "type_of (VLogic T v e) = Some (TLogic T)"
| "type_of (VWithTTL T v d) = Some (TWithTTL T)"
| "type_of (VSetFeatures f c) = Some TSetFeatures"

text \<open>The values an expression of static type \<open>T\<close> may have.\<close>

fun has_type :: "gotype \<Rightarrow> gval \<Rightarrow> bool" where
  "has_type TAny v = True"
| "has_type (TLogic T) v = (case v of VLogic T' u e \<Rightarrow> T' = T \<and> has_type T u | _ \<Rightarrow> False)"
| "has_type (TWithTTL T) v = (case v of VWithTTL T' u d \<Rightarrow> T' = T \<and> has_type T u | _ \<Rightarrow> False)"
| "has_type T v = (type_of v = Some T)"

text \<open>
  The type assertion \<open>v, ok := x.(T)\<close>: identity of dynamic types for a concrete type; for an
  interface type it succeeds on every non-nil value.
\<close>

definition type_assert :: "gotype \<Rightarrow> gval \<Rightarrow> gval option" where
  "type_assert T v =
     (if T = TAny then (if v = VNil then None else Some v)
      else if type_of v = Some T then Some v else None)"

lemma type_assert_Some: "type_assert T v = Some u \<Longrightarrow> u = v"
  by (auto simp: type_assert_def split: if_splits)

lemma type_of_has_type: "has_type T v \<Longrightarrow> T \<noteq> TAny \<Longrightarrow> type_of v = Some T"
  by (cases T) (auto split: gval.splits)

lemma type_assert_has_type: "has_type T v \<Longrightarrow> v \<noteq> VNil \<Longrightarrow> type_assert T v = Some v"
  by (auto simp: type_assert_def dest: type_of_has_type)

lemma type_assert_concrete: "has_type T v \<Longrightarrow> T \<noteq> TAny \<Longrightarrow> type_assert T v = Some v"
  by (auto simp: type_assert_def dest: type_of_has_type)

lemma type_assert_bytes [simp]: "type_assert TBytes (VBytes b) = Some (VBytes b)"
  by (simp add: type_assert_def)

lemma has_type_TBytes: "has_type TBytes v \<longleftrightarrow> (\<exists>b. v = VBytes b)"
  by (cases v) auto

lemma has_type_TLogic: "has_type (TLogic T) v \<longleftrightarrow> (\<exists>u e. v = VLogic T u e \<and> has_type T u)"
  by (cases v) auto

text \<open>reflect.TypeFor[T]() == reflect.TypeFor[[]byte]() (internal/bytestype.go)\<close>

definition IsBytesType :: "gotype \<Rightarrow> bool" where
  "IsBytesType T = (T = TBytes)"

section \<open>Instants\<close>

definition zero_time :: int where
  "zero_time = - 62135596800 * Second"

definition IsZero :: "int \<Rightarrow> bool" where
  "IsZero t = (t = zero_time)"

text \<open>\<open>t.After(u)\<close> is \<open>u < t\<close>; \<open>t.Add(d)\<close> is \<open>t + d\<close>.\<close>

definition After :: "int \<Rightarrow> int \<Rightarrow> bool" where
  "After t u = (u < t)"

text \<open>
  An entry with deadline \<open>e\<close> is past it at time \<open>t\<close>: the test
  \<open>!e.IsZero() && time.Now().After(e)\<close> shared by the logical expiry and the map store.
\<close>

definition past :: "int \<Rightarrow> int \<Rightarrow> bool" where
  "past e t = (\<not> IsZero e \<and> After t e)"

lemma past_zero [simp]: "\<not> past zero_time t"
  by (simp add: past_def IsZero_def)

lemma past_mono: "past e t \<Longrightarrow> t \<le> u \<Longrightarrow> past e u"
  by (auto simp: past_def After_def)

end
