(* ===== verification/Go_Errors.thy ===== *)
theory Go_Errors
  imports Go_Values
begin

text \<open>
  Error values. The sentinels of core/cache/errors.go and of the storage clients are
  constructors, \<open>errors.New\<close> and \<open>fmt.Errorf\<close> keep their text (format string and
  arguments, not rendered), and \<open>errors.Join\<close> keeps its list. \<open>errors_is\<close> is
  \<open>errors.Is\<close> of the standard library: it follows the operands of the \<open>%w\<close> verbs and the
  parts of a joined error. Two distinct calls of \<open>errors.New\<close> give distinct pointers in Go;
  the code only ever compares with sentinels, for which equality of values is identity.
\<close>

datatype error =
    ErrNotFound | ErrTypeMismatch | ErrInvalidTTL    \<comment> \<open>core/cache/errors.go\<close>
  | Canceled | DeadlineExceeded                      \<comment> \<open>context\<close>
  | RedisNil | FreecacheErrNotFound | ValkeyNil      \<comment> \<open>storage clients\<close>
  | Foreign string                                   \<comment> \<open>any other error from outside\<close>
  | ErrorsNew string
  | Errorf string "fmt_arg list"
  | JoinError "error list"
and fmt_arg = AStr string | AInt int | ADur duration | AType gotype | ATypeOf gval | AErr error

type_synonym 'a result = "(error, 'a) outcome"

text \<open>The operands of the \<open>%w\<close> verbs of a format string.\<close>

definition wrap_operand :: "char \<Rightarrow> fmt_arg \<Rightarrow> error list" where
  "wrap_operand v a = (if v = CHR ''w'' then (case a of AErr e \<Rightarrow> [e] | _ \<Rightarrow> []) else [])"

fun wrapped :: "string \<Rightarrow> fmt_arg list \<Rightarrow> error list" where
  "wrapped [] as = []"
| "wrapped [c] as = []"
| "wrapped (c # v # fs) as =
     (if c \<noteq> CHR ''%'' then wrapped (v # fs) as
      else if v = CHR ''%'' then wrapped fs as
      else case as of [] \<Rightarrow> [] | a # as' \<Rightarrow> wrap_operand v a @ wrapped fs as')"

lemma wrap_operand_simps [simp]:
  "wrap_operand CHR ''w'' (AErr e) = [e]"
  "v \<noteq> CHR ''w'' \<Longrightarrow> wrap_operand v a = []"
  by (simp_all add: wrap_operand_def)

lemma wrap_operand_arg: "e \<in> set (wrap_operand v a) \<Longrightarrow> a = AErr e"
  by (cases "v = CHR ''w''"; cases a; simp add: wrap_operand_def)

lemma wrapped_in_args: "e \<in> set (wrapped fs as) \<Longrightarrow> AErr e \<in> set as"
proof (induction fs as rule: wrapped.induct)
  case (3 c v fs as)
  then show ?case
    by (cases as) (auto dest: wrap_operand_arg split: if_splits)
qed simp_all

fun unwrap :: "error \<Rightarrow> error list" where
  "unwrap (Errorf fs as) = wrapped fs as"
| "unwrap (JoinError es) = es"
| "unwrap e = []"

lemma size_AErr_list: "AErr e \<in> set as \<Longrightarrow> size e < size_list size as"
  by (induction as) auto

lemma size_mem_list: "(e::error) \<in> set es \<Longrightarrow> size e < Suc (size_list size es)"
  by (induction es) auto

lemma unwrap_smaller: "e' \<in> set (unwrap e) \<Longrightarrow> size e' < size e"
proof (cases e)
  case (Errorf fs as)
  moreover assume "e' \<in> set (unwrap e)"
  ultimately have "AErr e' \<in> set as" by (auto dest: wrapped_in_args)
  then show ?thesis using Errorf by (auto dest: size_AErr_list)
next
  case (JoinError es)
  moreover assume "e' \<in> set (unwrap e)"
  ultimately show ?thesis by (auto dest: size_mem_list)
qed auto

function errors_is :: "error \<Rightarrow> error \<Rightarrow> bool" where
  "errors_is e t = (e = t \<or> list_ex (\<lambda>e'. errors_is e' t) (unwrap e))"
  by pat_completeness auto
termination
  by (relation "measure (\<lambda>(e, t). size e)") (auto dest: unwrap_smaller)

declare errors_is.simps [simp del]

lemma errors_is_refl [simp]: "errors_is e e"
  by (simp add: errors_is.simps [of e e])

lemma errors_is_leaf:
  fixes t :: error
  shows "errors_is ErrNotFound t \<longleftrightarrow> t = ErrNotFound"
  "errors_is ErrTypeMismatch t \<longleftrightarrow> t = ErrTypeMismatch"
  "errors_is ErrInvalidTTL t \<longleftrightarrow> t = ErrInvalidTTL"
  "errors_is Canceled t \<longleftrightarrow> t = Canceled"
  "errors_is DeadlineExceeded t \<longleftrightarrow> t = DeadlineExceeded"
  "errors_is RedisNil t \<longleftrightarrow> t = RedisNil"
  "errors_is FreecacheErrNotFound t \<longleftrightarrow> t = FreecacheErrNotFound"
  "errors_is ValkeyNil t \<longleftrightarrow> t = ValkeyNil"
  "errors_is (Foreign s) t \<longleftrightarrow> t = Foreign s"
  "errors_is (ErrorsNew s) t \<longleftrightarrow> t = ErrorsNew s"
  by (subst errors_is.simps, simp, blast)+

lemma errors_is_Errorf:
  "errors_is (Errorf fs as) t \<longleftrightarrow> Errorf fs as = t \<or> list_ex (\<lambda>e. errors_is e t) (wrapped fs as)"
  by (simp add: errors_is.simps [of "Errorf fs as" t])

lemma errors_is_JoinError:
  "errors_is (JoinError es) t \<longleftrightarrow> JoinError es = t \<or> list_ex (\<lambda>e. errors_is e t) es"
  by (simp add: errors_is.simps [of "JoinError es" t])

lemmas errors_is_simps = errors_is_leaf errors_is_Errorf errors_is_JoinError

text \<open>\<open>errors.Join\<close> drops nil errors and returns nil when nothing is left.\<close>

definition errors_Join :: "error option list \<Rightarrow> error option" where
  "errors_Join es =
     (let some = List.map_filter id es in if some = [] then None else Some (JoinError some))"

lemma map_filter_id_set: "set (List.map_filter id es) = {e. Some e \<in> set es}"
  by (induction es) (auto simp: map_filter_simps split: option.splits)

lemma errors_Join_None: "errors_Join es = None \<longleftrightarrow> (\<forall>e \<in> set es. e = None)"
proof -
  have "List.map_filter id es = [] \<longleftrightarrow> set (List.map_filter id es) = {}" by simp
  also have "\<dots> \<longleftrightarrow> (\<forall>e \<in> set es. e = None)"
    unfolding map_filter_id_set by (metis (mono_tags, lifting) empty_Collect_eq not_None_eq)
  finally show ?thesis by (simp add: errors_Join_def Let_def)
qed

lemma errors_Join_is:
  assumes "errors_Join es = Some j" and "Some e \<in> set es" and "errors_is e t"
  shows "errors_is j t"
proof -
  from assms(1) have "j = JoinError (List.map_filter id es)"
    by (auto simp: errors_Join_def Let_def split: if_splits)
  moreover have "e \<in> set (List.map_filter id es)"
    using assms(2) by (simp add: map_filter_id_set)
  ultimately show ?thesis using assms(3) by (auto simp: errors_is_JoinError list_ex_iff)
qed

text \<open>The outcome of a lookup that reports a missing item.\<close>

definition not_found :: "'a result \<Rightarrow> bool" where
  "not_found r = (case r of Err e \<Rightarrow> errors_is e ErrNotFound | _ \<Rightarrow> False)"

lemma not_found_simps [simp]:
  "\<not> not_found (Ok v)" "not_found (Err e) \<longleftrightarrow> errors_is e ErrNotFound" "\<not> not_found (Panic m)"
  by (simp_all add: not_found_def)

end
