(* ===== verification/Telemetry.thy ===== *)
theory Telemetry
  imports Go_Errors
begin

text \<open>
  The world the code runs in, and core/telemetry with internal/errmap.go.

  \<open>'x world\<close> is the state threaded through every operation: the clock, the heap of
  \<open>telemetry.Event\<close>s (an event is referred to by its index, the \<open>*Event\<close> pointer that a
  context carries), the number of \<open>singleflight.Group\<close>s allocated so far, and \<open>w_ext\<close>, the
  state of everything outside the repository (storage clients, the origin behind the loaders,
  the metrics and logging back ends). Code inside the repository takes no time; calls out of it
  may move the clock.

  A context is done from the instant given by \<open>ctx_deadline\<close> on, with the error given there, so
  that it can be cancelled while an operation waits for something outside.
\<close>

record event =
  ev_Op :: string
  ev_Result :: string
  ev_CacheName :: string
  ev_StoreName :: string
  ev_Latency :: duration
  ev_Error :: "error option"
  ev_customFields :: "(string \<rightharpoonup> string) option"   \<comment> \<open>nil until fieldOnce has run\<close>

definition OpGet :: string where "OpGet = ''get''"
definition OpSet :: string where "OpSet = ''set''"
definition OpGetWithTTL :: string where "OpGetWithTTL = ''get_with_ttl''"
definition OpDelete :: string where "OpDelete = ''delete''"
definition OpClear :: string where "OpClear = ''clear''"

definition ResultHit :: string where "ResultHit = ''hit''"
definition ResultMiss :: string where "ResultMiss = ''miss''"
definition ResultFail :: string where "ResultFail = ''fail''"

lemmas telemetry_names = OpGet_def OpSet_def OpGetWithTTL_def OpDelete_def OpClear_def
  ResultHit_def ResultMiss_def ResultFail_def

definition ResultFromErr :: "error option \<Rightarrow> string" where
  "ResultFromErr err =
     (case err of
        None \<Rightarrow> ResultHit
      | Some e \<Rightarrow> if errors_is e ErrNotFound then ResultMiss else ResultFail)"

record 'x world =
  w_now :: int
  w_events :: "event list"
  w_groups :: nat
  w_ext :: 'x

definition wait :: "duration \<Rightarrow> 'x world \<Rightarrow> 'x world" where
  "wait d w = w\<lparr>w_now := w_now w + d\<rparr>"

section \<open>Contexts and events\<close>

record ctx =
  ctx_deadline :: "(int \<times> error) option"
  ctx_event :: "nat option"

definition Background :: ctx where
  "Background = \<lparr>ctx_deadline = None, ctx_event = None\<rparr>"

definition ctx_Err :: "ctx \<Rightarrow> 'x world \<Rightarrow> error option" where
  "ctx_Err c w = (case ctx_deadline c of
      None \<Rightarrow> None
    | Some (t, e) \<Rightarrow> if t \<le> w_now w then Some e else None)"

definition ContextWithEvent :: "ctx \<Rightarrow> nat \<Rightarrow> ctx" where
  "ContextWithEvent c evt = c\<lparr>ctx_event := Some evt\<rparr>"

text \<open>\<open>evt := &telemetry.Event{Op: op, CacheName: cn, StoreName: sn}\<close>\<close>

definition new_event :: "string \<Rightarrow> string \<Rightarrow> string \<Rightarrow> 'x world \<Rightarrow> nat \<times> 'x world" where
  "new_event op cn sn w =
     (length (w_events w),
      w\<lparr>w_events := w_events w @
          [\<lparr>ev_Op = op, ev_Result = [], ev_CacheName = cn, ev_StoreName = sn, ev_Latency = 0,
            ev_Error = None, ev_customFields = None\<rparr>]\<rparr>)"

definition update_event :: "nat \<Rightarrow> (event \<Rightarrow> event) \<Rightarrow> 'x world \<Rightarrow> 'x world" where
  "update_event r f w = w\<lparr>w_events := (w_events w)[r := f (w_events w ! r)]\<rparr>"

definition getOrInitCustomFields :: "event \<Rightarrow> event \<times> (string \<rightharpoonup> string)" where
  "getOrInitCustomFields e =
     (case ev_customFields e of
        None \<Rightarrow> (e\<lparr>ev_customFields := Some Map.empty\<rparr>, Map.empty)
      | Some m \<Rightarrow> (e, m))"

text \<open>A map literal or map variable of the source is an association list with distinct keys.\<close>

definition AddCustomFields :: "ctx \<Rightarrow> (string \<times> string) list \<Rightarrow> 'x world \<Rightarrow> 'x world" where
  "AddCustomFields c fs w =
     (if fs = [] then w
      else case ctx_event c of
          None \<Rightarrow> w
        | Some r \<Rightarrow>
            update_event r
              (\<lambda>e. let (e', m) = getOrInitCustomFields e
                   in e'\<lparr>ev_customFields := Some (m ++ map_of fs)\<rparr>) w)"

definition FrozenCustomFields :: "nat \<Rightarrow> 'x world \<Rightarrow> (string \<rightharpoonup> string) \<times> 'x world" where
  "FrozenCustomFields r w =
     (snd (getOrInitCustomFields (w_events w ! r)), update_event r (fst \<circ> getOrInitCustomFields) w)"

section \<open>Loggers, metrics, observables\<close>

type_synonym log_args = "(string \<times> fmt_arg) list"
type_synonym 'x log_fn = "ctx \<Rightarrow> string \<Rightarrow> log_args \<Rightarrow> 'x world \<Rightarrow> 'x world"

record 'x logger =
  lg_DebugContext :: "'x log_fn"
  lg_InfoContext :: "'x log_fn"
  lg_WarnContext :: "'x log_fn"
  lg_ErrorContext :: "'x log_fn"

text \<open>\<open>m_RecordLogicExpire\<close> is present when the metrics also implement \<open>LogicTTLMetrics\<close>.\<close>

record 'x metrics =
  m_Record :: "ctx \<Rightarrow> nat \<Rightarrow> 'x world \<Rightarrow> unit result \<times> 'x world"
  m_RecordLogicExpire :: "(ctx \<Rightarrow> 'x world \<Rightarrow> unit result \<times> 'x world) option"

record 'x observable =
  ob_Metrics :: "'x metrics option"
  ob_Logger :: "'x logger option"

definition NoopMetrics :: "'x metrics" where
  "NoopMetrics = \<lparr>m_Record = (\<lambda>c evt w. (Ok (), w)), m_RecordLogicExpire = None\<rparr>"

text \<open>The slog functions of the standard library write to the process's log: a parameter.\<close>

definition SlogLogger :: "(string \<Rightarrow> 'x log_fn) \<Rightarrow> 'x logger" where
  "SlogLogger slog = \<lparr>lg_DebugContext = slog ''DEBUG'', lg_InfoContext = slog ''INFO'',
                     lg_WarnContext = slog ''WARN'', lg_ErrorContext = slog ''ERROR''\<rparr>"

definition DefaultObservable :: "(string \<Rightarrow> 'x log_fn) \<Rightarrow> 'x observable" where
  "DefaultObservable slog = \<lparr>ob_Metrics = Some NoopMetrics, ob_Logger = Some (SlogLogger slog)\<rparr>"

definition nil_deref :: string where
  "nil_deref = ''invalid memory address or nil pointer dereference''"

text \<open>\<open>ob.Logger.ErrorContext(...)\<close> and \<open>ob.Metrics.Record(ctx, evt)\<close> on a possibly nil \<open>ob\<close>\<close>

definition log_error :: "'x observable option \<Rightarrow> ctx \<Rightarrow> string \<Rightarrow> log_args \<Rightarrow> 'x world \<Rightarrow> unit result \<times> 'x world" where
  "log_error ob c msg args w =
     (case ob of None \<Rightarrow> (Panic nil_deref, w)
      | Some o' \<Rightarrow> (case ob_Logger o' of None \<Rightarrow> (Panic nil_deref, w)
                  | Some l \<Rightarrow> (Ok (), lg_ErrorContext l c msg args w)))"

definition record_event :: "'x observable option \<Rightarrow> ctx \<Rightarrow> nat \<Rightarrow> 'x world \<Rightarrow> unit result \<times> 'x world" where
  "record_event ob c evt w =
     (case ob of None \<Rightarrow> (Panic nil_deref, w)
      | Some o' \<Rightarrow> (case ob_Metrics o' of None \<Rightarrow> (Panic nil_deref, w) | Some m \<Rightarrow> m_Record m c evt w))"

section \<open>Properties\<close>

lemma ctx_Err_None [simp]: "ctx_deadline c = None \<Longrightarrow> ctx_Err c w = None"
  by (simp add: ctx_Err_def)

lemma ContextWithEvent_deadline [simp]: "ctx_deadline (ContextWithEvent c r) = ctx_deadline c"
  by (simp add: ContextWithEvent_def)

lemma ctx_Err_ContextWithEvent [simp]: "ctx_Err (ContextWithEvent c r) w = ctx_Err c w"
  by (simp add: ctx_Err_def)

lemma update_event_other [simp]:
  "w_now (update_event r f w) = w_now w" "w_ext (update_event r f w) = w_ext w"
  "w_groups (update_event r f w) = w_groups w"
  "length (w_events (update_event r f w)) = length (w_events w)"
  by (simp_all add: update_event_def)

lemma new_event_other [simp]:
  "w_now (snd (new_event op cn sn w)) = w_now w" "w_ext (snd (new_event op cn sn w)) = w_ext w"
  "w_groups (snd (new_event op cn sn w)) = w_groups w"
  by (simp_all add: new_event_def)

lemma AddCustomFields_other [simp]:
  "w_now (AddCustomFields c fs w) = w_now w" "w_ext (AddCustomFields c fs w) = w_ext w"
  "w_groups (AddCustomFields c fs w) = w_groups w"
  "length (w_events (AddCustomFields c fs w)) = length (w_events w)"
  by (simp_all add: AddCustomFields_def split: option.split)

lemma wait_simps [simp]:
  "w_now (wait d w) = w_now w + d" "w_ext (wait d w) = w_ext w" "w_events (wait d w) = w_events w"
  by (simp_all add: wait_def)

lemma getOrInit_fields:
  "snd (getOrInitCustomFields e) = (case ev_customFields e of None \<Rightarrow> Map.empty | Some m \<Rightarrow> m)"
  by (simp add: getOrInitCustomFields_def split: option.split)

lemma update_event_nth: "r < length (w_events w) \<Longrightarrow> w_events (update_event r f w) ! r = f (w_events w ! r)"
  by (simp add: update_event_def)

lemma AddCustomFields_fields:
  assumes "ctx_event c = Some r" and "r < length (w_events w)"
  shows "fst (FrozenCustomFields r (AddCustomFields c fs w)) = fst (FrozenCustomFields r w) ++ map_of fs"
proof (cases "fs = []")
  case True
  then show ?thesis by (simp add: AddCustomFields_def)
next
  case False
  with assms show ?thesis
    by (simp add: AddCustomFields_def FrozenCustomFields_def update_event_nth split_beta)
      (simp add: getOrInit_fields)
qed

text \<open>Adding custom fields through a context merges them over the fields of the event the
  context carries (later values win), whether or not its map was initialised, and changes no other
  event, nor the clock or anything outside; without an event, or without fields, it does nothing.\<close>

theorem AddCustomFields_merges:
  assumes "ctx_event c = Some r" and "r < length (w_events w)" and "r' \<noteq> r" and "ctx_event c0 = None"
  shows "fst (FrozenCustomFields r (AddCustomFields c fs w)) = fst (FrozenCustomFields r w) ++ map_of fs \<and>
     w_events (AddCustomFields c fs w) ! r' = w_events w ! r' \<and>
     w_ext (AddCustomFields c fs w) = w_ext w \<and> w_now (AddCustomFields c fs w) = w_now w \<and>
     AddCustomFields c0 fs w = w \<and> AddCustomFields c [] w = w"
  using assms AddCustomFields_fields [OF assms(1,2)]
  by (simp add: AddCustomFields_def update_event_def split_beta)

theorem AddCustomFields_merges_witness:
  "\<exists>w :: nat world. \<exists>c. fst (FrozenCustomFields 0 (AddCustomFields c [(''shared'', ''true'')] w)) = [''shared'' \<mapsto> ''true'']"
proof -
  let ?w = "snd (new_event OpGet ''c'' ''s'' \<lparr>w_now = 0, w_events = [], w_groups = 0, w_ext = 0 :: nat\<rparr>)"
  have "fst (FrozenCustomFields 0 ?w) = Map.empty"
    by (simp add: FrozenCustomFields_def getOrInit_fields new_event_def)
  then have "fst (FrozenCustomFields 0 (AddCustomFields (ContextWithEvent Background 0) [(''shared'', ''true'')] ?w)) =
      [''shared'' \<mapsto> ''true'']"
    using AddCustomFields_merges [of "ContextWithEvent Background 0" 0 ?w 1 Background "[(''shared'', ''true'')]"]
    by (simp add: ContextWithEvent_def Background_def new_event_def)
  then show ?thesis by blast
qed

end
