(* ===== verification/Cache_Core.thy ===== *)
theory Cache_Core
  imports Telemetry
begin

text \<open>
  core/cache: the \<open>Store\<close> and \<open>Cache[T]\<close> interfaces as records of functions, call options,
  the base cache that turns a store into a \<open>Cache[T]\<close>, and \<open>cache.New\<close> with its options. A
  value of type \<open>Cache[T]\<close> is a \<open>cache\<close>; the type argument is passed to the operations that
  depend on it.
\<close>

section \<open>Call options\<close>

record call_opt_config =
  CustomField :: "(string \<rightharpoonup> gval) option"   \<comment> \<open>a possibly nil map\<close>

type_synonym call_option = "call_opt_config \<Rightarrow> call_opt_config result"

definition SetCustomField :: "call_opt_config \<Rightarrow> string \<Rightarrow> gval \<Rightarrow> call_opt_config" where
  "SetCustomField c k v =
     c\<lparr>CustomField := Some ((case CustomField c of None \<Rightarrow> Map.empty | Some m \<Rightarrow> m)(k \<mapsto> v))\<rparr>"

definition GetCustomField :: "call_opt_config \<Rightarrow> string \<Rightarrow> gval option \<times> call_opt_config" where
  "GetCustomField c k =
     (let m = (case CustomField c of None \<Rightarrow> Map.empty | Some m \<Rightarrow> m)
      in (m k, c\<lparr>CustomField := Some m\<rparr>))"

definition WithOptionCustomField :: "string \<Rightarrow> gval \<Rightarrow> call_option" where
  "WithOptionCustomField k v = (\<lambda>c. Ok (SetCustomField c k v))"

fun apply_each :: "call_option list \<Rightarrow> call_opt_config \<Rightarrow> call_opt_config result" where
  "apply_each [] c = Ok c"
| "apply_each (opt # opts) c = bind_ok (opt c) (apply_each opts)"

definition ApplyOptions :: "call_option list \<Rightarrow> call_opt_config result" where
  "ApplyOptions opts = apply_each opts \<lparr>CustomField = None\<rparr>"

text \<open>
  Options that neither panic nor fail, and that leave the custom field a store of the repository
  reserves for itself (\<open>ristretto_set\<close>, a \<open>*setFeatures\<close>) to the options of that store. Every
  option of the repository is one, as long as no custom field is given the reserved name.
\<close>

definition fields_ok :: "call_opt_config \<Rightarrow> bool" where
  "fields_ok c \<longleftrightarrow> (\<forall>m v. CustomField c = Some m \<longrightarrow> m ''ristretto_set'' = Some v \<longrightarrow>
     v = VNil \<or> (\<exists>flush cost. v = VSetFeatures flush cost))"

definition opts_total :: "call_option list \<Rightarrow> bool" where
  "opts_total opts \<longleftrightarrow> (\<forall>opt \<in> set opts. \<forall>c. fields_ok c \<longrightarrow> (\<exists>c'. opt c = Ok c' \<and> fields_ok c'))"

lemma opts_total_Nil [simp]: "opts_total []"
  by (simp add: opts_total_def)

lemma opts_total_append [simp]: "opts_total (xs @ ys) \<longleftrightarrow> opts_total xs \<and> opts_total ys"
  by (auto simp: opts_total_def)

lemma fields_ok_empty [simp]: "fields_ok \<lparr>CustomField = None\<rparr>"
  by (simp add: fields_ok_def)

lemma fields_ok_Set:
  "fields_ok c \<Longrightarrow> k \<noteq> ''ristretto_set'' \<or> v = VNil \<or> (\<exists>flush cost. v = VSetFeatures flush cost) \<Longrightarrow>
   fields_ok (SetCustomField c k v)"
  by (auto simp: fields_ok_def SetCustomField_def split: option.splits if_splits)

lemma opts_total_custom [simp]: "k \<noteq> ''ristretto_set'' \<Longrightarrow> opts_total [WithOptionCustomField k v]"
  by (simp add: opts_total_def WithOptionCustomField_def fields_ok_Set)

lemma apply_each_total:
  "opts_total opts \<Longrightarrow> fields_ok c \<Longrightarrow> \<exists>c'. apply_each opts c = Ok c' \<and> fields_ok c'"
proof (induction opts arbitrary: c)
  case (Cons opt opts)
  then obtain c1 where "opt c = Ok c1" "fields_ok c1" by (fastforce simp: opts_total_def)
  moreover from Cons.prems have "opts_total opts" by (simp add: opts_total_def)
  ultimately show ?case using Cons.IH by simp
qed simp

lemma ApplyOptions_total: "opts_total opts \<Longrightarrow> \<exists>c'. ApplyOptions opts = Ok c' \<and> fields_ok c'"
  by (simp add: ApplyOptions_def apply_each_total)

section \<open>Stores and caches\<close>

record 'x cache =
  c_Get :: "ctx \<Rightarrow> key \<Rightarrow> call_option list \<Rightarrow> 'x world \<Rightarrow> gval result \<times> 'x world"
  c_Set :: "ctx \<Rightarrow> key \<Rightarrow> gval \<Rightarrow> duration \<Rightarrow> call_option list \<Rightarrow> 'x world \<Rightarrow> unit result \<times> 'x world"
  c_GetWithTTL :: "ctx \<Rightarrow> key \<Rightarrow> call_option list \<Rightarrow> 'x world \<Rightarrow> (gval \<times> duration) result \<times> 'x world"
  c_Delete :: "ctx \<Rightarrow> key \<Rightarrow> call_option list \<Rightarrow> 'x world \<Rightarrow> unit result \<times> 'x world"
  c_Clear :: "ctx \<Rightarrow> 'x world \<Rightarrow> unit result \<times> 'x world"

text \<open>The Store interface has the same operations, on values of type \<open>any\<close>, and a name.\<close>

record 'x store = "'x cache" +
  StoreName :: string

section \<open>BaseCache\<close>

definition BaseCache_mismatch :: "gotype \<Rightarrow> gval \<Rightarrow> error" where
  "BaseCache_mismatch T val =
     Errorf ''[BaseCache]:want:%T got:%T %w'' [AType T, ATypeOf val, AErr ErrTypeMismatch]"

definition BaseCache_Get ::
    "gotype \<Rightarrow> 'x store \<Rightarrow> ctx \<Rightarrow> key \<Rightarrow> call_option list \<Rightarrow> 'x world \<Rightarrow> gval result \<times> 'x world" where
  "BaseCache_Get T s ctx k opts w =
     on_ok (c_Get s ctx k opts w)
       (\<lambda>val w. case type_assert T val of
            Some v \<Rightarrow> (Ok v, w)
          | None \<Rightarrow> (Err (BaseCache_mismatch T val), w))"

definition BaseCache_Set ::
    "'x store \<Rightarrow> ctx \<Rightarrow> key \<Rightarrow> gval \<Rightarrow> duration \<Rightarrow> call_option list \<Rightarrow> 'x world \<Rightarrow> unit result \<times> 'x world" where
  "BaseCache_Set s ctx k val ttl opts w = c_Set s ctx k val ttl opts w"

definition BaseCache_GetWithTTL ::
    "gotype \<Rightarrow> 'x store \<Rightarrow> ctx \<Rightarrow> key \<Rightarrow> call_option list \<Rightarrow> 'x world \<Rightarrow> (gval \<times> duration) result \<times> 'x world" where
  "BaseCache_GetWithTTL T s ctx k opts w =
     on_ok (c_GetWithTTL s ctx k opts w)
       (\<lambda>(val, ttl) w. case type_assert T val of
            Some v \<Rightarrow> (Ok (v, ttl), w)
          | None \<Rightarrow> (Err (BaseCache_mismatch T val), w))"

definition BaseCache_Delete ::
    "'x store \<Rightarrow> ctx \<Rightarrow> key \<Rightarrow> call_option list \<Rightarrow> 'x world \<Rightarrow> unit result \<times> 'x world" where
  "BaseCache_Delete s ctx k opts w = c_Delete s ctx k opts w"

definition BaseCache_Clear :: "'x store \<Rightarrow> ctx \<Rightarrow> 'x world \<Rightarrow> unit result \<times> 'x world" where
  "BaseCache_Clear s ctx w = c_Clear s ctx w"

definition NewBaseCache :: "gotype \<Rightarrow> 'x store \<Rightarrow> 'x cache" where
  "NewBaseCache T s =
     \<lparr>c_Get = BaseCache_Get T s, c_Set = BaseCache_Set s, c_GetWithTTL = BaseCache_GetWithTTL T s,
      c_Delete = BaseCache_Delete s, c_Clear = BaseCache_Clear s\<rparr>"

lemma NewBaseCache_ops [simp, cache_ops]:
  "c_Get (NewBaseCache T s) = BaseCache_Get T s"
  "c_Set (NewBaseCache T s) = BaseCache_Set s"
  "c_GetWithTTL (NewBaseCache T s) = BaseCache_GetWithTTL T s"
  "c_Delete (NewBaseCache T s) = BaseCache_Delete s"
  "c_Clear (NewBaseCache T s) = BaseCache_Clear s"
  by (simp_all add: NewBaseCache_def)

lemma BaseCache_mismatch_is [simp]:
  "errors_is (BaseCache_mismatch T v) ErrTypeMismatch"
  "\<not> errors_is (BaseCache_mismatch T v) ErrNotFound"
  by (simp_all add: BaseCache_mismatch_def errors_is_simps)

section \<open>cache.New and its options\<close>

type_synonym 'x cache_factory =
  "'x store \<Rightarrow> 'x observable option \<Rightarrow> 'x world \<Rightarrow> 'x cache result \<times> 'x world"
type_synonym 'x decorator =
  "'x cache \<Rightarrow> 'x observable option \<Rightarrow> 'x world \<Rightarrow> 'x cache result \<times> 'x world"

record 'x configs =
  cf_Error :: "error option"
  cf_ob :: "'x observable option"
  cf_factory :: "'x cache_factory option"
  cf_decorators :: "'x decorator list"

type_synonym 'x cache_option = "'x configs \<Rightarrow> 'x configs"

fun WithOptions :: "'x cache_option list \<Rightarrow> 'x cache_option" where
  "WithOptions [] c = c"
| "WithOptions (opt # opts) c = (if cf_Error c \<noteq> None then c else WithOptions opts (opt c))"

definition WithObservable :: "'x observable option \<Rightarrow> 'x cache_option" where
  "WithObservable ob c = c\<lparr>cf_ob := ob\<rparr>"

definition WithFactory :: "'x cache_factory option \<Rightarrow> 'x cache_option" where
  "WithFactory f c = c\<lparr>cf_factory := f\<rparr>"

definition WithSimpleFactory :: "('x store \<Rightarrow> 'x world \<Rightarrow> 'x cache result \<times> 'x world) \<Rightarrow> 'x cache_option" where
  "WithSimpleFactory f = WithFactory (Some (\<lambda>s ob. f s))"

definition WithDecorator :: "'x decorator \<Rightarrow> 'x cache_option" where
  "WithDecorator d c = c\<lparr>cf_decorators := cf_decorators c @ [d]\<rparr>"

definition WithSimpleDecorator :: "('x cache \<Rightarrow> 'x world \<Rightarrow> 'x cache result \<times> 'x world) \<Rightarrow> 'x cache_option" where
  "WithSimpleDecorator d = WithDecorator (\<lambda>c ob. d c)"

fun decorate :: "'x decorator list \<Rightarrow> 'x observable option \<Rightarrow> 'x cache \<Rightarrow> 'x world \<Rightarrow> 'x cache result \<times> 'x world" where
  "decorate [] ob c w = (Ok c, w)"
| "decorate (d # ds) ob c w = on_ok (d c ob w) (decorate ds ob)"

definition nil_call :: string where
  "nil_call = ''call of nil function''"

definition New_config :: "'x cache_option list \<Rightarrow> 'x configs" where
  "New_config opts = fold (\<lambda>opt c. opt c) opts
     \<lparr>cf_Error = None, cf_ob = None, cf_factory = None, cf_decorators = []\<rparr>"

definition New :: "string \<Rightarrow> 'x store \<Rightarrow> 'x cache_option list \<Rightarrow> 'x world \<Rightarrow> 'x cache result \<times> 'x world" where
  "New name store opts w =
     (let cfg = New_config opts in
      case cf_Error cfg of
        Some e \<Rightarrow> (Err e, w)
      | None \<Rightarrow>
          (case cf_factory cfg of
             None \<Rightarrow> (Panic nil_call, w)
           | Some f \<Rightarrow> on_ok (f store (cf_ob cfg) w) (decorate (cf_decorators cfg) (cf_ob cfg))))"

lemma decorate_append:
  "decorate (ds @ es) ob c w = on_ok (decorate ds ob c w) (decorate es ob)"
  by (induction ds arbitrary: c w) (auto simp: on_ok_def split: prod.splits outcome.splits)

lemma WithDecorator_simps [simp]:
  "cf_Error (WithDecorator d c) = cf_Error c" "cf_ob (WithDecorator d c) = cf_ob c"
  "cf_factory (WithDecorator d c) = cf_factory c"
  "cf_decorators (WithDecorator d c) = cf_decorators c @ [d]"
  by (simp_all add: WithDecorator_def)

lemma WithOptions_decorators:
  "cf_Error c = None \<Longrightarrow>
   WithOptions (map WithDecorator ds) c = c\<lparr>cf_decorators := cf_decorators c @ ds\<rparr>"
  by (induction ds arbitrary: c) (simp_all add: WithDecorator_def)

lemma WithOptions_stops_at_error: "cf_Error c \<noteq> None \<Longrightarrow> WithOptions opts c = c"
  by (cases opts) simp_all

lemma WithOptions_append: "WithOptions (xs @ ys) c = WithOptions ys (WithOptions xs c)"
  by (induction xs arbitrary: c) (simp_all add: WithOptions_stops_at_error)

end
