(* ===== verification/Cache_Contract.thy ===== *)
theory Cache_Contract
  imports Cache_Core
begin

text \<open>
  The contract of the \<open>Store\<close> and \<open>Cache[T]\<close> interfaces (the comments of core/cache/store.go
  and the cases of stores/storetests), as a locale that providers interpret and decorators
  are built on.

  Entries expire, and reading may take time, so the abstract state is a \<^emph>\<open>view\<close>: for a world,
  a key and an instant from now on, what a lookup made at that instant reports if nobody
  writes in between. Reading keeps the view; writing a key changes it for that key.
\<close>

datatype entry =
    Absent
  | Present gval "int option"   \<comment> \<open>the value and the instant it expires at, if any\<close>
  | Corrupt                     \<comment> \<open>something the cache cannot turn into a value\<close>

type_synonym 'x view = "'x world \<Rightarrow> key \<Rightarrow> int \<Rightarrow> entry"

fun reports :: "entry \<Rightarrow> gval result \<Rightarrow> bool" where
  "reports Absent r = not_found r"
| "reports (Present v e) r = (r = Ok v)"
| "reports Corrupt r = (\<exists>e. r = Err e)"

text \<open>A remaining time of 0 is reported for an entry without expiry.\<close>

fun reports_ttl :: "entry \<Rightarrow> int \<Rightarrow> (gval \<times> duration) result \<Rightarrow> bool" where
  "reports_ttl Absent t r = not_found r"
| "reports_ttl (Present v None) t r = (r = Ok (v, 0))"
| "reports_ttl (Present v (Some e)) t r = (\<exists>d. r = Ok (v, d) \<and> 0 \<le> d \<and> d \<le> e - t)"
| "reports_ttl Corrupt t r = (\<exists>e. r = Err e)"

text \<open>What is visible at time \<open>t\<close> of a value stored at time \<open>t0\<close>.\<close>

definition stored :: "gval \<Rightarrow> duration \<Rightarrow> int \<Rightarrow> int \<Rightarrow> entry" where
  "stored v ttl t0 t =
     (if ttl = 0 then Present v None
      else if t \<le> t0 + ttl then Present v (Some (t0 + ttl)) else Absent)"

definition reads :: "'x view \<Rightarrow> 'x world \<Rightarrow> 'x world \<Rightarrow> bool" where
  "reads view w w' \<longleftrightarrow> w_now w \<le> w_now w' \<and> (\<forall>k t. w_now w' \<le> t \<longrightarrow> view w' k t = view w k t)"

definition writes :: "'x view \<Rightarrow> 'x world \<Rightarrow> 'x world \<Rightarrow> key \<Rightarrow> (int \<Rightarrow> int \<Rightarrow> entry) \<Rightarrow> bool" where
  "writes view w w' k new \<longleftrightarrow>
     (\<exists>t0. w_now w \<le> t0 \<and> t0 \<le> w_now w' \<and>
        (\<forall>k' t. w_now w' \<le> t \<longrightarrow> view w' k' t = (if k' = k then new t0 t else view w k' t)))"

definition wipes :: "'x view \<Rightarrow> 'x world \<Rightarrow> 'x world \<Rightarrow> bool" where
  "wipes view w w' \<longleftrightarrow> w_now w \<le> w_now w' \<and> (\<forall>k t. w_now w' \<le> t \<longrightarrow> view w' k t = Absent)"

lemma reads_refl [simp]: "reads view w w"
  by (simp add: reads_def)

lemma reads_trans: "reads view w w1 \<Longrightarrow> reads view w1 w2 \<Longrightarrow> reads view w w2"
  by (auto simp: reads_def)

lemma reads_now: "reads view w w' \<Longrightarrow> w_now w \<le> w_now w'"
  by (simp add: reads_def)

lemma writes_now: "writes view w w' k new \<Longrightarrow> w_now w \<le> w_now w'"
  by (auto simp: writes_def)

lemma reads_writes: "reads view w w1 \<Longrightarrow> writes view w1 w2 k new \<Longrightarrow> writes view w w2 k new"
  unfolding reads_def writes_def by (elim exE conjE, rule_tac x = t0 in exI) simp

lemma writes_reads: "writes view w w1 k new \<Longrightarrow> reads view w1 w2 \<Longrightarrow> writes view w w2 k new"
  unfolding reads_def writes_def by (elim exE conjE, rule_tac x = t0 in exI) simp

lemma reads_wipes: "reads view w w1 \<Longrightarrow> wipes view w1 w2 \<Longrightarrow> wipes view w w2"
  by (auto simp: reads_def wipes_def)

lemma wipes_reads: "wipes view w w1 \<Longrightarrow> reads view w1 w2 \<Longrightarrow> wipes view w w2"
  by (auto simp: reads_def wipes_def)

lemma reports_Ok: "reports e (Ok v) \<Longrightarrow> \<exists>d. e = Present v d"
  by (cases e) auto

lemma reports_ttl_Ok: "reports_ttl e t (Ok (v, d)) \<Longrightarrow> \<exists>x. e = Present v x"
  by (cases "(e, t, Ok (v, d) :: (gval \<times> duration) result)" rule: reports_ttl.cases) auto

lemma reports_not_panic: "reports e r \<Longrightarrow> \<not> is_panic r"
  by (cases e) (auto simp: not_found_def split: outcome.splits)

lemma reports_ttl_not_panic: "reports_ttl e t r \<Longrightarrow> \<not> is_panic r"
  by (cases "(e, t, r)" rule: reports_ttl.cases) (auto simp: not_found_def split: outcome.splits)

text \<open>
  \<open>blind\<close>: a view that does not look at the clock, the event heap or the singleflight groups, so
  that telemetry cannot disturb it.
\<close>

definition blind :: "'x view \<Rightarrow> bool" where
  "blind view \<longleftrightarrow> (\<forall>w w'. w_ext w = w_ext w' \<longrightarrow> view w = view w')"

lemma blindD: "blind view \<Longrightarrow> w_ext w = w_ext w' \<Longrightarrow> view w = view w'"
  unfolding blind_def by blast

lemma blind_reads: "blind view \<Longrightarrow> w_ext w' = w_ext w \<Longrightarrow> w_now w \<le> w_now w' \<Longrightarrow> reads view w w'"
  unfolding reads_def by (drule (1) blindD) simp

text \<open>
  \<open>storable\<close> are the values the provider can take, \<open>clock\<close> the readings of the clock at which it
  can take them (a reading whose deadlines the provider can represent).
\<close>

locale cache_contract =
  fixes c :: "('x, 'm) cache_scheme"
    and view :: "'x view"
    and storable :: "gval \<Rightarrow> bool"
    and clock :: "int \<Rightarrow> bool"
  assumes view_blind: "blind view"
    and Get_law: "ctx_deadline ctx = None \<Longrightarrow> c_Get c ctx k opts w = (r, w') \<Longrightarrow>
          reads view w w' \<and> (\<exists>t. w_now w \<le> t \<and> t \<le> w_now w' \<and> reports (view w k t) r)"
    and GetWithTTL_law: "ctx_deadline ctx = None \<Longrightarrow> c_GetWithTTL c ctx k opts w = (rt, w') \<Longrightarrow>
          reads view w w' \<and> (\<exists>t. w_now w \<le> t \<and> t \<le> w_now w' \<and> reports_ttl (view w k t) t rt)"
    and Set_law: "ctx_deadline ctx = None \<Longrightarrow> opts_total opts \<Longrightarrow> storable v \<Longrightarrow> 0 \<le> ttl \<Longrightarrow>
          clock (w_now w) \<Longrightarrow> c_Set c ctx k v ttl opts w = (u, w') \<Longrightarrow>
          u = Ok () \<and> writes view w w' k (stored v ttl)"
    and Set_negative: "ctx_deadline ctx = None \<Longrightarrow> opts_total opts \<Longrightarrow> storable v \<Longrightarrow> ttl < 0 \<Longrightarrow>
          clock (w_now w) \<Longrightarrow> c_Set c ctx k v ttl opts w = (u, w') \<Longrightarrow> (\<exists>e. u = Err e) \<and> reads view w w'"
    and Delete_law: "ctx_deadline ctx = None \<Longrightarrow> c_Delete c ctx k opts w = (u, w') \<Longrightarrow>
          u = Ok () \<and> writes view w w' k (\<lambda>t0 t. Absent)"
    and Clear_law: "ctx_deadline ctx = None \<Longrightarrow> c_Clear c ctx w = (u, w') \<Longrightarrow>
          u = Ok () \<and> wipes view w w'"
begin

text \<open>What a client may conclude from the contract alone.\<close>

lemma Get_result:
  assumes "ctx_deadline ctx = None" and "c_Get c ctx k opts w = (r, w')"
  obtains t where "w_now w \<le> t" "t \<le> w_now w'" "reports (view w k t) r"
  using Get_law [OF assms] by blast

lemma Set_then_Get:
  assumes ctx: "ctx_deadline ctx = None" "ctx_deadline ctx' = None" and "opts_total opts"
    and "storable v" and "0 \<le> ttl" and clock: "clock (w_now w)"
    and set: "c_Set c ctx k v ttl opts w = (u, w1)"
    and get: "c_Get c ctx' k opts' (wait d w1) = (r, w2)" and d: "0 \<le> d"
    and live: "ttl = 0 \<or> w_now w2 \<le> w_now w + ttl"
  shows "u = Ok () \<and> r = Ok v"
proof -
  from Set_law [OF ctx(1) assms(3-5) clock set] obtain t0 where u: "u = Ok ()"
    and t0: "w_now w \<le> t0" "t0 \<le> w_now w1"
    and v: "\<And>t. w_now w1 \<le> t \<Longrightarrow> view w1 k t = stored v ttl t0 t"
    by (auto simp: writes_def)
  from Get_result [OF ctx(2) get] obtain t where
    t: "w_now w1 + d \<le> t" "t \<le> w_now w2" and sh: "reports (view (wait d w1) k t) r"
    by (auto simp: wait_def)
  have "view (wait d w1) k t = stored v ttl t0 t"
    using v [of t] t d blindD [OF view_blind, of "wait d w1" w1] by simp
  moreover have "ttl = 0 \<or> t \<le> t0 + ttl" using live t0 t by linarith
  ultimately have "r = Ok v" using sh by (auto simp: stored_def split: if_splits)
  with u show ?thesis by simp
qed

lemma Set_then_expired:
  assumes ctx: "ctx_deadline ctx = None" "ctx_deadline ctx' = None" and "opts_total opts"
    and "storable v" and ttl: "0 < ttl" and clock: "clock (w_now w)"
    and set: "c_Set c ctx k v ttl opts w = (u, w1)"
    and get: "c_Get c ctx' k opts' (wait d w1) = (r, w2)" and d: "ttl < d"
  shows "not_found r"
proof -
  from Set_law [OF ctx(1) assms(3,4) _ clock set] ttl obtain t0 where
        t0: "w_now w \<le> t0" "t0 \<le> w_now w1"
    and v: "\<And>t. w_now w1 \<le> t \<Longrightarrow> view w1 k t = stored v ttl t0 t"
    by (auto simp: writes_def)
  from Get_result [OF ctx(2) get] obtain t where
    t: "w_now w1 + d \<le> t" and sh: "reports (view (wait d w1) k t) r"
    by (auto simp: wait_def)
  have "view (wait d w1) k t = stored v ttl t0 t"
    using v [of t] t d ttl blindD [OF view_blind, of "wait d w1" w1] by simp
  with sh t0 t d ttl show ?thesis by (auto simp: stored_def split: if_splits)
qed

lemma Delete_then_Get:
  assumes ctx: "ctx_deadline ctx = None" "ctx_deadline ctx' = None"
    and del: "c_Delete c ctx k opts w = (u, w1)"
    and get: "c_Get c ctx' k opts' w1 = (r, w2)"
  shows "u = Ok () \<and> not_found r"
  using Delete_law [OF ctx(1) del] Get_law [OF ctx(2) get] by (auto simp: writes_def)

lemma Clear_then_Get:
  assumes ctx: "ctx_deadline ctx = None" "ctx_deadline ctx' = None"
    and clr: "c_Clear c ctx w = (u, w1)"
    and get: "c_Get c ctx' k opts' w1 = (r, w2)"
  shows "u = Ok () \<and> not_found r"
  using Clear_law [OF ctx(1) clr] Get_law [OF ctx(2) get] by (auto simp: wipes_def)

lemma Get_no_panic: "ctx_deadline ctx = None \<Longrightarrow> c_Get c ctx k opts w = (r, w') \<Longrightarrow> \<not> is_panic r"
  using Get_law reports_not_panic by blast

lemma Get_value: "ctx_deadline ctx = None \<Longrightarrow> c_Get c ctx k opts w = (Ok v, w') \<Longrightarrow>
    \<exists>t d. w_now w \<le> t \<and> t \<le> w_now w' \<and> view w k t = Present v d"
  using Get_law reports_Ok by blast

end

text \<open>A provider may be asked for less: fewer values, fewer readings of the clock.\<close>

lemma contract_mono:
  assumes C: "cache_contract c view storable clock"
    and "\<And>v. storable' v \<Longrightarrow> storable v" and "\<And>t. clock' t \<Longrightarrow> clock t"
  shows "cache_contract c view storable' clock'"
proof (unfold_locales, goal_cases)
  case 1 show ?case by (rule cache_contract.view_blind [OF C])
next
  case 2 then show ?case by (rule cache_contract.Get_law [OF C])
next
  case 3 then show ?case by (rule cache_contract.GetWithTTL_law [OF C])
next
  case 4 then show ?case by (intro cache_contract.Set_law [OF C _ _ _ _ _ 4(6)] assms(2,3))
next
  case 5 then show ?case by (intro cache_contract.Set_negative [OF C _ _ _ _ _ 5(6)] assms(2,3))
next
  case 6 then show ?case by (rule cache_contract.Delete_law [OF C])
next
  case 7 then show ?case by (rule cache_contract.Clear_law [OF C])
qed

end
