(* ===== verification/Map_Store.thy ===== *)
theory Map_Store
  imports Cache_Contract
begin

text \<open>
  \<open>SlowMapStore\<close> of examples/05_advanced_multi_cache/custom_store.go: an in-memory store, a map
  guarded by a lock, with lazy removal of expired items and a configurable read delay. It is
  the one complete \<open>Store\<close> of the repository whose state is the repository's own, and the
  provider that the store contract is interpreted on. The maps of all stores live in a heap
  indexed by the store's address; the lock makes each access to the map one step.
\<close>

record map_item =
  it_value :: gval
  it_expireAt :: int

type_synonym map_heap = "nat \<Rightarrow> key \<rightharpoonup> map_item"

record slow_map_store =
  sm_addr :: nat
  sm_name :: string
  sm_readDelay :: duration

definition map_data :: "slow_map_store \<Rightarrow> map_heap world \<Rightarrow> key \<rightharpoonup> map_item" where
  "map_data s w = w_ext w (sm_addr s)"

definition put_data :: "slow_map_store \<Rightarrow> (key \<rightharpoonup> map_item) \<Rightarrow> map_heap world \<Rightarrow> map_heap world" where
  "put_data s m w = w\<lparr>w_ext := (w_ext w)(sm_addr s := m)\<rparr>"

text \<open>\<open>NewSlowMapStore\<close> makes an empty map; the address is the allocator's choice.\<close>

definition NewSlowMapStore :: "nat \<Rightarrow> string \<Rightarrow> duration \<Rightarrow> map_heap world \<Rightarrow> slow_map_store \<times> map_heap world" where
  "NewSlowMapStore a name readDelay w =
     (let s = \<lparr>sm_addr = a, sm_name = name, sm_readDelay = readDelay\<rparr> in (s, put_data s Map.empty w))"

text \<open>\<open>time.Sleep\<close> returns at once for a delay that is not positive.\<close>

definition sleep :: "duration \<Rightarrow> 'x world \<Rightarrow> 'x world" where
  "sleep d w = wait (max 0 d) w"

definition SlowMapStore_Get ::
    "slow_map_store \<Rightarrow> ctx \<Rightarrow> key \<Rightarrow> call_option list \<Rightarrow> map_heap world \<Rightarrow> gval result \<times> map_heap world" where
  "SlowMapStore_Get s ctx k opts w =
     (let w = sleep (sm_readDelay s) w in
      case map_data s w k of
        None \<Rightarrow> (Err (Errorf ''key=%s not found: %w'' [AStr k, AErr ErrNotFound]), w)
      | Some item \<Rightarrow>
          if \<not> IsZero (it_expireAt item) \<and> After (w_now w) (it_expireAt item)
          then (Err (Errorf ''key=%s expired: %w'' [AStr k, AErr ErrNotFound]),
                put_data s ((map_data s w)(k := None)) w)
          else (Ok (it_value item), w))"

definition SlowMapStore_Set ::
    "slow_map_store \<Rightarrow> ctx \<Rightarrow> key \<Rightarrow> gval \<Rightarrow> duration \<Rightarrow> call_option list \<Rightarrow> map_heap world \<Rightarrow> unit result \<times> map_heap world" where
  "SlowMapStore_Set s ctx k val ttl opts w =
     (if ttl < 0 then (Err (Errorf ''ttl must be >= 0'' []), w)
      else
        let item = \<lparr>it_value = val, it_expireAt = (if 0 < ttl then w_now w + ttl else zero_time)\<rparr>
        in (Ok (), put_data s ((map_data s w)(k \<mapsto> item)) w))"

definition SlowMapStore_GetWithTTL ::
    "slow_map_store \<Rightarrow> ctx \<Rightarrow> key \<Rightarrow> call_option list \<Rightarrow> map_heap world \<Rightarrow> (gval \<times> duration) result \<times> map_heap world" where
  "SlowMapStore_GetWithTTL s ctx k opts w =
     on_ok (SlowMapStore_Get s ctx k opts w)
       (\<lambda>v w. let expireAt = (case map_data s w k of None \<Rightarrow> zero_time | Some item \<Rightarrow> it_expireAt item)
              in if IsZero expireAt then (Ok (v, 0), w) else (Ok (v, expireAt - w_now w), w))"

definition SlowMapStore_Delete ::
    "slow_map_store \<Rightarrow> ctx \<Rightarrow> key \<Rightarrow> call_option list \<Rightarrow> map_heap world \<Rightarrow> unit result \<times> map_heap world" where
  "SlowMapStore_Delete s ctx k opts w = (Ok (), put_data s ((map_data s w)(k := None)) w)"

definition SlowMapStore_Clear :: "slow_map_store \<Rightarrow> ctx \<Rightarrow> map_heap world \<Rightarrow> unit result \<times> map_heap world" where
  "SlowMapStore_Clear s ctx w = (Ok (), put_data s Map.empty w)"

definition SlowMapStore :: "slow_map_store \<Rightarrow> map_heap store" where
  "SlowMapStore s =
     \<lparr>c_Get = SlowMapStore_Get s, c_Set = SlowMapStore_Set s, c_GetWithTTL = SlowMapStore_GetWithTTL s,
      c_Delete = SlowMapStore_Delete s, c_Clear = SlowMapStore_Clear s, StoreName = sm_name s\<rparr>"

lemma SlowMapStore_ops [simp, cache_ops]:
  "c_Get (SlowMapStore s) = SlowMapStore_Get s" "c_Set (SlowMapStore s) = SlowMapStore_Set s"
  "c_GetWithTTL (SlowMapStore s) = SlowMapStore_GetWithTTL s"
  "c_Delete (SlowMapStore s) = SlowMapStore_Delete s" "c_Clear (SlowMapStore s) = SlowMapStore_Clear s"
  "StoreName (SlowMapStore s) = sm_name s"
  by (simp_all add: SlowMapStore_def)

section \<open>The store keeps the contract\<close>

definition item_entry :: "map_item \<Rightarrow> int \<Rightarrow> entry" where
  "item_entry item t =
     (if past (it_expireAt item) t then Absent
      else Present (it_value item) (if IsZero (it_expireAt item) then None else Some (it_expireAt item)))"

definition map_view :: "slow_map_store \<Rightarrow> map_heap view" where
  "map_view s w k t = (case map_data s w k of None \<Rightarrow> Absent | Some item \<Rightarrow> item_entry item t)"

lemma sleep_simps [simp]:
  "w_ext (sleep d w) = w_ext w" "w_now w \<le> w_now (sleep d w)" "w_now (sleep d w) = w_now w + max 0 d"
  by (simp_all add: sleep_def)

lemma put_data_simps [simp]:
  "map_data s (put_data s m w) = m" "w_now (put_data s m w) = w_now w"
  by (simp_all add: map_data_def put_data_def)

lemma map_data_sleep [simp]: "map_data s (sleep d w) = map_data s w"
  by (simp add: map_data_def)

lemma map_view_blind: "blind (map_view s)"
  by (auto simp: blind_def map_view_def map_data_def fun_eq_iff)

lemma item_entry_stored:
  "0 \<le> ttl \<Longrightarrow> zero_time < now \<Longrightarrow>
   item_entry \<lparr>it_value = v, it_expireAt = (if 0 < ttl then now + ttl else zero_time)\<rparr> t = stored v ttl now t"
  by (auto simp: item_entry_def stored_def past_def IsZero_def After_def)

lemma key_errors_not_found [simp]:
  "errors_is (Errorf ''key=%s not found: %w'' [AStr k, AErr ErrNotFound]) ErrNotFound"
  "errors_is (Errorf ''key=%s expired: %w'' [AStr k, AErr ErrNotFound]) ErrNotFound"
  by (simp_all add: errors_is_simps)

lemma SlowMapStore_Get_reads:
  assumes "SlowMapStore_Get s ctx k opts w = (r, w')"
  shows "reads (map_view s) w w' \<and> w_now w \<le> w_now w' \<and> reports (map_view s w k (w_now w')) r"
proof (cases "map_data s w k")
  case None
  with assms have "w' = sleep (sm_readDelay s) w"
    by (auto simp: SlowMapStore_Get_def)
  with None assms show ?thesis
    by (auto simp: SlowMapStore_Get_def map_view_def reads_def)
next
  case (Some item)
  show ?thesis
  proof (cases "past (it_expireAt item) (w_now w + max 0 (sm_readDelay s))")
    case True
    then have "\<And>t. w_now w + max 0 (sm_readDelay s) \<le> t \<Longrightarrow> item_entry item t = Absent"
      by (auto simp: item_entry_def dest: past_mono)
    with Some True assms show ?thesis
      by (auto simp: SlowMapStore_Get_def map_view_def reads_def past_def Let_def)
  next
    case False
    with Some assms show ?thesis
      by (auto simp: SlowMapStore_Get_def map_view_def reads_def past_def Let_def item_entry_def)
  qed
qed

lemma SlowMapStore_GetWithTTL_reads:
  assumes "SlowMapStore_GetWithTTL s ctx k opts w = (rt, w')"
  shows "reads (map_view s) w w' \<and> w_now w \<le> w_now w' \<and> reports_ttl (map_view s w k (w_now w')) (w_now w') rt"
proof -
  obtain r where g: "SlowMapStore_Get s ctx k opts w = (r, w')"
    using assms by (cases "SlowMapStore_Get s ctx k opts w"; cases "fst (SlowMapStore_Get s ctx k opts w)")
      (auto simp: SlowMapStore_GetWithTTL_def Let_def split: if_splits)
  note R = SlowMapStore_Get_reads [OF g]
  show ?thesis
  proof (cases r)
    case (Ok v)
    with R obtain item where item: "map_data s w k = Some item" "it_value item = v"
        "\<not> past (it_expireAt item) (w_now w')"
      by (auto simp: map_view_def item_entry_def split: option.splits if_splits)
    moreover from item g Ok have "map_data s w' k = Some item"
      by (auto simp: SlowMapStore_Get_def Let_def split: if_splits)
    ultimately show ?thesis using assms g R Ok
      by (auto simp: SlowMapStore_GetWithTTL_def Let_def map_view_def item_entry_def IsZero_def
          past_def After_def split: if_splits)
  next
    case (Err e)
    with assms g R show ?thesis
      by (cases "map_view s w k (w_now w')") (auto simp: SlowMapStore_GetWithTTL_def)
  next
    case (Panic m)
    with R show ?thesis using reports_not_panic by fastforce
  qed
qed

lemma put_data_writes:
  assumes "\<And>t. w_now w \<le> t \<Longrightarrow> (case x of None \<Rightarrow> Absent | Some it \<Rightarrow> item_entry it t) = new (w_now w) t"
  shows "writes (map_view s) w (put_data s ((map_data s w)(k := x)) w) k new"
  unfolding writes_def using assms by (intro exI [of _ "w_now w"]) (auto simp: map_view_def)

interpretation map_store: cache_contract "SlowMapStore s" "map_view s" "\<lambda>v. True" "\<lambda>t. zero_time < t" for s
proof (unfold_locales, goal_cases)
  case 1 show ?case by (rule map_view_blind)
next
  case (2 ctx k opts w r w')
  then show ?case using SlowMapStore_Get_reads [of s ctx k opts w r w'] by auto
next
  case (3 ctx k opts w rt w')
  then show ?case using SlowMapStore_GetWithTTL_reads [of s ctx k opts w rt w'] by auto
next
  case (4 ctx opts v ttl w k u w')
  then show ?case using item_entry_stored [of ttl "w_now w" v]
    by (auto simp: SlowMapStore_Set_def Let_def intro!: put_data_writes)
next
  case (5 ctx opts v ttl w k u w')
  then show ?case by (auto simp: SlowMapStore_Set_def)
next
  case (6 ctx k opts w u w')
  then show ?case by (auto simp: SlowMapStore_Delete_def intro!: put_data_writes)
next
  case (7 ctx w u w')
  then show ?case by (auto simp: SlowMapStore_Clear_def wipes_def map_view_def)
qed

section \<open>Properties\<close>

text \<open>A store and a world for concrete runs: the clock stands one second after the epoch.\<close>

definition demo_map :: slow_map_store where
  "demo_map = \<lparr>sm_addr = 0, sm_name = ''slow'', sm_readDelay = 0\<rparr>"

definition demo_world :: "map_heap world" where
  "demo_world = \<lparr>w_now = 1000000000, w_events = [], w_groups = 0, w_ext = (\<lambda>_. Map.empty)\<rparr>"

lemma demo_simps [simp]:
  "sm_addr demo_map = 0" "sm_readDelay demo_map = 0" "sm_name demo_map = ''slow''" "w_now demo_world = 1000000000"
  "map_data s demo_world = Map.empty" "ctx_deadline Background = None" "zero_time < 1000000000"
  by (simp_all add: demo_map_def demo_world_def map_data_def Background_def zero_time_def duration_defs)


text \<open>A value set with a time to live is returned by a later lookup made within that time, and
  is reported missing by one made after it, whatever the read delay.\<close>

theorem SlowMapStore_set_get:
  assumes "zero_time < w_now w" and "0 < ttl" and "0 \<le> d"
    and set: "SlowMapStore_Set s ctx k v ttl opts w = (u, w1)"
    and get: "SlowMapStore_Get s ctx' k opts' (wait d w1) = (r, w2)"
  shows "u = Ok () \<and> (if w_now w2 \<le> w_now w + ttl then r = Ok v else not_found r)"
proof -
  from set assms have u: "u = Ok ()" and w1: "w1 = put_data s ((map_data s w)(k \<mapsto> \<lparr>it_value = v, it_expireAt = w_now w + ttl\<rparr>)) w"
    by (auto simp: SlowMapStore_Set_def Let_def)
  have "map_view s (wait d w1) k t = stored v ttl (w_now w) t" for t
    using item_entry_stored [of ttl "w_now w" v t] assms(1,2) w1
    by (simp add: map_view_def map_data_def put_data_def)
  with SlowMapStore_Get_reads [OF get] assms(2) u show ?thesis
    by (auto simp: stored_def split: if_splits)
qed

theorem SlowMapStore_set_get_witness:
  "fst (SlowMapStore_Get demo_map Background ''k'' []
     (wait 5 (snd (SlowMapStore_Set demo_map Background ''k'' (VInt 7) 10 [] demo_world)))) = Ok (VInt 7)"
proof -
  obtain u w1 where s: "SlowMapStore_Set demo_map Background ''k'' (VInt 7) 10 [] demo_world = (u, w1)"
    by fastforce
  obtain r w2 where g: "SlowMapStore_Get demo_map Background ''k'' [] (wait 5 w1) = (r, w2)"
    by fastforce
  have "w_now w2 = 1000000005"
    using s g by (auto simp: SlowMapStore_Set_def SlowMapStore_Get_def Let_def split: option.splits if_splits)
  with SlowMapStore_set_get [OF _ _ _ s g] s g show ?thesis by simp
qed

end
