(* ===== verification/Transcode.thy ===== *)
theory Transcode
  imports Map_Store
begin

text \<open>
  The shape shared by the base cache, the codec and compression decorators, the byte bridge and
  the logical-expiry byte adapter: values are encoded on the way in and decoded on the way out,
  everything else is passed on. Each of them is defined from its own source and shown to be an
  instance of \<open>transcode\<close>, whose contract is proved once here.
\<close>

definition transcode_Get ::
    "(gval \<Rightarrow> gval result) \<Rightarrow> ('x, 'm) cache_scheme \<Rightarrow> ctx \<Rightarrow> key \<Rightarrow> call_option list \<Rightarrow> 'x world \<Rightarrow> gval result \<times> 'x world" where
  "transcode_Get dec c ctx k opts w = on_ok (c_Get c ctx k opts w) (\<lambda>v w. (dec v, w))"

definition transcode_Set ::
    "(gval \<Rightarrow> gval result) \<Rightarrow> ('x, 'm) cache_scheme \<Rightarrow> ctx \<Rightarrow> key \<Rightarrow> gval \<Rightarrow> duration \<Rightarrow> call_option list \<Rightarrow> 'x world \<Rightarrow> unit result \<times> 'x world" where
  "transcode_Set enc c ctx k v ttl opts w =
     (case enc v of
        Ok u \<Rightarrow> c_Set c ctx k u ttl opts w
      | Err e \<Rightarrow> (Err e, w)
      | Panic m \<Rightarrow> (Panic m, w))"

definition transcode_GetWithTTL ::
    "(gval \<Rightarrow> gval result) \<Rightarrow> ('x, 'm) cache_scheme \<Rightarrow> ctx \<Rightarrow> key \<Rightarrow> call_option list \<Rightarrow> 'x world \<Rightarrow> (gval \<times> duration) result \<times> 'x world" where
  "transcode_GetWithTTL dec c ctx k opts w =
     on_ok (c_GetWithTTL c ctx k opts w) (\<lambda>(v, ttl) w. (bind_ok (dec v) (\<lambda>u. Ok (u, ttl)), w))"

definition transcode ::
    "(gval \<Rightarrow> gval result) \<Rightarrow> (gval \<Rightarrow> gval result) \<Rightarrow> ('x, 'm) cache_scheme \<Rightarrow> 'x cache" where
  "transcode enc dec c =
     \<lparr>c_Get = transcode_Get dec c, c_Set = transcode_Set enc c, c_GetWithTTL = transcode_GetWithTTL dec c,
      c_Delete = c_Delete c, c_Clear = c_Clear c\<rparr>"

lemma transcode_ops [simp, cache_ops]:
  "c_Get (transcode enc dec c) = transcode_Get dec c"
  "c_Set (transcode enc dec c) = transcode_Set enc c"
  "c_GetWithTTL (transcode enc dec c) = transcode_GetWithTTL dec c"
  "c_Delete (transcode enc dec c) = c_Delete c"
  "c_Clear (transcode enc dec c) = c_Clear c"
  by (simp_all add: transcode_def)

text \<open>What the outer cache shows of an inner entry.\<close>

definition map_entry :: "(gval \<Rightarrow> gval result) \<Rightarrow> entry \<Rightarrow> entry" where
  "map_entry dec e =
     (case e of
        Absent \<Rightarrow> Absent
      | Present v d \<Rightarrow> (case dec v of Ok u \<Rightarrow> Present u d | _ \<Rightarrow> Corrupt)
      | Corrupt \<Rightarrow> Corrupt)"

definition map_view_with :: "(gval \<Rightarrow> gval result) \<Rightarrow> 'x view \<Rightarrow> 'x view" where
  "map_view_with dec view w k t = map_entry dec (view w k t)"

lemma map_entry_simps [simp]:
  "map_entry dec Absent = Absent" "map_entry dec Corrupt = Corrupt"
  "dec v = Ok u \<Longrightarrow> map_entry dec (Present v d) = Present u d"
  by (simp_all add: map_entry_def)

lemma map_entry_stored: "dec u = Ok v \<Longrightarrow> map_entry dec (stored u ttl t0 t) = stored v ttl t0 t"
  by (simp add: stored_def)

lemma map_view_with_blind: "blind view \<Longrightarrow> blind (map_view_with dec view)"
  unfolding blind_def map_view_with_def fun_eq_iff by (metis (no_types))

lemma map_view_with_reads: "reads view w w' \<Longrightarrow> reads (map_view_with dec view) w w'"
  by (simp add: reads_def map_view_with_def)

lemma map_view_with_wipes: "wipes view w w' \<Longrightarrow> wipes (map_view_with dec view) w w'"
  by (simp add: wipes_def map_view_with_def)

lemma map_view_with_writes:
  "writes view w w' k new \<Longrightarrow> (\<And>t0 t. map_entry dec (new t0 t) = new' t0 t) \<Longrightarrow>
   writes (map_view_with dec view) w w' k new'"
  unfolding writes_def map_view_with_def by (elim exE conjE, rule_tac x = t0 in exI) simp

text \<open>The values that survive the way in and out.\<close>

definition encodable ::
    "(gval \<Rightarrow> gval result) \<Rightarrow> (gval \<Rightarrow> gval result) \<Rightarrow> (gval \<Rightarrow> bool) \<Rightarrow> gval \<Rightarrow> bool" where
  "encodable enc dec storable v = (case enc v of Ok u \<Rightarrow> storable u \<and> dec u = Ok v | _ \<Rightarrow> False)"

lemma encodable_iff: "encodable enc dec storable v \<longleftrightarrow> (\<exists>u. enc v = Ok u \<and> storable u \<and> dec u = Ok v)"
  by (auto simp: encodable_def split: outcome.splits)

locale transcoder = cache_contract c view storable clock
  for c :: "('x, 'm) cache_scheme" and view :: "'x view" and storable :: "gval \<Rightarrow> bool"
    and clock :: "int \<Rightarrow> bool" +
  fixes enc dec :: "gval \<Rightarrow> gval result"
  assumes dec_no_panic: "view w k t = Present v d \<Longrightarrow> \<not> is_panic (dec v)"
begin

lemma transcoded_reports:
  assumes "reports (view w k t) r"
  shows "reports (map_view_with dec view w k t) (bind_ok r dec)"
  using assms dec_no_panic [of w k t]
  by (cases "view w k t")
    (auto simp: map_view_with_def map_entry_def not_found_def is_panic_def split: outcome.splits)

lemma transcoded_reports_ttl:
  assumes "reports_ttl (view w k t) t r"
  shows "reports_ttl (map_view_with dec view w k t) t
           (bind_ok r (\<lambda>(v, ttl). bind_ok (dec v) (\<lambda>u. Ok (u, ttl))))"
  using assms dec_no_panic [of w k t]
  by (cases "(view w k t, t, r)" rule: reports_ttl.cases)
    (auto simp: map_view_with_def map_entry_def not_found_def is_panic_def split: outcome.splits)

lemma transcode_Get_bind:
  "transcode_Get dec c ctx k opts w =
     (case c_Get c ctx k opts w of (r, w') \<Rightarrow> (bind_ok r dec, w'))"
  by (auto simp: transcode_Get_def on_ok_def bind_ok_def split: prod.splits outcome.splits)

lemma transcode_GetWithTTL_bind:
  "transcode_GetWithTTL dec c ctx k opts w =
     (case c_GetWithTTL c ctx k opts w of
        (r, w') \<Rightarrow> (bind_ok r (\<lambda>(v, ttl). bind_ok (dec v) (\<lambda>u. Ok (u, ttl))), w'))"
  by (auto simp: transcode_GetWithTTL_def on_ok_def bind_ok_def split: prod.splits outcome.splits)

end

sublocale transcoder \<subseteq> coded: cache_contract "transcode enc dec c" "map_view_with dec view" "encodable enc dec storable" clock
proof (unfold_locales, goal_cases)
  case 1 show ?case by (rule map_view_with_blind [OF view_blind])
next
  case (2 ctx k opts w r w')
  then obtain r0 where g: "c_Get c ctx k opts w = (r0, w')" and r: "r = bind_ok r0 dec"
    by (auto simp: transcode_Get_bind split: prod.splits)
  from Get_law [OF 2(1) g] show ?case
    unfolding r by (blast intro: map_view_with_reads transcoded_reports)
next
  case (3 ctx k opts w r w')
  then obtain r0 where g: "c_GetWithTTL c ctx k opts w = (r0, w')"
    and r: "r = bind_ok r0 (\<lambda>(v, ttl). bind_ok (dec v) (\<lambda>u. Ok (u, ttl)))"
    by (auto simp: transcode_GetWithTTL_bind split: prod.splits)
  from GetWithTTL_law [OF 3(1) g] show ?case
    unfolding r by (blast intro: map_view_with_reads transcoded_reports_ttl)
next
  case (4 ctx opts v ttl w k u w')
  then obtain b where b: "enc v = Ok b" "storable b" "dec b = Ok v" by (auto simp: encodable_iff)
  with 4 have "c_Set c ctx k b ttl opts w = (u, w')" by (simp add: transcode_Set_def)
  from Set_law [OF 4(1,2) b(2) 4(4,5) this] b(3) show ?case
    by (blast intro: map_view_with_writes map_entry_stored)
next
  case (5 ctx opts v ttl w k u w')
  then obtain b where b: "enc v = Ok b" "storable b" "dec b = Ok v" by (auto simp: encodable_iff)
  with 5 have "c_Set c ctx k b ttl opts w = (u, w')" by (simp add: transcode_Set_def)
  from Set_negative [OF 5(1,2) b(2) 5(4,5) this] show ?case
    by (blast intro: map_view_with_reads)
next
  case (6 ctx k opts w u w')
  then have "c_Delete c ctx k opts w = (u, w')" by simp
  from Delete_law [OF 6(1) this] show ?case
    by (auto intro: map_view_with_writes)
next
  case (7 ctx w u w')
  then have "c_Clear c ctx w = (u, w')" by simp
  from Clear_law [OF 7(1) this] show ?case by (auto intro: map_view_with_wipes)
qed

context transcoder
begin

lemma transcode_contract: "cache_contract (transcode enc dec c) (map_view_with dec view)
    (encodable enc dec storable) clock"
  by unfold_locales

end

section \<open>The base cache\<close>

definition assert_type :: "gotype \<Rightarrow> gval \<Rightarrow> gval result" where
  "assert_type T v =
     (case type_assert T v of Some u \<Rightarrow> Ok u | None \<Rightarrow> Err (BaseCache_mismatch T v))"

lemma NewBaseCache_transcode: "NewBaseCache T s = transcode Ok (assert_type T) s"
  unfolding NewBaseCache_def transcode_def BaseCache_Get_def BaseCache_Set_def
    BaseCache_GetWithTTL_def BaseCache_Delete_def BaseCache_Clear_def transcode_Get_def
    transcode_Set_def transcode_GetWithTTL_def assert_type_def
  by (auto simp: fun_eq_iff on_ok_def split: prod.splits outcome.splits option.splits)

lemma transcode_transcode:
  "transcode enc' dec' (transcode enc dec c) =
   transcode (\<lambda>v. bind_ok (enc' v) enc) (\<lambda>v. bind_ok (dec v) dec') c"
  unfolding transcode_def transcode_Get_def transcode_Set_def transcode_GetWithTTL_def
  by (auto simp: fun_eq_iff on_ok_def bind_ok_def transcode_def transcode_Get_def transcode_Set_def transcode_GetWithTTL_def
      split: prod.splits outcome.splits)

lemma assert_type_no_panic [simp]: "\<not> is_panic (assert_type T v)"
  by (simp add: assert_type_def split: option.split)

lemma assert_type_Ok: "assert_type T v = Ok u \<longleftrightarrow> u = v \<and> type_assert T v = Some v"
  by (auto simp: assert_type_def dest: type_assert_Some split: option.splits)

definition typed_view :: "gotype \<Rightarrow> 'x view \<Rightarrow> 'x view" where
  "typed_view T view = map_view_with (assert_type T) view"

lemma typed_view_Present: "typed_view T view w k t = Present v d \<Longrightarrow> type_assert T v = Some v"
  by (auto simp: typed_view_def map_view_with_def map_entry_def assert_type_Ok
      split: entry.splits outcome.splits)

text \<open>A base cache over a store that keeps the contract is a cache that keeps it.\<close>

lemma NewBaseCache_contract:
  assumes "cache_contract s view storable clock"
  shows "cache_contract (NewBaseCache T s) (typed_view T view)
           (\<lambda>v. storable v \<and> type_assert T v = Some v) clock"
proof -
  from assms have t: "transcoder s view storable clock (assert_type T)"
    unfolding transcoder_def transcoder_axioms_def by simp
  have "encodable Ok (assert_type T) storable = (\<lambda>v. storable v \<and> type_assert T v = Some v)"
    by (auto simp: encodable_iff assert_type_Ok fun_eq_iff)
  with transcoder.transcode_contract [OF t, of Ok] show ?thesis
    by (simp add: NewBaseCache_transcode typed_view_def)
qed

interpretation base: transcoder "SlowMapStore s" "map_view s" "\<lambda>v. True" "\<lambda>t. zero_time < t" Ok "assert_type T" for s T
  by unfold_locales simp_all

lemma map_base_contract:
  "cache_contract (NewBaseCache T (SlowMapStore s)) (typed_view T (map_view s))
     (\<lambda>v. type_assert T v = Some v) (\<lambda>t. zero_time < t)"
  using NewBaseCache_contract [OF map_store.cache_contract_axioms, of T s] by simp

section \<open>Properties\<close>

text \<open>A base cache of type T over any store that keeps the store contract keeps the cache
  contract, for the values of type T that the store can take: stored values of another dynamic
  type are visible only as errors.\<close>

theorem BaseCache_contract:
  assumes "cache_contract s view storable clock"
  shows "cache_contract (NewBaseCache T s) (typed_view T view)
           (\<lambda>v. storable v \<and> type_assert T v = Some v) clock"
  by (rule NewBaseCache_contract [OF assms])

theorem BaseCache_contract_witness:
  "cache_contract (NewBaseCache TInt (SlowMapStore demo_map)) (typed_view TInt (map_view demo_map))
     (\<lambda>v. True \<and> type_assert TInt v = Some v) (\<lambda>t. zero_time < t)"
  by (rule BaseCache_contract [OF map_store.cache_contract_axioms])

text \<open>Reading a value of another dynamic type through a base cache fails with an error that
  wraps ErrTypeMismatch and is not a miss, for Get and GetWithTTL alike, with no further effect.\<close>

theorem BaseCache_type_mismatch:
  assumes "type_assert T v = None"
    and "c_Get s ctx k opts w = (Ok v, w1)" and "c_GetWithTTL s ctx k opts w = (Ok (v, ttl), w2)"
  shows "\<exists>e. BaseCache_Get T s ctx k opts w = (Err e, w1) \<and>
             BaseCache_GetWithTTL T s ctx k opts w = (Err e, w2) \<and>
             errors_is e ErrTypeMismatch \<and> \<not> errors_is e ErrNotFound"
  using assms by (simp add: BaseCache_Get_def BaseCache_GetWithTTL_def)

theorem BaseCache_type_mismatch_witness:
  "\<exists>e w'. BaseCache_Get TString (SlowMapStore demo_map) Background ''k'' []
       (snd (SlowMapStore_Set demo_map Background ''k'' (VInt 7) 0 [] demo_world)) = (Err e, w') \<and>
     errors_is e ErrTypeMismatch"
proof -
  let ?w = "snd (SlowMapStore_Set demo_map Background ''k'' (VInt 7) 0 [] demo_world)"
  have "c_Get (SlowMapStore demo_map) Background ''k'' [] ?w = (Ok (VInt 7), sleep 0 ?w)"
    "c_GetWithTTL (SlowMapStore demo_map) Background ''k'' [] ?w = (Ok (VInt 7, 0), sleep 0 ?w)"
    by (simp_all add: SlowMapStore_Get_def SlowMapStore_Set_def SlowMapStore_GetWithTTL_def IsZero_def Let_def)
  from BaseCache_type_mismatch [OF _ this, of TString] show ?thesis by (auto simp: type_assert_def)
qed

end
