(* ===== verification/Byte_Stage.thy ===== *)
theory Byte_Stage
  imports Transcode
begin

unbundle bit_operations_syntax

text \<open>
  The byte stage: core/decorator/codec.go and compression.go, core/codec/codecs.go, the byte
  bridge at the end of compile.go, and internal/adapter/logicttl_bytes_adapter.go. The encoders
  of the standard library (encoding/json, encoding/gob) are parameters of the codecs; the byte
  adapter's own wire format is modelled down to its bits.

  The inner cache of all of them is a \<open>Cache[[]byte]\<close>; \<open>un_bytes\<close> reads the bytes of a value
  of that static type (the other branch cannot be reached by well-typed code).
\<close>

definition un_bytes :: "gval \<Rightarrow> bytes result" where
  "un_bytes v = (case v of VBytes b \<Rightarrow> Ok b | _ \<Rightarrow> Panic ''not a []byte'')"

lemma un_bytes_VBytes [simp]: "un_bytes (VBytes b) = Ok b"
  by (simp add: un_bytes_def)

section \<open>Codecs\<close>

text \<open>\<open>Unmarshal(data, &target)\<close> for a target of type \<open>T\<close> yields the new target.\<close>

record codec =
  cd_Marshal :: "gval \<Rightarrow> bytes result"
  cd_Unmarshal :: "bytes \<Rightarrow> gotype \<Rightarrow> gval result"

definition JSONCodec :: "(gval \<Rightarrow> bytes result) \<Rightarrow> (bytes \<Rightarrow> gotype \<Rightarrow> gval result) \<Rightarrow> codec" where
  "JSONCodec json_Marshal json_Unmarshal =
     \<lparr>cd_Marshal = json_Marshal, cd_Unmarshal = json_Unmarshal\<rparr>"

text \<open>\<open>gob_Encode v\<close> is what a fresh encoder writes to its buffer, or its error.\<close>

definition GobCodec :: "(gval \<Rightarrow> bytes result) \<Rightarrow> (bytes \<Rightarrow> gotype \<Rightarrow> gval result) \<Rightarrow> codec" where
  "GobCodec gob_Encode gob_Decode =
     \<lparr>cd_Marshal = (\<lambda>v. bind_ok (gob_Encode v) (\<lambda>buf. Ok buf)), cd_Unmarshal = gob_Decode\<rparr>"

definition CodecDecorator_Get ::
    "gotype \<Rightarrow> codec \<Rightarrow> 'x cache \<Rightarrow> ctx \<Rightarrow> key \<Rightarrow> call_option list \<Rightarrow> 'x world \<Rightarrow> gval result \<times> 'x world" where
  "CodecDecorator_Get T cd c ctx k opts w =
     on_ok (c_Get c ctx k opts w)
       (\<lambda>get w. (bind_ok (un_bytes get) (\<lambda>raw.
                 bind_ok (cd_Unmarshal cd raw T) (\<lambda>target. Ok target)), w))"

definition CodecDecorator_Set ::
    "codec \<Rightarrow> 'x cache \<Rightarrow> ctx \<Rightarrow> key \<Rightarrow> gval \<Rightarrow> duration \<Rightarrow> call_option list \<Rightarrow> 'x world \<Rightarrow> unit result \<times> 'x world" where
  "CodecDecorator_Set cd c ctx k val ttl opts w =
     (case cd_Marshal cd val of
        Err e \<Rightarrow> (Err e, w)
      | Panic m \<Rightarrow> (Panic m, w)
      | Ok marshal \<Rightarrow> c_Set c ctx k (VBytes marshal) ttl opts w)"

definition CodecDecorator_GetWithTTL ::
    "gotype \<Rightarrow> codec \<Rightarrow> 'x cache \<Rightarrow> ctx \<Rightarrow> key \<Rightarrow> call_option list \<Rightarrow> 'x world \<Rightarrow> (gval \<times> duration) result \<times> 'x world" where
  "CodecDecorator_GetWithTTL T cd c ctx k opts w =
     on_ok (c_GetWithTTL c ctx k opts w)
       (\<lambda>(get, ttl) w. (bind_ok (un_bytes get) (\<lambda>raw.
                        bind_ok (cd_Unmarshal cd raw T) (\<lambda>target. Ok (target, ttl))), w))"

text \<open>\<open>Delete\<close> and \<open>Clear\<close> are those of the embedded cache.\<close>

definition CodecDecorator :: "gotype \<Rightarrow> codec \<Rightarrow> 'x cache \<Rightarrow> 'x cache" where
  "CodecDecorator T cd c =
     \<lparr>c_Get = CodecDecorator_Get T cd c, c_Set = CodecDecorator_Set cd c,
      c_GetWithTTL = CodecDecorator_GetWithTTL T cd c, c_Delete = c_Delete c, c_Clear = c_Clear c\<rparr>"

definition codec_enc :: "codec \<Rightarrow> gval \<Rightarrow> gval result" where
  "codec_enc cd v = bind_ok (cd_Marshal cd v) (\<lambda>b. Ok (VBytes b))"

definition codec_dec :: "gotype \<Rightarrow> codec \<Rightarrow> gval \<Rightarrow> gval result" where
  "codec_dec T cd v = bind_ok (un_bytes v) (\<lambda>raw. cd_Unmarshal cd raw T)"

lemma bind_ok_Ok [simp]: "bind_ok r Ok = r"
  by (cases r) simp_all

lemma CodecDecorator_transcode: "CodecDecorator T cd c = transcode (codec_enc cd) (codec_dec T cd) c"
  unfolding CodecDecorator_def transcode_def CodecDecorator_Get_def CodecDecorator_Set_def
    CodecDecorator_GetWithTTL_def transcode_Get_def transcode_Set_def transcode_GetWithTTL_def
    codec_enc_def codec_dec_def
  by (auto simp: fun_eq_iff on_ok_def bind_ok_def split: prod.splits outcome.splits)

section \<open>Compression\<close>

record compression_codec =
  cc_Compress :: "bytes \<Rightarrow> bytes result"
  cc_Decompress :: "bytes \<Rightarrow> bytes result"

definition CompressionDecorator_Get ::
    "compression_codec \<Rightarrow> 'x cache \<Rightarrow> ctx \<Rightarrow> key \<Rightarrow> call_option list \<Rightarrow> 'x world \<Rightarrow> gval result \<times> 'x world" where
  "CompressionDecorator_Get cc c ctx k opts w =
     on_ok (c_Get c ctx k opts w)
       (\<lambda>v w. (bind_ok (un_bytes v) (\<lambda>raw. bind_ok (cc_Decompress cc raw) (\<lambda>b. Ok (VBytes b))), w))"

definition CompressionDecorator_Set ::
    "compression_codec \<Rightarrow> 'x cache \<Rightarrow> ctx \<Rightarrow> key \<Rightarrow> gval \<Rightarrow> duration \<Rightarrow> call_option list \<Rightarrow> 'x world \<Rightarrow> unit result \<times> 'x world" where
  "CompressionDecorator_Set cc c ctx k val ttl opts w =
     (case bind_ok (un_bytes val) (cc_Compress cc) of
        Err e \<Rightarrow> (Err e, w)
      | Panic m \<Rightarrow> (Panic m, w)
      | Ok compressed \<Rightarrow> c_Set c ctx k (VBytes compressed) ttl opts w)"

definition CompressionDecorator_GetWithTTL ::
    "compression_codec \<Rightarrow> 'x cache \<Rightarrow> ctx \<Rightarrow> key \<Rightarrow> call_option list \<Rightarrow> 'x world \<Rightarrow> (gval \<times> duration) result \<times> 'x world" where
  "CompressionDecorator_GetWithTTL cc c ctx k opts w =
     on_ok (c_GetWithTTL c ctx k opts w)
       (\<lambda>(v, ttl) w. (bind_ok (un_bytes v) (\<lambda>raw.
                      bind_ok (cc_Decompress cc raw) (\<lambda>decoded. Ok (VBytes decoded, ttl))), w))"

definition NewCompressionDecorator :: "'x cache \<Rightarrow> compression_codec \<Rightarrow> 'x cache" where
  "NewCompressionDecorator next cc =
     \<lparr>c_Get = CompressionDecorator_Get cc next, c_Set = CompressionDecorator_Set cc next,
      c_GetWithTTL = CompressionDecorator_GetWithTTL cc next,
      c_Delete = c_Delete next, c_Clear = c_Clear next\<rparr>"

definition compress_enc :: "compression_codec \<Rightarrow> gval \<Rightarrow> gval result" where
  "compress_enc cc v = bind_ok (un_bytes v) (\<lambda>b. bind_ok (cc_Compress cc b) (\<lambda>z. Ok (VBytes z)))"

definition compress_dec :: "compression_codec \<Rightarrow> gval \<Rightarrow> gval result" where
  "compress_dec cc v = bind_ok (un_bytes v) (\<lambda>z. bind_ok (cc_Decompress cc z) (\<lambda>b. Ok (VBytes b)))"

lemma NewCompressionDecorator_transcode:
  "NewCompressionDecorator c cc = transcode (compress_enc cc) (compress_dec cc) c"
  unfolding NewCompressionDecorator_def transcode_def CompressionDecorator_Get_def
    CompressionDecorator_Set_def CompressionDecorator_GetWithTTL_def transcode_Get_def
    transcode_Set_def transcode_GetWithTTL_def compress_enc_def compress_dec_def
  by (auto simp: fun_eq_iff on_ok_def bind_ok_def split: prod.splits outcome.splits)

section \<open>The byte bridge for T = []byte\<close>

definition bridge_mismatch_get :: "gotype \<Rightarrow> error" where
  "bridge_mismatch_get T = Errorf ''internal type mismatch: expected %s from []byte bridge'' [AType T]"

definition bridge_mismatch_set :: "gotype \<Rightarrow> error" where
  "bridge_mismatch_set T = Errorf ''internal type mismatch: expected %s to be []byte'' [AType T]"

definition bytesPassThroughCache_Get ::
    "gotype \<Rightarrow> 'x cache \<Rightarrow> ctx \<Rightarrow> key \<Rightarrow> call_option list \<Rightarrow> 'x world \<Rightarrow> gval result \<times> 'x world" where
  "bytesPassThroughCache_Get T c ctx k opts w =
     on_ok (c_Get c ctx k opts w)
       (\<lambda>v w. case type_assert T v of
            Some typed \<Rightarrow> (Ok typed, w)
          | None \<Rightarrow> (Err (bridge_mismatch_get T), w))"

definition bytesPassThroughCache_Set ::
    "gotype \<Rightarrow> 'x cache \<Rightarrow> ctx \<Rightarrow> key \<Rightarrow> gval \<Rightarrow> duration \<Rightarrow> call_option list \<Rightarrow> 'x world \<Rightarrow> unit result \<times> 'x world" where
  "bytesPassThroughCache_Set T c ctx k val ttl opts w =
     (case type_assert TBytes val of
        None \<Rightarrow> (Err (bridge_mismatch_set T), w)
      | Some raw \<Rightarrow> c_Set c ctx k raw ttl opts w)"

definition bytesPassThroughCache_GetWithTTL ::
    "gotype \<Rightarrow> 'x cache \<Rightarrow> ctx \<Rightarrow> key \<Rightarrow> call_option list \<Rightarrow> 'x world \<Rightarrow> (gval \<times> duration) result \<times> 'x world" where
  "bytesPassThroughCache_GetWithTTL T c ctx k opts w =
     on_ok (c_GetWithTTL c ctx k opts w)
       (\<lambda>(v, ttl) w. case type_assert T v of
            Some typed \<Rightarrow> (Ok (typed, ttl), w)
          | None \<Rightarrow> (Err (bridge_mismatch_get T), w))"

definition newBytesPassThroughCache :: "gotype \<Rightarrow> 'x cache \<Rightarrow> 'x cache" where
  "newBytesPassThroughCache T next =
     \<lparr>c_Get = bytesPassThroughCache_Get T next, c_Set = bytesPassThroughCache_Set T next,
      c_GetWithTTL = bytesPassThroughCache_GetWithTTL T next,
      c_Delete = c_Delete next, c_Clear = c_Clear next\<rparr>"

definition bridge_enc :: "gotype \<Rightarrow> gval \<Rightarrow> gval result" where
  "bridge_enc T v = (case type_assert TBytes v of None \<Rightarrow> Err (bridge_mismatch_set T) | Some raw \<Rightarrow> Ok raw)"

definition bridge_dec :: "gotype \<Rightarrow> gval \<Rightarrow> gval result" where
  "bridge_dec T v = (case type_assert T v of None \<Rightarrow> Err (bridge_mismatch_get T) | Some u \<Rightarrow> Ok u)"

lemma newBytesPassThroughCache_transcode:
  "newBytesPassThroughCache T c = transcode (bridge_enc T) (bridge_dec T) c"
  unfolding newBytesPassThroughCache_def transcode_def bytesPassThroughCache_Get_def
    bytesPassThroughCache_Set_def bytesPassThroughCache_GetWithTTL_def transcode_Get_def
    transcode_Set_def transcode_GetWithTTL_def bridge_enc_def bridge_dec_def
  by (auto simp: fun_eq_iff on_ok_def bind_ok_def split: prod.splits outcome.splits option.splits)

lemma bridge_no_panic [simp]: "\<not> is_panic (bridge_enc T v)" "\<not> is_panic (bridge_dec T v)"
  by (simp_all add: bridge_enc_def bridge_dec_def split: option.split)

section \<open>The wire format of logically expiring byte values\<close>

text \<open>
  \<open>[8-byte little-endian UnixNano expireAt][raw payload]\<close>, with 0 for an instant that is zero.
  \<open>UnixNano\<close> of an instant outside the int64 range wraps around, as the Go implementation's
  int64 arithmetic does (its documentation leaves the result undefined).
\<close>

definition UnixNano :: "int \<Rightarrow> 64 word" where
  "UnixNano t = word_of_int t"

definition PutUint64 :: "64 word \<Rightarrow> bytes" where
  "PutUint64 x = map (\<lambda>i. ucast (drop_bit (8 * i) x)) [0..<8]"

definition Uint64 :: "bytes \<Rightarrow> 64 word" where
  "Uint64 bs = fold (\<lambda>i acc. acc OR push_bit (8 * i) (ucast (bs ! i))) [0..<8] 0"

definition encodeLogicTTLBytes :: "gotype \<Rightarrow> gval \<Rightarrow> int \<Rightarrow> bytes result" where
  "encodeLogicTTLBytes T val expireAt =
     (case type_assert TBytes val of
        None \<Rightarrow> Err (Errorf ''logic TTL value must be []byte, got %T'' [ATypeOf val])
      | Some p \<Rightarrow>
          bind_ok (un_bytes p) (\<lambda>payload.
            let ts = (if IsZero expireAt then 0 else UnixNano expireAt)
            in Ok (PutUint64 ts @ payload)))"

definition decodeLogicTTLBytes :: "gotype \<Rightarrow> bytes \<Rightarrow> gval result" where
  "decodeLogicTTLBytes T raw =
     (if length raw < 8
      then Err (Errorf ''invalid logic TTL bytes payload: len=%d'' [AInt (int (length raw))])
      else
        let ts = sint (Uint64 (take 8 raw)); payload = VBytes (drop 8 raw) in
        case type_assert T payload of
          None \<Rightarrow> Err (Errorf ''internal type mismatch: expected %s from logic TTL payload'' [AType T])
        | Some typedPayload \<Rightarrow>
            Ok (VLogic T typedPayload (if 0 < ts then ts else zero_time)))"

definition LogicTTLBytesAdapter_Get ::
    "gotype \<Rightarrow> 'x cache \<Rightarrow> ctx \<Rightarrow> key \<Rightarrow> call_option list \<Rightarrow> 'x world \<Rightarrow> gval result \<times> 'x world" where
  "LogicTTLBytesAdapter_Get T c ctx k opts w =
     on_ok (c_Get c ctx k opts w) (\<lambda>v w. (bind_ok (un_bytes v) (decodeLogicTTLBytes T), w))"

text \<open>The argument of \<open>Set\<close> has type \<open>LogicTTLValue[T]\<close>.\<close>

definition encode_logic_value :: "gotype \<Rightarrow> gval \<Rightarrow> bytes result" where
  "encode_logic_value T val =
     (case val of VLogic T' v e \<Rightarrow> encodeLogicTTLBytes T v e | _ \<Rightarrow> Panic ''not a LogicTTLValue'')"

definition LogicTTLBytesAdapter_Set ::
    "gotype \<Rightarrow> 'x cache \<Rightarrow> ctx \<Rightarrow> key \<Rightarrow> gval \<Rightarrow> duration \<Rightarrow> call_option list \<Rightarrow> 'x world \<Rightarrow> unit result \<times> 'x world" where
  "LogicTTLBytesAdapter_Set T c ctx k val ttl opts w =
     (case encode_logic_value T val of
        Err e \<Rightarrow> (Err e, w)
      | Panic m \<Rightarrow> (Panic m, w)
      | Ok raw \<Rightarrow> c_Set c ctx k (VBytes raw) ttl opts w)"

definition LogicTTLBytesAdapter_GetWithTTL ::
    "gotype \<Rightarrow> 'x cache \<Rightarrow> ctx \<Rightarrow> key \<Rightarrow> call_option list \<Rightarrow> 'x world \<Rightarrow> (gval \<times> duration) result \<times> 'x world" where
  "LogicTTLBytesAdapter_GetWithTTL T c ctx k opts w =
     on_ok (c_GetWithTTL c ctx k opts w)
       (\<lambda>(v, ttl) w. (bind_ok (un_bytes v) (\<lambda>raw.
                      bind_ok (decodeLogicTTLBytes T raw) (\<lambda>decoded. Ok (decoded, ttl))), w))"

definition LogicTTLBytesAdapter_Delete ::
    "'x cache \<Rightarrow> ctx \<Rightarrow> key \<Rightarrow> call_option list \<Rightarrow> 'x world \<Rightarrow> unit result \<times> 'x world" where
  "LogicTTLBytesAdapter_Delete c ctx k opts w = c_Delete c ctx k opts w"

definition LogicTTLBytesAdapter_Clear :: "'x cache \<Rightarrow> ctx \<Rightarrow> 'x world \<Rightarrow> unit result \<times> 'x world" where
  "LogicTTLBytesAdapter_Clear c ctx w = c_Clear c ctx w"

definition LogicTTLBytesAdapter :: "gotype \<Rightarrow> 'x cache \<Rightarrow> 'x cache" where
  "LogicTTLBytesAdapter T c =
     \<lparr>c_Get = LogicTTLBytesAdapter_Get T c, c_Set = LogicTTLBytesAdapter_Set T c,
      c_GetWithTTL = LogicTTLBytesAdapter_GetWithTTL T c,
      c_Delete = LogicTTLBytesAdapter_Delete c, c_Clear = LogicTTLBytesAdapter_Clear c\<rparr>"

definition NewLogicTTLBytesAdapter :: "gotype \<Rightarrow> 'x cache \<Rightarrow> 'x cache result" where
  "NewLogicTTLBytesAdapter T next =
     (if \<not> IsBytesType T
      then Err (Errorf ''logicTTLBytesAdapter only supports []byte value type, got %s'' [AType T])
      else Ok (LogicTTLBytesAdapter T next))"

definition adapter_enc :: "gotype \<Rightarrow> gval \<Rightarrow> gval result" where
  "adapter_enc T v = bind_ok (encode_logic_value T v) (\<lambda>b. Ok (VBytes b))"

definition adapter_dec :: "gotype \<Rightarrow> gval \<Rightarrow> gval result" where
  "adapter_dec T v = bind_ok (un_bytes v) (decodeLogicTTLBytes T)"

lemma LogicTTLBytesAdapter_transcode:
  "LogicTTLBytesAdapter T c = transcode (adapter_enc T) (adapter_dec T) c"
  unfolding LogicTTLBytesAdapter_def transcode_def LogicTTLBytesAdapter_Get_def
    LogicTTLBytesAdapter_Set_def LogicTTLBytesAdapter_GetWithTTL_def LogicTTLBytesAdapter_Delete_def
    LogicTTLBytesAdapter_Clear_def transcode_Get_def transcode_Set_def transcode_GetWithTTL_def
    adapter_enc_def adapter_dec_def
  by (auto simp: fun_eq_iff on_ok_def bind_ok_def split: prod.splits outcome.splits)

section \<open>Laws of the wire format\<close>

lemma length_PutUint64 [simp]: "length (PutUint64 x) = 8"
  by (simp add: PutUint64_def)

lemma byte_bit:
  "bit (push_bit (8 * i) (ucast (ucast (drop_bit (8 * i) x) :: 8 word)) :: 64 word) n
   \<longleftrightarrow> 8 * i \<le> n \<and> n < 8 * i + 8 \<and> n < 64 \<and> bit (x :: 64 word) n"
  by (auto simp: bit_simps)

lemma Uint64_PutUint64 [simp]: "Uint64 (PutUint64 x) = x"
proof (rule bit_word_eqI)
  fix n assume n: "n < LENGTH(64)"
  have fold_bit: "bit (fold (\<lambda>i acc. acc OR push_bit (8 * i) (ucast (PutUint64 x ! i))) is a) n
        \<longleftrightarrow> bit a n \<or> (\<exists>i \<in> set is. 8 * i \<le> n \<and> n < 8 * i + 8 \<and> bit x n)"
    if "set is \<subseteq> {0..<8}" for "is" and a :: "64 word"
    using that n
    by (induction "is" arbitrary: a) (auto simp: bit_or_iff PutUint64_def byte_bit)
  have "n div 8 \<in> set [0..<8]" "8 * (n div 8) \<le> n" "n < 8 * (n div 8) + 8" using n by auto
  then show "bit (Uint64 (PutUint64 x)) n = bit x n"
    unfolding Uint64_def by (subst fold_bit) (auto intro: bexI [of _ "n div 8"])
qed

lemma Uint64_bit:
  assumes "n < 64"
  shows "bit (Uint64 bs) n \<longleftrightarrow> bit (bs ! (n div 8)) (n mod 8)"
proof -
  have fold_bit: "bit (fold (\<lambda>i acc. acc OR push_bit (8 * i) (ucast (bs ! i))) is a) n
        \<longleftrightarrow> bit a n \<or> (\<exists>i \<in> set is. 8 * i \<le> n \<and> n < 8 * i + 8 \<and> bit (bs ! i) (n - 8 * i))"
    for "is" and a :: "64 word"
    using assms
    by (induction "is" arbitrary: a) (auto simp: bit_simps dest: bit_imp_le_length)
  have "(\<exists>i \<in> set [0..<8]. 8 * i \<le> n \<and> n < 8 * i + 8 \<and> bit (bs ! i) (n - 8 * i))
        \<longleftrightarrow> bit (bs ! (n div 8)) (n mod 8)" (is "?L = ?R")
  proof
    assume ?L
    then obtain i where i: "8 * i \<le> n" "n < 8 * i + 8" "bit (bs ! i) (n - 8 * i)" by auto
    then have "n div 8 = i" by (intro div_nat_eqI) auto
    with i show ?R by (simp add: modulo_nat_def mult.commute)
  next
    assume ?R
    then show ?L using assms
      by (intro bexI [of _ "n div 8"]) (auto simp: minus_mult_div_eq_mod)
  qed
  then show ?thesis unfolding Uint64_def by (subst fold_bit) simp
qed

lemma PutUint64_Uint64:
  assumes "length bs = 8"
  shows "PutUint64 (Uint64 bs) = bs"
proof (rule nth_equalityI)
  fix i assume "i < length (PutUint64 (Uint64 bs))"
  then have i: "i < 8" by simp
  show "PutUint64 (Uint64 bs) ! i = bs ! i"
  proof (rule bit_word_eqI)
    fix n assume n: "n < LENGTH(8)"
    with i have "8 * i + n < 64" "(8 * i + n) div 8 = i" "(8 * i + n) mod 8 = n" by auto
    with i n show "bit (PutUint64 (Uint64 bs) ! i) n = bit (bs ! i) n"
      by (simp add: PutUint64_def bit_simps Uint64_bit)
  qed
qed (use assms in simp)

lemma encodeLogicTTLBytes_bytes [simp]:
  "encodeLogicTTLBytes TBytes (VBytes p) e = Ok (PutUint64 (if IsZero e then 0 else UnixNano e) @ p)"
  by (simp add: encodeLogicTTLBytes_def)

lemma decode_header [simp]:
  "decodeLogicTTLBytes TBytes (PutUint64 x @ p) =
     Ok (VLogic TBytes (VBytes p) (if 0 < sint x then sint x else zero_time))"
  by (simp add: decodeLogicTTLBytes_def Let_def)

text \<open>The instants the format can represent: the zero time, and the int64 range after the epoch.\<close>

definition representable :: "int \<Rightarrow> bool" where
  "representable e \<longleftrightarrow> IsZero e \<or> (0 < e \<and> e < 2 ^ 63)"

lemma sint_UnixNano: "sint (UnixNano e) = wrap64 e"
  by (simp add: UnixNano_def wrap64_def)

lemma adapter_no_panic [simp]: "\<not> is_panic (decodeLogicTTLBytes T raw)"
  by (simp add: decodeLogicTTLBytes_def Let_def split: option.split)

lemma adapter_encodable:
  assumes "representable e"
  shows "encodable (adapter_enc TBytes) (adapter_dec TBytes) (\<lambda>v. True) (VLogic TBytes (VBytes p) e)"
  using assms
  by (auto simp: encodable_def adapter_enc_def adapter_dec_def encode_logic_value_def representable_def
      sint_UnixNano wrap64_id IsZero_def)

section \<open>The byte stage keeps the contract\<close>

text \<open>\<open>typed T view\<close>: every visible value passes the assertion to \<open>T\<close>.\<close>

definition typed :: "gotype \<Rightarrow> 'x view \<Rightarrow> bool" where
  "typed T view \<longleftrightarrow> (\<forall>w k t v d. view w k t = Present v d \<longrightarrow> type_assert T v = Some v)"

lemma typedD: "typed T view \<Longrightarrow> view w k t = Present v d \<Longrightarrow> type_assert T v = Some v"
  unfolding typed_def by blast

lemma typed_typed_view [simp]: "typed T (typed_view T view)"
  using typed_view_Present by (auto simp: typed_def)

lemma typed_bytesD: "typed TBytes view \<Longrightarrow> view w k t = Present v d \<Longrightarrow> \<exists>b. v = VBytes b"
  by (drule (1) typedD, cases v) (auto simp: type_assert_def)

lemma typed_map_view_with:
  "(\<And>v u. dec v = Ok u \<Longrightarrow> type_assert T u = Some u) \<Longrightarrow> typed T (map_view_with dec view)"
  by (auto simp: typed_def map_view_with_def map_entry_def split: entry.splits outcome.splits)

lemma coded_contract:
  assumes "cache_contract c view storable clock"
    and "\<And>w k t v d. view w k t = Present v d \<Longrightarrow> \<not> is_panic (dec v)"
  shows "cache_contract (transcode enc dec c) (map_view_with dec view) (encodable enc dec storable) clock"
proof -
  from assms have "transcoder c view storable clock dec"
    unfolding transcoder_def transcoder_axioms_def by blast
  from transcoder.transcode_contract [OF this] show ?thesis .
qed

text \<open>What is asked of a codec and of a compression codec: no panics, and values of the right type.\<close>

definition codec_ok :: "gotype \<Rightarrow> codec \<Rightarrow> bool" where
  "codec_ok T cd \<longleftrightarrow>
     (\<forall>raw. \<not> is_panic (cd_Unmarshal cd raw T)) \<and>
     (\<forall>raw v. cd_Unmarshal cd raw T = Ok v \<longrightarrow> type_assert T v = Some v)"

definition compression_ok :: "compression_codec \<Rightarrow> bool" where
  "compression_ok cc \<longleftrightarrow> (\<forall>z. \<not> is_panic (cc_Decompress cc z))"

lemma is_panic_bind_ok: "is_panic (bind_ok r f) \<longleftrightarrow> is_panic r \<or> (\<exists>v. r = Ok v \<and> is_panic (f v))"
  by (cases r) simp_all

lemma CodecDecorator_contract:
  assumes "cache_contract c view storable clock" and "typed TBytes view" and "codec_ok T cd"
  shows "cache_contract (CodecDecorator T cd c) (map_view_with (codec_dec T cd) view)
           (encodable (codec_enc cd) (codec_dec T cd) storable) clock"
  unfolding CodecDecorator_transcode using assms(2,3)
  by (intro coded_contract [OF assms(1)])
    (auto simp: codec_dec_def codec_ok_def dest!: typed_bytesD)

lemma codec_dec_typed: "codec_ok T cd \<Longrightarrow> typed T (map_view_with (codec_dec T cd) view)"
  by (rule typed_map_view_with) (auto simp: codec_dec_def codec_ok_def bind_ok_Ok_iff)

lemma NewCompressionDecorator_contract:
  assumes "cache_contract c view storable clock" and "typed TBytes view" and "compression_ok cc"
  shows "cache_contract (NewCompressionDecorator c cc) (map_view_with (compress_dec cc) view)
           (encodable (compress_enc cc) (compress_dec cc) storable) clock"
  unfolding NewCompressionDecorator_transcode using assms(2,3)
  by (intro coded_contract [OF assms(1)])
    (auto simp: compress_dec_def compression_ok_def is_panic_bind_ok dest!: typed_bytesD)

lemma compress_dec_typed: "typed TBytes (map_view_with (compress_dec cc) view)"
  by (rule typed_map_view_with) (auto simp: compress_dec_def bind_ok_Ok_iff)

lemma newBytesPassThroughCache_contract:
  assumes "cache_contract c view storable clock"
  shows "cache_contract (newBytesPassThroughCache T c) (map_view_with (bridge_dec T) view)
           (encodable (bridge_enc T) (bridge_dec T) storable) clock"
  unfolding newBytesPassThroughCache_transcode by (rule coded_contract [OF assms]) simp

lemma LogicTTLBytesAdapter_contract:
  assumes "cache_contract c view storable clock" and "typed TBytes view"
  shows "cache_contract (LogicTTLBytesAdapter T c) (map_view_with (adapter_dec T) view)
           (encodable (adapter_enc T) (adapter_dec T) storable) clock"
  unfolding LogicTTLBytesAdapter_transcode using assms(2)
  by (intro coded_contract [OF assms(1)]) (auto simp: adapter_dec_def dest!: typed_bytesD)

lemma adapter_dec_Ok: "adapter_dec T v = Ok u \<Longrightarrow> \<exists>x e. u = VLogic T x e \<and> type_assert T x = Some x"
  by (auto simp: adapter_dec_def bind_ok_Ok_iff decodeLogicTTLBytes_def Let_def
      dest: type_assert_Some split: if_splits option.splits)

section \<open>Properties\<close>

lemma wrap64_fixed: "0 < e \<Longrightarrow> wrap64 e = e \<longleftrightarrow> e < 2 ^ 63"
  using sint_lt [of "word_of_int e :: 64 word"] wrap64_id [of e]
  by (auto simp: wrap64_def)

text \<open>C29: the wire format of logically expiring byte values gives back exactly what was encoded
  precisely for the instants it can represent: the zero time and those whose nanoseconds since the
  epoch are positive and fit an int64. Any other deadline is not restored.\<close>

theorem logic_bytes_roundtrip:
  assumes "encodeLogicTTLBytes TBytes (VBytes p) e = Ok raw"
  shows "length raw = 8 + length p \<and>
     (decodeLogicTTLBytes TBytes raw = Ok (VLogic TBytes (VBytes p) e) \<longleftrightarrow> representable e)"
proof (cases "e = zero_time")
  case True
  with assms show ?thesis by (auto simp: representable_def IsZero_def)
next
  case False
  have raw: "raw = PutUint64 (UnixNano e) @ p" using assms False by (simp add: IsZero_def)
  have "(if 0 < wrap64 e then wrap64 e else zero_time) = e \<longleftrightarrow> 0 < e \<and> e < 2 ^ 63"
    using False wrap64_fixed [of e] by (cases "0 < wrap64 e") auto
  with False show ?thesis by (auto simp: raw representable_def sint_UnixNano IsZero_def split: if_splits)
qed

theorem logic_bytes_roundtrip_witness:
  "decodeLogicTTLBytes TBytes (PutUint64 5 @ [1, 2]) = Ok (VLogic TBytes (VBytes [1, 2]) 5)"
  using logic_bytes_roundtrip [of "[1, 2]" 5 "PutUint64 5 @ [1, 2]"]
  by (simp add: IsZero_def UnixNano_def representable_def zero_time_def duration_defs)

text \<open>Decoding fails exactly on payloads shorter than the 8-byte header, and decoding then
  encoding gives back the same bytes exactly when the header is not negative as an int64 (a
  negative header is read as never expiring).\<close>

theorem logic_bytes_decode_encode:
  "((\<exists>e. decodeLogicTTLBytes TBytes raw = Err e) \<longleftrightarrow> length raw < 8) \<and>
   ((\<exists>v e. decodeLogicTTLBytes TBytes raw = Ok (VLogic TBytes v e) \<and>
           encodeLogicTTLBytes TBytes v e = Ok raw) \<longleftrightarrow>
      8 \<le> length raw \<and> 0 \<le> sint (Uint64 (take 8 raw)))"
proof (cases "length raw < 8")
  case True
  then show ?thesis by (simp add: decodeLogicTTLBytes_def)
next
  case False
  define x where "x = Uint64 (take 8 raw)"
  from False have hd: "PutUint64 x = take 8 raw" by (simp add: x_def PutUint64_Uint64)
  have inj: "PutUint64 a = PutUint64 b \<longleftrightarrow> a = b" for a b by (metis Uint64_PutUint64)
  have dec: "decodeLogicTTLBytes TBytes raw =
      Ok (VLogic TBytes (VBytes (drop 8 raw)) (if 0 < sint x then sint x else zero_time))"
    using False by (simp add: decodeLogicTTLBytes_def x_def Let_def)
  let ?e = "if 0 < sint x then sint x else zero_time"
  have h: "(if IsZero ?e then 0 else UnixNano ?e) = x \<longleftrightarrow> 0 \<le> sint x"
  proof (cases "0 < sint x")
    case True
    moreover from True have "\<not> IsZero (sint x)" by (simp add: IsZero_def zero_time_def duration_defs)
    ultimately show ?thesis by (simp add: UnixNano_def)
  next
    case False
    moreover have "0 = x \<longleftrightarrow> sint x = 0" by (metis signed_eq_0_iff)
    ultimately show ?thesis by (auto simp: IsZero_def)
  qed
  have "encodeLogicTTLBytes TBytes (VBytes (drop 8 raw)) ?e = Ok raw \<longleftrightarrow>
      PutUint64 (if IsZero ?e then 0 else UnixNano ?e) @ drop 8 raw = take 8 raw @ drop 8 raw"
    by (simp only: encodeLogicTTLBytes_bytes append_take_drop_id outcome.inject)
  also have "\<dots> \<longleftrightarrow> 0 \<le> sint x" by (simp only: append_same_eq hd [symmetric] inj h)
  finally show ?thesis using False dec by (auto simp: x_def)
qed

end
