(* ===== verification/Observable_Decorator.thy ===== *)
theory Observable_Decorator
  imports Byte_Stage
begin

text \<open>
  core/decorator/observable.go: every operation runs with a fresh event in its context and, by a
  deferred function, completes the event and records it. The deferred function is \<open>obs_defer\<close>;
  it also runs when the inner call panics, with the named result \<open>finalErr\<close> still nil.
\<close>

text \<open>\<open>get\<close> is whether the operation sets \<open>Result\<close> (Get and GetWithTTL).\<close>

definition complete_event :: "bool \<Rightarrow> error option \<Rightarrow> duration \<Rightarrow> event \<Rightarrow> event" where
  "complete_event get finalErr latency e =
     e\<lparr>ev_Error := finalErr, ev_Latency := latency,
       ev_Result := (if get then ResultFromErr finalErr else ev_Result e)\<rparr>"

definition final_err :: "'a result \<Rightarrow> error option" where
  "final_err r = (case r of Err e \<Rightarrow> Some e | _ \<Rightarrow> None)"

definition obs_defer ::
    "'x observable option \<Rightarrow> string \<Rightarrow> bool \<Rightarrow> ctx \<Rightarrow> nat \<Rightarrow> int \<Rightarrow> 'a result \<times> 'x world \<Rightarrow> 'a result \<times> 'x world" where
  "obs_defer ob msg get ctx evt start = (\<lambda>(r, w).
     (case record_event ob ctx evt
             (update_event evt (complete_event get (final_err r) (w_now w - start)) w) of
        (Ok u, w') \<Rightarrow> (r, w')
      | (Panic m, w') \<Rightarrow> (Panic m, w')
      | (Err e, w') \<Rightarrow>
          (case log_error ob ctx msg [(''err'', AErr e)] w' of
             (Panic m, w'') \<Rightarrow> (Panic m, w'')
           | (l, w'') \<Rightarrow> (r, w''))))"

record 'x observable_decorator =
  od_ob :: "'x observable option"
  od_storeName :: string
  od_cacheName :: string
  od_cache :: "'x cache"

definition obs_initCtx :: "'x observable_decorator \<Rightarrow> ctx \<Rightarrow> string \<Rightarrow> 'x world \<Rightarrow> (ctx \<times> nat) \<times> 'x world" where
  "obs_initCtx o' ctx op w =
     (let (evt, w1) = new_event op (od_cacheName o') (od_storeName o') w
      in ((ContextWithEvent ctx evt, evt), w1))"

definition ObservableDecorator_Get ::
    "'x observable_decorator \<Rightarrow> ctx \<Rightarrow> key \<Rightarrow> call_option list \<Rightarrow> 'x world \<Rightarrow> gval result \<times> 'x world" where
  "ObservableDecorator_Get o' ctx k opts w =
     (let start = w_now w; ((ctx', evt), w1) = obs_initCtx o' ctx OpGet w in
      obs_defer (od_ob o') ''[ObservableDecorator.Get] Record Metrics Failed.'' True ctx' evt start
        (c_Get (od_cache o') ctx' k opts w1))"

definition ObservableDecorator_Set ::
    "'x observable_decorator \<Rightarrow> ctx \<Rightarrow> key \<Rightarrow> gval \<Rightarrow> duration \<Rightarrow> call_option list \<Rightarrow> 'x world \<Rightarrow> unit result \<times> 'x world" where
  "ObservableDecorator_Set o' ctx k val ttl opts w =
     (let start = w_now w; ((ctx', evt), w1) = obs_initCtx o' ctx OpSet w in
      obs_defer (od_ob o') ''[ObservableDecorator.Set] Record Metrics Failed.'' False ctx' evt start
        (c_Set (od_cache o') ctx' k val ttl opts w1))"

definition ObservableDecorator_GetWithTTL ::
    "'x observable_decorator \<Rightarrow> ctx \<Rightarrow> key \<Rightarrow> call_option list \<Rightarrow> 'x world \<Rightarrow> (gval \<times> duration) result \<times> 'x world" where
  "ObservableDecorator_GetWithTTL o' ctx k opts w =
     (let start = w_now w; ((ctx', evt), w1) = obs_initCtx o' ctx OpGetWithTTL w in
      obs_defer (od_ob o') ''[ObservableDecorator.GetWithTTL] Record Metrics Failed.'' True ctx' evt start
        (c_GetWithTTL (od_cache o') ctx' k opts w1))"

definition ObservableDecorator_Delete ::
    "'x observable_decorator \<Rightarrow> ctx \<Rightarrow> key \<Rightarrow> call_option list \<Rightarrow> 'x world \<Rightarrow> unit result \<times> 'x world" where
  "ObservableDecorator_Delete o' ctx k opts w =
     (let start = w_now w; ((ctx', evt), w1) = obs_initCtx o' ctx OpDelete w in
      obs_defer (od_ob o') ''[ObservableDecorator.Delete] Record Metrics Failed.'' False ctx' evt start
        (c_Delete (od_cache o') ctx' k opts w1))"

definition ObservableDecorator_Clear :: "'x observable_decorator \<Rightarrow> ctx \<Rightarrow> 'x world \<Rightarrow> unit result \<times> 'x world" where
  "ObservableDecorator_Clear o' ctx w =
     (let start = w_now w; ((ctx', evt), w1) = obs_initCtx o' ctx OpClear w in
      obs_defer (od_ob o') ''[ObservableDecorator.Clear] Record Metrics Failed.'' False ctx' evt start
        (c_Clear (od_cache o') ctx' w1))"

definition ObservableDecorator :: "'x observable_decorator \<Rightarrow> 'x cache" where
  "ObservableDecorator o' =
     \<lparr>c_Get = ObservableDecorator_Get o', c_Set = ObservableDecorator_Set o',
      c_GetWithTTL = ObservableDecorator_GetWithTTL o',
      c_Delete = ObservableDecorator_Delete o', c_Clear = ObservableDecorator_Clear o'\<rparr>"

definition NewObservableDecorator :: "'x cache \<Rightarrow> string \<Rightarrow> string \<Rightarrow> 'x observable option \<Rightarrow> 'x cache" where
  "NewObservableDecorator c storeName cacheName ob =
     ObservableDecorator \<lparr>od_ob = ob, od_storeName = storeName, od_cacheName = cacheName, od_cache = c\<rparr>"

lemma ObservableDecorator_ops [simp, cache_ops]:
  "c_Get (ObservableDecorator o') = ObservableDecorator_Get o'"
  "c_Set (ObservableDecorator o') = ObservableDecorator_Set o'"
  "c_GetWithTTL (ObservableDecorator o') = ObservableDecorator_GetWithTTL o'"
  "c_Delete (ObservableDecorator o') = ObservableDecorator_Delete o'"
  "c_Clear (ObservableDecorator o') = ObservableDecorator_Clear o'"
  by (simp_all add: ObservableDecorator_def)

section \<open>Telemetry that leaves a view alone\<close>

text \<open>
  What the decorators need of metrics and logger: they do not panic and do not write to the
  cache. An error returned by \<open>Record\<close> is allowed, it is only logged.
\<close>

definition quiet :: "'x view \<Rightarrow> 'x observable option \<Rightarrow> bool" where
  "quiet view ob \<longleftrightarrow>
     (\<forall>ctx evt w r w'. record_event ob ctx evt w = (r, w') \<longrightarrow> \<not> is_panic r \<and> reads view w w') \<and>
     (\<forall>ctx msg args w r w'. log_error ob ctx msg args w = (r, w') \<longrightarrow> \<not> is_panic r \<and> reads view w w')"

lemma quiet_record: "quiet view ob \<Longrightarrow> record_event ob ctx evt w = (r, w') \<Longrightarrow> \<not> is_panic r \<and> reads view w w'"
  by (simp add: quiet_def)

lemma quiet_log: "quiet view ob \<Longrightarrow> log_error ob ctx msg args w = (r, w') \<Longrightarrow> \<not> is_panic r \<and> reads view w w'"
  by (simp add: quiet_def)

lemma quiet_map_view_with: "quiet view ob \<Longrightarrow> quiet (map_view_with dec view) ob"
  unfolding quiet_def by (meson map_view_with_reads)

lemma quiet_DefaultObservable:
  "(\<And>lvl ctx msg args w. reads view w (slog lvl ctx msg args w)) \<Longrightarrow> quiet view (Some (DefaultObservable slog))"
  by (auto simp: quiet_def DefaultObservable_def record_event_def log_error_def NoopMetrics_def SlogLogger_def)

lemma obs_defer_quiet:
  assumes "quiet view ob" and "blind view" and "obs_defer ob msg get ctx evt start (r, w) = (r', w')"
  shows "r' = r \<and> reads view w w'"
proof -
  let ?w = "update_event evt (complete_event get (final_err r) (w_now w - start)) w"
  have u: "reads view w ?w" by (rule blind_reads [OF assms(2)]) simp_all
  obtain rr w1 where rec: "record_event ob ctx evt ?w = (rr, w1)" by (cases "record_event ob ctx evt ?w")
  from quiet_record [OF assms(1) rec] have q: "\<not> is_panic rr" "reads view ?w w1" by auto
  show ?thesis
  proof (cases rr)
    case (Err e)
    obtain lr w2 where log: "log_error ob ctx msg [(''err'', AErr e)] w1 = (lr, w2)"
      by (cases "log_error ob ctx msg [(''err'', AErr e)] w1")
    from quiet_log [OF assms(1) log] have "\<not> is_panic lr" "reads view w1 w2" by auto
    with assms(3) rec Err log u q show ?thesis
      by (cases lr) (auto simp: obs_defer_def intro: reads_trans)
  qed (use assms(3) rec u q in \<open>auto simp: obs_defer_def intro: reads_trans\<close>)
qed

lemma obs_initCtx_facts:
  assumes "obs_initCtx o' ctx op w = ((ctx', evt), w1)"
  shows "ctx_deadline ctx' = ctx_deadline ctx" "w_now w1 = w_now w" "w_ext w1 = w_ext w"
    "evt = length (w_events w)" "ctx_event ctx' = Some evt"
    "w_events w1 ! evt = \<lparr>ev_Op = op, ev_Result = [], ev_CacheName = od_cacheName o',
       ev_StoreName = od_storeName o', ev_Latency = 0, ev_Error = None, ev_customFields = None\<rparr>"
  using assms by (auto simp: obs_initCtx_def new_event_def ContextWithEvent_def)

text \<open>
  One operation of the decorator: the inner call runs in a world the view cannot distinguish
  from the given one, and its result is the result.
\<close>

lemma observed:
  assumes "quiet view (od_ob o')" and "blind view"
    and "(let start = w_now w; ((ctx', evt), w1) = obs_initCtx o' ctx op w in
          obs_defer (od_ob o') msg get ctx' evt start (call ctx' w1)) = (r, w')"
  obtains ctx' w1 w2 where "ctx_deadline ctx' = ctx_deadline ctx" "w_now w1 = w_now w"
    "view w1 = view w" "call ctx' w1 = (r, w2)" "reads view w2 w'"
proof -
  obtain ctx' evt w1 where i: "obs_initCtx o' ctx op w = ((ctx', evt), w1)"
    by (metis prod.exhaust)
  obtain r2 w2 where c: "call ctx' w1 = (r2, w2)" by (cases "call ctx' w1")
  note F = obs_initCtx_facts [OF i]
  from assms(3) i c have "obs_defer (od_ob o') msg get ctx' evt (w_now w) (r2, w2) = (r, w')" by simp
  from obs_defer_quiet [OF assms(1,2) this] c have "call ctx' w1 = (r, w2)" "reads view w2 w'" by auto
  then show thesis using F blindD [OF assms(2) F(3)] that by blast
qed

lemma window_extend:
  "\<exists>t. a \<le> t \<and> t \<le> w_now w2 \<and> P t \<Longrightarrow> reads view w2 w' \<Longrightarrow> \<exists>t. a \<le> t \<and> t \<le> w_now w' \<and> P t"
  unfolding reads_def by (elim exE conjE, rule_tac x = t in exI) simp

lemma view_shift:
  assumes "view w1 = view w" and "w_now w1 = w_now w"
  shows "reads view w1 w' = reads view w w'" "writes view w1 w' k new = writes view w w' k new"
    "wipes view w1 w' = wipes view w w'"
  using assms by (simp_all add: reads_def writes_def wipes_def)

lemma ObservableDecorator_contract:
  assumes C: "cache_contract (od_cache o') view storable clock" and q: "quiet view (od_ob o')"
  shows "cache_contract (ObservableDecorator o') view storable clock"
proof -
  note O = observed [OF q cache_contract.view_blind [OF C]]
  show ?thesis
  proof (unfold_locales, goal_cases)
  case 1 show ?case by (rule cache_contract.view_blind [OF C])
next
  case (2 ctx k opts w r w')
  obtain ctx' w1 w2 where o: "ctx_deadline ctx' = ctx_deadline ctx" "w_now w1 = w_now w"
      "view w1 = view w" "c_Get (od_cache o') ctx' k opts w1 = (r, w2)" "reads view w2 w'"
    using 2(2) unfolding ObservableDecorator_ops ObservableDecorator_Get_def by (rule O)
  have "reads view w1 w2 \<and> (\<exists>t. w_now w1 \<le> t \<and> t \<le> w_now w2 \<and> reports (view w1 k t) r)"
    using cache_contract.Get_law [OF C _ o(4)] o(1,2) 2 by simp
  with o show ?case by (auto simp: view_shift [OF o(3,2)] intro: reads_trans window_extend)
next
  case (3 ctx k opts w r w')
  obtain ctx' w1 w2 where o: "ctx_deadline ctx' = ctx_deadline ctx" "w_now w1 = w_now w"
      "view w1 = view w" "c_GetWithTTL (od_cache o') ctx' k opts w1 = (r, w2)" "reads view w2 w'"
    using 3(2) unfolding ObservableDecorator_ops ObservableDecorator_GetWithTTL_def by (rule O)
  have "reads view w1 w2 \<and> (\<exists>t. w_now w1 \<le> t \<and> t \<le> w_now w2 \<and> reports_ttl (view w1 k t) t r)"
    using cache_contract.GetWithTTL_law [OF C _ o(4)] o(1,2) 3 by simp
  with o show ?case by (auto simp: view_shift [OF o(3,2)] intro: reads_trans window_extend)
next
  case (4 ctx opts v ttl w k u w')
  obtain ctx' w1 w2 where o: "ctx_deadline ctx' = ctx_deadline ctx" "w_now w1 = w_now w"
      "view w1 = view w" "c_Set (od_cache o') ctx' k v ttl opts w1 = (u, w2)" "reads view w2 w'"
    using 4(6) unfolding ObservableDecorator_ops ObservableDecorator_Set_def by (rule O)
  have "u = Ok () \<and> writes view w1 w2 k (stored v ttl)"
    using cache_contract.Set_law [OF C _ _ _ _ _ o(4)] o(1,2) 4 by simp
  with o show ?case by (auto simp: view_shift [OF o(3,2)] intro: writes_reads)
next
  case (5 ctx opts v ttl w k u w')
  obtain ctx' w1 w2 where o: "ctx_deadline ctx' = ctx_deadline ctx" "w_now w1 = w_now w"
      "view w1 = view w" "c_Set (od_cache o') ctx' k v ttl opts w1 = (u, w2)" "reads view w2 w'"
    using 5(6) unfolding ObservableDecorator_ops ObservableDecorator_Set_def by (rule O)
  have "(\<exists>e. u = Err e) \<and> reads view w1 w2"
    using cache_contract.Set_negative [OF C _ _ _ _ _ o(4)] o(1,2) 5 by simp
  with o show ?case by (auto simp: view_shift [OF o(3,2)] intro: reads_trans)
next
  case (6 ctx k opts w u w')
  obtain ctx' w1 w2 where o: "ctx_deadline ctx' = ctx_deadline ctx" "w_now w1 = w_now w"
      "view w1 = view w" "c_Delete (od_cache o') ctx' k opts w1 = (u, w2)" "reads view w2 w'"
    using 6(2) unfolding ObservableDecorator_ops ObservableDecorator_Delete_def by (rule O)
  have "u = Ok () \<and> writes view w1 w2 k (\<lambda>t0 t. Absent)"
    using cache_contract.Delete_law [OF C _ o(4)] o(1,2) 6 by simp
  with o show ?case by (auto simp: view_shift [OF o(3,2)] intro: writes_reads)
next
  case (7 ctx w u w')
  obtain ctx' w1 w2 where o: "ctx_deadline ctx' = ctx_deadline ctx" "w_now w1 = w_now w"
      "view w1 = view w" "c_Clear (od_cache o') ctx' w1 = (u, w2)" "reads view w2 w'"
    using 7(2) unfolding ObservableDecorator_ops ObservableDecorator_Clear_def by (rule O)
  have "u = Ok () \<and> wipes view w1 w2"
    using cache_contract.Clear_law [OF C _ o(4)] o(1,2) 7 by simp
  with o show ?case by (auto simp: view_shift [OF o(3,2)] intro: wipes_reads)
  qed
qed

section \<open>Properties\<close>

text \<open>A process log that is discarded, and the observable of a builder that uses it.\<close>

definition no_slog :: "string \<Rightarrow> 'x log_fn" where
  "no_slog lvl ctx msg args w = w"

definition silent :: "'x observable option" where
  "silent = Some (DefaultObservable no_slog)"

lemma silent_quiet [simp]: "quiet view silent"
  unfolding silent_def by (rule quiet_DefaultObservable) (simp add: no_slog_def)

text \<open>Observing a cache changes nothing of what it promises: over any cache that keeps the
  contract, with metrics and a logger that neither panic nor write to that cache, the observable
  decorator keeps the same contract (even when recording fails with an error).\<close>

theorem ObservableDecorator_transparent:
  assumes "cache_contract c view storable clock" and "quiet view ob"
  shows "cache_contract (NewObservableDecorator c storeName cacheName ob) view storable clock"
  using assms by (simp add: NewObservableDecorator_def ObservableDecorator_contract)

theorem ObservableDecorator_transparent_witness:
  "cache_contract (NewObservableDecorator (NewBaseCache TInt (SlowMapStore demo_map)) ''slow'' ''c'' silent)
     (typed_view TInt (map_view demo_map)) (\<lambda>v. type_assert TInt v = Some v) (\<lambda>t. zero_time < t)"
  by (rule ObservableDecorator_transparent [OF map_base_contract silent_quiet])

text \<open>C32: a lookup through the observable decorator returns what the inner lookup returns, and
  exactly once, when it is done, hands the metrics an event that is in the context of the inner
  call and carries the operation's error, the classification hit, miss or fail, the time the call
  took, and the custom fields the layers below added. A panic below is recorded as a hit and
  then raised again.\<close>

theorem ObservableDecorator_records:
  assumes ob: "od_ob o' = Some ob" "ob_Metrics ob = Some m" and m: "\<And>w. fst (m_Record m ctx' evt w) = Ok ()"
    and i: "obs_initCtx o' ctx OpGet w = ((ctx', evt), w1)"
    and call: "c_Get (od_cache o') ctx' k opts w1 = (r, w2)" and len: "evt < length (w_events w2)"
  shows "\<exists>w3. ObservableDecorator_Get o' ctx k opts w = (r, snd (m_Record m ctx' evt w3)) \<and>
     ctx_event ctx' = Some evt \<and> w_ext w3 = w_ext w2 \<and> w_now w3 = w_now w2 \<and>
     ev_Error (w_events w3 ! evt) = (case r of Err e \<Rightarrow> Some e | _ \<Rightarrow> None) \<and>
     ev_Result (w_events w3 ! evt) =
       (case r of Err e \<Rightarrow> if errors_is e ErrNotFound then ''miss'' else ''fail'' | _ \<Rightarrow> ''hit'') \<and>
     ev_Latency (w_events w3 ! evt) = w_now w2 - w_now w \<and>
     ev_customFields (w_events w3 ! evt) = ev_customFields (w_events w2 ! evt)"
proof -
  let ?w3 = "update_event evt (complete_event True (final_err r) (w_now w2 - w_now w)) w2"
  obtain w4 where w4: "m_Record m ctx' evt ?w3 = (Ok (), w4)" using m [of ?w3] by (metis prod.collapse)
  have "ObservableDecorator_Get o' ctx k opts w = (r, w4)"
    using ob i call w4 by (simp add: ObservableDecorator_Get_def obs_defer_def record_event_def)
  moreover have "w_events ?w3 ! evt = complete_event True (final_err r) (w_now w2 - w_now w) (w_events w2 ! evt)"
    by (rule update_event_nth [OF len])
  ultimately show ?thesis using w4 obs_initCtx_facts(5) [OF i]
    by (intro exI [of _ ?w3])
      (simp add: complete_event_def final_err_def ResultFromErr_def telemetry_names split: outcome.split)
qed

theorem ObservableDecorator_records_witness:
  "\<exists>w' e. ObservableDecorator_Get
       \<lparr>od_ob = silent, od_storeName = ''slow'', od_cacheName = ''c'',
        od_cache = NewBaseCache TInt (SlowMapStore demo_map)\<rparr> Background ''k'' [] demo_world = (Err e, w')"
proof -
  let ?o = "\<lparr>od_ob = silent, od_storeName = ''slow'', od_cacheName = ''c'',
        od_cache = NewBaseCache TInt (SlowMapStore demo_map)\<rparr>"
  obtain ctx' evt w1 where i: "obs_initCtx ?o Background OpGet demo_world = ((ctx', evt), w1)"
    by (metis prod.exhaust)
  note F = obs_initCtx_facts [OF i]
  have w1: "evt < length (w_events w1)" "map_data demo_map w1 = Map.empty"
    using i by (auto simp: obs_initCtx_def new_event_def map_data_def demo_world_def)
  then have c: "c_Get (od_cache ?o) ctx' ''k'' [] w1 =
      (Err (Errorf ''key=%s not found: %w'' [AStr ''k'', AErr ErrNotFound]), sleep 0 w1)"
    by (simp add: BaseCache_Get_def SlowMapStore_Get_def)
  have "\<exists>w3. ObservableDecorator_Get ?o Background ''k'' [] demo_world =
     (Err (Errorf ''key=%s not found: %w'' [AStr ''k'', AErr ErrNotFound]), snd (m_Record NoopMetrics ctx' evt w3))"
    using ObservableDecorator_records [OF _ _ _ i c, of "DefaultObservable no_slog" NoopMetrics] w1(1)
    by (auto simp: silent_def DefaultObservable_def NoopMetrics_def sleep_def)
  then show ?thesis by blast
qed

end
