(* ===== verification/Singleflight.thy ===== *)
theory Singleflight
  imports Observable_Decorator
begin

text \<open>
  core/decorator/singleflight.go and the loader wrapper of core/decorator/loaderfn.go.

  The groups of golang.org/x/sync/singleflight, and which case a \<open>select\<close> takes, are parameters:
  a \<open>runtime\<close>. \<open>rt_Do rt g k fn\<close> is \<open>g.Do(k, fn)\<close> on the group with number \<open>g\<close> (groups are
  numbered in the order they are allocated); it returns the value and error, and whether they are
  shared. \<open>rt_DoChan rt g k fn ctx\<close> is the \<open>select\<close> between the channel of \<open>g.DoChan(k, fn)\<close> and
  \<open>ctx.Done()\<close>: the result received, or None if the second case was taken, and the world then.
\<close>

record 'x runtime =
  rt_Do :: "nat \<Rightarrow> key \<Rightarrow> ('x world \<Rightarrow> gval result \<times> 'x world) \<Rightarrow> 'x world \<Rightarrow> (gval result \<times> bool) \<times> 'x world"
  rt_DoChan :: "nat \<Rightarrow> key \<Rightarrow> ('x world \<Rightarrow> gval result \<times> 'x world) \<Rightarrow> ctx \<Rightarrow> 'x world \<Rightarrow> gval result option \<times> 'x world"

text \<open>\<open>&singleflight.Group{}\<close>\<close>

definition new_group :: "'x world \<Rightarrow> nat \<times> 'x world" where
  "new_group w = (w_groups w, w\<lparr>w_groups := Suc (w_groups w)\<rparr>)"

definition conversion_panic :: string where
  "conversion_panic = ''interface conversion''"

text \<open>The unchecked type assertion \<open>v.(T)\<close>\<close>

definition must_assert :: "gotype \<Rightarrow> gval \<Rightarrow> gval result" where
  "must_assert T v = (case type_assert T v of Some u \<Rightarrow> Ok u | None \<Rightarrow> Panic conversion_panic)"

section \<open>Loader functions\<close>

type_synonym 'x loader = "ctx \<Rightarrow> key \<Rightarrow> call_option list \<Rightarrow> 'x world \<Rightarrow> gval result \<times> 'x world"

text \<open>\<open>ctx.Done()\<close> is closed exactly when \<open>ctx.Err()\<close> is not nil, so the inner None cannot happen.\<close>

definition SingleflightWrapper :: "gotype \<Rightarrow> 'x runtime \<Rightarrow> nat \<Rightarrow> 'x loader \<Rightarrow> 'x loader" where
  "SingleflightWrapper T rt g fn = (\<lambda>ctx k opts w.
     case rt_DoChan rt g k (fn ctx k opts) ctx w of
       (None, w) \<Rightarrow>
         (case ctx_Err ctx w of
            Some e \<Rightarrow> (Err e, w)
          | None \<Rightarrow> (Panic ''Done() of a context that is not done'', w))
     | (Some res, w) \<Rightarrow> (bind_ok res (must_assert T), w))"

section \<open>The decorator\<close>

definition sf_addTags :: "ctx \<Rightarrow> bool \<Rightarrow> 'x world \<Rightarrow> 'x world" where
  "sf_addTags ctx shared w =
     AddCustomFields ctx [(''shared'', if shared then ''true'' else ''false'')] w"

text \<open>A panic of the function given to \<open>Do\<close> is raised again in every caller.\<close>

definition SingleflightDecorator_Get ::
    "gotype \<Rightarrow> 'x runtime \<Rightarrow> nat \<Rightarrow> 'x cache \<Rightarrow> ctx \<Rightarrow> key \<Rightarrow> call_option list \<Rightarrow> 'x world \<Rightarrow> gval result \<times> 'x world" where
  "SingleflightDecorator_Get T rt g c ctx k opts w =
     (let ((val, shared), w1) = rt_Do rt g k (c_Get c ctx k opts) w in
      case val of
        Panic m \<Rightarrow> (Panic m, w1)
      | Err e \<Rightarrow> (Err e, sf_addTags ctx shared w1)
      | Ok v \<Rightarrow> (must_assert T v, sf_addTags ctx shared w1))"

definition SingleflightDecorator_Set ::
    "'x cache \<Rightarrow> ctx \<Rightarrow> key \<Rightarrow> gval \<Rightarrow> duration \<Rightarrow> call_option list \<Rightarrow> 'x world \<Rightarrow> unit result \<times> 'x world" where
  "SingleflightDecorator_Set c ctx k val ttl opts w = c_Set c ctx k val ttl opts w"

definition sf_ttl_closure :: "gotype \<Rightarrow> 'x cache \<Rightarrow> ctx \<Rightarrow> key \<Rightarrow> call_option list \<Rightarrow> 'x world \<Rightarrow> gval result \<times> 'x world" where
  "sf_ttl_closure T c ctx k opts w =
     on_ok (c_GetWithTTL c ctx k opts w) (\<lambda>(v, ttl) w. (Ok (VWithTTL T v ttl), w))"

definition SingleflightDecorator_GetWithTTL ::
    "gotype \<Rightarrow> 'x runtime \<Rightarrow> nat \<Rightarrow> 'x cache \<Rightarrow> ctx \<Rightarrow> key \<Rightarrow> call_option list \<Rightarrow> 'x world \<Rightarrow> (gval \<times> duration) result \<times> 'x world" where
  "SingleflightDecorator_GetWithTTL T rt g c ctx k opts w =
     (let ((valAny, shared), w1) = rt_Do rt g k (sf_ttl_closure T c ctx k opts) w in
      case valAny of
        Panic m \<Rightarrow> (Panic m, w1)
      | Err e \<Rightarrow> (Err e, sf_addTags ctx shared w1)
      | Ok v \<Rightarrow>
          (case type_assert (TWithTTL T) v of
             Some (VWithTTL T' u ttl) \<Rightarrow> (Ok (u, ttl), sf_addTags ctx shared w1)
           | _ \<Rightarrow> (Panic conversion_panic, sf_addTags ctx shared w1)))"

definition SingleflightDecorator_Delete ::
    "'x cache \<Rightarrow> ctx \<Rightarrow> key \<Rightarrow> call_option list \<Rightarrow> 'x world \<Rightarrow> unit result \<times> 'x world" where
  "SingleflightDecorator_Delete c ctx k opts w = c_Delete c ctx k opts w"

definition SingleflightDecorator_Clear :: "'x cache \<Rightarrow> ctx \<Rightarrow> 'x world \<Rightarrow> unit result \<times> 'x world" where
  "SingleflightDecorator_Clear c ctx w = c_Clear c ctx w"

definition SingleflightDecorator :: "gotype \<Rightarrow> 'x runtime \<Rightarrow> nat \<Rightarrow> 'x cache \<Rightarrow> 'x cache" where
  "SingleflightDecorator T rt g c =
     \<lparr>c_Get = SingleflightDecorator_Get T rt g c, c_Set = SingleflightDecorator_Set c,
      c_GetWithTTL = SingleflightDecorator_GetWithTTL T rt g c,
      c_Delete = SingleflightDecorator_Delete c, c_Clear = SingleflightDecorator_Clear c\<rparr>"

lemma SingleflightDecorator_ops [simp, cache_ops]:
  "c_Get (SingleflightDecorator T rt g c) = SingleflightDecorator_Get T rt g c"
  "c_Set (SingleflightDecorator T rt g c) = SingleflightDecorator_Set c"
  "c_GetWithTTL (SingleflightDecorator T rt g c) = SingleflightDecorator_GetWithTTL T rt g c"
  "c_Delete (SingleflightDecorator T rt g c) = SingleflightDecorator_Delete c"
  "c_Clear (SingleflightDecorator T rt g c) = SingleflightDecorator_Clear c"
  by (simp_all add: SingleflightDecorator_def)

section \<open>What is documented of the groups\<close>

text \<open>
  Without overlapping calls a group just runs the function; when the context is done before the
  function has returned, the \<open>select\<close> may end at any time from then on (what the function does
  outside is counted as done). In general \<open>Do\<close> returns the result
  of the caller's own function or, when another call for the same key of the same group is in
  flight, that call's result, and then says it is shared. \<open>flights g k r\<close> is: \<open>r\<close> is the
  result of some call that may be in flight for \<open>k\<close> on \<open>g\<close>.
\<close>

definition sequential :: "'x runtime \<Rightarrow> bool" where
  "sequential rt \<longleftrightarrow>
     (\<forall>g k fn w. rt_Do rt g k fn w = (let (r, w') = fn w in ((r, False), w'))) \<and>
     (\<forall>g k fn ctx w r w'. fn w = (r, w') \<longrightarrow>
        rt_DoChan rt g k fn ctx w = (Some r, w') \<or>
        (\<exists>t. rt_DoChan rt g k fn ctx w = (None, w'\<lparr>w_now := t\<rparr>) \<and> ctx_Err ctx (w'\<lparr>w_now := t\<rparr>) \<noteq> None \<and> t \<le> w_now w'))"

text \<open>A \<open>select\<close> that does not wait: it ends when the context is done, if the function runs longer.\<close>

definition prompt :: "'x runtime \<Rightarrow> bool" where
  "prompt rt \<longleftrightarrow> (\<forall>g k fn ctx w t e. ctx_deadline ctx = Some (t, e) \<longrightarrow> max (w_now w) t < w_now (snd (fn w)) \<longrightarrow>
     (\<exists>w'. rt_DoChan rt g k fn ctx w = (None, w') \<and> w_now w' = max (w_now w) t))"

definition shares_flights :: "'x runtime \<Rightarrow> (nat \<Rightarrow> key \<Rightarrow> gval result \<Rightarrow> bool) \<Rightarrow> bool" where
  "shares_flights rt flights \<longleftrightarrow>
     (\<forall>g k fn w r sh w'. rt_Do rt g k fn w = ((r, sh), w') \<longrightarrow>
        (\<exists>w0. fst (fn w0) = r) \<or> (sh \<and> flights g k r))"

definition seq_runtime :: "'x runtime" where
  "seq_runtime =
     \<lparr>rt_Do = (\<lambda>g k fn w. let (r, w') = fn w in ((r, False), w')),
      rt_DoChan = (\<lambda>g k fn ctx w. let (r, w') = fn w in
        case ctx_deadline ctx of
          None \<Rightarrow> (Some r, w')
        | Some (t, e) \<Rightarrow>
            if max (w_now w) t < w_now w' then (None, w'\<lparr>w_now := max (w_now w) t\<rparr>) else (Some r, w'))\<rparr>"

lemma seq_runtime_sequential [simp]: "sequential seq_runtime"
  by (auto simp: sequential_def seq_runtime_def ctx_Err_def split: option.split)

lemma seq_runtime_prompt [simp]: "prompt seq_runtime"
  by (auto simp: prompt_def seq_runtime_def split: prod.split)

lemma sequential_DoChan:
  assumes "sequential rt" and "ctx_deadline ctx = None"
  shows "rt_DoChan rt g k fn ctx w = (Some (fst (fn w)), snd (fn w))"
proof -
  obtain r w' where f: "fn w = (r, w')" by fastforce
  with assms(1) have "rt_DoChan rt g k fn ctx w = (Some r, w') \<or>
      (\<exists>t. rt_DoChan rt g k fn ctx w = (None, w'\<lparr>w_now := t\<rparr>) \<and> ctx_Err ctx (w'\<lparr>w_now := t\<rparr>) \<noteq> None \<and> t \<le> w_now w')"
    unfolding sequential_def by blast
  with f assms(2) show ?thesis by auto
qed

lemma must_assert_Ok [simp]: "type_assert T v = Some v \<Longrightarrow> must_assert T v = Ok v"
  by (simp add: must_assert_def)

lemma type_assert_withTTL [simp]: "type_assert (TWithTTL T) (VWithTTL T v d) = Some (VWithTTL T v d)"
  by (simp add: type_assert_def)

lemma type_assert_withTTL_iff:
  "type_assert (TWithTTL T) v = Some u \<longleftrightarrow> (\<exists>x d. v = VWithTTL T x d \<and> u = v)"
  by (cases v) (auto simp: type_assert_def split: if_splits)

section \<open>The decorator keeps the contract\<close>

lemma sf_addTags_reads: "blind view \<Longrightarrow> reads view w (sf_addTags ctx sh w)"
  by (rule blind_reads) (simp_all add: sf_addTags_def)

lemma sequential_Get:
  assumes "sequential rt" and "c_Get c ctx k opts w = (r, w1)"
  shows "SingleflightDecorator_Get T rt g c ctx k opts w =
     (bind_ok r (must_assert T), if is_panic r then w1 else sf_addTags ctx False w1)"
  using assms by (cases r) (simp_all add: SingleflightDecorator_Get_def sequential_def)

lemma sequential_GetWithTTL:
  assumes "sequential rt" and "c_GetWithTTL c ctx k opts w = (r, w1)"
  shows "SingleflightDecorator_GetWithTTL T rt g c ctx k opts w =
     (r, if is_panic r then w1 else sf_addTags ctx False w1)"
  using assms
  by (cases r) (auto simp: SingleflightDecorator_GetWithTTL_def sequential_def sf_ttl_closure_def)

lemma reads_tags:
  assumes "blind view" and "reads view w w1"
  shows "reads view w (if p then w1 else sf_addTags ctx False w1)"
  using assms by (auto intro: reads_trans sf_addTags_reads)

lemma reports_typed:
  "typed T view \<Longrightarrow> reports (view w k t) r \<Longrightarrow> reports (view w k t) (bind_ok r (must_assert T))"
  by (cases "view w k t"; cases r) (auto dest: typedD)

lemma SingleflightDecorator_contract:
  assumes C: "cache_contract c view storable clock" and T: "typed T view" and rt: "sequential rt"
  shows "cache_contract (SingleflightDecorator T rt g c) view storable clock"
proof -
  note B = cache_contract.view_blind [OF C]
  show ?thesis
  proof (unfold_locales, goal_cases)
    case 1 show ?case by (rule B)
  next
    case (2 ctx k opts w r w')
    obtain r1 w1 where g: "c_Get c ctx k opts w = (r1, w1)" by (cases "c_Get c ctx k opts w")
    from 2(2) sequential_Get [OF rt g] have r: "r = bind_ok r1 (must_assert T)"
      and w': "w' = (if is_panic r1 then w1 else sf_addTags ctx False w1)" by simp_all
    from cache_contract.Get_law [OF C 2(1) g] have L: "reads view w w1"
      "\<exists>t. w_now w \<le> t \<and> t \<le> w_now w1 \<and> reports (view w k t) r1" by auto
    then show ?case unfolding r w' using reports_typed [OF T] reads_tags [OF B]
      by (auto simp: sf_addTags_def)
  next
    case (3 ctx k opts w r w')
    obtain r1 w1 where g: "c_GetWithTTL c ctx k opts w = (r1, w1)" by (cases "c_GetWithTTL c ctx k opts w")
    from 3(2) sequential_GetWithTTL [OF rt g, of T g] have r: "r = r1"
      and w': "w' = (if is_panic r1 then w1 else sf_addTags ctx False w1)" by auto
    from cache_contract.GetWithTTL_law [OF C 3(1) g] have L: "reads view w w1"
      "\<exists>t. w_now w \<le> t \<and> t \<le> w_now w1 \<and> reports_ttl (view w k t) t r1" by auto
    then show ?case unfolding r w' using reads_tags [OF B] by (auto simp: sf_addTags_def)
  qed (use cache_contract.Set_law [OF C] cache_contract.Set_negative [OF C]
      cache_contract.Delete_law [OF C] cache_contract.Clear_law [OF C] in
      \<open>simp_all add: SingleflightDecorator_Set_def SingleflightDecorator_Delete_def
        SingleflightDecorator_Clear_def\<close>)
qed

section \<open>Overlapping calls\<close>

lemma shares_flights_Get:
  assumes "shares_flights rt flights" and "\<And>w. \<not> is_panic (fst (c_Get c ctx k opts w))"
    and "\<And>w v. fst (c_Get c ctx k opts w) = Ok v \<Longrightarrow> type_assert T v = Some v"
    and "\<And>r. flights g k r \<Longrightarrow> \<not> is_panic r" and "\<And>v. flights g k (Ok v) \<Longrightarrow> type_assert T v = Some v"
  shows "\<not> is_panic (fst (SingleflightDecorator_Get T rt g c ctx k opts w))"
proof -
  obtain r sh w1 where d: "rt_Do rt g k (c_Get c ctx k opts) w = ((r, sh), w1)"
    by (metis prod.exhaust)
  with assms(1) have "(\<exists>w0. fst (c_Get c ctx k opts w0) = r) \<or> flights g k r"
    unfolding shares_flights_def by metis
  with assms(2-5) have "\<not> is_panic r" and "\<And>v. r = Ok v \<Longrightarrow> type_assert T v = Some v" by auto
  with d show ?thesis by (cases r) (simp_all add: SingleflightDecorator_Get_def)
qed

section \<open>Properties\<close>

text \<open>When calls do not overlap, the singleflight decorator keeps the contract of the cache it
  wraps, as long as every visible value of that cache is a non-nil T.\<close>

theorem SingleflightDecorator_transparent:
  assumes "cache_contract c view storable clock" and "typed T view" and "sequential rt"
  shows "cache_contract (SingleflightDecorator T rt g c) view storable clock"
  by (rule SingleflightDecorator_contract [OF assms])

theorem SingleflightDecorator_transparent_witness:
  "cache_contract (SingleflightDecorator TInt seq_runtime 0 (NewBaseCache TInt (SlowMapStore demo_map)))
     (typed_view TInt (map_view demo_map)) (\<lambda>v. type_assert TInt v = Some v) (\<lambda>t. zero_time < t)"
  by (rule SingleflightDecorator_transparent [OF map_base_contract]) simp_all

lemma shares_flights_GetWithTTL:
  assumes "shares_flights rt flights" and "\<And>w. \<not> is_panic (fst (c_GetWithTTL c ctx k opts w))"
    and "\<And>r. flights g k r \<Longrightarrow> \<not> is_panic r"
    and "\<And>v. flights g k (Ok v) \<Longrightarrow> type_assert (TWithTTL T) v = Some v"
  shows "\<not> is_panic (fst (SingleflightDecorator_GetWithTTL T rt g c ctx k opts w))"
proof -
  obtain r sh w1 where d: "rt_Do rt g k (sf_ttl_closure T c ctx k opts) w = ((r, sh), w1)"
    by (metis prod.exhaust)
  with assms(1) consider w0 where "fst (sf_ttl_closure T c ctx k opts w0) = r" | "flights g k r"
    unfolding shares_flights_def by metis
  then have r: "\<not> is_panic r \<and> (\<forall>v. r = Ok v \<longrightarrow> (\<exists>u ttl. v = VWithTTL T u ttl))"
  proof cases
    case 1
    with assms(2) [of w0] show ?thesis
      by (auto simp: sf_ttl_closure_def on_ok_def split: prod.splits outcome.splits)
  next
    case 2
    with assms(3,4) show ?thesis by (auto simp: type_assert_withTTL_iff)
  qed
  with d show ?thesis
    by (cases r) (auto simp: SingleflightDecorator_GetWithTTL_def)
qed

text \<open>C26: with overlapping calls, a lookup through the singleflight decorator does not panic and
  returns either its own lookup's outcome or that of a flight it joined, provided that no lookup
  panics and that every flight it may join on that key carries non-nil values of type T.\<close>

theorem SingleflightDecorator_joins:
  assumes "shares_flights rt flights" and "\<And>w. \<not> is_panic (fst (c_Get c ctx k opts w))"
    and "\<And>w v. fst (c_Get c ctx k opts w) = Ok v \<Longrightarrow> type_assert T v = Some v"
    and "\<And>r. flights g k r \<Longrightarrow> \<not> is_panic r" and "\<And>v. flights g k (Ok v) \<Longrightarrow> type_assert T v = Some v"
  shows "\<not> is_panic (fst (SingleflightDecorator_Get T rt g c ctx k opts w)) \<and>
     ((\<exists>w0. fst (SingleflightDecorator_Get T rt g c ctx k opts w) = fst (c_Get c ctx k opts w0)) \<or>
      flights g k (fst (SingleflightDecorator_Get T rt g c ctx k opts w)))"
proof -
  obtain r sh w1 where d: "rt_Do rt g k (c_Get c ctx k opts) w = ((r, sh), w1)"
    by (metis prod.exhaust)
  with assms(1) have f: "(\<exists>w0. fst (c_Get c ctx k opts w0) = r) \<or> flights g k r"
    unfolding shares_flights_def by metis
  with assms(2-5) have "\<not> is_panic r" and t: "\<And>v. r = Ok v \<Longrightarrow> type_assert T v = Some v" by auto
  then have "fst (SingleflightDecorator_Get T rt g c ctx k opts w) = r"
    using d by (cases r) (simp_all add: SingleflightDecorator_Get_def)
  with f \<open>\<not> is_panic r\<close> show ?thesis by metis
qed

theorem SingleflightDecorator_joins_witness:
  "\<not> is_panic (fst (SingleflightDecorator_Get TInt seq_runtime 0 (NewBaseCache TInt (SlowMapStore demo_map))
       Background ''k'' [] demo_world))"
proof -
  note C = map_base_contract [of TInt demo_map]
  have G: "\<not> is_panic r \<and> (\<forall>v. r = Ok v \<longrightarrow> type_assert TInt v = Some v)"
    if "c_Get (NewBaseCache TInt (SlowMapStore demo_map)) Background ''k'' [] w = (r, w')" for r w w'
  proof -
    from cache_contract.Get_law [OF C _ that] obtain t where
      "reports (typed_view TInt (map_view demo_map) w ''k'' t) r" by auto
    then show ?thesis using reports_not_panic typedD [OF typed_typed_view] reports_Ok by metis
  qed
  have G1: "\<not> is_panic (fst (c_Get (NewBaseCache TInt (SlowMapStore demo_map)) Background ''k'' [] w))" for w
    using G [OF prod.collapse [symmetric]] by blast
  have G2: "type_assert TInt v = Some v"
    if "fst (c_Get (NewBaseCache TInt (SlowMapStore demo_map)) Background ''k'' [] w) = Ok v" for w v
    using G [OF prod.collapse [symmetric]] that by blast
  have S: "shares_flights seq_runtime (\<lambda>g k r. False)"
    by (auto simp: shares_flights_def seq_runtime_def split_beta)
  show ?thesis
    by (rule SingleflightDecorator_joins [where flights = "\<lambda>g k r. False", OF S G1, THEN conjunct1])
      (erule G2, simp_all)
qed

lemma withTTL_not_self: "T \<noteq> TWithTTL T"
  by (induction T) simp_all

text \<open>C27: Get and GetWithTTL of the singleflight decorator share flights although they carry
  different values: a Get that joins the flight of a successful GetWithTTL on the same key panics
  on its type assertion (or, for an interface T, returns the internal pair as the value), and a
  GetWithTTL that joins the flight of a successful Get panics too.\<close>

theorem SingleflightDecorator_mixed_flights:
  assumes hit: "fst (c_GetWithTTL c ctx k opts w0) = Ok (v, ttl)" "fst (c_Get c ctx k opts w0) = Ok v"
    and v: "type_of v \<noteq> Some (TWithTTL T)"
    and get: "rt_Do rt g k (c_Get c ctx k opts) w = ((fst (sf_ttl_closure T c ctx k opts w0), True), w1)"
    and getttl: "rt_Do rt g k (sf_ttl_closure T c ctx k opts) w = ((fst (c_Get c ctx k opts w0), True), w2)"
  shows "fst (SingleflightDecorator_Get T rt g c ctx k opts w) =
           (if T = TAny then Ok (VWithTTL T v ttl) else Panic conversion_panic) \<and>
         fst (SingleflightDecorator_GetWithTTL T rt g c ctx k opts w) = Panic conversion_panic"
proof -
  have "fst (sf_ttl_closure T c ctx k opts w0) = Ok (VWithTTL T v ttl)"
    using hit(1) by (cases "c_GetWithTTL c ctx k opts w0") (simp add: sf_ttl_closure_def)
  with get getttl hit(2) v withTTL_not_self [of T] show ?thesis
    by (auto simp: SingleflightDecorator_Get_def SingleflightDecorator_GetWithTTL_def must_assert_def
        type_assert_def)
qed

theorem SingleflightDecorator_mixed_flights_witness:
  "\<exists>rt w. fst (SingleflightDecorator_Get TInt rt 0 (NewBaseCache TInt (SlowMapStore demo_map)) Background ''k'' [] w)
     = Panic conversion_panic"
proof -
  let ?c = "NewBaseCache TInt (SlowMapStore demo_map)"
  let ?w = "snd (SlowMapStore_Set demo_map Background ''k'' (VInt 7) 0 [] demo_world)"
  let ?fn = "c_Get ?c Background ''k'' []" and ?fn' = "sf_ttl_closure TInt ?c Background ''k'' []"
  let ?rt = "\<lparr>rt_Do = (\<lambda>g k fn w. ((if fst (fn ?w) = fst (?fn ?w) then fst (?fn' ?w) else fst (?fn ?w), True), w)),
              rt_DoChan = (\<lambda>g k fn ctx w. (Some (fst (fn w)), snd (fn w)))\<rparr>"
  have s: "c_Get (SlowMapStore demo_map) Background ''k'' [] ?w = (Ok (VInt 7), sleep 0 ?w)"
    "c_GetWithTTL (SlowMapStore demo_map) Background ''k'' [] ?w = (Ok (VInt 7, 0), sleep 0 ?w)"
    by (simp_all add: SlowMapStore_Get_def SlowMapStore_Set_def SlowMapStore_GetWithTTL_def IsZero_def Let_def)
  have h: "fst (?fn ?w) = Ok (VInt 7)" "fst (c_GetWithTTL ?c Background ''k'' [] ?w) = Ok (VInt 7, 0)"
    "fst (?fn' ?w) = Ok (VWithTTL TInt (VInt 7) 0)"
    using s by (simp_all add: BaseCache_Get_def BaseCache_GetWithTTL_def sf_ttl_closure_def type_assert_def)
  have "fst (SingleflightDecorator_Get TInt ?rt 0 ?c Background ''k'' [] ?w) =
           (if TInt = TAny then Ok (VWithTTL TInt (VInt 7) 0) else Panic conversion_panic) \<and>
         fst (SingleflightDecorator_GetWithTTL TInt ?rt 0 ?c Background ''k'' [] ?w) = Panic conversion_panic"
    by (rule SingleflightDecorator_mixed_flights [OF h(2,1)]) (simp_all add: h)
  then show ?thesis by auto
qed

text \<open>A loader behind the singleflight wrapper returns the flight's outcome, unless the
  caller's own context is done first, in which case it returns the context's error instead; the
  shared flight itself runs in either case.\<close>

theorem SingleflightWrapper_waits:
  assumes "rt_DoChan rt g k (fn ctx k opts) ctx w = (got, w1)" and "got = None \<Longrightarrow> ctx_Err ctx w1 = Some e"
  shows "SingleflightWrapper T rt g fn ctx k opts w =
     (case got of None \<Rightarrow> Err e | Some res \<Rightarrow> bind_ok res (must_assert T), w1)"
  using assms by (cases got) (auto simp: SingleflightWrapper_def)

theorem SingleflightWrapper_waits_witness:
  "fst (SingleflightWrapper TInt seq_runtime 0 (\<lambda>ctx k opts w. (Ok (VInt 7), wait 5 w))
     \<lparr>ctx_deadline = Some (1000000003, DeadlineExceeded), ctx_event = None\<rparr> ''k'' [] demo_world) = Err DeadlineExceeded"
  using SingleflightWrapper_waits [of seq_runtime 0 "''k''" "\<lambda>ctx k opts w. (Ok (VInt 7), wait 5 w)"
      "\<lparr>ctx_deadline = Some (1000000003, DeadlineExceeded), ctx_event = None\<rparr>" "[]" demo_world
      None "(wait 5 demo_world)\<lparr>w_now := 1000000003\<rparr>" DeadlineExceeded TInt]
  by (simp add: seq_runtime_def ctx_Err_def)

end
