(* ===== verification/Loaders.thy ===== *)
theory Loaders
  imports Singleflight
begin

text \<open>
  The two decorators that act on a miss: core/decorator/missed_loader.go (load from the source
  and write back) and core/decorator/nil_cache.go (write back a protection value).
\<close>

text \<open>\<open>if d.ob != nil && d.ob.Logger != nil { d.ob.Logger.ErrorContext(...) }\<close>\<close>

definition log_error_guarded :: "'x observable option \<Rightarrow> ctx \<Rightarrow> string \<Rightarrow> log_args \<Rightarrow> 'x world \<Rightarrow> 'x world" where
  "log_error_guarded ob ctx msg args w =
     (case ob of None \<Rightarrow> w
      | Some o' \<Rightarrow> (case ob_Logger o' of None \<Rightarrow> w | Some l \<Rightarrow> lg_ErrorContext l ctx msg args w))"

text \<open>After a write-back: an error is logged and dropped.\<close>

definition finish_write_back ::
    "'x observable option \<Rightarrow> ctx \<Rightarrow> string \<Rightarrow> key \<Rightarrow> gval \<Rightarrow> unit result \<times> 'x world \<Rightarrow> gval result \<times> 'x world" where
  "finish_write_back ob ctx msg k val = (\<lambda>(r, w).
     case r of
       Ok u \<Rightarrow> (Ok val, w)
     | Err e \<Rightarrow> (Ok val, log_error_guarded ob ctx msg [(''key'', AStr k), (''err'', AErr e)] w)
     | Panic m \<Rightarrow> (Panic m, w))"

section \<open>MissedLoaderDecorator\<close>

record 'x missed_loader =
  ml_cache :: "'x cache"
  ml_loadFn :: "'x loader option"
  ml_writeBackTTL :: duration
  ml_ob :: "'x observable option"

definition MissedLoaderDecorator_Set ::
    "'x missed_loader \<Rightarrow> ctx \<Rightarrow> key \<Rightarrow> gval \<Rightarrow> duration \<Rightarrow> call_option list \<Rightarrow> 'x world \<Rightarrow> unit result \<times> 'x world" where
  "MissedLoaderDecorator_Set d ctx k val ttl opts w = c_Set (ml_cache d) ctx k val ttl opts w"

definition MissedLoaderDecorator_loadFromSource ::
    "'x missed_loader \<Rightarrow> 'x loader \<Rightarrow> ctx \<Rightarrow> key \<Rightarrow> call_option list \<Rightarrow> 'x world \<Rightarrow> gval result \<times> 'x world" where
  "MissedLoaderDecorator_loadFromSource d loadFn ctx k opts w =
     on_ok (loadFn ctx k opts w)
       (\<lambda>val w. finish_write_back (ml_ob d) ctx ''[MissedLoaderDecorator] write back failed.'' k val
                  (MissedLoaderDecorator_Set d ctx k val (ml_writeBackTTL d) opts w))"

definition MissedLoaderDecorator_Get ::
    "'x missed_loader \<Rightarrow> ctx \<Rightarrow> key \<Rightarrow> call_option list \<Rightarrow> 'x world \<Rightarrow> gval result \<times> 'x world" where
  "MissedLoaderDecorator_Get d ctx k opts w =
     (case c_Get (ml_cache d) ctx k opts w of
        (Ok val, w) \<Rightarrow> (Ok val, w)
      | (Panic m, w) \<Rightarrow> (Panic m, w)
      | (Err err, w) \<Rightarrow>
          (case ml_loadFn d of
             Some loadFn \<Rightarrow>
               if errors_is err ErrNotFound
               then MissedLoaderDecorator_loadFromSource d loadFn ctx k opts w
               else (Err err, w)
           | None \<Rightarrow> (Err err, w)))"

definition MissedLoaderDecorator_GetWithTTL ::
    "'x missed_loader \<Rightarrow> ctx \<Rightarrow> key \<Rightarrow> call_option list \<Rightarrow> 'x world \<Rightarrow> (gval \<times> duration) result \<times> 'x world" where
  "MissedLoaderDecorator_GetWithTTL d ctx k opts w =
     (case c_GetWithTTL (ml_cache d) ctx k opts w of
        (Ok (val, ttl), w) \<Rightarrow> (Ok (val, ttl), w)
      | (Panic m, w) \<Rightarrow> (Panic m, w)
      | (Err err, w) \<Rightarrow>
          (case ml_loadFn d of
             Some loadFn \<Rightarrow>
               if errors_is err ErrNotFound
               then on_ok (MissedLoaderDecorator_loadFromSource d loadFn ctx k opts w)
                      (\<lambda>val w. (Ok (val, ml_writeBackTTL d), w))
               else (Err err, w)
           | None \<Rightarrow> (Err err, w)))"

definition MissedLoaderDecorator_Delete ::
    "'x missed_loader \<Rightarrow> ctx \<Rightarrow> key \<Rightarrow> call_option list \<Rightarrow> 'x world \<Rightarrow> unit result \<times> 'x world" where
  "MissedLoaderDecorator_Delete d ctx k opts w = c_Delete (ml_cache d) ctx k opts w"

definition MissedLoaderDecorator_Clear :: "'x missed_loader \<Rightarrow> ctx \<Rightarrow> 'x world \<Rightarrow> unit result \<times> 'x world" where
  "MissedLoaderDecorator_Clear d ctx w = c_Clear (ml_cache d) ctx w"

definition NewMissedLoaderDecorator :: "'x missed_loader \<Rightarrow> 'x cache" where
  "NewMissedLoaderDecorator d =
     \<lparr>c_Get = MissedLoaderDecorator_Get d, c_Set = MissedLoaderDecorator_Set d,
      c_GetWithTTL = MissedLoaderDecorator_GetWithTTL d,
      c_Delete = MissedLoaderDecorator_Delete d, c_Clear = MissedLoaderDecorator_Clear d\<rparr>"

lemma NewMissedLoaderDecorator_ops [simp, cache_ops]:
  "c_Get (NewMissedLoaderDecorator d) = MissedLoaderDecorator_Get d"
  "c_Set (NewMissedLoaderDecorator d) = MissedLoaderDecorator_Set d"
  "c_GetWithTTL (NewMissedLoaderDecorator d) = MissedLoaderDecorator_GetWithTTL d"
  "c_Delete (NewMissedLoaderDecorator d) = MissedLoaderDecorator_Delete d"
  "c_Clear (NewMissedLoaderDecorator d) = MissedLoaderDecorator_Clear d"
  by (simp_all add: NewMissedLoaderDecorator_def)

section \<open>NilCacheDecorator\<close>

record 'x nil_cache =
  nc_cache :: "'x cache"
  nc_protectionFn :: "(key \<Rightarrow> gval) option"
  nc_writeBackTTL :: duration
  nc_ob :: "'x observable option"

definition NilCacheDecorator_Set ::
    "'x nil_cache \<Rightarrow> ctx \<Rightarrow> key \<Rightarrow> gval \<Rightarrow> duration \<Rightarrow> call_option list \<Rightarrow> 'x world \<Rightarrow> unit result \<times> 'x world" where
  "NilCacheDecorator_Set d ctx k val ttl opts w = c_Set (nc_cache d) ctx k val ttl opts w"

definition NilCacheDecorator_protectFromPenetration ::
    "'x nil_cache \<Rightarrow> (key \<Rightarrow> gval) \<Rightarrow> ctx \<Rightarrow> key \<Rightarrow> call_option list \<Rightarrow> 'x world \<Rightarrow> gval result \<times> 'x world" where
  "NilCacheDecorator_protectFromPenetration d protectionFn ctx k opts w =
     (let val = protectionFn k in
      finish_write_back (nc_ob d) ctx ''[NilCacheDecorator] write back failed.'' k val
        (NilCacheDecorator_Set d ctx k val (nc_writeBackTTL d) opts w))"

definition NilCacheDecorator_Get ::
    "'x nil_cache \<Rightarrow> ctx \<Rightarrow> key \<Rightarrow> call_option list \<Rightarrow> 'x world \<Rightarrow> gval result \<times> 'x world" where
  "NilCacheDecorator_Get d ctx k opts w =
     (case c_Get (nc_cache d) ctx k opts w of
        (Ok val, w) \<Rightarrow> (Ok val, w)
      | (Panic m, w) \<Rightarrow> (Panic m, w)
      | (Err err, w) \<Rightarrow>
          (case nc_protectionFn d of
             Some protectionFn \<Rightarrow>
               if errors_is err ErrNotFound
               then NilCacheDecorator_protectFromPenetration d protectionFn ctx k opts w
               else (Err err, w)
           | None \<Rightarrow> (Err err, w)))"

definition NilCacheDecorator_GetWithTTL ::
    "'x nil_cache \<Rightarrow> ctx \<Rightarrow> key \<Rightarrow> call_option list \<Rightarrow> 'x world \<Rightarrow> (gval \<times> duration) result \<times> 'x world" where
  "NilCacheDecorator_GetWithTTL d ctx k opts w =
     (case c_GetWithTTL (nc_cache d) ctx k opts w of
        (Ok (val, ttl), w) \<Rightarrow> (Ok (val, ttl), w)
      | (Panic m, w) \<Rightarrow> (Panic m, w)
      | (Err err, w) \<Rightarrow>
          (case nc_protectionFn d of
             Some protectionFn \<Rightarrow>
               if errors_is err ErrNotFound
               then on_ok (NilCacheDecorator_protectFromPenetration d protectionFn ctx k opts w)
                      (\<lambda>val w. (Ok (val, nc_writeBackTTL d), w))
               else (Err err, w)
           | None \<Rightarrow> (Err err, w)))"

definition NilCacheDecorator_Delete ::
    "'x nil_cache \<Rightarrow> ctx \<Rightarrow> key \<Rightarrow> call_option list \<Rightarrow> 'x world \<Rightarrow> unit result \<times> 'x world" where
  "NilCacheDecorator_Delete d ctx k opts w = c_Delete (nc_cache d) ctx k opts w"

definition NilCacheDecorator_Clear :: "'x nil_cache \<Rightarrow> ctx \<Rightarrow> 'x world \<Rightarrow> unit result \<times> 'x world" where
  "NilCacheDecorator_Clear d ctx w = c_Clear (nc_cache d) ctx w"

definition NewNilCacheDecorator :: "'x nil_cache \<Rightarrow> 'x cache" where
  "NewNilCacheDecorator d =
     \<lparr>c_Get = NilCacheDecorator_Get d, c_Set = NilCacheDecorator_Set d,
      c_GetWithTTL = NilCacheDecorator_GetWithTTL d,
      c_Delete = NilCacheDecorator_Delete d, c_Clear = NilCacheDecorator_Clear d\<rparr>"

lemma NewNilCacheDecorator_ops [simp, cache_ops]:
  "c_Get (NewNilCacheDecorator d) = NilCacheDecorator_Get d"
  "c_Set (NewNilCacheDecorator d) = NilCacheDecorator_Set d"
  "c_GetWithTTL (NewNilCacheDecorator d) = NilCacheDecorator_GetWithTTL d"
  "c_Delete (NewNilCacheDecorator d) = NilCacheDecorator_Delete d"
  "c_Clear (NewNilCacheDecorator d) = NilCacheDecorator_Clear d"
  by (simp_all add: NewNilCacheDecorator_def)

section \<open>Filling a miss\<close>

text \<open>Both decorators are instances of one shape: a protection value is a loader that cannot fail.\<close>

definition fill_miss ::
    "string \<Rightarrow> 'x observable option \<Rightarrow> duration \<Rightarrow> 'x cache \<Rightarrow> 'x loader \<Rightarrow> ctx \<Rightarrow> key \<Rightarrow> call_option list \<Rightarrow> 'x world \<Rightarrow> gval result \<times> 'x world" where
  "fill_miss msg ob ttl c f ctx k opts w =
     on_ok (f ctx k opts w) (\<lambda>val w. finish_write_back ob ctx msg k val (c_Set c ctx k val ttl opts w))"

definition fill_Get ::
    "string \<Rightarrow> 'x observable option \<Rightarrow> duration \<Rightarrow> 'x cache \<Rightarrow> 'x loader \<Rightarrow> ctx \<Rightarrow> key \<Rightarrow> call_option list \<Rightarrow> 'x world \<Rightarrow> gval result \<times> 'x world" where
  "fill_Get msg ob ttl c f ctx k opts w =
     (case c_Get c ctx k opts w of
        (r, w1) \<Rightarrow> if not_found r then fill_miss msg ob ttl c f ctx k opts w1 else (r, w1))"

definition protection_loader :: "(key \<Rightarrow> gval) \<Rightarrow> 'x loader" where
  "protection_loader p ctx k opts w = (Ok (p k), w)"

lemma MissedLoaderDecorator_Get_fill:
  "ml_loadFn d = Some f \<Longrightarrow> MissedLoaderDecorator_Get d =
     fill_Get ''[MissedLoaderDecorator] write back failed.'' (ml_ob d) (ml_writeBackTTL d) (ml_cache d) f"
  by (auto simp: fun_eq_iff MissedLoaderDecorator_Get_def fill_Get_def fill_miss_def
      MissedLoaderDecorator_loadFromSource_def MissedLoaderDecorator_Set_def not_found_def
      split: prod.splits outcome.splits)

lemma NilCacheDecorator_Get_fill:
  "nc_protectionFn d = Some p \<Longrightarrow> NilCacheDecorator_Get d =
     fill_Get ''[NilCacheDecorator] write back failed.'' (nc_ob d) (nc_writeBackTTL d) (nc_cache d)
       (protection_loader p)"
  by (auto simp: fun_eq_iff NilCacheDecorator_Get_def fill_Get_def fill_miss_def protection_loader_def
      NilCacheDecorator_protectFromPenetration_def NilCacheDecorator_Set_def not_found_def Let_def
      split: prod.splits outcome.splits)

lemma no_loader_Get: "ml_loadFn d = None \<Longrightarrow> MissedLoaderDecorator_Get d = c_Get (ml_cache d)"
  by (auto simp: fun_eq_iff MissedLoaderDecorator_Get_def split: prod.splits outcome.splits)

lemma no_protection_Get: "nc_protectionFn d = None \<Longrightarrow> NilCacheDecorator_Get d = c_Get (nc_cache d)"
  by (auto simp: fun_eq_iff NilCacheDecorator_Get_def split: prod.splits outcome.splits)

lemma log_error_guarded_quiet: "quiet view ob \<Longrightarrow> reads view w (log_error_guarded ob ctx msg args w)"
  unfolding quiet_def log_error_guarded_def log_error_def
  by (fastforce split: option.splits)

context cache_contract
begin

lemma fill_miss_written:
  assumes q: "quiet view ob" and ctx: "ctx_deadline ctx = None" and opts: "opts_total opts"
    and ttl: "0 \<le> ttl" and f: "f ctx k opts w1 = (Ok v, w2)" and v: "storable v" "clock (w_now w2)"
    and c': "c_Set c ctx k v ttl opts = c_Set c' ctx k v ttl opts"
    and r: "fill_miss msg ob ttl c' f ctx k opts w1 = (r, w')"
  shows "r = Ok v \<and> writes view w2 w' k (stored v ttl)"
proof -
  obtain u w3 where s: "c_Set c ctx k v ttl opts w2 = (u, w3)" by (cases "c_Set c ctx k v ttl opts w2")
  from Set_law [OF ctx opts v(1) ttl v(2) s] s f r c' show ?thesis
    by (auto simp: fill_miss_def finish_write_back_def)
qed

end

text \<open>
  Read-through: a visible value is returned without calling the loader; a missing one is loaded
  once, returned, and then visible in the cache for the write-back time.
\<close>

lemma fill_Get_cases:
  assumes C: "cache_contract c view storable clock" and q: "quiet view ob"
    and ctx: "ctx_deadline ctx = None" and opts: "opts_total opts" and ttl: "0 \<le> ttl"
    and g: "fill_Get msg ob ttl c f ctx k opts w = (r, w')"
  obtains (hit) t v d where "w_now w \<le> t" "t \<le> w_now w'" "view w k t = Present v d" "r = Ok v"
      "reads view w w'"
    | (corrupt) e where "r = Err e" "reads view w w'" "\<exists>t. w_now w \<le> t \<and> view w k t = Corrupt"
    | (loaded) w1 v w2 where "reads view w w1" "\<exists>t. w_now w \<le> t \<and> t \<le> w_now w1 \<and> (\<forall>v d. view w k t \<noteq> Present v d)"
      "f ctx k opts w1 = (Ok v, w2)"
      "storable v \<and> clock (w_now w2) \<longrightarrow> r = Ok v \<and> writes view w2 w' k (stored v ttl)"
    | (failed) w1 e where "reads view w w1" "\<exists>t. w_now w \<le> t \<and> t \<le> w_now w1 \<and> (\<forall>v d. view w k t \<noteq> Present v d)"
      "f ctx k opts w1 = (Err e, w')" "r = Err e"
    | (panics) w1 m where "reads view w w1" "f ctx k opts w1 = (Panic m, w')" "r = Panic m"
proof -
  obtain r1 w1 where c: "c_Get c ctx k opts w = (r1, w1)" by (cases "c_Get c ctx k opts w")
  from cache_contract.Get_law [OF C ctx c] obtain t where R: "reads view w w1"
    and t: "w_now w \<le> t" "t \<le> w_now w1" "reports (view w k t) r1" by blast
  show thesis
  proof (cases "not_found r1")
    case False
    with g c have [simp]: "r = r1" "w' = w1" by (auto simp: fill_Get_def)
    show thesis
    proof (cases "view w k t")
      case Absent
      with t False show thesis by simp
    next
      case (Present v d)
      with t show thesis using R hit [of t v d] by simp
    next
      case Corrupt
      with t show thesis using R corrupt by auto
    qed
  next
    case True
    with t have absent: "\<exists>t. w_now w \<le> t \<and> t \<le> w_now w1 \<and> (\<forall>v d. view w k t \<noteq> Present v d)"
      by (metis not_found_simps(1) reports.simps(2))
    from g c True have m: "fill_miss msg ob ttl c f ctx k opts w1 = (r, w')" by (simp add: fill_Get_def)
    obtain lr w2 where f: "f ctx k opts w1 = (lr, w2)" by (cases "f ctx k opts w1")
    show thesis
    proof (cases lr)
      case (Ok v)
      with f cache_contract.fill_miss_written [OF C q ctx opts ttl _ _ _ refl m] show thesis
        using loaded [OF R absent] by blast
    next
      case (Err e)
      with f m have "r = Err e" "w2 = w'" by (auto simp: fill_miss_def)
      with f Err show thesis by (intro failed [OF R absent]) simp_all
    next
      case (Panic p)
      with f m have "r = Panic p" "w2 = w'" by (auto simp: fill_miss_def)
      with f Panic show thesis by (intro panics [OF R]) simp_all
    qed
  qed
qed

text \<open>The same shape for \<open>GetWithTTL\<close>, which reports the write-back time of a filled miss.\<close>

definition fill_GetWithTTL ::
    "string \<Rightarrow> 'x observable option \<Rightarrow> duration \<Rightarrow> 'x cache \<Rightarrow> 'x loader \<Rightarrow> ctx \<Rightarrow> key \<Rightarrow> call_option list \<Rightarrow> 'x world \<Rightarrow> (gval \<times> duration) result \<times> 'x world" where
  "fill_GetWithTTL msg ob ttl c f ctx k opts w =
     (case c_GetWithTTL c ctx k opts w of
        (r, w1) \<Rightarrow> if not_found r then on_ok (fill_miss msg ob ttl c f ctx k opts w1) (\<lambda>v w. (Ok (v, ttl), w))
                   else (r, w1))"

lemma MissedLoaderDecorator_GetWithTTL_fill:
  "ml_loadFn d = Some f \<Longrightarrow> MissedLoaderDecorator_GetWithTTL d =
     fill_GetWithTTL ''[MissedLoaderDecorator] write back failed.'' (ml_ob d) (ml_writeBackTTL d) (ml_cache d) f"
  by (auto simp: fun_eq_iff MissedLoaderDecorator_GetWithTTL_def fill_GetWithTTL_def fill_miss_def
      MissedLoaderDecorator_loadFromSource_def MissedLoaderDecorator_Set_def not_found_def
      split: prod.splits outcome.splits)

lemma NilCacheDecorator_GetWithTTL_fill:
  "nc_protectionFn d = Some p \<Longrightarrow> NilCacheDecorator_GetWithTTL d =
     fill_GetWithTTL ''[NilCacheDecorator] write back failed.'' (nc_ob d) (nc_writeBackTTL d) (nc_cache d)
       (protection_loader p)"
  by (auto simp: fun_eq_iff NilCacheDecorator_GetWithTTL_def fill_GetWithTTL_def fill_miss_def
      protection_loader_def NilCacheDecorator_protectFromPenetration_def NilCacheDecorator_Set_def
      not_found_def Let_def split: prod.splits outcome.splits)

text \<open>A key that is missing from now on.\<close>

definition missing :: "'x view \<Rightarrow> 'x world \<Rightarrow> key \<Rightarrow> bool" where
  "missing view w k \<longleftrightarrow> (\<forall>t. w_now w \<le> t \<longrightarrow> view w k t = Absent)"

lemma fill_Get_missing:
  assumes "cache_contract c view storable clock" and "ctx_deadline ctx = None" and "missing view w k"
  obtains w1 where "reads view w w1"
    "fill_Get msg ob ttl c f ctx k opts w = fill_miss msg ob ttl c f ctx k opts w1"
proof -
  obtain r w1 where g: "c_Get c ctx k opts w = (r, w1)" by (cases "c_Get c ctx k opts w")
  from cache_contract.Get_law [OF assms(1,2) g] assms(3) have "reads view w w1" "not_found r"
    by (auto simp: missing_def)
  with g show thesis by (intro that [of w1]) (auto simp: fill_Get_def)
qed

lemma fill_GetWithTTL_missing:
  assumes "cache_contract c view storable clock" and "ctx_deadline ctx = None" and "missing view w k"
  obtains w1 where "reads view w w1"
    "fill_GetWithTTL msg ob ttl c f ctx k opts w =
       on_ok (fill_miss msg ob ttl c f ctx k opts w1) (\<lambda>v w. (Ok (v, ttl), w))"
proof -
  obtain r w1 where g: "c_GetWithTTL c ctx k opts w = (r, w1)" by (cases "c_GetWithTTL c ctx k opts w")
  from cache_contract.GetWithTTL_law [OF assms(1,2) g] assms(3) have "reads view w w1" "not_found r"
    by (auto simp: missing_def)
  with g show thesis by (intro that [of w1]) (auto simp: fill_GetWithTTL_def)
qed

text \<open>A loader that yields \<open>v\<close>, with whatever effect \<open>src\<close>, at a time the cache can store at.\<close>

definition yields :: "'x loader \<Rightarrow> ctx \<Rightarrow> key \<Rightarrow> call_option list \<Rightarrow> gval \<Rightarrow> ('x world \<Rightarrow> 'x world) \<Rightarrow> bool" where
  "yields f ctx k opts v src \<longleftrightarrow> (\<forall>w. f ctx k opts w = (Ok v, src w))"

text \<open>The world \<open>w'\<close> after a miss in \<open>w\<close> was filled with \<open>v\<close>.\<close>

definition filled ::
    "'x view \<Rightarrow> ('x world \<Rightarrow> 'x world) \<Rightarrow> key \<Rightarrow> gval \<Rightarrow> duration \<Rightarrow> 'x world \<Rightarrow> 'x world \<Rightarrow> bool" where
  "filled view src k v ttl w w' \<longleftrightarrow> (\<exists>w1. reads view w w1 \<and> writes view (src w1) w' k (stored v ttl))"

lemma fill_miss_filled:
  assumes "cache_contract c view storable clock" and "quiet view ob" and "ctx_deadline ctx = None"
    and "opts_total opts" and "0 \<le> ttl" and "yields f ctx k opts v src" and "storable v"
    and "clock (w_now (src w1))" and "reads view w w1"
  shows "\<exists>w'. fill_miss msg ob ttl c f ctx k opts w1 = (Ok v, w') \<and> filled view src k v ttl w w'"
proof -
  obtain r w' where g: "fill_miss msg ob ttl c f ctx k opts w1 = (r, w')"
    by (cases "fill_miss msg ob ttl c f ctx k opts w1")
  have "f ctx k opts w1 = (Ok v, src w1)" using assms(6) by (simp add: yields_def)
  from cache_contract.fill_miss_written [OF assms(1-5) this assms(7,8) refl g] g assms(9)
  show ?thesis unfolding filled_def by blast
qed

section \<open>Properties\<close>

text \<open>C17: read-through. When the key is missing in the cache, Get and GetWithTTL of the missed-loader
  decorator call the loader, return what it loaded (with the write-back time as the remaining
  time), and leave the value visible in the cache for the write-back time; nothing else in the
  cache changes.\<close>

theorem MissedLoader_read_through:
  assumes C: "cache_contract (ml_cache d) view storable clock" and q: "quiet view (ml_ob d)"
    and ctx: "ctx_deadline ctx = None" and opts: "opts_total opts" and ttl: "0 \<le> ml_writeBackTTL d"
    and f: "ml_loadFn d = Some f" "yields f ctx k opts v src"
    and v: "storable v" "\<And>w1. w_now w \<le> w_now w1 \<Longrightarrow> clock (w_now (src w1))"
    and absent: "missing view w k"
  shows "(\<exists>w'. MissedLoaderDecorator_Get d ctx k opts w = (Ok v, w') \<and>
               filled view src k v (ml_writeBackTTL d) w w') \<and>
         (\<exists>w'. MissedLoaderDecorator_GetWithTTL d ctx k opts w = (Ok (v, ml_writeBackTTL d), w') \<and>
               filled view src k v (ml_writeBackTTL d) w w')"
proof
  let ?msg = "''[MissedLoaderDecorator] write back failed.''"
  obtain w1 where w1: "reads view w w1" "MissedLoaderDecorator_Get d ctx k opts w =
      fill_miss ?msg (ml_ob d) (ml_writeBackTTL d) (ml_cache d) f ctx k opts w1"
    using fill_Get_missing [OF C ctx absent] unfolding MissedLoaderDecorator_Get_fill [OF f(1)] by blast
  show "\<exists>w'. MissedLoaderDecorator_Get d ctx k opts w = (Ok v, w') \<and>
               filled view src k v (ml_writeBackTTL d) w w'"
    unfolding w1(2) using reads_now [OF w1(1)] w1(1) v
    by (intro fill_miss_filled [OF C q ctx opts ttl f(2)])
  obtain w2 where w2: "reads view w w2" "MissedLoaderDecorator_GetWithTTL d ctx k opts w =
      on_ok (fill_miss ?msg (ml_ob d) (ml_writeBackTTL d) (ml_cache d) f ctx k opts w2)
        (\<lambda>v w. (Ok (v, ml_writeBackTTL d), w))"
    using fill_GetWithTTL_missing [OF C ctx absent] unfolding MissedLoaderDecorator_GetWithTTL_fill [OF f(1)] by blast
  have "\<exists>w'. fill_miss ?msg (ml_ob d) (ml_writeBackTTL d) (ml_cache d) f ctx k opts w2 = (Ok v, w') \<and>
      filled view src k v (ml_writeBackTTL d) w w'"
    using reads_now [OF w2(1)] w2(1) v by (intro fill_miss_filled [OF C q ctx opts ttl f(2)])
  then show "\<exists>w'. MissedLoaderDecorator_GetWithTTL d ctx k opts w = (Ok (v, ml_writeBackTTL d), w') \<and>
               filled view src k v (ml_writeBackTTL d) w w'"
    unfolding w2(2) by (elim exE conjE) simp
qed

lemma typed_map_missing [simp]: "missing (typed_view T (map_view s)) demo_world k"
  by (simp add: missing_def typed_view_def map_view_with_def map_view_def)

definition demo_missed_loader :: "map_heap missed_loader" where
  "demo_missed_loader =
     \<lparr>ml_cache = NewBaseCache TInt (SlowMapStore demo_map),
      ml_loadFn = Some (\<lambda>ctx k opts w. (Ok (VInt 7), wait 5 w)), ml_writeBackTTL = Hour, ml_ob = silent\<rparr>"

lemma demo_missed_loader_simps [simp]:
  "ml_cache demo_missed_loader = NewBaseCache TInt (SlowMapStore demo_map)"
  "ml_loadFn demo_missed_loader = Some (\<lambda>ctx k opts w. (Ok (VInt 7), wait 5 w))"
  "ml_writeBackTTL demo_missed_loader = Hour" "ml_ob demo_missed_loader = silent"
  by (simp_all add: demo_missed_loader_def)

lemma demo_yields: "yields (\<lambda>ctx k opts w. (Ok (VInt 7), wait 5 w)) ctx k opts (VInt 7) (wait 5)"
  by (simp add: yields_def)

lemma Hour_nonneg [simp]: "0 \<le> Hour"
  by (simp add: duration_defs)

lemma demo_int [simp]: "type_assert TInt (VInt i) = Some (VInt i)"
  by (simp add: type_assert_def)

lemma clock_demo: "w_now demo_world \<le> w_now w \<Longrightarrow> zero_time < w_now (wait 5 w)"
  by (simp add: zero_time_def duration_defs)

lemma demo_miss: "BaseCache_Get T (SlowMapStore demo_map) ctx k opts demo_world =
    (Err (Errorf ''key=%s not found: %w'' [AStr k, AErr ErrNotFound]), sleep 0 demo_world)"
  by (simp add: BaseCache_Get_def SlowMapStore_Get_def)

theorem MissedLoader_read_through_witness:
  "\<exists>w'. MissedLoaderDecorator_Get demo_missed_loader Background ''k'' [] demo_world = (Ok (VInt 7), w')"
  using MissedLoader_read_through [of demo_missed_loader, simplified, OF map_base_contract
      demo_simps(6) opts_total_Nil refl demo_yields, of demo_world "''k''"] clock_demo
  by (auto simp: type_assert_def)

lemma filled_served:
  assumes C: "cache_contract c view storable clock" and ctx: "ctx_deadline ctx = None"
    and fill: "filled view src k v ttl w w'" and src: "\<And>w. w_now w \<le> w_now (src w)"
    and g: "c_Get c ctx k opts (wait dt w') = (r, w2)" and dt: "0 \<le> dt" and ttl: "0 \<le> ttl"
    and live: "ttl = 0 \<or> w_now w2 \<le> w_now w + ttl"
  shows "r = Ok v"
proof -
  obtain w1 t0 where "w_now w \<le> w_now w1" "w_now (src w1) \<le> t0" and w': "t0 \<le> w_now w'"
    and v: "\<And>t. w_now w' \<le> t \<Longrightarrow> view w' k t = stored v ttl t0 t"
    using fill by (auto simp: filled_def writes_def reads_def)
  with src [of w1] have t0: "w_now w \<le> t0" by linarith
  from cache_contract.Get_law [OF C ctx g] obtain t where
    t: "w_now w' + dt \<le> t" "t \<le> w_now w2" "reports (view (wait dt w') k t) r" by auto
  have "view (wait dt w') k t = stored v ttl t0 t"
    using v [of t] t dt blindD [OF cache_contract.view_blind [OF C], of "wait dt w'" w'] by simp
  moreover have "ttl = 0 \<or> t \<le> t0 + ttl" using live t t0 by linarith
  ultimately show ?thesis using t(3) by (auto simp: stored_def split: if_splits)
qed

text \<open>A loaded value is served from the cache: after a Get that filled a miss, a Get of the same
  key within the write-back time does exactly what the inner cache's Get does, returns the loaded
  value, and does not call the loader, whatever the loader is by then.\<close>

theorem MissedLoader_loads_once:
  assumes C: "cache_contract (ml_cache d) view storable clock" and q: "quiet view (ml_ob d)"
    and ctx: "ctx_deadline ctx = None" "ctx_deadline ctx' = None" and opts: "opts_total opts"
    and ttl: "0 \<le> ml_writeBackTTL d" and f: "ml_loadFn d = Some f" "yields f ctx k opts v src"
    and src: "\<And>w. w_now w \<le> w_now (src w)"
    and v: "storable v" "\<And>w1. w_now w \<le> w_now w1 \<Longrightarrow> clock (w_now (src w1))"
    and absent: "missing view w k"
    and first: "MissedLoaderDecorator_Get d ctx k opts w = (r1, w1)"
    and second: "c_Get (ml_cache d) ctx' k opts' (wait dt w1) = (r2, w2)" and dt: "0 \<le> dt"
    and live: "ml_writeBackTTL d = 0 \<or> w_now w2 \<le> w_now w + ml_writeBackTTL d"
  shows "r1 = Ok v \<and> MissedLoaderDecorator_Get (d\<lparr>ml_loadFn := lf\<rparr>) ctx' k opts' (wait dt w1) = (Ok v, w2)"
proof -
  let ?msg = "''[MissedLoaderDecorator] write back failed.''"
  obtain w0 where w0: "reads view w w0" "MissedLoaderDecorator_Get d ctx k opts w =
      fill_miss ?msg (ml_ob d) (ml_writeBackTTL d) (ml_cache d) f ctx k opts w0"
    using fill_Get_missing [OF C ctx(1) absent] unfolding MissedLoaderDecorator_Get_fill [OF f(1)] by blast
  have "\<exists>w'. fill_miss ?msg (ml_ob d) (ml_writeBackTTL d) (ml_cache d) f ctx k opts w0 = (Ok v, w') \<and>
      filled view src k v (ml_writeBackTTL d) w w'"
    using reads_now [OF w0(1)] w0(1) v by (intro fill_miss_filled [OF C q ctx(1) opts ttl f(2)])
  with first w0(2) have r1: "r1 = Ok v" "filled view src k v (ml_writeBackTTL d) w w1" by auto
  from filled_served [OF C ctx(2) r1(2) src second dt ttl live] second
  have "MissedLoaderDecorator_Get (d\<lparr>ml_loadFn := lf\<rparr>) ctx' k opts' (wait dt w1) = (Ok v, w2)"
    by (simp add: MissedLoaderDecorator_Get_def)
  with r1(1) show ?thesis by simp
qed

theorem MissedLoader_loads_once_witness:
  "\<exists>w1 w2. MissedLoaderDecorator_Get demo_missed_loader Background ''k'' [] demo_world = (Ok (VInt 7), w1) \<and>
     MissedLoaderDecorator_Get (demo_missed_loader\<lparr>ml_loadFn := None\<rparr>) Background ''k'' [] (wait Second w1) = (Ok (VInt 7), w2)"
proof -
  let ?d = demo_missed_loader
  obtain r1 w1 where first: "MissedLoaderDecorator_Get ?d Background ''k'' [] demo_world = (r1, w1)"
    by fastforce
  obtain r2 w2 where second: "c_Get (ml_cache ?d) Background ''k'' [] (wait Second w1) = (r2, w2)"
    by fastforce
  have n: "w_now (snd (BaseCache_Get TInt (SlowMapStore demo_map) c k o' w)) = w_now w" for c k o' w
    by (auto simp: BaseCache_Get_def SlowMapStore_Get_def Let_def split: option.splits)
  have "w_now w1 = 1000000005"
    using first
    by (auto simp: demo_miss MissedLoaderDecorator_Get_def MissedLoaderDecorator_loadFromSource_def
        MissedLoaderDecorator_Set_def BaseCache_Set_def SlowMapStore_Set_def finish_write_back_def
        duration_defs Let_def split: prod.splits outcome.splits if_splits)
  then have "w_now w2 \<le> w_now demo_world + Hour"
    using second n [of Background "''k''" "[]" "wait Second w1"] by (simp add: duration_defs)
  then have "r1 = Ok (VInt 7) \<and>
      MissedLoaderDecorator_Get (?d\<lparr>ml_loadFn := None\<rparr>) Background ''k'' [] (wait Second w1) = (Ok (VInt 7), w2)"
    using clock_demo map_base_contract [of TInt demo_map]
    by (intro MissedLoader_loads_once [OF _ _ _ _ _ _ _ demo_yields _ _ _ _ first second,
          where view = "typed_view TInt (map_view demo_map)" and clock = "\<lambda>t. zero_time < t"
            and storable = "\<lambda>v. type_assert TInt v = Some v"])
      (simp_all add: duration_defs)
  with first show ?thesis by blast
qed

text \<open>Failures of a read-through. An error of the cache other than a miss is returned as it is
  and the loader is not run; an error of the loader is returned and nothing is written; a failed
  write-back is only logged, the loaded value is still returned.\<close>

theorem MissedLoader_failures:
  assumes "c_Get (ml_cache d) ctx k opts w = (Err e, w1)" and "ml_loadFn d = Some f"
    and "f ctx k opts w1 = (rl, w2)" and "c_Set (ml_cache d) ctx k v (ml_writeBackTTL d) opts w2 = (Err e3, w3)"
  shows "(\<not> errors_is e ErrNotFound \<longrightarrow> MissedLoaderDecorator_Get d ctx k opts w = (Err e, w1)) \<and>
    (errors_is e ErrNotFound \<and> rl = Err e2 \<longrightarrow> MissedLoaderDecorator_Get d ctx k opts w = (Err e2, w2)) \<and>
    (errors_is e ErrNotFound \<and> rl = Ok v \<longrightarrow>
       MissedLoaderDecorator_Get d ctx k opts w =
         (Ok v, log_error_guarded (ml_ob d) ctx ''[MissedLoaderDecorator] write back failed.''
                  [(''key'', AStr k), (''err'', AErr e3)] w3))"
  using assms
  by (simp add: MissedLoaderDecorator_Get_def MissedLoaderDecorator_loadFromSource_def
      MissedLoaderDecorator_Set_def finish_write_back_def)

theorem MissedLoader_failures_witness:
  "\<exists>w'. MissedLoaderDecorator_Get
     (demo_missed_loader\<lparr>ml_loadFn := Some (\<lambda>ctx k opts w. (Err (Foreign ''db down''), w)), ml_writeBackTTL := -1\<rparr>)
     Background ''k'' [] demo_world = (Err (Foreign ''db down''), w')"
  using MissedLoader_failures [of "demo_missed_loader\<lparr>ml_loadFn := Some (\<lambda>ctx k opts w. (Err (Foreign ''db down''), w)), ml_writeBackTTL := -1\<rparr>"
      Background "''k''" "[]" demo_world _ "sleep 0 demo_world" _ "Err (Foreign ''db down'')" "sleep 0 demo_world" VNil
      "Errorf ''ttl must be >= 0'' []" "sleep 0 demo_world"]
  by (simp add: demo_miss BaseCache_Set_def SlowMapStore_Set_def)

lemma protection_yields: "yields (protection_loader p) ctx k opts (p k) (\<lambda>w. w)"
  by (simp add: yields_def protection_loader_def)



end
