(* ===== verification/Logic_Expire.thy ===== *)
theory Logic_Expire
  imports Loaders
begin

text \<open>
  core/decorator/logic_expire.go: the stored value carries its own deadline; a value past it is
  still returned, after the loader (when there is one) has been called and its value written back.
\<close>

definition LogicTTLValue_IsExpire :: "int \<Rightarrow> int \<Rightarrow> bool" where
  "LogicTTLValue_IsExpire expireAt now = (\<not> IsZero expireAt \<and> After now expireAt)"

record 'x logic_ttl_config =
  ltc_Cache :: "'x cache"
  ltc_DefaultLogicTTL :: duration
  ltc_LoadFn :: "'x loader option"
  ltc_WriteBackTTL :: duration
  ltc_Observer :: "'x observable option"

record 'x logic_ttl =
  lt_cache :: "'x cache"
  lt_ob :: "'x observable option"
  lt_logicExpireMetrics :: "(ctx \<Rightarrow> 'x world \<Rightarrow> unit result \<times> 'x world) option"
  lt_defaultLogicTTL :: duration
  lt_loadFn :: "'x loader option"
  lt_writeBackTTL :: duration

text \<open>\<open>config.Observer.Metrics.(LogicTTLMetrics)\<close>: a nil \<open>Observer\<close> is dereferenced, nil metrics are not.\<close>

definition NewLogicTTLDecorator :: "'x logic_ttl_config \<Rightarrow> 'x logic_ttl result" where
  "NewLogicTTLDecorator config =
     (case ltc_Observer config of
        None \<Rightarrow> Panic nil_deref
      | Some ob \<Rightarrow>
          Ok \<lparr>lt_cache = ltc_Cache config, lt_ob = ltc_Observer config,
              lt_logicExpireMetrics = Option.bind (ob_Metrics ob) m_RecordLogicExpire,
              lt_defaultLogicTTL = ltc_DefaultLogicTTL config, lt_loadFn = ltc_LoadFn config,
              lt_writeBackTTL = ltc_WriteBackTTL config\<rparr>)"

text \<open>The call options are applied to a configuration that is then not used.\<close>

definition LogicTTLDecorator_Set ::
    "gotype \<Rightarrow> 'x logic_ttl \<Rightarrow> ctx \<Rightarrow> key \<Rightarrow> gval \<Rightarrow> duration \<Rightarrow> call_option list \<Rightarrow> 'x world \<Rightarrow> unit result \<times> 'x world" where
  "LogicTTLDecorator_Set T d ctx k val ttl opts w =
     (case apply_each opts \<lparr>CustomField = None\<rparr> of
        Panic m \<Rightarrow> (Panic m, w)
      | Err e \<Rightarrow> (Err e, w)
      | Ok setOptions \<Rightarrow>
          (let expireAt = (if 0 < lt_defaultLogicTTL d then w_now w + lt_defaultLogicTTL d else zero_time)
           in c_Set (lt_cache d) ctx k (VLogic T val expireAt) ttl opts w))"

definition LogicTTLDecorator_onExpire ::
    "gotype \<Rightarrow> 'x logic_ttl \<Rightarrow> ctx \<Rightarrow> key \<Rightarrow> call_option list \<Rightarrow> 'x world \<Rightarrow> unit result \<times> 'x world" where
  "LogicTTLDecorator_onExpire T d ctx k opts w =
     on_ok (case lt_logicExpireMetrics d of None \<Rightarrow> (Ok (), w) | Some m \<Rightarrow> m ctx w)
       (\<lambda>_ w. case lt_loadFn d of
          None \<Rightarrow> (Ok (), w)
        | Some loadFn \<Rightarrow>
            (case loadFn ctx k opts w of
               (Panic m, w) \<Rightarrow> (Panic m, w)
             | (Err err, w) \<Rightarrow>
                 log_error (lt_ob d) ctx ''[LogicTTLDecorator] load from source failed.''
                   [(''key'', AStr k), (''err'', AErr err)] w
             | (Ok val, w) \<Rightarrow>
                 (case LogicTTLDecorator_Set T d ctx k val (lt_writeBackTTL d) opts w of
                    (Ok u, w) \<Rightarrow> (Ok (), w)
                  | (Panic m, w) \<Rightarrow> (Panic m, w)
                  | (Err err, w) \<Rightarrow>
                      log_error (lt_ob d) ctx ''[LogicTTLDecorator] write back failed.''
                        [(''key'', AStr k), (''err'', AErr err)] w)))"

text \<open>
  The inner cache is a \<open>Cache[LogicTTLValue[T]]\<close>; well-typed code cannot reach the last branch.
\<close>

definition LogicTTLDecorator_Get ::
    "gotype \<Rightarrow> 'x logic_ttl \<Rightarrow> ctx \<Rightarrow> key \<Rightarrow> call_option list \<Rightarrow> 'x world \<Rightarrow> gval result \<times> 'x world" where
  "LogicTTLDecorator_Get T d ctx k opts w =
     on_ok (c_Get (lt_cache d) ctx k opts w)
       (\<lambda>val w. case val of
          VLogic T' Val ExpireAt \<Rightarrow>
            if LogicTTLValue_IsExpire ExpireAt (w_now w)
            then on_ok (LogicTTLDecorator_onExpire T d ctx k opts w) (\<lambda>_ w. (Ok Val, w))
            else (Ok Val, w)
        | _ \<Rightarrow> (Panic ''not a LogicTTLValue'', w))"

definition LogicTTLDecorator_GetWithTTL ::
    "'x logic_ttl \<Rightarrow> ctx \<Rightarrow> key \<Rightarrow> call_option list \<Rightarrow> 'x world \<Rightarrow> (gval \<times> duration) result \<times> 'x world" where
  "LogicTTLDecorator_GetWithTTL d ctx k opts w =
     on_ok (c_GetWithTTL (lt_cache d) ctx k opts w)
       (\<lambda>(val, ttl) w. case val of
          VLogic T' Val ExpireAt \<Rightarrow> (Ok (Val, ttl), w)
        | _ \<Rightarrow> (Panic ''not a LogicTTLValue'', w))"

definition LogicTTLDecorator_Delete ::
    "'x logic_ttl \<Rightarrow> ctx \<Rightarrow> key \<Rightarrow> call_option list \<Rightarrow> 'x world \<Rightarrow> unit result \<times> 'x world" where
  "LogicTTLDecorator_Delete d ctx k opts w = c_Delete (lt_cache d) ctx k opts w"

definition LogicTTLDecorator_Clear :: "'x logic_ttl \<Rightarrow> ctx \<Rightarrow> 'x world \<Rightarrow> unit result \<times> 'x world" where
  "LogicTTLDecorator_Clear d ctx w = c_Clear (lt_cache d) ctx w"

definition LogicTTLDecorator :: "gotype \<Rightarrow> 'x logic_ttl \<Rightarrow> 'x cache" where
  "LogicTTLDecorator T d =
     \<lparr>c_Get = LogicTTLDecorator_Get T d, c_Set = LogicTTLDecorator_Set T d,
      c_GetWithTTL = LogicTTLDecorator_GetWithTTL d,
      c_Delete = LogicTTLDecorator_Delete d, c_Clear = LogicTTLDecorator_Clear d\<rparr>"

lemma LogicTTLDecorator_ops [simp, cache_ops]:
  "c_Get (LogicTTLDecorator T d) = LogicTTLDecorator_Get T d"
  "c_Set (LogicTTLDecorator T d) = LogicTTLDecorator_Set T d"
  "c_GetWithTTL (LogicTTLDecorator T d) = LogicTTLDecorator_GetWithTTL d"
  "c_Delete (LogicTTLDecorator T d) = LogicTTLDecorator_Delete d"
  "c_Clear (LogicTTLDecorator T d) = LogicTTLDecorator_Clear d"
  by (simp_all add: LogicTTLDecorator_def)

section \<open>Laws\<close>

lemma IsExpire_past: "LogicTTLValue_IsExpire e t = past e t"
  by (simp add: LogicTTLValue_IsExpire_def past_def)

definition unlogic :: "gval \<Rightarrow> gval result" where
  "unlogic v = (case v of VLogic T u e \<Rightarrow> Ok u | _ \<Rightarrow> Panic ''not a LogicTTLValue'')"

lemma unlogic_VLogic [simp]: "unlogic (VLogic T u e) = Ok u"
  by (simp add: unlogic_def)

text \<open>The logical deadline the decorator stamps on a value written at time \<open>t\<close>.\<close>

definition stamp :: "'x logic_ttl \<Rightarrow> int \<Rightarrow> int" where
  "stamp d t = (if 0 < lt_defaultLogicTTL d then t + lt_defaultLogicTTL d else zero_time)"

lemma LogicTTLDecorator_Set_total:
  assumes "opts_total opts"
  shows "LogicTTLDecorator_Set T d ctx k val ttl opts w =
     c_Set (lt_cache d) ctx k (VLogic T val (stamp d (w_now w))) ttl opts w"
proof -
  obtain c' where "apply_each opts \<lparr>CustomField = None\<rparr> = Ok c'"
    using apply_each_total [OF assms fields_ok_empty] by blast
  then show ?thesis by (simp add: LogicTTLDecorator_Set_def stamp_def)
qed

text \<open>Every visible value of a logical view is a \<open>LogicTTLValue[T]\<close>.\<close>

definition logic_typed :: "gotype \<Rightarrow> 'x view \<Rightarrow> bool" where
  "logic_typed T view \<longleftrightarrow> (\<forall>w k t v d. view w k t = Present v d \<longrightarrow> (\<exists>u e. v = VLogic T u e))"

lemma logic_typedD: "logic_typed T view \<Longrightarrow> view w k t = Present v d \<Longrightarrow> \<exists>u e. v = VLogic T u e"
  unfolding logic_typed_def by blast

text \<open>\<open>RecordLogicExpire\<close> of the metrics, when it is there, keeps the view.\<close>

definition quiet_expire :: "'x view \<Rightarrow> 'x logic_ttl \<Rightarrow> bool" where
  "quiet_expire view d \<longleftrightarrow>
     (\<forall>m ctx w r w'. lt_logicExpireMetrics d = Some m \<longrightarrow> m ctx w = (r, w') \<longrightarrow> r = Ok () \<and> reads view w w')"

definition stampable :: "gotype \<Rightarrow> 'x logic_ttl \<Rightarrow> (gval \<Rightarrow> bool) \<Rightarrow> (int \<Rightarrow> bool) \<Rightarrow> gval \<Rightarrow> bool" where
  "stampable T d storable clock v \<longleftrightarrow> (\<forall>t. clock t \<longrightarrow> storable (VLogic T v (stamp d t)))"

lemma onExpire_metrics:
  assumes "quiet_expire view d"
  obtains w1 where "reads view w w1" "LogicTTLDecorator_onExpire T d ctx k opts w =
     (case lt_loadFn d of
        None \<Rightarrow> (Ok (), w1)
      | Some loadFn \<Rightarrow>
            (case loadFn ctx k opts w1 of
               (Panic m, w) \<Rightarrow> (Panic m, w)
             | (Err err, w) \<Rightarrow>
                 log_error (lt_ob d) ctx ''[LogicTTLDecorator] load from source failed.''
                   [(''key'', AStr k), (''err'', AErr err)] w
             | (Ok val, w) \<Rightarrow>
                 (case LogicTTLDecorator_Set T d ctx k val (lt_writeBackTTL d) opts w of
                    (Ok u, w) \<Rightarrow> (Ok (), w)
                  | (Panic m, w) \<Rightarrow> (Panic m, w)
                  | (Err err, w) \<Rightarrow>
                      log_error (lt_ob d) ctx ''[LogicTTLDecorator] write back failed.''
                        [(''key'', AStr k), (''err'', AErr err)] w)))"
proof (cases "lt_logicExpireMetrics d")
  case None
  then show thesis using that [OF reads_refl] by (simp add: LogicTTLDecorator_onExpire_def)
next
  case (Some m)
  obtain r w1 where m: "m ctx w = (r, w1)" by (cases "m ctx w")
  with assms Some have "r = Ok ()" "reads view w w1" unfolding quiet_expire_def by blast+
  with Some m show thesis using that [of w1] by (simp add: LogicTTLDecorator_onExpire_def)
qed

lemma LogicTTLDecorator_GetWithTTL_transcode:
  "LogicTTLDecorator_GetWithTTL d = transcode_GetWithTTL unlogic (lt_cache d)"
  by (auto simp: fun_eq_iff LogicTTLDecorator_GetWithTTL_def transcode_GetWithTTL_def on_ok_def
      unlogic_def split: prod.splits outcome.splits gval.splits)

text \<open>Without a loader, logical expiry does not change what the cache promises.\<close>

lemma LogicTTLDecorator_contract:
  assumes C: "cache_contract (lt_cache d) view storable clock"
    and T: "logic_typed T view" and L: "lt_loadFn d = None" and q: "quiet_expire view d"
  shows "cache_contract (LogicTTLDecorator T d) (map_view_with unlogic view)
           (stampable T d storable clock) clock"
proof -
  have t: "transcoder (lt_cache d) view storable clock unlogic"
    using C logic_typedD [OF T] unfolding transcoder_def transcoder_axioms_def by fastforce
  note plain = transcoder.transcode_contract [OF t, of Ok]
  show ?thesis
  proof (unfold_locales, goal_cases)
    case 1 show ?case by (rule map_view_with_blind [OF cache_contract.view_blind [OF C]])
  next
    case (2 ctx k opts w r w')
    obtain r1 w1 where g: "c_Get (lt_cache d) ctx k opts w = (r1, w1)"
      by (cases "c_Get (lt_cache d) ctx k opts w")
    from cache_contract.Get_law [OF C 2(1) g] obtain t where R: "reads view w w1"
      and t: "w_now w \<le> t" "t \<le> w_now w1" "reports (view w k t) r1" by blast
    have "reads view w1 w' \<and> reports (map_entry unlogic (view w k t)) r"
    proof (cases "view w k t")
      case (Present v dl)
      then obtain u e where v: "v = VLogic T u e" using logic_typedD [OF T] by blast
      obtain w2 where "reads view w1 w2" "LogicTTLDecorator_onExpire T d ctx k opts w1 = (Ok (), w2)"
        by (rule onExpire_metrics [OF q, of w1 T ctx k opts]) (simp add: L)
      with Present v 2(2) t g R show ?thesis
        by (auto simp: LogicTTLDecorator_Get_def split: if_splits)
    qed (use t g R 2(2) in \<open>auto simp: LogicTTLDecorator_Get_def not_found_def split: outcome.splits\<close>)
    moreover from this have "w_now w1 \<le> w_now w'" by (blast dest: reads_now)
    ultimately show ?case using t R
      by (auto simp: map_view_with_def intro!: exI [of _ t] intro: map_view_with_reads reads_trans)
  next
    case (3 ctx k opts w r w')
    then show ?case using cache_contract.GetWithTTL_law [OF plain 3(1)]
      by (simp add: LogicTTLDecorator_GetWithTTL_transcode)
  next
    case (4 ctx opts v ttl w k u w')
    then have "storable (VLogic T v (stamp d (w_now w)))" by (simp add: stampable_def)
    moreover from 4 have "c_Set (lt_cache d) ctx k (VLogic T v (stamp d (w_now w))) ttl opts w = (u, w')"
      by (simp add: LogicTTLDecorator_Set_total)
    ultimately show ?case using cache_contract.Set_law [OF C 4(1,2) _ 4(4,5)]
      by (blast intro: map_view_with_writes map_entry_stored unlogic_VLogic)
  next
    case (5 ctx opts v ttl w k u w')
    then have "storable (VLogic T v (stamp d (w_now w)))" by (simp add: stampable_def)
    moreover from 5 have "c_Set (lt_cache d) ctx k (VLogic T v (stamp d (w_now w))) ttl opts w = (u, w')"
      by (simp add: LogicTTLDecorator_Set_total)
    ultimately show ?case using cache_contract.Set_negative [OF C 5(1,2) _ 5(4,5)]
      by (blast intro: map_view_with_reads)
  next
    case (6 ctx k opts w u w')
    then show ?case using cache_contract.Delete_law [OF plain 6(1)]
      by (simp add: LogicTTLDecorator_Delete_def)
  next
    case (7 ctx w u w')
    then show ?case using cache_contract.Clear_law [OF plain 7(1)]
      by (simp add: LogicTTLDecorator_Clear_def)
  qed
qed

section \<open>Properties\<close>

text \<open>Without a loader, logical expiry does not change what the cache promises: the decorator
  keeps the contract of the cache it wraps, showing the payloads of the wrapped values.\<close>

theorem LogicTTL_transparent:
  assumes "cache_contract (lt_cache d) view storable clock" and "logic_typed T view"
    and "lt_loadFn d = None" and "quiet_expire view d"
  shows "cache_contract (LogicTTLDecorator T d) (map_view_with unlogic view) (stampable T d storable clock) clock"
  by (rule LogicTTLDecorator_contract [OF assms])

text \<open>A wire cache for concrete runs: the byte adapter over a base cache over the map store.\<close>

definition demo_wire :: "slow_map_store \<Rightarrow> map_heap cache" where
  "demo_wire s = LogicTTLBytesAdapter TBytes (NewBaseCache TBytes (SlowMapStore s))"

definition demo_wire_view :: "slow_map_store \<Rightarrow> map_heap view" where
  "demo_wire_view s = map_view_with (adapter_dec TBytes) (typed_view TBytes (map_view s))"

definition demo_storable :: "gval \<Rightarrow> bool" where
  "demo_storable = encodable (adapter_enc TBytes) (adapter_dec TBytes) (\<lambda>v. type_assert TBytes v = Some v)"

definition demo_logic :: "map_heap loader option \<Rightarrow> map_heap logic_ttl" where
  "demo_logic lf = \<lparr>lt_cache = demo_wire demo_map, lt_ob = silent, lt_logicExpireMetrics = None,
     lt_defaultLogicTTL = Minute, lt_loadFn = lf, lt_writeBackTTL = Hour\<rparr>"

lemma demo_logic_simps [simp]:
  "lt_cache (demo_logic lf) = demo_wire demo_map" "lt_ob (demo_logic lf) = silent"
  "lt_logicExpireMetrics (demo_logic lf) = None" "lt_defaultLogicTTL (demo_logic lf) = Minute"
  "lt_loadFn (demo_logic lf) = lf" "lt_writeBackTTL (demo_logic lf) = Hour"
  by (simp_all add: demo_logic_def)

text \<open>The instants at which the wire format can represent a deadline one minute later.\<close>

definition demo_clock :: "int \<Rightarrow> bool" where
  "demo_clock t \<longleftrightarrow> 0 \<le> t \<and> t < 2 ^ 62"

lemma demo_wire_contract: "cache_contract (demo_wire s) (demo_wire_view s) demo_storable demo_clock"
proof (rule contract_mono)
  show "cache_contract (demo_wire s) (demo_wire_view s) demo_storable (\<lambda>t. zero_time < t)"
    unfolding demo_wire_def demo_wire_view_def demo_storable_def
    by (rule LogicTTLBytesAdapter_contract [OF map_base_contract typed_typed_view])
qed (auto simp: demo_clock_def zero_time_def duration_defs)

lemma demo_stampable: "stampable TBytes (demo_logic lf) demo_storable demo_clock (VBytes p)"
  using adapter_encodable
  by (fastforce simp: stampable_def stamp_def demo_storable_def demo_clock_def encodable_def
      adapter_enc_def encode_logic_value_def representable_def duration_defs)

lemma demo_wire_typed: "logic_typed TBytes (demo_wire_view s)"
proof -
  have "\<exists>u e. v = VLogic TBytes u e" if "demo_wire_view s w k t = Present v d" for w k t v d
    using that adapter_dec_Ok [of TBytes]
    by (fastforce simp: demo_wire_view_def map_view_with_def map_entry_def split: entry.splits outcome.splits)
  then show ?thesis by (simp add: logic_typed_def)
qed

lemma demo_quiet_expire [simp]: "quiet_expire view (demo_logic lf)"
  by (simp add: quiet_expire_def)

theorem LogicTTL_transparent_witness:
  "cache_contract (LogicTTLDecorator TBytes (demo_logic None)) (map_view_with unlogic (demo_wire_view demo_map))
     (stampable TBytes (demo_logic None) demo_storable demo_clock) demo_clock"
  by (rule LogicTTL_transparent) (simp_all add: demo_wire_contract demo_wire_typed)

text \<open>A value written through the logical-expiry decorator is stored with a deadline that is the
  default logical time to live after the write, and with no deadline when that time is not
  positive; it counts as expired exactly when the clock is past that deadline.\<close>

theorem LogicTTL_Set_deadline:
  assumes "opts_total opts" and "zero_time < w_now w"
  shows "\<exists>e. LogicTTLDecorator_Set T d ctx k val ttl opts w = c_Set (lt_cache d) ctx k (VLogic T val e) ttl opts w \<and>
     (\<forall>t. LogicTTLValue_IsExpire e t \<longleftrightarrow> 0 < lt_defaultLogicTTL d \<and> w_now w + lt_defaultLogicTTL d < t)"
  using assms
  by (auto simp: LogicTTLDecorator_Set_total stamp_def LogicTTLValue_IsExpire_def IsZero_def After_def
      intro!: exI [of _ "stamp d (w_now w)"])

theorem LogicTTL_Set_deadline_witness:
  "\<exists>e. LogicTTLDecorator_Set TBytes (demo_logic None) Background ''k'' (VBytes [1]) 0 [] demo_world =
       c_Set (demo_wire demo_map) Background ''k'' (VLogic TBytes (VBytes [1]) e) 0 [] demo_world \<and>
     LogicTTLValue_IsExpire e 100000000000"
  using LogicTTL_Set_deadline [of "[]" demo_world TBytes "demo_logic None" Background "''k''" "VBytes [1]" 0]
  by (auto simp: duration_defs)

lemma Get_expired:
  assumes "c_Get (lt_cache d) ctx k opts w = (Ok (VLogic T' old e), w1)" and "past e (w_now w1)"
  shows "LogicTTLDecorator_Get T d ctx k opts w =
     on_ok (LogicTTLDecorator_onExpire T d ctx k opts w1) (\<lambda>_ w. (Ok old, w))"
  using assms by (simp add: LogicTTLDecorator_Get_def IsExpire_past)

text \<open>C11: stale values and refresh. A Get that finds a logically expired value returns that value,
  and before it returns it has called the loader and written the loaded value back, so that it is
  what the cache shows for the key from then on, for the write-back time.\<close>

theorem LogicTTL_stale_refresh:
  assumes C: "cache_contract (lt_cache d) view storable clock"
    and ctx: "ctx_deadline ctx = None" and opts: "opts_total opts" and wb: "0 \<le> lt_writeBackTTL d"
    and get: "c_Get (lt_cache d) ctx k opts w = (Ok (VLogic T old e), w1)" and expired: "past e (w_now w1)"
    and metrics: "(case lt_logicExpireMetrics d of None \<Rightarrow> (Ok (), w1) | Some m \<Rightarrow> m ctx w1) = (Ok (), w2)"
    and f: "lt_loadFn d = Some f" "f ctx k opts w2 = (Ok new, w3)"
    and v: "stampable T d storable clock new" "clock (w_now w3)"
  shows "\<exists>w'. LogicTTLDecorator_Get T d ctx k opts w = (Ok old, w') \<and>
     writes (map_view_with unlogic view) w3 w' k (stored new (lt_writeBackTTL d))"
proof -
  let ?v = "VLogic T new (stamp d (w_now w3))"
  obtain u w' where s: "c_Set (lt_cache d) ctx k ?v (lt_writeBackTTL d) opts w3 = (u, w')"
    by fastforce
  have "storable ?v" using v by (simp add: stampable_def)
  from cache_contract.Set_law [OF C ctx opts this wb v(2) s]
  have w: "u = Ok ()" "writes view w3 w' k (stored ?v (lt_writeBackTTL d))" by auto
  then have "writes (map_view_with unlogic view) w3 w' k (stored new (lt_writeBackTTL d))"
    by (intro map_view_with_writes [where new = "stored ?v (lt_writeBackTTL d)"] map_entry_stored) simp_all
  moreover have "LogicTTLDecorator_onExpire T d ctx k opts w1 = (Ok (), w')"
    unfolding LogicTTLDecorator_onExpire_def metrics using f s w(1)
    by (simp add: LogicTTLDecorator_Set_total [OF opts])
  ultimately show ?thesis using Get_expired [OF get expired, of T] by auto
qed

definition stale_world :: "map_heap world" where
  "stale_world = put_data demo_map
     [''k'' \<mapsto> \<lparr>it_value = VBytes (PutUint64 5 @ [1]), it_expireAt = zero_time\<rparr>] demo_world"

lemma stale_Get: "c_Get (demo_wire demo_map) Background ''k'' [] stale_world =
    (Ok (VLogic TBytes (VBytes [1]) 5), sleep 0 stale_world)"
  by (simp add: demo_wire_def LogicTTLBytesAdapter_transcode transcode_Get_def BaseCache_Get_def
      SlowMapStore_Get_def stale_world_def IsZero_def adapter_dec_def un_bytes_def)

lemma stale_now [simp]: "w_now stale_world = 1000000000" "past 5 1000000000"
  by (simp_all add: stale_world_def past_def IsZero_def After_def zero_time_def duration_defs)

theorem LogicTTL_stale_refresh_witness:
  "\<exists>w'. LogicTTLDecorator_Get TBytes (demo_logic (Some (\<lambda>ctx k opts w. (Ok (VBytes [2]), wait 3 w))))
     Background ''k'' [] stale_world = (Ok (VBytes [1]), w')"
  using LogicTTL_stale_refresh [of "demo_logic (Some (\<lambda>ctx k opts w. (Ok (VBytes [2]), wait 3 w)))", simplified,
      OF demo_wire_contract demo_simps(6) opts_total_Nil stale_Get _ refl refl refl demo_stampable]
  by (auto simp: demo_clock_def)

text \<open>A refresh that fails costs nothing: when the loader fails for a logically expired value, Get
  still returns that value, the failure is only logged, and the cache shows what it showed before.\<close>

theorem LogicTTL_failed_refresh:
  assumes "cache_contract (lt_cache d) view storable clock" and "quiet_expire view d" and "quiet view (lt_ob d)"
    and "ctx_deadline ctx = None"
    and get: "c_Get (lt_cache d) ctx k opts w = (Ok (VLogic T old e), w1)" and expired: "past e (w_now w1)"
    and f: "lt_loadFn d = Some f" "\<And>w. \<exists>err w'. f ctx k opts w = (Err err, w') \<and> reads view w w'"
  shows "\<exists>w'. LogicTTLDecorator_Get T d ctx k opts w = (Ok old, w') \<and> reads view w w'"
proof -
  obtain w2 where w2: "reads view w1 w2" and
    x: "LogicTTLDecorator_onExpire T d ctx k opts w1 = (case f ctx k opts w2 of
               (Panic m, w) \<Rightarrow> (Panic m, w)
             | (Err err, w) \<Rightarrow>
                 log_error (lt_ob d) ctx ''[LogicTTLDecorator] load from source failed.''
                   [(''key'', AStr k), (''err'', AErr err)] w
             | (Ok val, w) \<Rightarrow>
                 (case LogicTTLDecorator_Set T d ctx k val (lt_writeBackTTL d) opts w of
                    (Ok u, w) \<Rightarrow> (Ok (), w)
                  | (Panic m, w) \<Rightarrow> (Panic m, w)
                  | (Err err, w) \<Rightarrow>
                      log_error (lt_ob d) ctx ''[LogicTTLDecorator] write back failed.''
                        [(''key'', AStr k), (''err'', AErr err)] w))"
    by (rule onExpire_metrics [OF assms(2), of w1 T ctx k opts]) (simp add: f(1))
  obtain err w3 where w3: "f ctx k opts w2 = (Err err, w3)" "reads view w2 w3" using f(2) by blast
  obtain r w4 where w4: "log_error (lt_ob d) ctx ''[LogicTTLDecorator] load from source failed.''
      [(''key'', AStr k), (''err'', AErr err)] w3 = (r, w4)" by fastforce
  from quiet_log [OF assms(3) w4] have "\<not> is_panic r" "reads view w3 w4" by auto
  moreover from w4 have "r = Ok () \<or> is_panic r"
    by (auto simp: log_error_def split: option.splits)
  ultimately have "LogicTTLDecorator_Get T d ctx k opts w = (Ok old, w4)"
    using Get_expired [OF get expired, of T] x w3 w4 by auto
  moreover have "reads view w w1" using cache_contract.Get_law [OF assms(1,4) get] by blast
  ultimately show ?thesis
    using w2 w3(2) \<open>reads view w3 w4\<close> by (blast intro: reads_trans)
qed

theorem LogicTTL_failed_refresh_witness:
  "\<exists>w'. LogicTTLDecorator_Get TBytes (demo_logic (Some (\<lambda>ctx k opts w. (Err (Foreign ''db down''), w))))
     Background ''k'' [] stale_world = (Ok (VBytes [1]), w')"
  using LogicTTL_failed_refresh [of "demo_logic (Some (\<lambda>ctx k opts w. (Err (Foreign ''db down''), w)))", simplified,
      OF demo_wire_contract demo_simps(6) stale_Get _ refl]
  by auto

text \<open>A value that is not past its deadline is returned without running the loader, and
  GetWithTTL never runs it, expired or not.\<close>

theorem LogicTTL_fresh:
  assumes "c_Get (lt_cache d) ctx k opts w = (Ok (VLogic T v e), w1)" and "\<not> LogicTTLValue_IsExpire e (w_now w1)"
  shows "LogicTTLDecorator_Get T (d\<lparr>lt_loadFn := lf\<rparr>) ctx k opts w = (Ok v, w1) \<and>
     LogicTTLDecorator_GetWithTTL (d\<lparr>lt_loadFn := lf\<rparr>) = LogicTTLDecorator_GetWithTTL d"
  using assms by (simp add: LogicTTLDecorator_Get_def LogicTTLDecorator_GetWithTTL_transcode)

theorem LogicTTL_fresh_witness:
  "fst (LogicTTLDecorator_Get TBytes (demo_logic (Some (\<lambda>ctx k opts w. (Err (Foreign ''db down''), w))))
     Background ''k'' [] (stale_world\<lparr>w_now := 4\<rparr>)) = Ok (VBytes [1])"
proof -
  have "c_Get (demo_wire demo_map) Background ''k'' [] (stale_world\<lparr>w_now := 4\<rparr>) =
      (Ok (VLogic TBytes (VBytes [1]) 5), sleep 0 (stale_world\<lparr>w_now := 4\<rparr>))"
    by (simp add: demo_wire_def LogicTTLBytesAdapter_transcode transcode_Get_def BaseCache_Get_def
      SlowMapStore_Get_def stale_world_def map_data_def put_data_def IsZero_def adapter_dec_def un_bytes_def)
  from LogicTTL_fresh [where d = "demo_logic None" and T = TBytes
        and lf = "Some (\<lambda>ctx k opts w. (Err (Foreign ''db down''), w))", unfolded demo_logic_simps, OF this]
  show ?thesis by (simp add: LogicTTLValue_IsExpire_def After_def demo_logic_def)
qed

section \<open>Deadlines\<close>

lemma slow_wrapper:
  assumes "prompt rt" and "ctx_deadline ctx = Some (t, e)" and "max (w_now w) t < w_now (snd (f ctx k opts w))"
  shows "\<exists>w'. SingleflightWrapper T rt g f ctx k opts w = (Err e, w') \<and> w_now w' = max (w_now w) t"
proof -
  obtain w' where "rt_DoChan rt g k (f ctx k opts) ctx w = (None, w')" "w_now w' = max (w_now w) t"
    using assms unfolding prompt_def by blast
  moreover from this assms(2) have "ctx_Err ctx w' = Some e" by (simp add: ctx_Err_def)
  ultimately show ?thesis by (simp add: SingleflightWrapper_def)
qed

text \<open>C12: a read-through lookup returns by its deadline however long the loader takes: with a loader
  behind the singleflight wrapper, as Build makes it, a lookup that misses and whose load would end
  after the deadline of its context returns the context's error at the deadline (or at once, if
  the miss itself took longer), without writing anything back.\<close>

theorem MissedLoader_deadline:
  assumes "prompt rt" and "ctx_deadline ctx = Some (t, e)" and "ml_loadFn d = Some (SingleflightWrapper T rt g f)"
    and "errors_is err ErrNotFound" and "max (w_now w1) t < w_now (snd (f ctx k opts w1))"
    and "c_Get (ml_cache d) ctx k opts w = (Err err, w1)" and "c_GetWithTTL (ml_cache d) ctx k opts w = (Err err, w1)"
  shows "\<exists>w'. MissedLoaderDecorator_Get d ctx k opts w = (Err e, w') \<and>
              MissedLoaderDecorator_GetWithTTL d ctx k opts w = (Err e, w') \<and>
              SingleflightWrapper T rt g f ctx k opts w1 = (Err e, w') \<and> w_now w' = max (w_now w1) t"
proof -
  obtain w' where "SingleflightWrapper T rt g f ctx k opts w1 = (Err e, w')" "w_now w' = max (w_now w1) t"
    using slow_wrapper [OF assms(1,2), of w1 f k opts T g] assms(5) by blast
  with assms(3,4,6,7) show ?thesis
    by (simp add: MissedLoaderDecorator_Get_def MissedLoaderDecorator_GetWithTTL_def MissedLoaderDecorator_loadFromSource_def)
qed

definition slow_loader :: "'x loader" where
  "slow_loader ctx k opts w = (Ok (VInt 7), wait 100 w)"

definition demo_deadline :: ctx where
  "demo_deadline = \<lparr>ctx_deadline = Some (1000000020, DeadlineExceeded), ctx_event = None\<rparr>"

theorem MissedLoader_deadline_witness:
  "\<exists>w'. MissedLoaderDecorator_Get
     \<lparr>ml_cache = NewBaseCache TInt (SlowMapStore demo_map), ml_loadFn = Some (SingleflightWrapper TInt seq_runtime 0 slow_loader),
      ml_writeBackTTL = Hour, ml_ob = silent\<rparr> demo_deadline ''k'' [] demo_world = (Err DeadlineExceeded, w') \<and>
     w_now w' = 1000000020"
proof -
  let ?d = "\<lparr>ml_cache = NewBaseCache TInt (SlowMapStore demo_map), ml_loadFn = Some (SingleflightWrapper TInt seq_runtime 0 slow_loader),
      ml_writeBackTTL = Hour, ml_ob = silent\<rparr>"
  let ?e = "Errorf ''key=%s not found: %w'' [AStr ''k'', AErr ErrNotFound]"
  have "c_Get (ml_cache ?d) demo_deadline ''k'' [] demo_world = (Err ?e, sleep 0 demo_world)"
    "c_GetWithTTL (ml_cache ?d) demo_deadline ''k'' [] demo_world = (Err ?e, sleep 0 demo_world)"
    by (simp_all add: BaseCache_Get_def BaseCache_GetWithTTL_def SlowMapStore_Get_def SlowMapStore_GetWithTTL_def)
  from MissedLoader_deadline [OF seq_runtime_prompt _ _ _ _ this, of 1000000020 DeadlineExceeded TInt 0 slow_loader]
  show ?thesis by (auto simp: demo_deadline_def slow_loader_def)
qed

text \<open>C13: a lookup of a logically expired value returns that value by its deadline however long the
  refresh takes: at the deadline the failed refresh is logged and the stale value returned.\<close>

theorem LogicTTL_deadline:
  assumes "prompt rt" and "ctx_deadline ctx = Some (t, e)" and "lt_loadFn d = Some (SingleflightWrapper T rt g f)"
    and "max (w_now w1) t < w_now (snd (f ctx k opts w1))"
    and "c_Get (lt_cache d) ctx k opts w = (Ok (VLogic T v x), w1)" and "LogicTTLValue_IsExpire x (w_now w1)"
    and "lt_logicExpireMetrics d = None" and "lt_ob d = Some ob" and "ob_Logger ob = Some l"
  shows "\<exists>w' args. LogicTTLDecorator_Get T d ctx k opts w =
       (Ok v, lg_ErrorContext l ctx ''[LogicTTLDecorator] load from source failed.'' args w') \<and> w_now w' = max (w_now w1) t"
proof -
  obtain w' where "SingleflightWrapper T rt g f ctx k opts w1 = (Err e, w')" "w_now w' = max (w_now w1) t"
    using slow_wrapper [OF assms(1,2), of w1 f k opts T g] assms(4) by blast
  with assms(3,5-9) show ?thesis
    by (auto simp: LogicTTLDecorator_Get_def LogicTTLDecorator_onExpire_def log_error_def)
qed

theorem LogicTTL_deadline_witness:
  "\<exists>w'. LogicTTLDecorator_Get TInt
     \<lparr>lt_cache = NewBaseCache (TLogic TInt) (SlowMapStore demo_map), lt_ob = silent, lt_logicExpireMetrics = None,
      lt_defaultLogicTTL = Minute, lt_loadFn = Some (SingleflightWrapper TInt seq_runtime 0 slow_loader), lt_writeBackTTL = Hour\<rparr>
     demo_deadline ''k'' [] (snd (SlowMapStore_Set demo_map Background ''k'' (VLogic TInt (VInt 1) 5) 0 [] demo_world))
   = (Ok (VInt 1), w') \<and> w_now w' = 1000000020"
proof -
  let ?d = "\<lparr>lt_cache = NewBaseCache (TLogic TInt) (SlowMapStore demo_map), lt_ob = silent, lt_logicExpireMetrics = None,
      lt_defaultLogicTTL = Minute, lt_loadFn = Some (SingleflightWrapper TInt seq_runtime 0 slow_loader), lt_writeBackTTL = Hour\<rparr>"
  let ?w = "snd (SlowMapStore_Set demo_map Background ''k'' (VLogic TInt (VInt 1) 5) 0 [] demo_world)"
  have "c_Get (lt_cache ?d) demo_deadline ''k'' [] ?w = (Ok (VLogic TInt (VInt 1) 5), sleep 0 ?w)"
    by (simp add: BaseCache_Get_def SlowMapStore_Get_def SlowMapStore_Set_def Let_def IsZero_def type_assert_def)
  moreover have "LogicTTLValue_IsExpire 5 (w_now (sleep 0 ?w))" "w_now (sleep 0 ?w) = 1000000000"
    by (simp_all add: SlowMapStore_Set_def Let_def LogicTTLValue_IsExpire_def IsZero_def After_def zero_time_def duration_defs)
  moreover have "lt_ob ?d = Some (DefaultObservable no_slog)" "ob_Logger (DefaultObservable no_slog) = Some (SlogLogger no_slog)"
    by (simp_all add: silent_def DefaultObservable_def)
  moreover have "lg_ErrorContext (SlogLogger no_slog) ctx msg args w = w" for ctx msg args and w :: "map_heap world"
    by (simp add: SlogLogger_def no_slog_def)
  ultimately show ?thesis
    using LogicTTL_deadline [OF seq_runtime_prompt, of demo_deadline 1000000020 DeadlineExceeded ?d TInt 0 slow_loader
        "sleep 0 ?w" "''k''" "[]" ?w "VInt 1" 5 "DefaultObservable no_slog" "SlogLogger no_slog"]
    by (simp add: demo_deadline_def slow_loader_def)
qed

end
