(* ===== verification/Builder.thy ===== *)
theory Builder
  imports Logic_Expire
begin

text \<open>
  The single-cache builder of the root package: cache.go (\<open>NewBuilder\<close>, \<open>Build\<close>, the behaviour
  decorators), cache_features.go and builder_stage_features.go (the options), compile.go (the
  factory that the staged features compile to).

  A builder is a record that the options return updated, as the pointer receiver is. The type
  argument \<open>T\<close>, the singleflight runtime and the slog back end are parameters. Building allocates
  singleflight groups, so it threads the world.
\<close>

record 'x logic_expire_features =
  le_enabled :: bool
  le_defaultLogicTTL :: duration
  le_loadFn :: "'x loader option"
  le_defaultWriteBackTTL :: duration
  le_enableBytesAdapter :: bool

record 'x miss_loader_features =
  mf_loadFn :: "'x loader option"
  mf_defaultWriteBackTTL :: duration

record nil_cache_features =
  nf_protectionFn :: "(key \<Rightarrow> gval) option"
  nf_defaultWriteBackTTL :: duration

record 'x features =
  ft_singleFlight :: bool
  ft_codec :: "codec option"
  ft_typeAdapter :: "'x decorator option"     \<comment> \<open>TypeAdapter[T]\<close>
  ft_byteTransforms :: "'x decorator list"    \<comment> \<open>[]ByteTransform\<close>
  ft_logicExpire :: "'x logic_expire_features"
  ft_missLoader :: "'x miss_loader_features"
  ft_nilCache :: nil_cache_features

record 'x builder =
  b_err :: "error option"
  b_cacheName :: string
  b_store :: "'x store"
  b_factory :: "'x cache_option"
  b_metrics :: "'x metrics option"
  b_logger :: "'x logger option"
  b_obDecorators :: "'x cache_option"
  b_features :: "'x features"
  b_decorators :: "'x cache_option list"
  b_options :: "'x cache_option list"
  b_factoryCustomized :: bool

section \<open>NewBuilder\<close>

definition default_features :: "'x features" where
  "default_features =
     \<lparr>ft_singleFlight = True, ft_codec = None, ft_typeAdapter = None, ft_byteTransforms = [],
      ft_logicExpire = \<lparr>le_enabled = False, le_defaultLogicTTL = 10 * Minute, le_loadFn = None,
                        le_defaultWriteBackTTL = Hour, le_enableBytesAdapter = False\<rparr>,
      ft_missLoader = \<lparr>mf_loadFn = None, mf_defaultWriteBackTTL = Hour\<rparr>,
      ft_nilCache = \<lparr>nf_protectionFn = None, nf_defaultWriteBackTTL = Hour\<rparr>\<rparr>"

definition NewBuilder ::
    "gotype \<Rightarrow> (string \<Rightarrow> 'x log_fn) \<Rightarrow> string \<Rightarrow> 'x store option \<Rightarrow> 'x cache_option list \<Rightarrow> 'x builder result" where
  "NewBuilder T slog name store opts =
     (if name = [] then Err (ErrorsNew ''cache name is required'')
      else case store of
          None \<Rightarrow> Err (ErrorsNew ''cache store is required'')
        | Some st \<Rightarrow> Ok
            \<lparr>b_err = None, b_cacheName = name, b_store = st,
             b_factory = WithSimpleFactory (\<lambda>s w. (Ok (NewBaseCache T s), w)),
             b_metrics = Some NoopMetrics, b_logger = Some (SlogLogger slog),
             b_obDecorators = WithDecorator (\<lambda>c ob w. (Ok (NewObservableDecorator c (StoreName st) name ob), w)),
             b_features = default_features, b_decorators = [], b_options = opts,
             b_factoryCustomized = False\<rparr>)"

definition appendErr :: "'x builder \<Rightarrow> error \<Rightarrow> 'x builder" where
  "appendErr b e = b\<lparr>b_err := errors_Join [b_err b, Some e]\<rparr>"

section \<open>The options\<close>

definition upd_logicExpire :: "('x logic_expire_features \<Rightarrow> 'x logic_expire_features) \<Rightarrow> 'x builder \<Rightarrow> 'x builder" where
  "upd_logicExpire f b = b\<lparr>b_features := (b_features b)\<lparr>ft_logicExpire := f (ft_logicExpire (b_features b))\<rparr>\<rparr>"

definition WithSingleflight :: "bool \<Rightarrow> 'x builder \<Rightarrow> 'x builder" where
  "WithSingleflight enable b = b\<lparr>b_features := (b_features b)\<lparr>ft_singleFlight := enable\<rparr>\<rparr>"

definition WithCodec :: "codec option \<Rightarrow> 'x builder \<Rightarrow> 'x builder" where
  "WithCodec cd b = b\<lparr>b_features := (b_features b)\<lparr>ft_codec := cd\<rparr>\<rparr>"

definition WithLogicExpireEnabled :: "bool \<Rightarrow> 'x builder \<Rightarrow> 'x builder" where
  "WithLogicExpireEnabled enabled b = upd_logicExpire (\<lambda>l. l\<lparr>le_enabled := enabled\<rparr>) b"

definition WithLogicExpireDefaultLogicTTL :: "duration \<Rightarrow> 'x builder \<Rightarrow> 'x builder" where
  "WithLogicExpireDefaultLogicTTL d b =
     (let b = upd_logicExpire (\<lambda>l. l\<lparr>le_enabled := True, le_defaultLogicTTL := d\<rparr>) b
      in if d < 0
         then appendErr b (Errorf ''logicExpireDefaultLogicTTL must >= 0, but got %v'' [ADur d])
         else b)"

definition WithLogicExpireDefaultWriteBackTTL :: "duration \<Rightarrow> 'x builder \<Rightarrow> 'x builder" where
  "WithLogicExpireDefaultWriteBackTTL d b =
     (let b = upd_logicExpire (\<lambda>l. l\<lparr>le_enabled := True, le_defaultWriteBackTTL := d\<rparr>) b
      in if d < 0
         then appendErr b (Errorf ''logicExpireDefaultWriteBackTTL must >= 0, but got: %v'' [ADur d])
         else b)"

definition WithLogicExpireBytesAdapter :: "bool \<Rightarrow> 'x builder \<Rightarrow> 'x builder" where
  "WithLogicExpireBytesAdapter enable b =
     upd_logicExpire (\<lambda>l. if enable then l\<lparr>le_enableBytesAdapter := enable, le_enabled := True\<rparr>
                          else l\<lparr>le_enableBytesAdapter := enable\<rparr>) b"

definition WithLogicExpireLoader :: "'x loader option \<Rightarrow> 'x builder \<Rightarrow> 'x builder" where
  "WithLogicExpireLoader fn b = upd_logicExpire (\<lambda>l. l\<lparr>le_enabled := True, le_loadFn := fn\<rparr>) b"

definition WithCacheMissLoader :: "'x loader option \<Rightarrow> 'x builder \<Rightarrow> 'x builder" where
  "WithCacheMissLoader fn b =
     b\<lparr>b_features := (b_features b)\<lparr>ft_missLoader := (ft_missLoader (b_features b))\<lparr>mf_loadFn := fn\<rparr>\<rparr>\<rparr>"

definition WithCacheMissDefaultWriteBackTTL :: "duration \<Rightarrow> 'x builder \<Rightarrow> 'x builder" where
  "WithCacheMissDefaultWriteBackTTL d b =
     b\<lparr>b_features := (b_features b)\<lparr>ft_missLoader := (ft_missLoader (b_features b))\<lparr>mf_defaultWriteBackTTL := d\<rparr>\<rparr>\<rparr>"

definition WithNilCacheFn :: "(key \<Rightarrow> gval) option \<Rightarrow> 'x builder \<Rightarrow> 'x builder" where
  "WithNilCacheFn fn b =
     b\<lparr>b_features := (b_features b)\<lparr>ft_nilCache := (ft_nilCache (b_features b))\<lparr>nf_protectionFn := fn\<rparr>\<rparr>\<rparr>"

definition WithNilCacheWriteBackTTL :: "duration \<Rightarrow> 'x builder \<Rightarrow> 'x builder" where
  "WithNilCacheWriteBackTTL ttl b =
     b\<lparr>b_features := (b_features b)\<lparr>ft_nilCache := (ft_nilCache (b_features b))\<lparr>nf_defaultWriteBackTTL := ttl\<rparr>\<rparr>\<rparr>"

definition Builder_WithFactory :: "'x cache_factory option \<Rightarrow> 'x builder \<Rightarrow> 'x builder" where
  "Builder_WithFactory f b = b\<lparr>b_factoryCustomized := True, b_factory := WithFactory f\<rparr>"

definition WithLogger :: "'x logger option \<Rightarrow> 'x builder \<Rightarrow> 'x builder" where
  "WithLogger l b = b\<lparr>b_logger := l\<rparr>"

definition WithMetrics :: "'x metrics option \<Rightarrow> 'x builder \<Rightarrow> 'x builder" where
  "WithMetrics m b = b\<lparr>b_metrics := m\<rparr>"

definition WithObserveDecorator :: "'x decorator \<Rightarrow> 'x builder \<Rightarrow> 'x builder" where
  "WithObserveDecorator d b = b\<lparr>b_obDecorators := WithDecorator d\<rparr>"

definition WithDecorators :: "'x decorator list \<Rightarrow> 'x builder \<Rightarrow> 'x builder" where
  "WithDecorators ds b = b\<lparr>b_decorators := b_decorators b @ map WithDecorator ds\<rparr>"

definition Builder_WithOptions :: "'x cache_option list \<Rightarrow> 'x builder \<Rightarrow> 'x builder" where
  "Builder_WithOptions opts b = b\<lparr>b_options := b_options b @ opts\<rparr>"

definition WithByteTransforms :: "'x decorator list \<Rightarrow> 'x builder \<Rightarrow> 'x builder" where
  "WithByteTransforms ts b =
     b\<lparr>b_features := (b_features b)\<lparr>ft_byteTransforms := ft_byteTransforms (b_features b) @ ts\<rparr>\<rparr>"

definition WithCompression :: "compression_codec \<Rightarrow> 'x builder \<Rightarrow> 'x builder" where
  "WithCompression c = WithByteTransforms [\<lambda>next ob w. (Ok (NewCompressionDecorator next c), w)]"

definition WithTypeAdapter :: "'x decorator option \<Rightarrow> 'x builder \<Rightarrow> 'x builder" where
  "WithTypeAdapter a b = b\<lparr>b_features := (b_features b)\<lparr>ft_typeAdapter := a\<rparr>\<rparr>"

section \<open>Compiling the stages\<close>

definition hasStagedFeaturesEnabled :: "'x builder \<Rightarrow> bool" where
  "hasStagedFeaturesEnabled b \<longleftrightarrow>
     le_enabled (ft_logicExpire (b_features b)) \<or> ft_codec (b_features b) \<noteq> None \<or>
     ft_typeAdapter (b_features b) \<noteq> None \<or> 0 < length (ft_byteTransforms (b_features b))"

definition requiresBytePath :: "'x features \<Rightarrow> bool" where
  "requiresBytePath ft \<longleftrightarrow>
     (if 0 < length (ft_byteTransforms ft) then True
      else if ft_codec ft \<noteq> None then True
      else if ft_typeAdapter ft \<noteq> None then True else False)"

definition buildByteCache :: "'x features \<Rightarrow> 'x cache_factory" where
  "buildByteCache ft store ob w = decorate (ft_byteTransforms ft) ob (NewBaseCache TBytes store) w"

definition no_adapter :: "gotype \<Rightarrow> error" where
  "no_adapter T = Errorf ''byte-stage enabled but no adapter configured for type %s: configure WithCodec or WithTypeAdapter'' [AType T]"

definition adaptBytesToType :: "gotype \<Rightarrow> 'x features \<Rightarrow> 'x decorator" where
  "adaptBytesToType T ft next ob w =
     (case ft_typeAdapter ft of
        Some a \<Rightarrow> a next ob w
      | None \<Rightarrow>
          (case ft_codec ft of
             Some cd \<Rightarrow> (Ok (CodecDecorator T cd next), w)
           | None \<Rightarrow>
               if IsBytesType T then (Ok (newBytesPassThroughCache T next), w)
               else (Err (no_adapter T), w)))"

definition no_logic_adapter :: "gotype \<Rightarrow> error" where
  "no_logic_adapter T =
     (if IsBytesType T
      then Errorf ''logicTTLBytesAdapter supports []byte value type. try use builder.WithLogicExpireBytesAdapter(true) to enable it, or configure WithCodec for LogicTTLValue[T] <-> []byte adapter'' []
      else Errorf ''logic-expire byte-stage requires adapter for %s: configure WithCodec for LogicTTLValue[T] <-> []byte'' [AType T])"

definition adaptBytesToLogicWire :: "gotype \<Rightarrow> 'x features \<Rightarrow> 'x cache \<Rightarrow> 'x cache result" where
  "adaptBytesToLogicWire T ft next =
     (case ft_codec ft of
        Some cd \<Rightarrow> Ok (CodecDecorator (TLogic T) cd next)
      | None \<Rightarrow>
          if IsBytesType T
          then if le_enableBytesAdapter (ft_logicExpire ft) then NewLogicTTLBytesAdapter T next
               else Err (no_logic_adapter T)
          else Err (no_logic_adapter T))"

definition buildPlainTypedCache :: "gotype \<Rightarrow> 'x features \<Rightarrow> 'x cache_factory" where
  "buildPlainTypedCache T ft store ob w =
     (if \<not> requiresBytePath ft then (Ok (NewBaseCache T store), w)
      else on_ok (buildByteCache ft store ob w) (\<lambda>byteCache w. adaptBytesToType T ft byteCache ob w))"

definition buildLogicWireCache :: "gotype \<Rightarrow> 'x features \<Rightarrow> 'x cache_factory" where
  "buildLogicWireCache T ft store ob w =
     (if \<not> requiresBytePath ft then (Ok (NewBaseCache (TLogic T) store), w)
      else on_ok (buildByteCache ft store ob w) (\<lambda>byteCache w. (adaptBytesToLogicWire T ft byteCache, w)))"

definition buildTTLConfig ::
    "gotype \<Rightarrow> 'x runtime \<Rightarrow> 'x features \<Rightarrow> 'x cache \<Rightarrow> 'x observable option \<Rightarrow> 'x world \<Rightarrow> 'x logic_ttl_config \<times> 'x world" where
  "buildTTLConfig T rt ft next ob w =
     (let (loadFn, w) =
        (case le_loadFn (ft_logicExpire ft) of
           None \<Rightarrow> (None, w)
         | Some f \<Rightarrow> (let (g, w) = new_group w in (Some (SingleflightWrapper T rt g f), w)))
      in (\<lparr>ltc_Cache = next, ltc_DefaultLogicTTL = le_defaultLogicTTL (ft_logicExpire ft),
           ltc_LoadFn = loadFn, ltc_WriteBackTTL = le_defaultWriteBackTTL (ft_logicExpire ft),
           ltc_Observer = ob\<rparr>, w))"

definition logic_factory :: "gotype \<Rightarrow> 'x runtime \<Rightarrow> 'x features \<Rightarrow> 'x cache_factory" where
  "logic_factory T rt ft store ob w =
     on_ok (buildLogicWireCache T ft store ob w)
       (\<lambda>wire w. let (cfg, w) = buildTTLConfig T rt ft wire ob w in
                  (bind_ok (NewLogicTTLDecorator cfg) (\<lambda>d. Ok (LogicTTLDecorator T d)), w))"

definition factory_conflict :: error where
  "factory_conflict = ErrorsNew ''WithFactory cannot be combined with staged features (codec/logic-expire/compression/type-adapter), use WithCustomPlan or disable staged features''"

text \<open>\<open>checkTTLConfigValid\<close> returns the builder with any error appended.\<close>

definition checkTTLConfigValid :: "'x builder \<Rightarrow> bool \<times> 'x builder" where
  "checkTTLConfigValid b =
     (let l = ft_logicExpire (b_features b) in
      if le_defaultLogicTTL l < 0
      then (False, appendErr b (Errorf ''logicExpire.defaultLogicTTL require >= 0 but got:%v'' [ADur (le_defaultLogicTTL l)]))
      else if le_defaultWriteBackTTL l < 0
      then (False, appendErr b (Errorf ''logicExpire.defaultWriteBackTTL require >= 0 but got:%v'' [ADur (le_defaultWriteBackTTL l)]))
      else (True, b))"

definition compileStages :: "gotype \<Rightarrow> 'x runtime \<Rightarrow> 'x builder \<Rightarrow> 'x builder" where
  "compileStages T rt b =
     (if b_factoryCustomized b
      then if hasStagedFeaturesEnabled b then appendErr b factory_conflict else b
      else
        let (valid, b) = (if le_enabled (ft_logicExpire (b_features b)) then checkTTLConfigValid b else (True, b))
        in if \<not> valid then b
           else if le_enabled (ft_logicExpire (b_features b))
           then b\<lparr>b_factory := WithFactory (Some (logic_factory T rt (b_features b)))\<rparr>
           else b\<lparr>b_factory := WithFactory (Some (buildPlainTypedCache T (b_features b)))\<rparr>)"

section \<open>The behaviour decorators and Build\<close>

definition decorateCacheMissedLoader :: "gotype \<Rightarrow> 'x runtime \<Rightarrow> 'x builder \<Rightarrow> 'x world \<Rightarrow> 'x builder \<times> 'x world" where
  "decorateCacheMissedLoader T rt b w =
     (case mf_loadFn (ft_missLoader (b_features b)) of
        None \<Rightarrow> (b, w)
      | Some loadFn \<Rightarrow>
          let writeBackTTL = mf_defaultWriteBackTTL (ft_missLoader (b_features b)) in
          if writeBackTTL < 0
          then (appendErr b (Errorf ''writeBackTTL require >= 0, but got: %v'' [ADur writeBackTTL]), w)
          else
            let (g, w) = new_group w; wrappedFn = SingleflightWrapper T rt g loadFn in
            (b\<lparr>b_decorators := b_decorators b @ [WithDecorator (\<lambda>c ob w.
                (Ok (NewMissedLoaderDecorator \<lparr>ml_cache = c, ml_loadFn = Some wrappedFn,
                       ml_writeBackTTL = writeBackTTL, ml_ob = ob\<rparr>), w))]\<rparr>, w))"

definition decoratePenetrationProtection :: "'x builder \<Rightarrow> 'x builder" where
  "decoratePenetrationProtection b =
     (case nf_protectionFn (ft_nilCache (b_features b)) of
        None \<Rightarrow> b
      | Some protectionFn \<Rightarrow>
          let writeBackTTL = nf_defaultWriteBackTTL (ft_nilCache (b_features b)) in
          if writeBackTTL < 0
          then appendErr b (Errorf ''nilCache.writeBackTTL require >= 0, but got: %v'' [ADur writeBackTTL])
          else
            b\<lparr>b_decorators := b_decorators b @ [WithDecorator (\<lambda>c ob w.
                (Ok (NewNilCacheDecorator \<lparr>nc_cache = c, nc_protectionFn = Some protectionFn,
                       nc_writeBackTTL = writeBackTTL, nc_ob = ob\<rparr>), w))]\<rparr>)"

definition decorateSingleflight :: "gotype \<Rightarrow> 'x runtime \<Rightarrow> 'x builder \<Rightarrow> 'x builder" where
  "decorateSingleflight T rt b =
     (if ft_singleFlight (b_features b)
      then b\<lparr>b_decorators := b_decorators b @ [WithDecorator (\<lambda>c ob w.
               let (g, w) = new_group w in (Ok (SingleflightDecorator T rt g c), w))]\<rparr>
      else b)"

definition Build :: "gotype \<Rightarrow> 'x runtime \<Rightarrow> 'x builder \<Rightarrow> 'x world \<Rightarrow> ('x cache result \<times> 'x builder) \<times> 'x world" where
  "Build T rt b w =
     (let b = compileStages T rt b;
          (b, w) = decorateCacheMissedLoader T rt b w;
          b = decoratePenetrationProtection b;
          b = decorateSingleflight T rt b
      in case b_err b of
           Some e \<Rightarrow> ((Err (Errorf ''builder configs wrong: %w'' [AErr e]), b), w)
         | None \<Rightarrow>
             (case New (b_cacheName b) (b_store b)
                [WithObservable (Some \<lparr>ob_Metrics = b_metrics b, ob_Logger = b_logger b\<rparr>),
                 b_factory b, WithOptions (b_decorators b), b_obDecorators b, WithOptions (b_options b)] w of
                (Ok c, w) \<Rightarrow> ((Ok c, b), w)
              | (Panic m, w) \<Rightarrow> ((Panic m, b), w)
              | (Err e, w) \<Rightarrow>
                  ((Err (Errorf ''build cache [%s] failed: %w'' [AStr (b_cacheName b), AErr e]), b), w)))"

end
