(* ===== verification/Builder_Laws.thy ===== *)
theory Builder_Laws
  imports Builder
begin

text \<open>
  What \<open>Build\<close> produces: the order of the layers, the rejected configurations, and that the
  assembled cache keeps the contract of its store.
\<close>

section \<open>Errors are sticky\<close>

lemma appendErr_simps [simp, build_simps]:
  "b_err (appendErr b e) \<noteq> None" "b_features (appendErr b e) = b_features b"
  "b_decorators (appendErr b e) = b_decorators b" "b_factoryCustomized (appendErr b e) = b_factoryCustomized b"
  by (simp_all add: appendErr_def errors_Join_None)

lemma appendErr_Some [simp]: "\<exists>j. b_err (appendErr b e) = Some j"
  using appendErr_simps(1) [of b e] by (simp only: not_None_eq)

lemma appendErr_is:
  assumes "errors_is e t"
  shows "\<exists>j. b_err (appendErr b e) = Some j \<and> errors_is j t"
proof -
  obtain j where j: "b_err (appendErr b e) = Some j" using appendErr_Some by blast
  then have "errors_Join [b_err b, Some e] = Some j" by (simp add: appendErr_def)
  from errors_Join_is [OF this _ assms] j show ?thesis by simp
qed

lemma checkTTLConfigValid_err: "b_err b \<noteq> None \<Longrightarrow> b_err (snd (checkTTLConfigValid b)) \<noteq> None"
  by (simp add: checkTTLConfigValid_def Let_def)

lemma compileStages_err: "b_err b \<noteq> None \<Longrightarrow> b_err (compileStages T rt b) \<noteq> None"
  using checkTTLConfigValid_err [of b]
  by (auto simp: compileStages_def split: prod.splits if_splits)

lemma decorateCacheMissedLoader_err:
  "b_err b \<noteq> None \<Longrightarrow> b_err (fst (decorateCacheMissedLoader T rt b w)) \<noteq> None"
  by (auto simp: decorateCacheMissedLoader_def Let_def new_group_def split: option.splits)

lemma decoratePenetrationProtection_err: "b_err b \<noteq> None \<Longrightarrow> b_err (decoratePenetrationProtection b) \<noteq> None"
  by (auto simp: decoratePenetrationProtection_def Let_def split: option.splits)

lemma decorateSingleflight_err [simp]: "b_err (decorateSingleflight T rt b) = b_err b"
  by (simp add: decorateSingleflight_def)

text \<open>The configuration error that a build reports, if any.\<close>

definition rejected :: "'x cache result \<Rightarrow> bool" where
  "rejected r \<longleftrightarrow> (\<exists>e. r = Err (Errorf ''builder configs wrong: %w'' [AErr e]))"

text \<open>The builder just before \<open>Build\<close> looks at its error.\<close>

definition prepared :: "gotype \<Rightarrow> 'x runtime \<Rightarrow> 'x builder \<Rightarrow> 'x world \<Rightarrow> 'x builder \<times> 'x world" where
  "prepared T rt b w =
     (let (b, w) = decorateCacheMissedLoader T rt (compileStages T rt b) w
      in (decorateSingleflight T rt (decoratePenetrationProtection b), w))"

definition build_options :: "'x builder \<Rightarrow> 'x cache_option list" where
  "build_options b = [WithObservable (Some \<lparr>ob_Metrics = b_metrics b, ob_Logger = b_logger b\<rparr>),
     b_factory b, WithOptions (b_decorators b), b_obDecorators b, WithOptions (b_options b)]"

definition wrap_build_error :: "string \<Rightarrow> 'x cache result \<Rightarrow> 'x cache result" where
  "wrap_build_error name r =
     (case r of Err e \<Rightarrow> Err (Errorf ''build cache [%s] failed: %w'' [AStr name, AErr e]) | _ \<Rightarrow> r)"

lemma Build_prepared:
  assumes "prepared T rt b w = (b', w1)"
  shows "Build T rt b w =
     (case b_err b' of
        Some e \<Rightarrow> ((Err (Errorf ''builder configs wrong: %w'' [AErr e]), b'), w1)
      | None \<Rightarrow>
          (case New (b_cacheName b') (b_store b') (build_options b') w1 of
             (r, w2) \<Rightarrow> ((wrap_build_error (b_cacheName b') r, b'), w2)))"
  using assms
  by (auto simp: Build_def prepared_def build_options_def wrap_build_error_def Let_def
      split: prod.splits option.splits outcome.splits)

lemma prepared_err: "b_err b \<noteq> None \<Longrightarrow> b_err (fst (prepared T rt b w)) \<noteq> None"
  unfolding prepared_def
  by (simp add: split_beta decoratePenetrationProtection_err decorateCacheMissedLoader_err compileStages_err)

lemma Build_rejects:
  assumes "b_err (fst (prepared T rt b w)) \<noteq> None"
  shows "rejected (fst (fst (Build T rt b w)))"
proof -
  obtain b' w1 where p: "prepared T rt b w = (b', w1)" by (cases "prepared T rt b w")
  with assms Build_prepared [OF p] show ?thesis by (auto simp: rejected_def)
qed

lemma Build_err: "b_err b \<noteq> None \<Longrightarrow> rejected (fst (fst (Build T rt b w)))"
  by (intro Build_rejects prepared_err)

section \<open>The layers\<close>

lemma New_layers:
  "New name store [WithObservable ob, WithFactory (Some f), WithOptions (map WithDecorator ds),
                   WithDecorator od, WithOptions (map WithDecorator os)] w =
   on_ok (f store ob w) (decorate (ds @ [od] @ os) ob)"
  by (simp add: New_def New_config_def WithObservable_def WithFactory_def WithOptions_decorators Let_def)

text \<open>The layers that the features add, innermost first; the loader's group is allocated first.\<close>

definition miss_layer :: "gotype \<Rightarrow> 'x runtime \<Rightarrow> nat \<Rightarrow> 'x features \<Rightarrow> 'x decorator list" where
  "miss_layer T rt g ft =
     (case mf_loadFn (ft_missLoader ft) of
        None \<Rightarrow> []
      | Some f \<Rightarrow> [\<lambda>c ob w. (Ok (NewMissedLoaderDecorator
            \<lparr>ml_cache = c, ml_loadFn = Some (SingleflightWrapper T rt g f),
             ml_writeBackTTL = mf_defaultWriteBackTTL (ft_missLoader ft), ml_ob = ob\<rparr>), w)])"

definition nil_layer :: "'x features \<Rightarrow> 'x decorator list" where
  "nil_layer ft =
     (case nf_protectionFn (ft_nilCache ft) of
        None \<Rightarrow> []
      | Some p \<Rightarrow> [\<lambda>c ob w. (Ok (NewNilCacheDecorator
            \<lparr>nc_cache = c, nc_protectionFn = Some p,
             nc_writeBackTTL = nf_defaultWriteBackTTL (ft_nilCache ft), nc_ob = ob\<rparr>), w)])"

definition flight_layer :: "gotype \<Rightarrow> 'x runtime \<Rightarrow> 'x features \<Rightarrow> 'x decorator list" where
  "flight_layer T rt ft =
     (if ft_singleFlight ft
      then [\<lambda>c ob w. let (g, w) = new_group w in (Ok (SingleflightDecorator T rt g c), w)] else [])"

definition compiled_factory :: "gotype \<Rightarrow> 'x runtime \<Rightarrow> 'x features \<Rightarrow> 'x cache_factory" where
  "compiled_factory T rt ft =
     (if le_enabled (ft_logicExpire ft) then logic_factory T rt ft else buildPlainTypedCache T ft)"

definition loader_group :: "'x features \<Rightarrow> 'x world \<Rightarrow> 'x world" where
  "loader_group ft w = (if mf_loadFn (ft_missLoader ft) = None then w else snd (new_group w))"

text \<open>A configuration without negative times.\<close>

definition ttls_valid :: "'x features \<Rightarrow> bool" where
  "ttls_valid ft \<longleftrightarrow>
     (le_enabled (ft_logicExpire ft) \<longrightarrow>
        0 \<le> le_defaultLogicTTL (ft_logicExpire ft) \<and> 0 \<le> le_defaultWriteBackTTL (ft_logicExpire ft)) \<and>
     (mf_loadFn (ft_missLoader ft) \<noteq> None \<longrightarrow> 0 \<le> mf_defaultWriteBackTTL (ft_missLoader ft)) \<and>
     (nf_protectionFn (ft_nilCache ft) \<noteq> None \<longrightarrow> 0 \<le> nf_defaultWriteBackTTL (ft_nilCache ft))"

lemma compileStages_staged:
  assumes "\<not> b_factoryCustomized b" and "ttls_valid (b_features b)"
  shows "compileStages T rt b = b\<lparr>b_factory := WithFactory (Some (compiled_factory T rt (b_features b)))\<rparr>"
  using assms
  by (auto simp: compileStages_def checkTTLConfigValid_def compiled_factory_def ttls_valid_def Let_def)

lemma prepared_layers:
  assumes "\<not> b_factoryCustomized b" and "ttls_valid (b_features b)"
  shows "prepared T rt b w =
     (b\<lparr>b_factory := WithFactory (Some (compiled_factory T rt (b_features b))),
        b_decorators := b_decorators b @ map WithDecorator
          (miss_layer T rt (w_groups w) (b_features b) @ nil_layer (b_features b) @
           flight_layer T rt (b_features b))\<rparr>, loader_group (b_features b) w)"
  using assms(2)
  by (auto simp: prepared_def compileStages_staged [OF assms] decorateCacheMissedLoader_def
      decoratePenetrationProtection_def decorateSingleflight_def miss_layer_def nil_layer_def
      flight_layer_def loader_group_def new_group_def ttls_valid_def Let_def split: option.splits)

lemma Build_layers:
  assumes "\<not> b_factoryCustomized b" and "ttls_valid (b_features b)" and "b_err b = None"
    and "b_decorators b = map WithDecorator ds" and "b_obDecorators b = WithDecorator od"
    and "b_options b = map WithDecorator os"
    and ob: "ob = Some \<lparr>ob_Metrics = b_metrics b, ob_Logger = b_logger b\<rparr>"
    and p: "on_ok (compiled_factory T rt (b_features b) (b_store b) ob (loader_group (b_features b) w))
       (decorate (ds @ miss_layer T rt (w_groups w) (b_features b) @ nil_layer (b_features b) @
                  flight_layer T rt (b_features b) @ [od] @ os) ob) = (r, w')"
  shows "fst (fst (Build T rt b w)) = wrap_build_error (b_cacheName b) r \<and> snd (Build T rt b w) = w'"
proof -
  let ?b = "b\<lparr>b_factory := WithFactory (Some (compiled_factory T rt (b_features b))),
        b_decorators := map WithDecorator (ds @ miss_layer T rt (w_groups w) (b_features b) @
           nil_layer (b_features b) @ flight_layer T rt (b_features b))\<rparr>"
  have q: "prepared T rt b w = (?b, loader_group (b_features b) w)"
    using prepared_layers [OF assms(1,2), of T rt w] assms(4) by simp
  have o: "build_options ?b =
      [WithObservable ob, WithFactory (Some (compiled_factory T rt (b_features b))),
       WithOptions (map WithDecorator (ds @ miss_layer T rt (w_groups w) (b_features b) @
           nil_layer (b_features b) @ flight_layer T rt (b_features b))),
       WithDecorator od, WithOptions (map WithDecorator os)]"
    using assms(5,6) ob by (simp add: build_options_def)
  show ?thesis
    using p assms(3) unfolding Build_prepared [OF q] o New_layers by simp
qed

lemma Build_result:
  assumes "\<not> b_factoryCustomized b" and "ttls_valid (b_features b)" and "b_err b = None"
    and "b_decorators b = map WithDecorator ds" and "b_obDecorators b = WithDecorator od"
    and "b_options b = map WithDecorator os"
    and "ob = Some \<lparr>ob_Metrics = b_metrics b, ob_Logger = b_logger b\<rparr>"
  shows "fst (fst (Build T rt b w)) = wrap_build_error (b_cacheName b)
     (fst (on_ok (compiled_factory T rt (b_features b) (b_store b) ob (loader_group (b_features b) w))
       (decorate (ds @ miss_layer T rt (w_groups w) (b_features b) @ nil_layer (b_features b) @
                  flight_layer T rt (b_features b) @ [od] @ os) ob)))"
  by (rule Build_layers [OF assms prod.collapse [symmetric], THEN conjunct1])

lemma Build_builder: "snd (fst (Build T rt b w)) = fst (prepared T rt b w)"
proof -
  obtain b' w1 where p: "prepared T rt b w = (b', w1)" by fastforce
  show ?thesis by (simp add: Build_prepared [OF p] p split: option.split prod.split)
qed

section \<open>What the layers keep\<close>

text \<open>
  A decorator that can be put on any cache with the given contract without changing it, and whose
  construction touches nothing outside.
\<close>

definition keeps ::
    "'x observable option \<Rightarrow> 'x view \<Rightarrow> (gval \<Rightarrow> bool) \<Rightarrow> (int \<Rightarrow> bool) \<Rightarrow> 'x decorator \<Rightarrow> bool" where
  "keeps ob view storable clock d \<longleftrightarrow>
     (\<forall>c w. cache_contract c view storable clock \<longrightarrow>
        (\<exists>c' w'. d c ob w = (Ok c', w') \<and> w_ext w' = w_ext w \<and> w_now w' = w_now w \<and>
                 cache_contract c' view storable clock))"

lemma decorate_keeps:
  assumes "\<forall>d \<in> set ds. keeps ob view storable clock d" and "cache_contract c view storable clock"
  shows "\<exists>c' w'. decorate ds ob c w = (Ok c', w') \<and> w_ext w' = w_ext w \<and> w_now w' = w_now w \<and>
                 cache_contract c' view storable clock"
  using assms
proof (induction ds arbitrary: c w)
  case (Cons d ds)
  then have "keeps ob view storable clock d" by simp
  with Cons.prems(2) obtain c1 w1 where d: "d c ob w = (Ok c1, w1)" "w_ext w1 = w_ext w"
      "w_now w1 = w_now w" "cache_contract c1 view storable clock"
    unfolding keeps_def by blast
  moreover obtain c2 w2 where "decorate ds ob c1 w1 = (Ok c2, w2)" "w_ext w2 = w_ext w1"
      "w_now w2 = w_now w1" "cache_contract c2 view storable clock"
    using Cons.IH [of c1 w1] Cons.prems d(4) by auto
  ultimately show ?case by simp
qed simp

lemma observable_keeps:
  "quiet view ob \<Longrightarrow> keeps ob view storable clock (\<lambda>c ob w. (Ok (NewObservableDecorator c sn cn ob), w))"
  by (simp add: keeps_def NewObservableDecorator_def ObservableDecorator_contract)

lemma flight_layer_keeps:
  "typed T view \<Longrightarrow> sequential rt \<Longrightarrow> \<forall>d \<in> set (flight_layer T rt ft). keeps ob view storable clock d"
  by (auto simp: keeps_def flight_layer_def new_group_def intro: SingleflightDecorator_contract)

text \<open>A builder whose observation layer is still the one that \<open>NewBuilder\<close> installs.\<close>

definition observed_builder :: "'x builder \<Rightarrow> bool" where
  "observed_builder b \<longleftrightarrow>
     b_obDecorators b =
       WithDecorator (\<lambda>c ob w. (Ok (NewObservableDecorator c (StoreName (b_store b)) (b_cacheName b) ob), w))"

definition builder_observable :: "'x builder \<Rightarrow> 'x observable option" where
  "builder_observable b = Some \<lparr>ob_Metrics = b_metrics b, ob_Logger = b_logger b\<rparr>"

text \<open>
  A builder with no error, no custom factory, valid times, and nothing that fills misses: what it
  builds keeps the contract of the cache that its staged factory makes.
\<close>

definition plain_builder :: "'x builder \<Rightarrow> bool" where
  "plain_builder b \<longleftrightarrow>
     \<not> b_factoryCustomized b \<and> ttls_valid (b_features b) \<and> b_err b = None \<and> b_decorators b = [] \<and>
     b_options b = [] \<and> observed_builder b \<and> mf_loadFn (ft_missLoader (b_features b)) = None \<and>
     nf_protectionFn (ft_nilCache (b_features b)) = None"

lemma Build_keeps:
  assumes b: "plain_builder b"
    and f: "compiled_factory T rt (b_features b) (b_store b) (builder_observable b) w = (Ok c0, w0)"
    and c0: "cache_contract c0 view storable clock" and T: "typed T view" and rt: "sequential rt"
    and q: "quiet view (builder_observable b)"
  shows "\<exists>c. fst (fst (Build T rt b w)) = Ok c \<and> cache_contract c view storable clock"
proof -
  let ?od = "\<lambda>c ob w. (Ok (NewObservableDecorator c (StoreName (b_store b)) (b_cacheName b) ob), w)"
  let ?ds = "flight_layer T rt (b_features b) @ [?od]"
  have k: "\<forall>d \<in> set ?ds. keeps (builder_observable b) view storable clock d"
    using flight_layer_keeps [OF T rt] observable_keeps [OF q] by auto
  obtain c w' where d: "decorate ?ds (builder_observable b) c0 w0 = (Ok c, w')"
      "cache_contract c view storable clock"
    using decorate_keeps [OF k c0, of w0] by blast
  have "fst (fst (Build T rt b w)) = wrap_build_error (b_cacheName b) (Ok c)"
    using b f d(1)
    by (intro Build_layers [where ds = "[]" and od = ?od and os = "[]", THEN conjunct1, OF _ _ _ _ _ _ refl])
      (auto simp: plain_builder_def observed_builder_def builder_observable_def miss_layer_def
        nil_layer_def loader_group_def)
  with d(2) show ?thesis by (simp add: wrap_build_error_def)
qed

section \<open>The staged caches\<close>

text \<open>A stack of compressions, innermost first, and what is visible through it.\<close>

fun compressed_view :: "compression_codec list \<Rightarrow> 'x view \<Rightarrow> 'x view" where
  "compressed_view [] view = view"
| "compressed_view (cc # ccs) view = compressed_view ccs (map_view_with (compress_dec cc) view)"

fun compressed_storable :: "compression_codec list \<Rightarrow> (gval \<Rightarrow> bool) \<Rightarrow> gval \<Rightarrow> bool" where
  "compressed_storable [] storable = storable"
| "compressed_storable (cc # ccs) storable =
     compressed_storable ccs (encodable (compress_enc cc) (compress_dec cc) storable)"

definition compressions :: "compression_codec list \<Rightarrow> 'x decorator list" where
  "compressions ccs = map (\<lambda>cc next ob w. (Ok (NewCompressionDecorator next cc), w)) ccs"

lemma compressed_view_typed: "typed TBytes view \<Longrightarrow> typed TBytes (compressed_view ccs view)"
  by (induction ccs arbitrary: view) (simp_all add: compress_dec_typed)

lemma compressions_total: "\<exists>c'. decorate (compressions ccs) ob c w = (Ok c', w)"
  by (induction ccs arbitrary: c) (simp_all add: compressions_def)

lemma compressions_contract:
  assumes "cache_contract c view storable clock" and "typed TBytes view" and "\<forall>cc \<in> set ccs. compression_ok cc"
  shows "\<exists>c'. decorate (compressions ccs) ob c w = (Ok c', w) \<and>
     cache_contract c' (compressed_view ccs view) (compressed_storable ccs storable) clock"
  using assms
proof (induction ccs arbitrary: c view storable)
  case (Cons cc ccs)
  from NewCompressionDecorator_contract [OF Cons.prems(1,2)] Cons.prems(3)
  have "cache_contract (NewCompressionDecorator c cc) (map_view_with (compress_dec cc) view)
          (encodable (compress_enc cc) (compress_dec cc) storable) clock" by simp
  from Cons.IH [OF this compress_dec_typed] Cons.prems(3) show ?case by (simp add: compressions_def)
qed (simp add: compressions_def)

definition bytes_storable :: "(gval \<Rightarrow> bool) \<Rightarrow> gval \<Rightarrow> bool" where
  "bytes_storable storable v \<longleftrightarrow> storable v \<and> type_assert TBytes v = Some v"

lemma buildByteCache_contract:
  assumes "cache_contract st view storable clock" and "ft_byteTransforms ft = compressions ccs"
    and "\<forall>cc \<in> set ccs. compression_ok cc"
  shows "\<exists>c. buildByteCache ft st ob w = (Ok c, w) \<and>
     cache_contract c (compressed_view ccs (typed_view TBytes view))
       (compressed_storable ccs (bytes_storable storable)) clock"
proof -
  have "bytes_storable storable = (\<lambda>v. storable v \<and> type_assert TBytes v = Some v)"
    by (simp add: fun_eq_iff bytes_storable_def)
  with NewBaseCache_contract [OF assms(1), of TBytes]
  have "cache_contract (NewBaseCache TBytes st) (typed_view TBytes view) (bytes_storable storable) clock"
    by simp
  from compressions_contract [OF this typed_typed_view assms(3)] show ?thesis
    by (simp add: buildByteCache_def assms(2))
qed

text \<open>No stage at all: the base cache.\<close>

lemma plain_factory_contract:
  assumes "cache_contract st view storable clock" and "\<not> le_enabled (ft_logicExpire ft)" and "\<not> requiresBytePath ft"
  shows "\<exists>c. compiled_factory T rt ft st ob w = (Ok c, w) \<and>
     cache_contract c (typed_view T view) (\<lambda>v. storable v \<and> type_assert T v = Some v) clock"
  using assms NewBaseCache_contract [OF assms(1)]
  by (simp add: compiled_factory_def buildPlainTypedCache_def)

text \<open>A codec over compressed bytes.\<close>

definition codec_view :: "gotype \<Rightarrow> codec \<Rightarrow> compression_codec list \<Rightarrow> 'x view \<Rightarrow> 'x view" where
  "codec_view T cd ccs view = map_view_with (codec_dec T cd) (compressed_view ccs (typed_view TBytes view))"

definition codec_storable :: "gotype \<Rightarrow> codec \<Rightarrow> compression_codec list \<Rightarrow> (gval \<Rightarrow> bool) \<Rightarrow> gval \<Rightarrow> bool" where
  "codec_storable T cd ccs storable =
     encodable (codec_enc cd) (codec_dec T cd) (compressed_storable ccs (bytes_storable storable))"

lemma codec_factory_contract:
  assumes "cache_contract st view storable clock" and "\<not> le_enabled (ft_logicExpire ft)"
    and "ft_codec ft = Some cd" and "ft_typeAdapter ft = None" and "ft_byteTransforms ft = compressions ccs"
    and "\<forall>cc \<in> set ccs. compression_ok cc" and "codec_ok T cd"
  shows "\<exists>c. compiled_factory T rt ft st ob w = (Ok c, w) \<and>
     cache_contract c (codec_view T cd ccs view) (codec_storable T cd ccs storable) clock"
proof -
  obtain c where c: "buildByteCache ft st ob w = (Ok c, w)"
    "cache_contract c (compressed_view ccs (typed_view TBytes view))
       (compressed_storable ccs (bytes_storable storable)) clock"
    using buildByteCache_contract [OF assms(1,5,6)] by blast
  have "compiled_factory T rt ft st ob w = (Ok (CodecDecorator T cd c), w)"
    using assms(2-4) c(1)
    by (simp add: compiled_factory_def buildPlainTypedCache_def requiresBytePath_def adaptBytesToType_def)
  moreover have "cache_contract (CodecDecorator T cd c) (codec_view T cd ccs view) (codec_storable T cd ccs storable) clock"
    unfolding codec_view_def codec_storable_def
    by (rule CodecDecorator_contract [OF c(2) compressed_view_typed [OF typed_typed_view] assms(7)])
  ultimately show ?thesis by blast
qed

text \<open>Logical expiry of byte values, stored in the adapter's wire format.\<close>

definition wire_view :: "compression_codec list \<Rightarrow> 'x view \<Rightarrow> 'x view" where
  "wire_view ccs view = map_view_with (adapter_dec TBytes) (compressed_view ccs (typed_view TBytes view))"

definition wire_storable :: "compression_codec list \<Rightarrow> (gval \<Rightarrow> bool) \<Rightarrow> gval \<Rightarrow> bool" where
  "wire_storable ccs storable =
     encodable (adapter_enc TBytes) (adapter_dec TBytes) (compressed_storable ccs (bytes_storable storable))"

text \<open>The values that the builder's logical expiry can store at every reading of the clock.\<close>

definition stamp_storable :: "duration \<Rightarrow> compression_codec list \<Rightarrow> (gval \<Rightarrow> bool) \<Rightarrow> (int \<Rightarrow> bool) \<Rightarrow> gval \<Rightarrow> bool" where
  "stamp_storable ttl ccs storable clock v \<longleftrightarrow>
     (\<forall>t. clock t \<longrightarrow> wire_storable ccs storable (VLogic TBytes v (if 0 < ttl then t + ttl else zero_time)))"

lemma wire_view_Present:
  "wire_view ccs view w k t = Present v d \<Longrightarrow> \<exists>x e. v = VLogic TBytes x e \<and> type_assert TBytes x = Some x"
  using adapter_dec_Ok
  by (auto simp: wire_view_def map_view_with_def map_entry_def split: entry.splits outcome.splits)

lemma wire_view_logic_typed: "logic_typed TBytes (wire_view ccs view)"
  unfolding logic_typed_def by (blast dest: wire_view_Present)

lemma logic_factory_contract:
  assumes C: "cache_contract st view storable clock"
    and le: "ft_logicExpire ft = \<lparr>le_enabled = True, le_defaultLogicTTL = ttl, le_loadFn = None,
                                  le_defaultWriteBackTTL = wb, le_enableBytesAdapter = True\<rparr>"
    and ft: "ft_codec ft = None" "ft_byteTransforms ft = compressions ccs" "ccs \<noteq> []"
    and ccs: "\<forall>cc \<in> set ccs. compression_ok cc"
    and ob: "ob = Some o'" "Option.bind (ob_Metrics o') m_RecordLogicExpire = None"
  shows "\<exists>c. compiled_factory TBytes rt ft st ob w = (Ok c, w) \<and>
     cache_contract c (map_view_with unlogic (wire_view ccs view)) (stamp_storable ttl ccs storable clock) clock"
proof -
  obtain bc where bc: "buildByteCache ft st ob w = (Ok bc, w)"
    "cache_contract bc (compressed_view ccs (typed_view TBytes view))
       (compressed_storable ccs (bytes_storable storable)) clock"
    using buildByteCache_contract [OF C ft(2) ccs] by blast
  let ?a = "LogicTTLBytesAdapter TBytes bc"
  have a: "cache_contract ?a (wire_view ccs view) (wire_storable ccs storable) clock"
    unfolding wire_view_def wire_storable_def
    by (rule LogicTTLBytesAdapter_contract [OF bc(2) compressed_view_typed [OF typed_typed_view]])
  let ?d = "\<lparr>lt_cache = ?a, lt_ob = ob, lt_logicExpireMetrics = None, lt_defaultLogicTTL = ttl,
             lt_loadFn = None, lt_writeBackTTL = wb\<rparr>"
  have "buildLogicWireCache TBytes ft st ob w = (Ok ?a, w)"
    using ft bc(1)
    by (simp add: buildLogicWireCache_def requiresBytePath_def adaptBytesToLogicWire_def compressions_def
        IsBytesType_def le NewLogicTTLBytesAdapter_def)
  then have f: "compiled_factory TBytes rt ft st ob w = (Ok (LogicTTLDecorator TBytes ?d), w)"
    using ob by (simp add: compiled_factory_def le logic_factory_def buildTTLConfig_def NewLogicTTLDecorator_def)
  have "stamp_storable ttl ccs storable clock = stampable TBytes ?d (wire_storable ccs storable) clock"
    by (simp add: fun_eq_iff stamp_storable_def stampable_def stamp_def)
  moreover have "cache_contract (LogicTTLDecorator TBytes ?d) (map_view_with unlogic (wire_view ccs view))
      (stampable TBytes ?d (wire_storable ccs storable) clock) clock"
    using a wire_view_logic_typed
    by (intro LogicTTLDecorator_contract) (simp_all add: quiet_expire_def)
  ultimately show ?thesis using f by simp
qed

lemma logic_view_typed: "typed TBytes (map_view_with unlogic (wire_view ccs view))"
proof -
  have "type_assert TBytes u = Some u" if "wire_view ccs view w k t = Present v d" "unlogic v = Ok u" for w k t v d u
    using wire_view_Present [OF that(1)] that(2) by auto
  then show ?thesis
    by (auto simp: typed_def map_view_with_def map_entry_def split: entry.splits outcome.splits)
qed

section \<open>Configuring a builder\<close>

text \<open>One call of an option method; \<open>configured b b'\<close> is a chain of them.\<close>

inductive option_call :: "'x builder \<Rightarrow> 'x builder \<Rightarrow> bool" where
  "option_call b (WithSingleflight on b)"
| "option_call b (WithCodec cd b)"
| "option_call b (WithLogicExpireEnabled on b)"
| "option_call b (WithLogicExpireDefaultLogicTTL d b)"
| "option_call b (WithLogicExpireDefaultWriteBackTTL d b)"
| "option_call b (WithLogicExpireBytesAdapter on b)"
| "option_call b (WithLogicExpireLoader lf b)"
| "option_call b (WithCacheMissLoader lf b)"
| "option_call b (WithCacheMissDefaultWriteBackTTL d b)"
| "option_call b (WithNilCacheFn p b)"
| "option_call b (WithNilCacheWriteBackTTL d b)"
| "option_call b (Builder_WithFactory fa b)"
| "option_call b (WithLogger l b)"
| "option_call b (WithMetrics m b)"
| "option_call b (WithObserveDecorator od b)"
| "option_call b (WithDecorators ds b)"
| "option_call b (Builder_WithOptions os b)"
| "option_call b (WithByteTransforms ts b)"
| "option_call b (WithCompression cc b)"
| "option_call b (WithTypeAdapter a b)"

lemmas option_defs = WithSingleflight_def WithCodec_def WithLogicExpireEnabled_def
  WithLogicExpireDefaultLogicTTL_def WithLogicExpireDefaultWriteBackTTL_def
  WithLogicExpireBytesAdapter_def WithLogicExpireLoader_def WithCacheMissLoader_def
  WithCacheMissDefaultWriteBackTTL_def WithNilCacheFn_def WithNilCacheWriteBackTTL_def
  Builder_WithFactory_def WithLogger_def WithMetrics_def WithObserveDecorator_def WithDecorators_def
  Builder_WithOptions_def WithByteTransforms_def WithCompression_def WithTypeAdapter_def
  upd_logicExpire_def Let_def

inductive configured :: "'x builder \<Rightarrow> 'x builder \<Rightarrow> bool" where
  start: "configured b b"
| call: "configured b b' \<Longrightarrow> option_call b' b'' \<Longrightarrow> configured b b''"

lemma option_call_err: "option_call b b' \<Longrightarrow> b_err b \<noteq> None \<Longrightarrow> b_err b' \<noteq> None"
  by (induction rule: option_call.induct) (auto simp: option_defs)

lemma configured_err: "configured b b' \<Longrightarrow> b_err b \<noteq> None \<Longrightarrow> b_err b' \<noteq> None"
  by (induction rule: configured.induct) (auto dest: option_call_err)

lemma option_call_customized: "option_call b b' \<Longrightarrow> b_factoryCustomized b \<Longrightarrow> b_factoryCustomized b'"
  by (induction rule: option_call.induct) (simp_all add: option_defs appendErr_def)

lemma configured_customized: "configured b b' \<Longrightarrow> b_factoryCustomized b \<Longrightarrow> b_factoryCustomized b'"
  by (induction rule: configured.induct) (auto dest: option_call_customized)

text \<open>The store and the name are fixed by \<open>NewBuilder\<close>.\<close>

lemma option_call_store: "option_call b b' \<Longrightarrow> b_store b' = b_store b \<and> b_cacheName b' = b_cacheName b"
  by (induction rule: option_call.induct) (simp_all add: option_defs appendErr_def)

lemma NewBuilder_Ok:
  "NewBuilder T slog name store opts = Ok b \<longleftrightarrow> name \<noteq> [] \<and> (\<exists>st. store = Some st \<and>
     b = \<lparr>b_err = None, b_cacheName = name, b_store = st,
          b_factory = WithSimpleFactory (\<lambda>s w. (Ok (NewBaseCache T s), w)),
          b_metrics = Some NoopMetrics, b_logger = Some (SlogLogger slog),
          b_obDecorators = WithDecorator (\<lambda>c ob w. (Ok (NewObservableDecorator c (StoreName st) name ob), w)),
          b_features = default_features, b_decorators = [], b_options = opts, b_factoryCustomized = False\<rparr>)"
  by (auto simp: NewBuilder_def split: option.splits)

lemma compileStages_negative_logic:
  assumes "le_enabled (ft_logicExpire (b_features b))"
    and "le_defaultLogicTTL (ft_logicExpire (b_features b)) < 0 \<or> le_defaultWriteBackTTL (ft_logicExpire (b_features b)) < 0"
  shows "b_err (compileStages T rt b) \<noteq> None"
  using assms
  by (auto simp: compileStages_def checkTTLConfigValid_def hasStagedFeaturesEnabled_def Let_def)

lemma compileStages_features [simp]: "b_features (compileStages T rt b) = b_features b"
  by (auto simp: compileStages_def checkTTLConfigValid_def Let_def)

lemma decorateCacheMissedLoader_features [simp]:
  "b_features (fst (decorateCacheMissedLoader T rt b w)) = b_features b"
  by (auto simp: decorateCacheMissedLoader_def Let_def new_group_def split: option.splits)

lemma prepared_negative:
  assumes "\<not> ttls_valid (b_features b)"
  shows "b_err (fst (prepared T rt b w)) \<noteq> None"
proof -
  let ?c = "compileStages T rt b"
  let ?m = "fst (decorateCacheMissedLoader T rt ?c w)"
  have p: "b_err (fst (prepared T rt b w)) = b_err (decoratePenetrationProtection ?m)"
    by (simp add: prepared_def split_beta)
  consider "b_err ?c \<noteq> None" | "b_err ?m \<noteq> None" | "b_err (decoratePenetrationProtection ?m) \<noteq> None"
  proof (cases "le_enabled (ft_logicExpire (b_features b)) \<and>
      (le_defaultLogicTTL (ft_logicExpire (b_features b)) < 0 \<or> le_defaultWriteBackTTL (ft_logicExpire (b_features b)) < 0)")
    case True
    with compileStages_negative_logic [of b T rt] that(1) show thesis by blast
  next
    case False
    with assms consider "mf_loadFn (ft_missLoader (b_features b)) \<noteq> None \<and> mf_defaultWriteBackTTL (ft_missLoader (b_features b)) < 0"
      | "nf_protectionFn (ft_nilCache (b_features b)) \<noteq> None \<and> nf_defaultWriteBackTTL (ft_nilCache (b_features b)) < 0"
      by (auto simp: ttls_valid_def)
    then show thesis
    proof cases
      case 1
      then have "b_err ?m \<noteq> None" by (auto simp: decorateCacheMissedLoader_def)
      then show thesis by (rule that(2))
    next
      case 2
      then have "b_err (decoratePenetrationProtection ?m) \<noteq> None"
        by (auto simp: decoratePenetrationProtection_def)
      then show thesis by (rule that(3))
    qed
  qed
  then have "b_err (decoratePenetrationProtection ?m) \<noteq> None"
  proof cases
    case 1
    then show ?thesis by (intro decoratePenetrationProtection_err decorateCacheMissedLoader_err)
  next
    case 2
    then show ?thesis by (rule decoratePenetrationProtection_err)
  qed
  with p show ?thesis by metis
qed

lemma prepared_conflict:
  assumes "b_factoryCustomized b" and "hasStagedFeaturesEnabled b"
  shows "b_err (fst (prepared T rt b w)) \<noteq> None"
proof -
  have "b_err (compileStages T rt b) \<noteq> None" using assms by (simp add: compileStages_def)
  then show ?thesis
    by (simp add: prepared_def split_beta decoratePenetrationProtection_err decorateCacheMissedLoader_err)
qed

lemma prepared_accepts:
  assumes "b_err b = None" and "ttls_valid (b_features b)"
    and "\<not> (b_factoryCustomized b \<and> hasStagedFeaturesEnabled b)"
  shows "b_err (fst (prepared T rt b w)) = None"
proof -
  have "b_err (compileStages T rt b) = None"
    using assms by (auto simp: compileStages_def checkTTLConfigValid_def ttls_valid_def Let_def)
  with assms(2) show ?thesis
    by (auto simp: prepared_def decorateCacheMissedLoader_def decoratePenetrationProtection_def
        ttls_valid_def new_group_def Let_def split_beta split: option.splits)
qed

lemma wrap_build_error_not_rejected: "\<not> rejected (wrap_build_error name r)"
  by (cases r) (simp_all add: wrap_build_error_def rejected_def)

end
