(* ===== verification/Type_Soundness.thy ===== *)
theory Type_Soundness
  imports Builder_Laws
begin

text \<open>
  Type soundness of the caches the builder makes. The code is generic, but below a \<open>Cache[T]\<close>
  values travel as \<open>any\<close> and are asserted back; a cache is \<^emph>\<open>typed\<close> if, given values of its type,
  no operation panics and every value it returns is of its type. Each layer keeps this, so every
  builder whose ingredients are typed builds a typed cache. An invariant \<open>I\<close> of the outside
  world goes along, for stores and loaders that are typed only under one.
\<close>

section \<open>Values of a type\<close>

text \<open>
  Values that a Go program can build: the fields of the generic structs have the type of their
  argument. \<open>fits T v\<close> are those a type assertion to \<open>T\<close> accepts; for an interface type that
  leaves out nil, which no assertion accepts.
\<close>

fun well_formed :: "gval \<Rightarrow> bool" where
  "well_formed (VLogic T v e) \<longleftrightarrow> type_assert T v = Some v \<and> well_formed v"
| "well_formed (VWithTTL T v d) \<longleftrightarrow> type_assert T v = Some v \<and> well_formed v"
| "well_formed v \<longleftrightarrow> True"

definition fits :: "gotype \<Rightarrow> gval \<Rightarrow> bool" where
  "fits T v \<longleftrightarrow> type_assert T v = Some v \<and> well_formed v"

lemma fits_TBytes [simp]: "fits TBytes v \<longleftrightarrow> (\<exists>b. v = VBytes b)"
  by (cases v) (auto simp: fits_def type_assert_def)

lemma fits_VLogic [simp]: "fits (TLogic T) (VLogic T v e) \<longleftrightarrow> fits T v"
  by (auto simp: fits_def type_assert_def)

lemma fits_TLogic_iff: "fits (TLogic T) v \<longleftrightarrow> (\<exists>u e. v = VLogic T u e \<and> fits T u)"
  by (cases v) (auto simp: fits_def type_assert_def split: if_splits)

lemma fits_TWithTTL_iff: "fits (TWithTTL T) v \<longleftrightarrow> (\<exists>u d. v = VWithTTL T u d \<and> fits T u)"
  by (cases v) (auto simp: fits_def type_assert_def split: if_splits)

lemma fits_has_type: "fits T v \<Longrightarrow> has_type T v"
  by (induction T arbitrary: v)
    (auto simp: fits_TLogic_iff fits_TWithTTL_iff, auto simp: fits_def type_assert_def split: if_splits)

lemma fits_well_formed: "fits T v \<Longrightarrow> well_formed v"
  by (simp add: fits_def)

lemma must_assert_fits: "fits T v \<Longrightarrow> must_assert T v = Ok v"
  by (simp add: fits_def must_assert_def)

section \<open>Calls that end well\<close>

fun returns :: "('a \<Rightarrow> bool) \<Rightarrow> 'a result \<Rightarrow> bool" where
  "returns P (Ok v) \<longleftrightarrow> P v"
| "returns P (Err e) \<longleftrightarrow> True"
| "returns P (Panic m) \<longleftrightarrow> False"

text \<open>A call that does not panic, returns only such values and keeps the invariant.\<close>

definition ends :: "('x \<Rightarrow> bool) \<Rightarrow> ('a \<Rightarrow> bool) \<Rightarrow> 'a result \<times> 'x world \<Rightarrow> bool" where
  "ends I P rw \<longleftrightarrow> I (w_ext (snd rw)) \<and> returns P (fst rw)"

named_theorems ends_rules \<open>calls that end well\<close>

lemma ends_return [simp]:
  "ends I P (Ok v, w) \<longleftrightarrow> I (w_ext w) \<and> P v"
  "ends I P (Err e, w) \<longleftrightarrow> I (w_ext w)"
  "\<not> ends I P (Panic m, w)"
  by (simp_all add: ends_def)

lemma ends_on_ok:
  "ends I P p \<Longrightarrow> (\<And>v w. P v \<Longrightarrow> I (w_ext w) \<Longrightarrow> ends I Q (f v w)) \<Longrightarrow> ends I Q (on_ok p f)"
  by (cases p; cases "fst p") (auto simp: ends_def)

lemma ends_pure: "I (w_ext w) \<Longrightarrow> returns P r \<Longrightarrow> ends I P (r, w)"
  by (simp add: ends_def)

lemma ends_mono: "ends I P p \<Longrightarrow> (\<And>v. P v \<Longrightarrow> Q v) \<Longrightarrow> ends I Q p"
  by (cases p; cases "fst p") (auto simp: ends_def)

lemma returns_bind: "returns P r \<Longrightarrow> (\<And>v. P v \<Longrightarrow> returns Q (f v)) \<Longrightarrow> returns Q (bind_ok r f)"
  by (cases r) auto

lemma returns_unit: "returns P r \<longleftrightarrow> \<not> is_panic r \<and> (\<forall>v. r = Ok v \<longrightarrow> P v)"
  by (cases r) auto

section \<open>Typed caches\<close>

locale typed_cache =
  fixes c :: "('x, 'm) cache_scheme" and fit :: "gval \<Rightarrow> bool" and I :: "'x \<Rightarrow> bool"
  assumes Get_ends: "I (w_ext w) \<Longrightarrow> opts_total opts \<Longrightarrow> ends I fit (c_Get c ctx k opts w)"
    and GetWithTTL_ends: "I (w_ext w) \<Longrightarrow> opts_total opts \<Longrightarrow> ends I (\<lambda>(v, d). fit v) (c_GetWithTTL c ctx k opts w)"
    and Set_ends: "I (w_ext w) \<Longrightarrow> opts_total opts \<Longrightarrow> fit v \<Longrightarrow> ends I (\<lambda>u. True) (c_Set c ctx k v ttl opts w)"
    and Delete_ends: "I (w_ext w) \<Longrightarrow> opts_total opts \<Longrightarrow> ends I (\<lambda>u. True) (c_Delete c ctx k opts w)"
    and Clear_ends: "I (w_ext w) \<Longrightarrow> ends I (\<lambda>u. True) (c_Clear c ctx w)"
begin

text \<open>A layer that translates values, if it translates between the types.\<close>

lemma transcode_typed:
  assumes "\<And>v. fit' v \<Longrightarrow> returns fit (enc v)" and "\<And>v. fit v \<Longrightarrow> returns fit' (dec v)"
  shows "typed_cache (transcode enc dec c) fit' I"
proof (unfold_locales, goal_cases)
  case 1 then show ?case
    by (auto simp: transcode_Get_def assms(2) intro!: ends_on_ok [OF Get_ends] ends_pure)
next
  case 2 then show ?case
    by (auto simp: transcode_GetWithTTL_def intro!: ends_on_ok [OF GetWithTTL_ends] ends_pure
        returns_bind [OF assms(2)])
next
  case (3 w opts v)
  with assms(1) [OF 3(3)] show ?case
    by (cases "enc v") (simp_all add: transcode_Set_def Set_ends)
next
  case 4 then show ?case by (simp add: Delete_ends)
next
  case 5 then show ?case by (simp add: Clear_ends)
qed

end

text \<open>The map store is a typed store for the well-formed values, under the invariant that it holds such values.\<close>

definition maps_well_formed :: "map_heap \<Rightarrow> bool" where
  "maps_well_formed h \<longleftrightarrow> (\<forall>a k item. h a k = Some item \<longrightarrow> well_formed (it_value item))"

lemma maps_well_formed_put:
  "maps_well_formed (w_ext w) \<Longrightarrow> (\<And>k item. m k = Some item \<Longrightarrow> well_formed (it_value item)) \<Longrightarrow>
   maps_well_formed (w_ext (put_data s m w))"
  by (auto simp: maps_well_formed_def put_data_def)

lemma maps_well_formed_get:
  "maps_well_formed (w_ext w) \<Longrightarrow> map_data s w k = Some item \<Longrightarrow> well_formed (it_value item)"
  unfolding maps_well_formed_def map_data_def by blast

lemma map_Get_ends:
  assumes "maps_well_formed (w_ext w)"
  shows "ends maps_well_formed well_formed (SlowMapStore_Get s ctx k opts w)"
proof -
  let ?w = "sleep (sm_readDelay s) w"
  from assms have "maps_well_formed (w_ext ?w)" by simp
  then show ?thesis
    by (auto simp: SlowMapStore_Get_def Let_def maps_well_formed_get split: option.split if_splits
        intro!: maps_well_formed_put)
qed

interpretation map_typed: typed_cache "SlowMapStore s" well_formed maps_well_formed for s
proof (unfold_locales, goal_cases)
  case 1 then show ?case by (simp add: map_Get_ends)
next
  case 2 then show ?case
    by (auto simp: SlowMapStore_GetWithTTL_def Let_def intro!: ends_on_ok [OF map_Get_ends])
next
  case 3 then show ?case
    by (auto simp: SlowMapStore_Set_def Let_def maps_well_formed_get intro!: maps_well_formed_put split: if_splits)
next
  case 4 then show ?case
    by (auto simp: SlowMapStore_Delete_def maps_well_formed_get intro!: maps_well_formed_put split: if_splits)
next
  case 5 then show ?case
    by (auto simp: SlowMapStore_Clear_def intro!: maps_well_formed_put)
qed

section \<open>The byte stage\<close>

lemma well_formed_VBytes [simp]: "well_formed (VBytes b)"
  by simp

lemma NewBaseCache_typed:
  assumes "typed_cache s well_formed I"
  shows "typed_cache (NewBaseCache T s) (fits T) I"
  unfolding NewBaseCache_transcode
  by (rule typed_cache.transcode_typed [OF assms])
    (auto simp: fits_def assert_type_def dest: type_assert_Some split: option.split)

text \<open>A codec between bytes and \<open>T\<close>, and a compression: what typed Go code gives without further conditions.\<close>

definition typed_codec :: "gotype \<Rightarrow> codec \<Rightarrow> bool" where
  "typed_codec T cd \<longleftrightarrow> (\<forall>v. fits T v \<longrightarrow> \<not> is_panic (cd_Marshal cd v)) \<and> (\<forall>raw. returns (fits T) (cd_Unmarshal cd raw T))"

definition total_compression :: "compression_codec \<Rightarrow> bool" where
  "total_compression cc \<longleftrightarrow> (\<forall>b. \<not> is_panic (cc_Compress cc b) \<and> \<not> is_panic (cc_Decompress cc b))"

lemma returns_bytes: "\<not> is_panic r \<Longrightarrow> returns (fits TBytes) (bind_ok r (\<lambda>b. Ok (VBytes b)))"
  by (cases r) simp_all

lemma CodecDecorator_typed:
  assumes "typed_cache c (fits TBytes) I" and "typed_codec T cd"
  shows "typed_cache (CodecDecorator T cd c) (fits T) I"
  unfolding CodecDecorator_transcode
proof (rule typed_cache.transcode_typed [OF assms(1)])
  show "returns (fits TBytes) (codec_enc cd v)" if "fits T v" for v
    using that assms(2) unfolding typed_codec_def codec_enc_def by (intro returns_bytes) blast
  show "returns (fits T) (codec_dec T cd v)" if "fits TBytes v" for v
    using that assms(2) by (auto simp: typed_codec_def codec_dec_def)
qed

lemma NewCompressionDecorator_typed:
  assumes "typed_cache c (fits TBytes) I" and "total_compression cc"
  shows "typed_cache (NewCompressionDecorator c cc) (fits TBytes) I"
  unfolding NewCompressionDecorator_transcode using assms(2)
  by (intro typed_cache.transcode_typed [OF assms(1)])
    (auto simp: compress_enc_def compress_dec_def total_compression_def simp del: fits_TBytes intro!: returns_bytes
      dest!: fits_TBytes [THEN iffD1])

lemma newBytesPassThroughCache_typed:
  assumes "typed_cache c (fits TBytes) I"
  shows "typed_cache (newBytesPassThroughCache TBytes c) (fits TBytes) I"
  unfolding newBytesPassThroughCache_transcode
  by (rule typed_cache.transcode_typed [OF assms]) (auto simp: bridge_enc_def bridge_dec_def)

lemma LogicTTLBytesAdapter_typed:
  assumes "typed_cache c (fits TBytes) I"
  shows "typed_cache (LogicTTLBytesAdapter TBytes c) (fits (TLogic TBytes)) I"
  unfolding LogicTTLBytesAdapter_transcode
  by (rule typed_cache.transcode_typed [OF assms])
    (auto simp: adapter_enc_def adapter_dec_def encode_logic_value_def encodeLogicTTLBytes_def
      decodeLogicTTLBytes_def fits_TLogic_iff Let_def)

section \<open>Telemetry and flights\<close>

text \<open>An observable with metrics and a logger that do not panic and keep the invariant.\<close>

definition typed_metrics :: "('x \<Rightarrow> bool) \<Rightarrow> 'x metrics \<Rightarrow> bool" where
  "typed_metrics I m \<longleftrightarrow>
     (\<forall>ctx evt w. I (w_ext w) \<longrightarrow> ends I (\<lambda>u. True) (m_Record m ctx evt w)) \<and>
     (\<forall>f ctx w. m_RecordLogicExpire m = Some f \<longrightarrow> I (w_ext w) \<longrightarrow> ends I (\<lambda>u. True) (f ctx w))"

definition typed_logger :: "('x \<Rightarrow> bool) \<Rightarrow> 'x logger \<Rightarrow> bool" where
  "typed_logger I l \<longleftrightarrow> (\<forall>ctx msg args w. I (w_ext w) \<longrightarrow> I (w_ext (lg_ErrorContext l ctx msg args w)))"

definition typed_observable :: "('x \<Rightarrow> bool) \<Rightarrow> 'x observable option \<Rightarrow> bool" where
  "typed_observable I ob \<longleftrightarrow> (\<exists>m l. ob = Some \<lparr>ob_Metrics = Some m, ob_Logger = Some l\<rparr> \<and>
     typed_metrics I m \<and> typed_logger I l)"

lemma log_error_ends: "typed_observable I ob \<Longrightarrow> I (w_ext w) \<Longrightarrow> ends I (\<lambda>u. True) (log_error ob ctx msg args w)"
  by (auto simp: typed_observable_def typed_logger_def log_error_def)

lemma record_event_ends: "typed_observable I ob \<Longrightarrow> I (w_ext w) \<Longrightarrow> ends I (\<lambda>u. True) (record_event ob ctx evt w)"
  by (auto simp: typed_observable_def typed_metrics_def record_event_def)

lemma log_error_guarded_keeps: "typed_observable I ob \<Longrightarrow> I (w_ext w) \<Longrightarrow> I (w_ext (log_error_guarded ob ctx msg args w))"
  by (auto simp: typed_observable_def typed_logger_def log_error_guarded_def)

lemma obs_defer_ends:
  assumes "typed_observable I ob" and "ends I P (r, w)"
  shows "ends I P (obs_defer ob msg get ctx evt start (r, w))"
proof -
  let ?w = "update_event evt (complete_event get (final_err r) (w_now w - start)) w"
  from assms(2) have r: "returns P r" and I: "I (w_ext ?w)" by (simp_all add: ends_def)
  obtain rr w1 where rec: "record_event ob ctx evt ?w = (rr, w1)" by fastforce
  from record_event_ends [OF assms(1) I, of ctx evt] rec have R: "I (w_ext w1)" "returns (\<lambda>u. True) rr"
    by (simp_all add: ends_def)
  show ?thesis
  proof (cases rr)
    case (Err e)
    obtain lr w2 where log: "log_error ob ctx msg [(''err'', AErr e)] w1 = (lr, w2)" by fastforce
    from log_error_ends [OF assms(1) R(1)] log have "I (w_ext w2)" "returns (\<lambda>u. True) lr"
      by (metis ends_def fst_conv snd_conv)+
    with rec Err log r show ?thesis by (cases lr) (auto simp: obs_defer_def ends_def)
  qed (use rec R r in \<open>auto simp: obs_defer_def ends_def\<close>)
qed

lemma observed_ends:
  assumes "typed_observable I (od_ob o')" and "\<And>ctx' w1. I (w_ext w1) \<Longrightarrow> ends I P (call ctx' w1)" and "I (w_ext w)"
  shows "ends I P (let start = w_now w; ((ctx', evt), w1) = obs_initCtx o' ctx op w in
          obs_defer (od_ob o') msg get ctx' evt start (call ctx' w1))"
proof -
  obtain ctx' evt w1 where i: "obs_initCtx o' ctx op w = ((ctx', evt), w1)" by (metis prod.exhaust)
  with obs_initCtx_facts(3) assms(3) have I: "I (w_ext w1)" by fastforce
  obtain r w2 where c: "call ctx' w1 = (r, w2)" by fastforce
  with assms(2) [OF I, of ctx'] obs_defer_ends [OF assms(1)] i show ?thesis by simp
qed

lemma ObservableDecorator_typed:
  assumes C: "typed_cache (od_cache o') fit I" and q: "typed_observable I (od_ob o')"
  shows "typed_cache (ObservableDecorator o') fit I"
proof (unfold_locales, goal_cases)
  case 1 then show ?case unfolding ObservableDecorator_ops ObservableDecorator_Get_def
    by (intro observed_ends [OF q] typed_cache.Get_ends [OF C])
next
  case 2 then show ?case unfolding ObservableDecorator_ops ObservableDecorator_GetWithTTL_def
    by (intro observed_ends [OF q] typed_cache.GetWithTTL_ends [OF C])
next
  case 3 then show ?case unfolding ObservableDecorator_ops ObservableDecorator_Set_def
    by (intro observed_ends [OF q] typed_cache.Set_ends [OF C])
next
  case 4 then show ?case unfolding ObservableDecorator_ops ObservableDecorator_Delete_def
    by (intro observed_ends [OF q] typed_cache.Delete_ends [OF C])
next
  case 5 then show ?case unfolding ObservableDecorator_ops ObservableDecorator_Clear_def
    by (intro observed_ends [OF q] typed_cache.Clear_ends [OF C])
qed

lemma sf_addTags_ends: "ends I P (r, w) \<Longrightarrow> ends I P (r, if b then w else sf_addTags ctx sh w)"
  by (simp add: ends_def sf_addTags_def)

lemma SingleflightDecorator_typed:
  assumes C: "typed_cache c (fits T) I" and rt: "sequential rt"
  shows "typed_cache (SingleflightDecorator T rt g c) (fits T) I"
proof (unfold_locales, goal_cases)
  case (1 w opts ctx k)
  obtain r w1 where c: "c_Get c ctx k opts w = (r, w1)" by fastforce
  with typed_cache.Get_ends [OF C 1, of ctx k] have e: "I (w_ext w1)" "returns (fits T) r" by (simp_all add: ends_def)
  then have "ends I (fits T) (bind_ok r (must_assert T), w1)"
    by (intro ends_pure returns_bind [of "fits T"]) (simp_all add: must_assert_fits)
  then show ?case by (simp add: sequential_Get [OF rt c] sf_addTags_ends)
next
  case (2 w opts ctx k)
  obtain r w1 where c: "c_GetWithTTL c ctx k opts w = (r, w1)" by fastforce
  with typed_cache.GetWithTTL_ends [OF C 2, of ctx k]
  show ?case by (simp add: sequential_GetWithTTL [OF rt c] sf_addTags_ends)
qed (simp_all add: SingleflightDecorator_Set_def SingleflightDecorator_Delete_def SingleflightDecorator_Clear_def
    typed_cache.Set_ends [OF C] typed_cache.Delete_ends [OF C] typed_cache.Clear_ends [OF C])

section \<open>Loaders\<close>

definition typed_loader :: "(gval \<Rightarrow> bool) \<Rightarrow> ('x \<Rightarrow> bool) \<Rightarrow> 'x loader \<Rightarrow> bool" where
  "typed_loader fit I f \<longleftrightarrow>
     (\<forall>ctx k opts w. I (w_ext w) \<longrightarrow> opts_total opts \<longrightarrow> ends I fit (f ctx k opts w))"

lemma typed_loader_ends: "typed_loader fit I f \<Longrightarrow> I (w_ext w) \<Longrightarrow> opts_total opts \<Longrightarrow> ends I fit (f ctx k opts w)"
  by (simp add: typed_loader_def)

lemma SingleflightWrapper_typed:
  assumes f: "typed_loader (fits T) I f" and rt: "sequential rt"
  shows "typed_loader (fits T) I (SingleflightWrapper T rt g f)"
  unfolding typed_loader_def
proof (intro allI impI)
  fix ctx k opts and w :: "'a world" assume w: "I (w_ext w)" "opts_total opts"
  obtain r w1 where c: "f ctx k opts w = (r, w1)" by fastforce
  with typed_loader_ends [OF f w, of ctx k] have e: "I (w_ext w1)" "returns (fits T) r" by (simp_all add: ends_def)
  then have "returns (fits T) (bind_ok r (must_assert T))"
    by (intro returns_bind [of "fits T"]) (simp_all add: must_assert_fits)
  moreover have "rt_DoChan rt g k (f ctx k opts) ctx w = (Some r, w1) \<or>
      (\<exists>t. rt_DoChan rt g k (f ctx k opts) ctx w = (None, w1\<lparr>w_now := t\<rparr>) \<and> ctx_Err ctx (w1\<lparr>w_now := t\<rparr>) \<noteq> None \<and> t \<le> w_now w1)"
    using rt c unfolding sequential_def by blast
  ultimately show "ends I (fits T) (SingleflightWrapper T rt g f ctx k opts w)"
    using e(1) by (auto simp: SingleflightWrapper_def ends_def)
qed

lemma protection_loader_typed: "(\<And>k. fit (p k)) \<Longrightarrow> typed_loader fit I (protection_loader p)"
  by (simp add: typed_loader_def protection_loader_def)

lemma finish_write_back_ends:
  "typed_observable I ob \<Longrightarrow> fit v \<Longrightarrow> ends I (\<lambda>u. True) p \<Longrightarrow> ends I fit (finish_write_back ob ctx msg k v p)"
  by (cases p; cases "fst p") (auto simp: finish_write_back_def log_error_guarded_keeps)

lemma fill_miss_ends:
  assumes C: "typed_cache c fit I" and f: "typed_loader fit I f" and q: "typed_observable I ob"
    and w: "I (w_ext w)" "opts_total opts"
  shows "ends I fit (fill_miss msg ob ttl c f ctx k opts w)"
  unfolding fill_miss_def
  by (intro ends_on_ok [OF typed_loader_ends [OF f w]] finish_write_back_ends [OF q] typed_cache.Set_ends [OF C] w)

lemma fill_Get_ends:
  assumes C: "typed_cache c fit I" and f: "typed_loader fit I f" and q: "typed_observable I ob"
    and w: "I (w_ext w)" "opts_total opts"
  shows "ends I fit (fill_Get msg ob ttl c f ctx k opts w)"
proof -
  obtain r w1 where c: "c_Get c ctx k opts w = (r, w1)" by fastforce
  with typed_cache.Get_ends [OF C w, of ctx k] have "ends I fit (r, w1)" by simp
  then show ?thesis using c fill_miss_ends [OF C f q _ w(2)] by (simp add: fill_Get_def ends_def)
qed

lemma fill_GetWithTTL_ends:
  assumes C: "typed_cache c fit I" and f: "typed_loader fit I f" and q: "typed_observable I ob"
    and w: "I (w_ext w)" "opts_total opts"
  shows "ends I (\<lambda>(v, d). fit v) (fill_GetWithTTL msg ob ttl c f ctx k opts w)"
proof -
  obtain r w1 where c: "c_GetWithTTL c ctx k opts w = (r, w1)" by fastforce
  with typed_cache.GetWithTTL_ends [OF C w, of ctx k] have e: "ends I (\<lambda>(v, d). fit v) (r, w1)" by simp
  then have "ends I (\<lambda>(v, d). fit v) (on_ok (fill_miss msg ob ttl c f ctx k opts w1) (\<lambda>v w. (Ok (v, ttl), w)))"
    by (intro ends_on_ok [OF fill_miss_ends [OF C f q _ w(2)]]) (simp_all add: ends_def)
  then show ?thesis using c e by (simp add: fill_GetWithTTL_def)
qed

lemma NewMissedLoaderDecorator_typed:
  assumes C: "typed_cache (ml_cache d) fit I" and f: "ml_loadFn d = Some f" "typed_loader fit I f"
    and q: "typed_observable I (ml_ob d)"
  shows "typed_cache (NewMissedLoaderDecorator d) fit I"
  by unfold_locales
    (simp_all add: MissedLoaderDecorator_Get_fill [OF f(1)] MissedLoaderDecorator_GetWithTTL_fill [OF f(1)]
      MissedLoaderDecorator_Set_def MissedLoaderDecorator_Delete_def MissedLoaderDecorator_Clear_def
      fill_Get_ends [OF C f(2) q] fill_GetWithTTL_ends [OF C f(2) q] typed_cache.Set_ends [OF C]
      typed_cache.Delete_ends [OF C] typed_cache.Clear_ends [OF C])

lemma NewNilCacheDecorator_typed:
  assumes C: "typed_cache (nc_cache d) fit I" and p: "nc_protectionFn d = Some p" "\<And>k. fit (p k)"
    and q: "typed_observable I (nc_ob d)"
  shows "typed_cache (NewNilCacheDecorator d) fit I"
proof -
  note f = protection_loader_typed [of fit p I, OF p(2)]
  show ?thesis
    by unfold_locales
      (simp_all add: NilCacheDecorator_Get_fill [OF p(1)] NilCacheDecorator_GetWithTTL_fill [OF p(1)]
        NilCacheDecorator_Set_def NilCacheDecorator_Delete_def NilCacheDecorator_Clear_def
        fill_Get_ends [OF C f q] fill_GetWithTTL_ends [OF C f q] typed_cache.Set_ends [OF C]
        typed_cache.Delete_ends [OF C] typed_cache.Clear_ends [OF C])
qed

section \<open>Logical expiry\<close>

definition typed_logic :: "gotype \<Rightarrow> ('x \<Rightarrow> bool) \<Rightarrow> 'x logic_ttl \<Rightarrow> bool" where
  "typed_logic T I d \<longleftrightarrow> typed_cache (lt_cache d) (fits (TLogic T)) I \<and> typed_observable I (lt_ob d) \<and>
     (\<forall>f. lt_loadFn d = Some f \<longrightarrow> typed_loader (fits T) I f) \<and>
     (\<forall>f ctx w. lt_logicExpireMetrics d = Some f \<longrightarrow> I (w_ext w) \<longrightarrow> ends I (\<lambda>u. True) (f ctx w))"

lemma LogicTTL_Set_ends:
  assumes "typed_logic T I d" and "I (w_ext w)" and "opts_total opts" and "fits T v"
  shows "ends I (\<lambda>u. True) (LogicTTLDecorator_Set T d ctx k v ttl opts w)"
proof -
  from assms have "typed_cache (lt_cache d) (fits (TLogic T)) I" by (simp add: typed_logic_def)
  from typed_cache.Set_ends [OF this] assms show ?thesis by (simp add: LogicTTLDecorator_Set_total)
qed

lemma LogicTTL_onExpire_ends:
  assumes d: "typed_logic T I d" and w: "I (w_ext w)" "opts_total opts"
  shows "ends I (\<lambda>u. True) (LogicTTLDecorator_onExpire T d ctx k opts w)"
  unfolding LogicTTLDecorator_onExpire_def
proof (rule ends_on_ok [where P = "\<lambda>u. True"], goal_cases)
  case 1 then show ?case using d w by (simp add: typed_logic_def split: option.split)
next
  case (2 u w1)
  show ?case
  proof (cases "lt_loadFn d")
    case None with 2 show ?thesis by simp
  next
    case (Some f)
    obtain r w2 where c: "f ctx k opts w1 = (r, w2)" by fastforce
    have q: "typed_observable I (lt_ob d)" and f: "typed_loader (fits T) I f" using d Some by (simp_all add: typed_logic_def)
    from typed_loader_ends [OF f 2(2) w(2), of ctx k] c have e: "I (w_ext w2)" "returns (fits T) r"
      by (simp_all add: ends_def)
    show ?thesis
    proof (cases r)
      case (Ok v)
      obtain s w3 where st: "LogicTTLDecorator_Set T d ctx k v (lt_writeBackTTL d) opts w2 = (s, w3)" by fastforce
      with LogicTTL_Set_ends [OF d e(1) w(2), of v ctx k "lt_writeBackTTL d"] e(2) Ok
      have "I (w_ext w3)" "returns (\<lambda>u. True) s" by (simp_all add: ends_def)
      with Some c Ok st log_error_ends [OF q] show ?thesis by (cases s) simp_all
    qed (use Some c e log_error_ends [OF q] in simp_all)
  qed
qed

lemma LogicTTLDecorator_typed:
  assumes d: "typed_logic T I d"
  shows "typed_cache (LogicTTLDecorator T d) (fits T) I"
proof -
  from d have C: "typed_cache (lt_cache d) (fits (TLogic T)) I" by (simp add: typed_logic_def)
  show ?thesis
  proof (unfold_locales, goal_cases)
    case (1 w opts ctx k)
    show ?case unfolding LogicTTLDecorator_ops LogicTTLDecorator_Get_def
    proof (rule ends_on_ok [OF typed_cache.Get_ends [OF C 1]])
      fix v :: gval and w' :: "'a world" assume v: "fits (TLogic T) v" "I (w_ext w')"
      then obtain u e where u: "v = VLogic T u e" "fits T u" by (auto simp: fits_TLogic_iff)
      have "ends I (fits T) (on_ok (LogicTTLDecorator_onExpire T d ctx k opts w') (\<lambda>_ w. (Ok u, w)))"
        by (rule ends_on_ok [OF LogicTTL_onExpire_ends [OF d v(2) 1(2)]]) (simp add: u)
      with u v show "ends I (fits T) (case v of
            VLogic T' Val ExpireAt \<Rightarrow>
              if LogicTTLValue_IsExpire ExpireAt (w_now w')
              then on_ok (LogicTTLDecorator_onExpire T d ctx k opts w') (\<lambda>_ w. (Ok Val, w))
              else (Ok Val, w')
          | _ \<Rightarrow> (Panic ''not a LogicTTLValue'', w'))" by simp
    qed
  next
    case (2 w opts ctx k)
    show ?case unfolding LogicTTLDecorator_ops LogicTTLDecorator_GetWithTTL_def
      by (rule ends_on_ok [OF typed_cache.GetWithTTL_ends [OF C 2]]) (auto simp: fits_TLogic_iff)
  qed (simp_all add: LogicTTL_Set_ends [OF d] LogicTTLDecorator_Delete_def LogicTTLDecorator_Clear_def
      typed_cache.Delete_ends [OF C] typed_cache.Clear_ends [OF C])
qed

section \<open>Layers and factories\<close>

definition typed_layer :: "(gval \<Rightarrow> bool) \<Rightarrow> (gval \<Rightarrow> bool) \<Rightarrow> ('x \<Rightarrow> bool) \<Rightarrow> 'x decorator \<Rightarrow> bool" where
  "typed_layer fit fit' I d \<longleftrightarrow> (\<forall>c ob w. typed_cache c fit I \<longrightarrow> typed_observable I ob \<longrightarrow> I (w_ext w) \<longrightarrow>
     ends I (\<lambda>c'. typed_cache c' fit' I) (d c ob w))"

lemma typed_layer_ends: "typed_layer fit fit' I d \<Longrightarrow> typed_cache c fit I \<Longrightarrow> typed_observable I ob \<Longrightarrow> I (w_ext w) \<Longrightarrow>
    ends I (\<lambda>c'. typed_cache c' fit' I) (d c ob w)"
  by (simp add: typed_layer_def)

lemma decorate_ends:
  assumes "\<forall>d \<in> set ds. typed_layer fit fit I d" and "typed_observable I ob"
    and "typed_cache c fit I" and "I (w_ext w)"
  shows "ends I (\<lambda>c'. typed_cache c' fit I) (decorate ds ob c w)"
  using assms
proof (induction ds arbitrary: c w)
  case (Cons d ds)
  have "ends I (\<lambda>c'. typed_cache c' fit I) (on_ok (d c ob w) (decorate ds ob))"
  proof (rule ends_on_ok)
    show "ends I (\<lambda>c'. typed_cache c' fit I) (d c ob w)" using Cons.prems by (auto intro: typed_layer_ends)
  qed (use Cons in simp)
  then show ?case by simp
qed simp

definition typed_factory :: "gotype \<Rightarrow> ('x \<Rightarrow> bool) \<Rightarrow> 'x cache_factory \<Rightarrow> bool" where
  "typed_factory T I f \<longleftrightarrow> (\<forall>st ob w. typed_cache st well_formed I \<longrightarrow> typed_observable I ob \<longrightarrow> I (w_ext w) \<longrightarrow>
     ends I (\<lambda>c. typed_cache c (fits T) I) (f st ob w))"

text \<open>The ingredients of the features.\<close>

definition typed_features :: "gotype \<Rightarrow> ('x \<Rightarrow> bool) \<Rightarrow> 'x features \<Rightarrow> bool" where
  "typed_features T I ft \<longleftrightarrow>
     (\<forall>f. le_loadFn (ft_logicExpire ft) = Some f \<longrightarrow> typed_loader (fits T) I f) \<and>
     (\<forall>f. mf_loadFn (ft_missLoader ft) = Some f \<longrightarrow> typed_loader (fits T) I f) \<and>
     (\<forall>p. nf_protectionFn (ft_nilCache ft) = Some p \<longrightarrow> (\<forall>k. fits T (p k))) \<and>
     (\<forall>cd. ft_codec ft = Some cd \<longrightarrow> typed_codec T cd \<and> typed_codec (TLogic T) cd) \<and>
     (\<forall>a. ft_typeAdapter ft = Some a \<longrightarrow> typed_layer (fits TBytes) (fits T) I a) \<and>
     (\<forall>t \<in> set (ft_byteTransforms ft). typed_layer (fits TBytes) (fits TBytes) I t)"

lemma buildByteCache_typed:
  assumes "typed_features T I ft" and "typed_cache st well_formed I" and "typed_observable I ob" and "I (w_ext w)"
  shows "ends I (\<lambda>c. typed_cache c (fits TBytes) I) (buildByteCache ft st ob w)"
  using assms unfolding buildByteCache_def
  by (intro decorate_ends NewBaseCache_typed) (simp_all add: typed_features_def)

lemma adaptBytesToType_typed:
  assumes "typed_features T I ft"
  shows "typed_layer (fits TBytes) (fits T) I (adaptBytesToType T ft)"
  using assms unfolding typed_layer_def adaptBytesToType_def
  by (auto simp: typed_features_def IsBytesType_def split: option.split
      intro: typed_layer_ends CodecDecorator_typed newBytesPassThroughCache_typed)

lemma adaptBytesToLogicWire_typed:
  assumes "typed_features T I ft" and "typed_cache c (fits TBytes) I"
  shows "returns (\<lambda>c'. typed_cache c' (fits (TLogic T)) I) (adaptBytesToLogicWire T ft c)"
  using assms unfolding adaptBytesToLogicWire_def NewLogicTTLBytesAdapter_def
  by (auto simp: typed_features_def IsBytesType_def split: option.split
      intro: CodecDecorator_typed LogicTTLBytesAdapter_typed)

lemma buildPlainTypedCache_typed:
  assumes "typed_features T I ft"
  shows "typed_factory T I (buildPlainTypedCache T ft)"
  using assms unfolding typed_factory_def buildPlainTypedCache_def
  by (auto intro: NewBaseCache_typed ends_on_ok [OF buildByteCache_typed] typed_layer_ends [OF adaptBytesToType_typed])

lemma buildLogicWireCache_typed:
  assumes "typed_features T I ft" and "typed_cache st well_formed I" and "typed_observable I ob" and "I (w_ext w)"
  shows "ends I (\<lambda>c. typed_cache c (fits (TLogic T)) I) (buildLogicWireCache T ft st ob w)"
  using assms unfolding buildLogicWireCache_def
  by (auto intro: NewBaseCache_typed ends_on_ok [OF buildByteCache_typed] ends_pure adaptBytesToLogicWire_typed)

lemma new_group_ext [simp]: "w_ext (snd (new_group w)) = w_ext w"
  by (simp add: new_group_def)

lemma logic_factory_typed:
  assumes ft: "typed_features T I ft" and rt: "sequential rt"
  shows "typed_factory T I (logic_factory T rt ft)"
  unfolding typed_factory_def logic_factory_def
proof (intro allI impI, rule ends_on_ok [OF buildLogicWireCache_typed [OF ft]])
  fix ob :: "'a observable option" and c :: "'a cache" and w :: "'a world"
  assume q: "typed_observable I ob" and c: "typed_cache c (fits (TLogic T)) I" and w: "I (w_ext w)"
  obtain cfg w1 where t: "buildTTLConfig T rt ft c ob w = (cfg, w1)" by fastforce
  then have w1: "w_ext w1 = w_ext w" and cfg: "ltc_Cache cfg = c" "ltc_Observer cfg = ob"
    and lf: "\<And>f. ltc_LoadFn cfg = Some f \<Longrightarrow> typed_loader (fits T) I f"
    using ft SingleflightWrapper_typed [OF _ rt]
    by (auto simp: buildTTLConfig_def Let_def new_group_def typed_features_def split: option.splits)
  from q obtain m l where m: "ob = Some \<lparr>ob_Metrics = Some m, ob_Logger = Some l\<rparr>"
    "\<And>f ctx w. m_RecordLogicExpire m = Some f \<Longrightarrow> I (w_ext w) \<Longrightarrow> ends I (\<lambda>u. True) (f ctx w)"
    by (auto simp: typed_observable_def typed_metrics_def)
  obtain d where d: "NewLogicTTLDecorator cfg = Ok d" and "typed_logic T I d"
    using c q m lf cfg by (simp add: NewLogicTTLDecorator_def typed_logic_def)
  then show "ends I (\<lambda>c. typed_cache c (fits T) I) (let (cfg, w) = buildTTLConfig T rt ft c ob w in
       (bind_ok (NewLogicTTLDecorator cfg) (\<lambda>d. Ok (LogicTTLDecorator T d)), w))"
    using t w1 w by (simp add: LogicTTLDecorator_typed)
qed

end
