(* ===== verification/Typed_Builder.thy ===== *)
theory Typed_Builder
  imports Type_Soundness
begin

text \<open>
  Builders made of typed ingredients build typed caches: the option methods and the stages of
  \<open>Build\<close> keep \<open>typed_builder\<close>, and the layers of a typed builder make a typed cache.
\<close>

section \<open>Typed builders\<close>

definition typed_options :: "gotype \<Rightarrow> ('x \<Rightarrow> bool) \<Rightarrow> 'x cache_option list \<Rightarrow> bool" where
  "typed_options T I opts \<longleftrightarrow>
     (\<exists>ds. opts = map WithDecorator ds \<and> (\<forall>d \<in> set ds. typed_layer (fits T) (fits T) I d))"

lemma typed_options_append: "typed_options T I xs \<Longrightarrow> typed_options T I ys \<Longrightarrow> typed_options T I (xs @ ys)"
  unfolding typed_options_def by (metis Un_iff map_append set_append)

lemma typed_options_map: "\<forall>d \<in> set ds. typed_layer (fits T) (fits T) I d \<Longrightarrow> typed_options T I (map WithDecorator ds)"
  unfolding typed_options_def by blast

lemma typed_options_Nil [simp]: "typed_options T I []"
  by (simp add: typed_options_def)

lemma typed_options_single: "typed_layer (fits T) (fits T) I d \<Longrightarrow> typed_options T I [WithDecorator d]"
  using typed_options_map [of "[d]"] by simp

definition typed_parts :: "gotype \<Rightarrow> ('x \<Rightarrow> bool) \<Rightarrow> 'x builder \<Rightarrow> bool" where
  "typed_parts T I b \<longleftrightarrow>
     typed_cache (b_store b) well_formed I \<and>
     typed_observable I (Some \<lparr>ob_Metrics = b_metrics b, ob_Logger = b_logger b\<rparr>) \<and>
     (\<exists>f. b_factory b = WithFactory (Some f) \<and> typed_factory T I f) \<and>
     (\<exists>d. b_obDecorators b = WithDecorator d \<and> typed_layer (fits T) (fits T) I d) \<and>
     typed_options T I (b_decorators b) \<and> typed_options T I (b_options b)"

definition typed_builder :: "gotype \<Rightarrow> ('x \<Rightarrow> bool) \<Rightarrow> 'x builder \<Rightarrow> bool" where
  "typed_builder T I b \<longleftrightarrow> typed_parts T I b \<and> typed_features T I (b_features b)"

lemmas typed_builder_defs = typed_builder_def typed_parts_def

lemma appendErr_typed [simp]: "typed_builder T I (appendErr b e) = typed_builder T I b"
  by (simp add: typed_builder_defs appendErr_def)

section \<open>The stages of Build\<close>

lemma compileStages_typed:
  assumes b: "typed_builder T I b" and rt: "sequential rt"
  shows "typed_builder T I (compileStages T rt b)"
proof -
  have "typed_factory T I (logic_factory T rt (b_features b))" "typed_factory T I (buildPlainTypedCache T (b_features b))"
    using b rt by (simp_all add: typed_builder_def logic_factory_typed buildPlainTypedCache_typed)
  with b show ?thesis
    by (auto simp: compileStages_def checkTTLConfigValid_def Let_def, auto simp: typed_builder_defs)
qed

lemma NewMissedLoaderDecorator_layer:
  assumes "typed_loader (fits T) I f" and "sequential rt"
  shows "typed_layer (fits T) (fits T) I (\<lambda>c ob w. (Ok (NewMissedLoaderDecorator
     \<lparr>ml_cache = c, ml_loadFn = Some (SingleflightWrapper T rt g f), ml_writeBackTTL = ttl, ml_ob = ob\<rparr>), w))"
  using SingleflightWrapper_typed [OF assms]
  by (auto simp: typed_layer_def intro!: NewMissedLoaderDecorator_typed)

lemma NewNilCacheDecorator_layer:
  assumes "\<And>k. fits T (p k)"
  shows "typed_layer (fits T) (fits T) I (\<lambda>c ob w. (Ok (NewNilCacheDecorator
     \<lparr>nc_cache = c, nc_protectionFn = Some p, nc_writeBackTTL = ttl, nc_ob = ob\<rparr>), w))"
  using assms by (auto simp: typed_layer_def intro!: NewNilCacheDecorator_typed)

lemma SingleflightDecorator_layer:
  "sequential rt \<Longrightarrow> typed_layer (fits T) (fits T) I
     (\<lambda>c ob w. let (g, w) = new_group w in (Ok (SingleflightDecorator T rt g c), w))"
  by (auto simp: typed_layer_def new_group_def intro: SingleflightDecorator_typed)

lemma NewObservableDecorator_layer:
  "typed_layer fit fit I (\<lambda>c ob w. (Ok (NewObservableDecorator c sn cn ob), w))"
  by (auto simp: typed_layer_def NewObservableDecorator_def intro!: ObservableDecorator_typed)

lemma add_layer_typed:
  assumes "typed_builder T I b" and "typed_layer (fits T) (fits T) I d"
  shows "typed_builder T I (b\<lparr>b_decorators := b_decorators b @ [WithDecorator d]\<rparr>)"
  using assms by (simp add: typed_builder_defs typed_options_append typed_options_single)

lemma decorateCacheMissedLoader_typed:
  assumes b: "typed_builder T I b" and rt: "sequential rt"
  shows "typed_builder T I (fst (decorateCacheMissedLoader T rt b w))"
proof (cases "mf_loadFn (ft_missLoader (b_features b))")
  case (Some f)
  with b have "typed_loader (fits T) I f" by (simp add: typed_builder_def typed_features_def)
  from add_layer_typed [OF b NewMissedLoaderDecorator_layer [OF this rt]] Some b show ?thesis
    by (simp add: decorateCacheMissedLoader_def new_group_def Let_def)
qed (simp add: decorateCacheMissedLoader_def b)

lemma decoratePenetrationProtection_typed:
  assumes b: "typed_builder T I b"
  shows "typed_builder T I (decoratePenetrationProtection b)"
proof (cases "nf_protectionFn (ft_nilCache (b_features b))")
  case (Some p)
  with b have "\<And>k. fits T (p k)" by (simp add: typed_builder_def typed_features_def)
  from add_layer_typed [OF b NewNilCacheDecorator_layer [OF this]] Some b show ?thesis
    by (simp add: decoratePenetrationProtection_def Let_def)
qed (simp add: decoratePenetrationProtection_def b)

lemma decorateSingleflight_typed:
  assumes b: "typed_builder T I b" and rt: "sequential rt"
  shows "typed_builder T I (decorateSingleflight T rt b)"
  unfolding decorateSingleflight_def using b add_layer_typed [OF b SingleflightDecorator_layer [OF rt]]
  by (simp only: if_split) simp

lemma prepared_typed:
  assumes "typed_builder T I b" and "sequential rt"
  shows "typed_builder T I (fst (prepared T rt b w))"
  using assms
  by (simp add: prepared_def split_beta compileStages_typed decorateCacheMissedLoader_typed
      decoratePenetrationProtection_typed decorateSingleflight_typed)

lemma prepared_ext: "w_ext (snd (prepared T rt b w)) = w_ext w"
  by (simp add: prepared_def split_beta)
    (auto simp: decorateCacheMissedLoader_def new_group_def Let_def split: option.split)

text \<open>What a typed builder builds.\<close>

lemma Build_typed:
  assumes b: "typed_builder T I b" and rt: "sequential rt" and w: "I (w_ext w)"
    and B: "Build T rt b w = ((r, b2), w2)"
  shows "I (w_ext w2) \<and> returns (\<lambda>c. typed_cache c (fits T) I) r"
proof -
  obtain b' w1 where p: "prepared T rt b w = (b', w1)" by fastforce
  with prepared_typed [OF b rt, of w] prepared_ext [of T rt b w] w
  have b': "typed_builder T I b'" and w1: "I (w_ext w1)" by simp_all
  show ?thesis
  proof (cases "b_err b'")
    case (Some e)
    with B w1 show ?thesis by (auto simp: Build_prepared [OF p])
  next
    case None
    let ?ob = "Some \<lparr>ob_Metrics = b_metrics b', ob_Logger = b_logger b'\<rparr>"
    from b' obtain f od where f: "b_factory b' = WithFactory (Some f)" "typed_factory T I f"
      and od: "b_obDecorators b' = WithDecorator od" "typed_layer (fits T) (fits T) I od"
      and st: "typed_cache (b_store b') well_formed I" and ob: "typed_observable I ?ob"
      by (auto simp: typed_builder_defs)
    from b' obtain ds os where ds: "b_decorators b' = map WithDecorator ds" "\<forall>d \<in> set ds. typed_layer (fits T) (fits T) I d"
      and os: "b_options b' = map WithDecorator os" "\<forall>d \<in> set os. typed_layer (fits T) (fits T) I d"
      unfolding typed_builder_defs typed_options_def by blast
    have ls: "\<forall>d \<in> set (ds @ [od] @ os). typed_layer (fits T) (fits T) I d"
      using ds(2) os(2) od(2) by auto
    have "ends I (\<lambda>c. typed_cache c (fits T) I) (f (b_store b') ?ob w1)"
      using st ob f(2) w1 by (simp add: typed_factory_def)
    then have "ends I (\<lambda>c. typed_cache c (fits T) I) (on_ok (f (b_store b') ?ob w1) (decorate (ds @ [od] @ os) ?ob))"
      by (rule ends_on_ok) (rule decorate_ends [OF ls ob])
    then have "ends I (\<lambda>c. typed_cache c (fits T) I) (New (b_cacheName b') (b_store b') (build_options b') w1)"
      by (simp only: build_options_def f(1) od(1) ds(1) os(1) New_layers)
    then show ?thesis using B None
      by (cases "New (b_cacheName b') (b_store b') (build_options b') w1"; cases "fst (New (b_cacheName b') (b_store b') (build_options b') w1)")
        (auto simp: Build_prepared [OF p] wrap_build_error_def)
  qed
qed

section \<open>Configuring a builder with typed ingredients\<close>

text \<open>One call of an option method whose arguments have the types the signatures ask for.\<close>

inductive typed_call :: "gotype \<Rightarrow> ('x \<Rightarrow> bool) \<Rightarrow> 'x builder \<Rightarrow> 'x builder \<Rightarrow> bool" for T I where
  "typed_call T I b (WithSingleflight on b)"
| "\<forall>cd'. cd = Some cd' \<longrightarrow> typed_codec T cd' \<and> typed_codec (TLogic T) cd' \<Longrightarrow> typed_call T I b (WithCodec cd b)"
| "typed_call T I b (WithLogicExpireEnabled on b)"
| "typed_call T I b (WithLogicExpireDefaultLogicTTL d b)"
| "typed_call T I b (WithLogicExpireDefaultWriteBackTTL d b)"
| "typed_call T I b (WithLogicExpireBytesAdapter on b)"
| "\<forall>f. lf = Some f \<longrightarrow> typed_loader (fits T) I f \<Longrightarrow> typed_call T I b (WithLogicExpireLoader lf b)"
| "\<forall>f. lf = Some f \<longrightarrow> typed_loader (fits T) I f \<Longrightarrow> typed_call T I b (WithCacheMissLoader lf b)"
| "typed_call T I b (WithCacheMissDefaultWriteBackTTL d b)"
| "\<forall>p'. p = Some p' \<longrightarrow> (\<forall>k. fits T (p' k)) \<Longrightarrow> typed_call T I b (WithNilCacheFn p b)"
| "typed_call T I b (WithNilCacheWriteBackTTL d b)"
| "typed_factory T I f \<Longrightarrow> typed_call T I b (Builder_WithFactory (Some f) b)"
| "typed_logger I l \<Longrightarrow> typed_call T I b (WithLogger (Some l) b)"
| "typed_metrics I m \<Longrightarrow> typed_call T I b (WithMetrics (Some m) b)"
| "typed_layer (fits T) (fits T) I od \<Longrightarrow> typed_call T I b (WithObserveDecorator od b)"
| "\<forall>d \<in> set ds. typed_layer (fits T) (fits T) I d \<Longrightarrow> typed_call T I b (WithDecorators ds b)"
| "typed_options T I os \<Longrightarrow> typed_call T I b (Builder_WithOptions os b)"
| "\<forall>t \<in> set ts. typed_layer (fits TBytes) (fits TBytes) I t \<Longrightarrow> typed_call T I b (WithByteTransforms ts b)"
| "total_compression cc \<Longrightarrow> typed_call T I b (WithCompression cc b)"
| "\<forall>a'. a = Some a' \<longrightarrow> typed_layer (fits TBytes) (fits T) I a' \<Longrightarrow> typed_call T I b (WithTypeAdapter a b)"

inductive typed_configured :: "gotype \<Rightarrow> ('x \<Rightarrow> bool) \<Rightarrow> 'x builder \<Rightarrow> 'x builder \<Rightarrow> bool" for T I where
  start: "typed_configured T I b b"
| call: "typed_configured T I b b' \<Longrightarrow> typed_call T I b' b'' \<Longrightarrow> typed_configured T I b b''"

lemma compression_layer:
  "total_compression cc \<Longrightarrow> typed_layer (fits TBytes) (fits TBytes) I (\<lambda>next ob w. (Ok (NewCompressionDecorator next cc), w))"
  by (auto simp: typed_layer_def simp del: fits_TBytes intro: NewCompressionDecorator_typed)

lemma typed_call_configured: "typed_call T I b b' \<Longrightarrow> configured b b'"
  by (rule configured.call [OF configured.start]) (erule typed_call.cases, auto intro: option_call.intros)

lemma typed_call_features:
  "typed_call T I b b' \<Longrightarrow> typed_features T I (b_features b) \<Longrightarrow> typed_features T I (b_features b')"
  by (induction rule: typed_call.induct)
    (auto simp: typed_features_def option_defs compression_layer split: if_splits)

lemma typed_call_parts:
  "typed_call T I b b' \<Longrightarrow> typed_parts T I b \<Longrightarrow> typed_parts T I b'"
  by (induction rule: typed_call.induct)
    (auto simp: typed_parts_def option_defs typed_options_append typed_options_map typed_observable_def appendErr_def)

lemma typed_configured_builder:
  "typed_configured T I b b' \<Longrightarrow> typed_builder T I b \<Longrightarrow> typed_builder T I b'"
  by (induction rule: typed_configured.induct) (auto simp: typed_builder_def dest: typed_call_features typed_call_parts)

lemma NewBuilder_typed:
  assumes "NewBuilder T slog name (Some st) opts = Ok b" and "typed_options T I opts"
    and "typed_cache st well_formed I" and "\<And>lvl ctx msg args w. I (w_ext w) \<Longrightarrow> I (w_ext (slog lvl ctx msg args w))"
  shows "typed_builder T I b"
  using assms
  by (auto simp: NewBuilder_Ok typed_builder_defs typed_observable_def typed_metrics_def typed_logger_def
      NoopMetrics_def SlogLogger_def WithSimpleFactory_def typed_factory_def typed_features_def default_features_def
      typed_options_def NewBaseCache_typed intro!: NewObservableDecorator_layer exI)

section \<open>Sessions\<close>

text \<open>A client that calls the operations of a cache with well-typed arguments, and the time that passes between.\<close>

inductive session :: "'x cache \<Rightarrow> gotype \<Rightarrow> 'x world \<Rightarrow> 'x world \<Rightarrow> bool" for c T where
  start: "session c T w w"
| Get: "session c T w w1 \<Longrightarrow> opts_total opts \<Longrightarrow> c_Get c ctx k opts w1 = (r, w2) \<Longrightarrow> session c T w w2"
| GetWithTTL: "session c T w w1 \<Longrightarrow> opts_total opts \<Longrightarrow> c_GetWithTTL c ctx k opts w1 = (rt, w2) \<Longrightarrow> session c T w w2"
| Set: "session c T w w1 \<Longrightarrow> opts_total opts \<Longrightarrow> fits T v \<Longrightarrow> c_Set c ctx k v ttl opts w1 = (u, w2) \<Longrightarrow> session c T w w2"
| Delete: "session c T w w1 \<Longrightarrow> opts_total opts \<Longrightarrow> c_Delete c ctx k opts w1 = (u, w2) \<Longrightarrow> session c T w w2"
| Clear: "session c T w w1 \<Longrightarrow> c_Clear c ctx w1 = (u, w2) \<Longrightarrow> session c T w w2"
| time: "session c T w w1 \<Longrightarrow> session c T w (wait d w1)"

lemma session_invariant:
  assumes "session c T w w'" and "typed_cache c (fits T) I" and "I (w_ext w)"
  shows "I (w_ext w')"
  using assms
proof (induction rule: session.induct)
  case (Get w w1 opts ctx k r w2)
  then show ?case using typed_cache.Get_ends [of c "fits T" I w1 opts ctx k] by (simp add: ends_def)
next
  case (GetWithTTL w w1 opts ctx k rt w2)
  then show ?case using typed_cache.GetWithTTL_ends [of c "fits T" I w1 opts ctx k] by (simp add: ends_def)
next
  case (Set w w1 opts v ctx k ttl u w2)
  then show ?case using typed_cache.Set_ends [of c "fits T" I w1 opts v ctx k ttl] by (simp add: ends_def)
next
  case (Delete w w1 opts ctx k u w2)
  then show ?case using typed_cache.Delete_ends [of c "fits T" I w1 opts ctx k] by (simp add: ends_def)
next
  case (Clear w w1 ctx u w2)
  then show ?case using typed_cache.Clear_ends [of c "fits T" I w1 ctx] by (simp add: ends_def)
qed simp_all

section \<open>Properties\<close>


definition seven_loader :: "'x loader" where
  "seven_loader ctx k opts w = (Ok (VInt 7), w)"


end
