(* ===== verification/Store_Contract.thy ===== *)
theory Store_Contract
  imports Map_Store
begin

text \<open>
  What the comments of core/cache/store.go and the conformance suite of stores/storetests ask of a
  \<open>Store\<close> beyond, and short of, the contract of Cache\_Contract. A storage client measures times
  to live in its own unit, so \<open>store_contract\<close> promises a value's life only for the times
  \<open>whole\<close> accepts; the unrestricted contract is the special case where it accepts them all.
  \<open>conforming_store\<close> adds what only the suite looks at: the sentinel for a negative time to live,
  contexts that are already done, how long a call may take (\<open>lag\<close>) and how precisely a remaining
  time is reported (\<open>prec\<close>).
\<close>

locale store_contract =
  fixes s :: "('x, 'm) cache_scheme"
    and view :: "'x view"
    and storable :: "gval \<Rightarrow> bool"
    and whole :: "duration \<Rightarrow> bool"
    and clock :: "int \<Rightarrow> bool"
  assumes view_blind: "blind view"
    and Get_law: "ctx_deadline ctx = None \<Longrightarrow> c_Get s ctx k opts w = (r, w') \<Longrightarrow>
          reads view w w' \<and> (\<exists>t. w_now w \<le> t \<and> t \<le> w_now w' \<and> reports (view w k t) r)"
    and GetWithTTL_law: "ctx_deadline ctx = None \<Longrightarrow> c_GetWithTTL s ctx k opts w = (rt, w') \<Longrightarrow>
          reads view w w' \<and> (\<exists>t. w_now w \<le> t \<and> t \<le> w_now w' \<and> reports_ttl (view w k t) t rt)"
    and Set_law: "ctx_deadline ctx = None \<Longrightarrow> opts_total opts \<Longrightarrow> storable v \<Longrightarrow> 0 \<le> ttl \<Longrightarrow>
          whole ttl \<Longrightarrow> clock (w_now w) \<Longrightarrow> c_Set s ctx k v ttl opts w = (u, w') \<Longrightarrow>
          u = Ok () \<and> writes view w w' k (stored v ttl)"
    and Set_negative: "ctx_deadline ctx = None \<Longrightarrow> opts_total opts \<Longrightarrow> storable v \<Longrightarrow> ttl < 0 \<Longrightarrow>
          clock (w_now w) \<Longrightarrow> c_Set s ctx k v ttl opts w = (u, w') \<Longrightarrow> (\<exists>e. u = Err e) \<and> reads view w w'"
    and Delete_law: "ctx_deadline ctx = None \<Longrightarrow> c_Delete s ctx k opts w = (u, w') \<Longrightarrow>
          u = Ok () \<and> writes view w w' k (\<lambda>t0 t. Absent)"
    and Clear_law: "ctx_deadline ctx = None \<Longrightarrow> c_Clear s ctx w = (u, w') \<Longrightarrow>
          u = Ok () \<and> wipes view w w'"

text \<open>The two contracts agree where no time to live is refused.\<close>

lemma cache_contract_store:
  assumes C: "cache_contract c view storable clock"
  shows "store_contract c view storable (\<lambda>ttl. True) clock"
proof (unfold_locales, goal_cases)
  case 1 show ?case by (rule cache_contract.view_blind [OF C])
next
  case 2 then show ?case by (rule cache_contract.Get_law [OF C])
next
  case 3 then show ?case by (rule cache_contract.GetWithTTL_law [OF C])
next
  case 4 then show ?case by (intro cache_contract.Set_law [OF C 4(1-4,6,7)])
next
  case 5 then show ?case by (intro cache_contract.Set_negative [OF C 5])
next
  case 6 then show ?case by (rule cache_contract.Delete_law [OF C])
next
  case 7 then show ?case by (rule cache_contract.Clear_law [OF C])
qed

sublocale cache_contract \<subseteq> as_store: store_contract c view storable "\<lambda>ttl. True" clock
  by (rule cache_contract_store [OF cache_contract_axioms])

lemma store_contract_exact:
  assumes S: "store_contract c view storable (\<lambda>ttl. True) clock"
  shows "cache_contract c view storable clock"
proof (unfold_locales, goal_cases)
  case 1 show ?case by (rule store_contract.view_blind [OF S])
next
  case 2 then show ?case by (rule store_contract.Get_law [OF S])
next
  case 3 then show ?case by (rule store_contract.GetWithTTL_law [OF S])
next
  case 4 then show ?case by (intro store_contract.Set_law [OF S 4(1-4) TrueI 4(5,6)])
next
  case 5 then show ?case by (intro store_contract.Set_negative [OF S 5])
next
  case 6 then show ?case by (rule store_contract.Delete_law [OF S])
next
  case 7 then show ?case by (rule store_contract.Clear_law [OF S])
qed

section \<open>Contexts that are done\<close>

text \<open>
  \<open>select { case <-ctx.Done(): return ctx.Err() default: }\<close>, and the same check written with
  \<open>ctx.Err()\<close>, in front of an operation.
\<close>

definition unless_done ::
    "ctx \<Rightarrow> 'x world \<Rightarrow> ('x world \<Rightarrow> 'a result \<times> 'x world) \<Rightarrow> 'a result \<times> 'x world" where
  "unless_done ctx w k = (case ctx_Err ctx w of Some err \<Rightarrow> (Err err, w) | None \<Rightarrow> k w)"

lemma unless_done_live [simp]: "ctx_deadline ctx = None \<Longrightarrow> unless_done ctx w k = k w"
  by (simp add: unless_done_def)

lemma unless_done_Err: "ctx_Err ctx w = Some e \<Longrightarrow> unless_done ctx w k = (Err e, w)"
  by (simp add: unless_done_def)

lemma unless_done_now: "(\<And>w. w_now (snd (k w)) = w_now w) \<Longrightarrow> w_now (snd (unless_done ctx w k)) = w_now w"
  by (simp add: unless_done_def split: option.split)

section \<open>What becomes of an entry\<close>

text \<open>
  From now on key \<open>k\<close> shows the value stored at \<open>t0\<close> until its time is over, or is missing
  for good.
\<close>

definition kept :: "'x view \<Rightarrow> 'x world \<Rightarrow> key \<Rightarrow> gval \<Rightarrow> duration \<Rightarrow> int \<Rightarrow> bool" where
  "kept view w k v ttl t0 \<longleftrightarrow> (\<forall>t. w_now w \<le> t \<longrightarrow> view w k t = stored v ttl t0 t)"

definition gone :: "'x view \<Rightarrow> 'x world \<Rightarrow> key \<Rightarrow> bool" where
  "gone view w k \<longleftrightarrow> (\<forall>t. w_now w \<le> t \<longrightarrow> view w k t = Absent)"

lemma keptD: "kept view w k v ttl t0 \<Longrightarrow> w_now w \<le> t \<Longrightarrow> view w k t = stored v ttl t0 t"
  by (simp add: kept_def)

lemma goneD: "gone view w k \<Longrightarrow> w_now w \<le> t \<Longrightarrow> view w k t = Absent"
  by (simp add: gone_def)

lemma kept_reads: "kept view w k v ttl t0 \<Longrightarrow> reads view w w' \<Longrightarrow> kept view w' k v ttl t0"
  by (simp add: kept_def reads_def)

lemma gone_reads: "gone view w k \<Longrightarrow> reads view w w' \<Longrightarrow> gone view w' k"
  by (simp add: gone_def reads_def)

lemma kept_writes: "kept view w k v ttl t0 \<Longrightarrow> writes view w w' k' new \<Longrightarrow> k \<noteq> k' \<Longrightarrow> kept view w' k v ttl t0"
  by (auto simp: kept_def writes_def)

lemma gone_writes: "gone view w k \<Longrightarrow> writes view w w' k' new \<Longrightarrow> k \<noteq> k' \<Longrightarrow> gone view w' k"
  by (auto simp: gone_def writes_def)

lemma writes_kept:
  "writes view w w' k (stored v ttl) \<Longrightarrow>
   \<exists>t0. w_now w \<le> t0 \<and> t0 \<le> w_now w' \<and> kept view w' k v ttl t0"
  unfolding writes_def kept_def by force

lemma writes_gone: "writes view w w' k (\<lambda>t0 t. Absent) \<Longrightarrow> gone view w' k"
  unfolding writes_def gone_def by auto

lemma wipes_gone: "wipes view w w' \<Longrightarrow> gone view w' k"
  by (simp add: wipes_def gone_def)

lemma stored_live: "ttl = 0 \<or> t \<le> t0 + ttl \<Longrightarrow> stored v ttl t0 t = Present v (if ttl = 0 then None else Some (t0 + ttl))"
  by (auto simp: stored_def)

lemma kept_expired: "kept view w k v ttl t0 \<Longrightarrow> 0 < ttl \<Longrightarrow> t0 + ttl < w_now w \<Longrightarrow> gone view w k"
  by (auto simp: kept_def gone_def stored_def)

text \<open>What lookups and writes make of such an entry.\<close>

context store_contract
begin

lemma Get_kept:
  assumes "ctx_deadline ctx = None" and "c_Get s ctx k opts w = (r, w')"
    and "kept view w k v ttl t0" and "ttl = 0 \<or> w_now w' \<le> t0 + ttl"
  shows "r = Ok v \<and> reads view w w'"
  using Get_law [OF assms(1,2)] keptD [OF assms(3)] assms(4) by (auto simp: stored_live)

lemma Get_gone:
  assumes "ctx_deadline ctx = None" and "c_Get s ctx k opts w = (r, w')" and "gone view w k"
  shows "not_found r \<and> reads view w w'"
  using Get_law [OF assms(1,2)] goneD [OF assms(3)] by auto

lemma GetWithTTL_gone:
  assumes "ctx_deadline ctx = None" and "c_GetWithTTL s ctx k opts w = (r, w')" and "gone view w k"
  shows "not_found r \<and> reads view w w'"
  using GetWithTTL_law [OF assms(1,2)] goneD [OF assms(3)] by auto

lemma GetWithTTL_forever:
  assumes "ctx_deadline ctx = None" and "c_GetWithTTL s ctx k opts w = (r, w')" and "kept view w k v 0 t0"
  shows "r = Ok (v, 0) \<and> reads view w w'"
  using GetWithTTL_law [OF assms(1,2)] keptD [OF assms(3)] by (auto simp: stored_def)

lemma Set_kept:
  assumes "ctx_deadline ctx = None" "opts_total opts" "storable v" "0 \<le> ttl" "whole ttl" "clock (w_now w)"
    and "c_Set s ctx k v ttl opts w = (u, w')"
  obtains t0 where "u = Ok ()" "w_now w \<le> t0" "t0 \<le> w_now w'" "kept view w' k v ttl t0"
    "writes view w w' k (stored v ttl)"
  using Set_law [OF assms] writes_kept [of view w w' k v ttl] by auto

end

section \<open>Conformance\<close>

locale conforming_store = store_contract s view storable whole clock
  for s :: "('x, 'm) cache_scheme" and view :: "'x view" and storable :: "gval \<Rightarrow> bool"
    and whole :: "duration \<Rightarrow> bool" and clock :: "int \<Rightarrow> bool" +
  fixes lag prec :: duration
  assumes Set_invalid: "ctx_deadline ctx = None \<Longrightarrow> opts_total opts \<Longrightarrow> storable v \<Longrightarrow> ttl < 0 \<Longrightarrow>
          clock (w_now w) \<Longrightarrow> c_Set s ctx k v ttl opts w = (u, w') \<Longrightarrow> \<exists>e. u = Err e \<and> errors_is e ErrInvalidTTL"
    and Get_done: "ctx_Err ctx w = Some Canceled \<Longrightarrow> c_Get s ctx k opts w = (r, w') \<Longrightarrow>
          \<exists>e. r = Err e \<and> errors_is e Canceled"
    and Set_done: "ctx_Err ctx w = Some Canceled \<Longrightarrow> opts_total opts \<Longrightarrow> storable v \<Longrightarrow> 0 \<le> ttl \<Longrightarrow>
          clock (w_now w) \<Longrightarrow> c_Set s ctx k v ttl opts w = (u, w') \<Longrightarrow> \<exists>e. u = Err e \<and> errors_is e Canceled"
    and Delete_done: "ctx_Err ctx w = Some Canceled \<Longrightarrow> c_Delete s ctx k opts w = (u, w') \<Longrightarrow>
          \<exists>e. u = Err e \<and> errors_is e Canceled"
    and Clear_done: "ctx_Err ctx w = Some Canceled \<Longrightarrow> c_Clear s ctx w = (u, w') \<Longrightarrow>
          \<exists>e. u = Err e \<and> errors_is e Canceled"
    and Get_lag: "c_Get s ctx k opts w = (r, w') \<Longrightarrow> w_now w \<le> w_now w' \<and> w_now w' \<le> w_now w + lag"
    and GetWithTTL_lag: "c_GetWithTTL s ctx k opts w = (rt, w') \<Longrightarrow> w_now w \<le> w_now w' \<and> w_now w' \<le> w_now w + lag"
    and Set_lag: "c_Set s ctx k v ttl opts w = (u, w') \<Longrightarrow> w_now w \<le> w_now w' \<and> w_now w' \<le> w_now w + lag"
    and Delete_lag: "c_Delete s ctx k opts w = (u, w') \<Longrightarrow> w_now w \<le> w_now w' \<and> w_now w' \<le> w_now w + lag"
    and Clear_lag: "c_Clear s ctx w = (u, w') \<Longrightarrow> w_now w \<le> w_now w' \<and> w_now w' \<le> w_now w + lag"
    and GetWithTTL_precise: "ctx_deadline ctx = None \<Longrightarrow> c_GetWithTTL s ctx k opts w = (rt, w') \<Longrightarrow>
          view w k (w_now w') = Present v (Some e) \<Longrightarrow>
          \<exists>t d. w_now w \<le> t \<and> t \<le> w_now w' \<and> rt = Ok (v, d) \<and> e - t - prec < d \<and> d \<le> e - t"
    and clock_mono: "clock t \<Longrightarrow> t \<le> t' \<Longrightarrow> clock t'"
    and lag_nonneg: "0 \<le> lag"

end
