(* ===== verification/Redis_Store.thy ===== *)
theory Redis_Store
  imports Store_Contract
begin

text \<open>
  stores/redis: the adapter that makes a \<open>Store\<close> of a go-redis client. The client is a
  parameter (\<open>redis_client\<close>, the adapter's own \<open>Client\<close> interface, each command together with
  the accessor the adapter applies to its result); what the adapter relies on is the locale
  \<open>redis_server\<close>. It is interpreted on \<open>fakeClient\<close> of redis\_test.go, the client the
  repository's own tests run against.
\<close>

record 'x redis_client =
  rc_Get :: "ctx \<Rightarrow> key \<Rightarrow> 'x world \<Rightarrow> bytes result \<times> 'x world"      \<comment> \<open>Get(..).Bytes()\<close>
  rc_Set :: "ctx \<Rightarrow> key \<Rightarrow> gval \<Rightarrow> duration \<Rightarrow> 'x world \<Rightarrow> unit result \<times> 'x world"   \<comment> \<open>Set(..).Err()\<close>
  rc_PTTL :: "ctx \<Rightarrow> key \<Rightarrow> 'x world \<Rightarrow> duration result \<times> 'x world"   \<comment> \<open>PTTL(..).Result()\<close>
  rc_Del :: "ctx \<Rightarrow> key list \<Rightarrow> 'x world \<Rightarrow> unit result \<times> 'x world"   \<comment> \<open>Del(..).Err()\<close>
  rc_FlushDB :: "ctx \<Rightarrow> 'x world \<Rightarrow> unit result \<times> 'x world"       \<comment> \<open>FlushDB(..).Err()\<close>

record 'x redis_store =
  rs_client :: "'x redis_client"
  rs_name :: string

type_synonym 'x redis_option = "'x redis_store \<Rightarrow> 'x redis_store"

definition redis_WithStoreName :: "string \<Rightarrow> 'x redis_option" where
  "redis_WithStoreName name s = s\<lparr>rs_name := name\<rparr>"

definition redis_New :: "'x redis_client \<Rightarrow> 'x redis_option list \<Rightarrow> 'x redis_store" where
  "redis_New client opts = fold (\<lambda>opt s. opt s) opts \<lparr>rs_client = client, rs_name = ''redis''\<rparr>"

definition key_not_found :: "key \<Rightarrow> string \<Rightarrow> error" where
  "key_not_found k name =
     Errorf ''key:%s not found in store:%s. %w'' [AStr k, AStr name, AErr ErrNotFound]"

definition RedisStore_Get ::
    "'x redis_store \<Rightarrow> ctx \<Rightarrow> key \<Rightarrow> call_option list \<Rightarrow> 'x world \<Rightarrow> gval result \<times> 'x world" where
  "RedisStore_Get s ctx k opts w =
     (case rc_Get (rs_client s) ctx k w of
        (Err err, w) \<Rightarrow>
          if errors_is err RedisNil then (Err (key_not_found k (rs_name s)), w) else (Err err, w)
      | (Ok val, w) \<Rightarrow> (Ok (VBytes val), w)
      | (Panic m, w) \<Rightarrow> (Panic m, w))"

definition RedisStore_Set ::
    "'x redis_store \<Rightarrow> ctx \<Rightarrow> key \<Rightarrow> gval \<Rightarrow> duration \<Rightarrow> call_option list \<Rightarrow> 'x world \<Rightarrow> unit result \<times> 'x world" where
  "RedisStore_Set s ctx k val ttl opts w =
     (if ttl < 0 then (Err ErrInvalidTTL, w)
      else case type_assert TBytes val of
          None \<Rightarrow> (Err (Errorf ''want:[]byte got:%T %w'' [ATypeOf val, AErr ErrTypeMismatch]), w)
        | Some raw \<Rightarrow> rc_Set (rs_client s) ctx k raw ttl w)"

definition RedisStore_GetWithTTL ::
    "'x redis_store \<Rightarrow> ctx \<Rightarrow> key \<Rightarrow> call_option list \<Rightarrow> 'x world \<Rightarrow> (gval \<times> duration) result \<times> 'x world" where
  "RedisStore_GetWithTTL s ctx k opts w =
     on_ok (RedisStore_Get s ctx k opts w) (\<lambda>val w.
     on_ok (rc_PTTL (rs_client s) ctx k w) (\<lambda>ttl w.
       if ttl < 0 then (Ok (val, 0), w) else (Ok (val, ttl), w)))"

definition RedisStore_Delete ::
    "'x redis_store \<Rightarrow> ctx \<Rightarrow> key \<Rightarrow> call_option list \<Rightarrow> 'x world \<Rightarrow> unit result \<times> 'x world" where
  "RedisStore_Delete s ctx k opts w = rc_Del (rs_client s) ctx [k] w"

definition RedisStore_Clear :: "'x redis_store \<Rightarrow> ctx \<Rightarrow> 'x world \<Rightarrow> unit result \<times> 'x world" where
  "RedisStore_Clear s ctx w = rc_FlushDB (rs_client s) ctx w"

definition RedisStore :: "'x redis_store \<Rightarrow> 'x store" where
  "RedisStore s =
     \<lparr>c_Get = RedisStore_Get s, c_Set = RedisStore_Set s, c_GetWithTTL = RedisStore_GetWithTTL s,
      c_Delete = RedisStore_Delete s, c_Clear = RedisStore_Clear s, StoreName = rs_name s\<rparr>"

lemma RedisStore_ops [simp, cache_ops]:
  "c_Get (RedisStore s) = RedisStore_Get s" "c_Set (RedisStore s) = RedisStore_Set s"
  "c_GetWithTTL (RedisStore s) = RedisStore_GetWithTTL s"
  "c_Delete (RedisStore s) = RedisStore_Delete s" "c_Clear (RedisStore s) = RedisStore_Clear s"
  "StoreName (RedisStore s) = rs_name s"
  by (simp_all add: RedisStore_def)

lemma key_not_found_is [simp]: "errors_is (key_not_found k name) ErrNotFound"
  by (simp add: key_not_found_def errors_is_simps)

section \<open>What the adapter relies on\<close>

text \<open>
  The server as the go-redis documentation describes it: GET of a missing key is the error
  \<open>redis.Nil\<close>; PTTL is negative for a missing key and for one without expiry; a key lives for
  the time to live it was set with, if that is a whole number of the server's units. The entries
  of its view hold bytes; \<open>Corrupt\<close> stands for a key of another redis type.
\<close>

fun redis_reports :: "entry \<Rightarrow> bytes result \<Rightarrow> bool" where
  "redis_reports Absent r = (\<exists>e. r = Err e \<and> errors_is e RedisNil)"
| "redis_reports (Present v d) r = (\<exists>b. v = VBytes b \<and> r = Ok b)"
| "redis_reports Corrupt r = (\<exists>e. r = Err e)"

fun redis_remaining :: "duration \<Rightarrow> entry \<Rightarrow> int \<Rightarrow> duration result \<Rightarrow> bool" where
  "redis_remaining prec (Present v (Some e)) t r = (\<exists>d. r = Ok d \<and> 0 \<le> d \<and> e - t - prec < d \<and> d \<le> e - t)"
| "redis_remaining prec (Present v None) t r = (\<exists>d<0. r = Ok d)"
| "redis_remaining prec Absent t r = (\<exists>d<0. r = Ok d)"
| "redis_remaining prec Corrupt t r = (\<exists>d. r = Ok d)"

locale redis_server =
  fixes cl :: "'x redis_client" and view :: "'x view" and whole :: "duration \<Rightarrow> bool"
    and clock :: "int \<Rightarrow> bool" and lag prec :: duration
  assumes view_blind: "blind view"
    and decays: "view w k t = Present v d \<Longrightarrow> w_now w \<le> t \<Longrightarrow> t \<le> t' \<Longrightarrow>
          view w k t' = Present v d \<or> view w k t' = Absent \<and> d \<noteq> None"
    and lasts: "view w k t' = Present v d \<Longrightarrow> w_now w \<le> t \<Longrightarrow> t \<le> t' \<Longrightarrow> view w k t = Present v d"
    and lives: "view w k t = Present v (Some e) \<Longrightarrow> t \<le> e"
    and GET: "ctx_deadline ctx = None \<Longrightarrow> rc_Get cl ctx k w = (r, w') \<Longrightarrow>
          reads view w w' \<and> (\<exists>t. w_now w \<le> t \<and> t \<le> w_now w' \<and> redis_reports (view w k t) r)"
    and PTTL: "ctx_deadline ctx = None \<Longrightarrow> rc_PTTL cl ctx k w = (rt, w') \<Longrightarrow>
          reads view w w' \<and> (\<exists>t. w_now w \<le> t \<and> t \<le> w_now w' \<and> redis_remaining prec (view w k t) t rt)"
    and SET: "ctx_deadline ctx = None \<Longrightarrow> 0 \<le> ttl \<Longrightarrow> whole ttl \<Longrightarrow> clock (w_now w) \<Longrightarrow>
          rc_Set cl ctx k (VBytes b) ttl w = (u, w') \<Longrightarrow> u = Ok () \<and> writes view w w' k (stored (VBytes b) ttl)"
    and DEL: "ctx_deadline ctx = None \<Longrightarrow> rc_Del cl ctx [k] w = (u, w') \<Longrightarrow>
          u = Ok () \<and> writes view w w' k (\<lambda>t0 t. Absent)"
    and FLUSHDB: "ctx_deadline ctx = None \<Longrightarrow> rc_FlushDB cl ctx w = (u, w') \<Longrightarrow>
          u = Ok () \<and> wipes view w w'"
    and GET_done: "ctx_Err ctx w = Some Canceled \<Longrightarrow> fst (rc_Get cl ctx k w) = Err Canceled"
    and SET_done: "ctx_Err ctx w = Some Canceled \<Longrightarrow> fst (rc_Set cl ctx k v ttl w) = Err Canceled"
    and DEL_done: "ctx_Err ctx w = Some Canceled \<Longrightarrow> fst (rc_Del cl ctx ks w) = Err Canceled"
    and FLUSHDB_done: "ctx_Err ctx w = Some Canceled \<Longrightarrow> fst (rc_FlushDB cl ctx w) = Err Canceled"
    and lags: "w_now w \<le> w_now (snd (rc_Get cl ctx k w)) \<and> w_now (snd (rc_Get cl ctx k w)) \<le> w_now w + lag"
      "w_now w \<le> w_now (snd (rc_PTTL cl ctx k w)) \<and> w_now (snd (rc_PTTL cl ctx k w)) \<le> w_now w + lag"
      "w_now w \<le> w_now (snd (rc_Set cl ctx k v ttl w)) \<and> w_now (snd (rc_Set cl ctx k v ttl w)) \<le> w_now w + lag"
      "w_now w \<le> w_now (snd (rc_Del cl ctx ks w)) \<and> w_now (snd (rc_Del cl ctx ks w)) \<le> w_now w + lag"
      "w_now w \<le> w_now (snd (rc_FlushDB cl ctx w)) \<and> w_now (snd (rc_FlushDB cl ctx w)) \<le> w_now w + lag"
    and clock_mono: "clock t \<Longrightarrow> t \<le> t' \<Longrightarrow> clock t'"
    and lag_nonneg: "0 \<le> lag"

section \<open>The adapter keeps the contract\<close>

text \<open>\<open>GetWithTTL\<close> is two commands: the key may expire between them.\<close>

lemma RedisStore_Get_Ok:
  "RedisStore_Get s ctx k opts w = (Ok v, w') \<longleftrightarrow>
   (\<exists>b. v = VBytes b \<and> rc_Get (rs_client s) ctx k w = (Ok b, w'))"
  by (auto simp: RedisStore_Get_def split: prod.splits outcome.splits if_splits)

lemma RedisStore_Get_world: "snd (RedisStore_Get s ctx k opts w) = snd (rc_Get (rs_client s) ctx k w)"
  by (auto simp: RedisStore_Get_def split: prod.splits outcome.splits)

lemma RedisStore_Get_reports:
  "redis_reports e (fst (rc_Get (rs_client s) ctx k w)) \<Longrightarrow> reports e (fst (RedisStore_Get s ctx k opts w))"
  by (cases e) (auto simp: RedisStore_Get_def split: prod.splits)

context redis_server
begin

lemma Get_reports:
  assumes "rs_client s = cl" and "ctx_deadline ctx = None" and "RedisStore_Get s ctx k opts w = (r, w')"
  shows "reads view w w' \<and> (\<exists>t. w_now w \<le> t \<and> t \<le> w_now w' \<and> reports (view w k t) r)"
proof -
  obtain r0 w0 where g: "rc_Get cl ctx k w = (r0, w0)" by fastforce
  with RedisStore_Get_world [of s ctx k opts w] assms have "w0 = w'" by simp
  with GET [OF assms(2) g] show ?thesis
    using RedisStore_Get_reports [of _ s ctx k w opts] g assms by auto
qed

lemma GetWithTTL_cases:
  assumes s: "rs_client s = cl" and live: "ctx_deadline ctx = None"
    and g: "RedisStore_GetWithTTL s ctx k opts w = (rt, w')"
  obtains (failed) e where "rt = Err e" "RedisStore_Get s ctx k opts w = (Err e, w')"
    | (found) b w1 d t where "RedisStore_Get s ctx k opts w = (Ok (VBytes b), w1)"
        "reads view w w1" "reads view w1 w'" "rt = Ok (VBytes b, max 0 d)"
        "w_now w1 \<le> t" "t \<le> w_now w'" "redis_remaining prec (view w k t) t (Ok d)"
proof -
  obtain r w1 where get: "RedisStore_Get s ctx k opts w = (r, w1)" by fastforce
  note R = Get_reports [OF s live get]
  show thesis
  proof (cases r)
    case (Ok v)
    with get obtain b where v: "v = VBytes b" by (auto simp: RedisStore_Get_Ok)
    obtain p w2 where pt: "rc_PTTL cl ctx k w1 = (p, w2)" by fastforce
    from PTTL [OF live pt] obtain t where t: "reads view w1 w2" "w_now w1 \<le> t" "t \<le> w_now w2"
      and rem: "redis_remaining prec (view w1 k t) t p" by blast
    have "view w1 k t = view w k t" using R t(2) by (auto simp: reads_def)
    with rem have rem': "redis_remaining prec (view w k t) t p" by simp
    then obtain d where p: "p = Ok d" by (cases "(prec, view w k t, t, p)" rule: redis_remaining.cases) auto
    have "w' = w2" "rt = Ok (VBytes b, max 0 d)"
      using g get pt p Ok v s by (auto simp: RedisStore_GetWithTTL_def split: if_splits)
    with found get Ok v R t rem' p show thesis by blast
  next
    case (Err e)
    with failed g get show thesis by (auto simp: RedisStore_GetWithTTL_def)
  next
    case (Panic m)
    with R show thesis by (meson is_panic_simps(3) reports_not_panic)
  qed
qed

lemma GetWithTTL_reports:
  assumes s: "rs_client s = cl" and live: "ctx_deadline ctx = None"
    and g: "RedisStore_GetWithTTL s ctx k opts w = (rt, w')"
  shows "reads view w w' \<and> (\<exists>t. w_now w \<le> t \<and> t \<le> w_now w' \<and> reports_ttl (view w k t) t rt)"
proof (rule GetWithTTL_cases [OF s live g])
  fix e assume e: "rt = Err e" "RedisStore_Get s ctx k opts w = (Err e, w')"
  from Get_reports [OF s live e(2)] obtain t where "reads view w w'" "w_now w \<le> t" "t \<le> w_now w'"
    "reports (view w k t) (Err e)" by blast
  with e show ?thesis by (intro conjI exI [of _ t]) (cases "view w k t"; auto)+
next
  fix b w1 d t2 assume get: "RedisStore_Get s ctx k opts w = (Ok (VBytes b), w1)"
    and rd: "reads view w w1" "reads view w1 w'" and rt: "rt = Ok (VBytes b, max 0 d)"
    and t2: "w_now w1 \<le> t2" "t2 \<le> w_now w'" and rem: "redis_remaining prec (view w k t2) t2 (Ok d)"
  from Get_reports [OF s live get] obtain t1 where t1: "w_now w \<le> t1" "t1 \<le> w_now w1"
    and "reports (view w k t1) (Ok (VBytes b))" by blast
  then obtain x where p1: "view w k t1 = Present (VBytes b) x" by (auto dest: reports_Ok)
  from t1 t2 have t12: "t1 \<le> t2" by simp
  have "\<exists>t. w_now w \<le> t \<and> t \<le> w_now w' \<and> reports_ttl (view w k t) t rt"
  proof (cases "view w k t2 = Absent")
    case True
    with decays [OF p1 t1(1) t12] obtain e where "x = Some e" by auto
    with p1 lives [of w k t1] True rem rt have "reports_ttl (view w k t1) t1 rt" by auto
    with t1 t2 show ?thesis by (intro exI [of _ t1]) auto
  next
    case False
    with decays [OF p1 t1(1) t12] have "view w k t2 = Present (VBytes b) x" by simp
    with rem rt have "reports_ttl (view w k t2) t2 rt" by (cases x) auto
    with t1 t2 show ?thesis by (intro exI [of _ t2]) auto
  qed
  with rd show ?thesis by (blast intro: reads_trans)
qed

lemma GetWithTTL_precise:
  assumes s: "rs_client s = cl" and live: "ctx_deadline ctx = None"
    and g: "RedisStore_GetWithTTL s ctx k opts w = (rt, w')"
    and p: "view w k (w_now w') = Present v (Some e)"
  shows "\<exists>t d. w_now w \<le> t \<and> t \<le> w_now w' \<and> rt = Ok (v, d) \<and> e - t - prec < d \<and> d \<le> e - t"
proof (rule GetWithTTL_cases [OF s live g])
  fix e' assume "rt = Err e'" "RedisStore_Get s ctx k opts w = (Err e', w')"
  from Get_reports [OF s live this(2)] obtain t where "w_now w \<le> t" "t \<le> w_now w'"
    "reports (view w k t) (Err e')" by blast
  with lasts [OF p] show ?thesis by fastforce
next
  fix b w1 d t2 assume get: "RedisStore_Get s ctx k opts w = (Ok (VBytes b), w1)"
    and rd: "reads view w w1" "reads view w1 w'" and rt: "rt = Ok (VBytes b, max 0 d)"
    and t2: "w_now w1 \<le> t2" "t2 \<le> w_now w'" and rem: "redis_remaining prec (view w k t2) t2 (Ok d)"
  from rd have mono: "w_now w \<le> w_now w1" by (simp add: reads_def)
  from Get_reports [OF s live get] obtain t1 where t1: "w_now w \<le> t1" "t1 \<le> w_now w1"
    and r1: "reports (view w k t1) (Ok (VBytes b))" by blast
  from t1 t2 mono have "view w k t1 = Present v (Some e)" "view w k t2 = Present v (Some e)"
    using lasts [OF p] by auto
  with r1 rem rt mono t2 show ?thesis by (intro exI [of _ t2] exI [of _ d]) auto
qed

end

context redis_server
begin

lemma RedisStore_contract_of:
  assumes s: "rs_client s = cl"
  shows "store_contract (RedisStore s) view (has_type TBytes) whole clock"
proof (unfold_locales, goal_cases)
  case 1 show ?case by (rule view_blind)
next
  case 2 then show ?case by (simp add: Get_reports [OF s])
next
  case 3 then show ?case by (simp add: GetWithTTL_reports [OF s])
next
  case (4 ctx opts v ttl w k u w')
  then obtain b where "v = VBytes b" by (auto simp only: has_type_TBytes)
  with 4 s show ?case using SET [of ctx ttl w k b u w'] by (simp add: RedisStore_Set_def)
next
  case 5 then show ?case by (auto simp: RedisStore_Set_def)
next
  case 6 then show ?case using s by (auto simp: RedisStore_Delete_def dest: DEL)
next
  case 7 then show ?case using s by (auto simp: RedisStore_Clear_def dest: FLUSHDB)
qed

lemma Get_time: "rs_client s = cl \<Longrightarrow> RedisStore_Get s ctx k opts w = (r, w') \<Longrightarrow> w_now w \<le> w_now w' \<and> w_now w' \<le> w_now w + lag"
  using RedisStore_Get_world [of s ctx k opts w] lags(1) [of w ctx k] by simp

lemma GetWithTTL_time:
  assumes s: "rs_client s = cl" and g: "RedisStore_GetWithTTL s ctx k opts w = (rt, w')"
  shows "w_now w \<le> w_now w' \<and> w_now w' \<le> w_now w + 2 * lag"
proof -
  obtain r w1 where get: "RedisStore_Get s ctx k opts w = (r, w1)" by fastforce
  have "w_now w1 \<le> w_now w' \<and> w_now w' \<le> w_now w1 + lag"
    using g get s lags(2) [of w1 ctx k] lag_nonneg
    by (cases r; cases "rc_PTTL cl ctx k w1"; cases "fst (rc_PTTL cl ctx k w1)")
      (auto simp: RedisStore_GetWithTTL_def split: if_splits)
  with Get_time [OF s get] show ?thesis by simp
qed

lemma Set_time:
  assumes "rs_client s = cl" and "RedisStore_Set s ctx k v ttl opts w = (u, w')"
  shows "w_now w \<le> w_now w' \<and> w_now w' \<le> w_now w + lag"
proof -
  have "w' = w \<or> (\<exists>raw. w' = snd (rc_Set cl ctx k raw ttl w))"
    using assms by (auto simp: RedisStore_Set_def split: if_splits option.splits) (metis snd_conv)
  then show ?thesis using lags(3) [of w ctx k _ ttl] lag_nonneg by auto
qed

lemma RedisStore_conforms:
  assumes s: "rs_client s = cl"
  shows "conforming_store (RedisStore s) view (has_type TBytes) whole clock (2 * lag) prec"
proof (intro conforming_store.intro RedisStore_contract_of [OF s], unfold_locales, goal_cases)
  case 1 then show ?case by (auto simp: RedisStore_Set_def)
next
  case (2 ctx w k opts r w')
  with GET_done [of ctx w k] s show ?case
    by (cases "rc_Get cl ctx k w") (auto simp: RedisStore_Get_def errors_is_simps)
next
  case (3 ctx w opts v ttl k u w')
  with SET_done [OF 3(1), of k v ttl] s show ?case
    by (cases "rc_Set cl ctx k v ttl w") (auto simp: RedisStore_Set_def type_assert_concrete)
next
  case (4 ctx w k opts u w')
  with DEL_done [OF 4(1), of "[k]"] s show ?case
    by (cases "rc_Del cl ctx [k] w") (auto simp: RedisStore_Delete_def)
next
  case (5 ctx w u w')
  with FLUSHDB_done [OF 5(1)] s show ?case
    by (cases "rc_FlushDB cl ctx w") (auto simp: RedisStore_Clear_def)
next
  case (6 ctx k opts w r w')
  then show ?case using Get_time [OF s, of ctx k opts w r w'] lag_nonneg by simp
next
  case (7 ctx k opts w rt w')
  then show ?case using GetWithTTL_time [OF s, of ctx k opts w rt w'] by simp
next
  case (8 ctx k v ttl opts w u w')
  then show ?case using Set_time [OF s, of ctx k v ttl opts w u w'] lag_nonneg by simp
next
  case (9 ctx k opts w u w')
  then show ?case using lags(4) [of w ctx "[k]"] s lag_nonneg by (simp add: RedisStore_Delete_def)
next
  case (10 ctx w u w')
  then show ?case using lags(5) [of w ctx] s lag_nonneg by (simp add: RedisStore_Clear_def)
next
  case (11 ctx k opts w rt w' v e)
  then have "RedisStore_GetWithTTL s ctx k opts w = (rt, w')" by simp
  from GetWithTTL_precise [OF s 11(1) this 11(3)] show ?case .
next
  case 12 then show ?case by (rule clock_mono)
next
  case 13 show ?case using lag_nonneg by simp
qed

end

section \<open>The client of the repository's tests\<close>

text \<open>
  \<open>fakeClient\<close> of redis\_test.go: a map guarded by a lock. The maps of all fake clients live in a
  heap; \<open>newFakeClient\<close> takes a fresh address. Every command begins with the check of the
  context.
\<close>

record fake_entry =
  fe_value :: gval
  fe_expiry :: int

record fake_heap =
  fh_next :: nat
  fh_data :: "nat \<Rightarrow> key \<rightharpoonup> fake_entry"

definition fake_data :: "nat \<Rightarrow> fake_heap world \<Rightarrow> key \<rightharpoonup> fake_entry" where
  "fake_data f w = fh_data (w_ext w) f"

definition put_fake :: "nat \<Rightarrow> (key \<rightharpoonup> fake_entry) \<Rightarrow> fake_heap world \<Rightarrow> fake_heap world" where
  "put_fake f m w = w\<lparr>w_ext := (w_ext w)\<lparr>fh_data := (fh_data (w_ext w))(f := m)\<rparr>\<rparr>"

definition newFakeClient :: "fake_heap world \<Rightarrow> nat \<times> fake_heap world" where
  "newFakeClient w =
     (let f = fh_next (w_ext w)
      in (f, put_fake f Map.empty (w\<lparr>w_ext := (w_ext w)\<lparr>fh_next := Suc f\<rparr>\<rparr>)))"

definition fake_Get :: "nat \<Rightarrow> ctx \<Rightarrow> key \<Rightarrow> fake_heap world \<Rightarrow> bytes result \<times> fake_heap world" where
  "fake_Get f ctx key w = unless_done ctx w (\<lambda>w.
     case fake_data f w key of
       None \<Rightarrow> (Err RedisNil, w)
     | Some entry \<Rightarrow>
         if \<not> IsZero (fe_expiry entry) \<and> After (w_now w) (fe_expiry entry)
         then (Err RedisNil, put_fake f ((fake_data f w)(key := None)) w)
         else case fe_value entry of VBytes raw \<Rightarrow> (Ok raw, w) | _ \<Rightarrow> (Err RedisNil, w))"

definition fake_Set ::
    "nat \<Rightarrow> ctx \<Rightarrow> key \<Rightarrow> gval \<Rightarrow> duration \<Rightarrow> fake_heap world \<Rightarrow> unit result \<times> fake_heap world" where
  "fake_Set f ctx key value expiration w = unless_done ctx w (\<lambda>w.
     let entry = \<lparr>fe_value = value, fe_expiry = (if 0 < expiration then w_now w + expiration else zero_time)\<rparr>
     in (Ok (), put_fake f ((fake_data f w)(key \<mapsto> entry)) w))"

definition fake_PTTL :: "nat \<Rightarrow> ctx \<Rightarrow> key \<Rightarrow> fake_heap world \<Rightarrow> duration result \<times> fake_heap world" where
  "fake_PTTL f ctx key w = unless_done ctx w (\<lambda>w.
     case fake_data f w key of
       None \<Rightarrow> (Ok (- 2 * Second), w)
     | Some entry \<Rightarrow>
         if \<not> IsZero (fe_expiry entry) \<and> After (w_now w) (fe_expiry entry)
         then (Ok (- 2 * Second), put_fake f ((fake_data f w)(key := None)) w)
         else if IsZero (fe_expiry entry) then (Ok (- 1 * Second), w)
         else (Ok (fe_expiry entry - w_now w), w))"

definition fake_Del :: "nat \<Rightarrow> ctx \<Rightarrow> key list \<Rightarrow> fake_heap world \<Rightarrow> unit result \<times> fake_heap world" where
  "fake_Del f ctx keys w = unless_done ctx w (\<lambda>w.
     (Ok (), put_fake f (fold (\<lambda>key m. m(key := None)) keys (fake_data f w)) w))"

definition fake_FlushDB :: "nat \<Rightarrow> ctx \<Rightarrow> fake_heap world \<Rightarrow> unit result \<times> fake_heap world" where
  "fake_FlushDB f ctx w = unless_done ctx w (\<lambda>w. (Ok (), put_fake f Map.empty w))"

definition fakeClient :: "nat \<Rightarrow> fake_heap redis_client" where
  "fakeClient f = \<lparr>rc_Get = fake_Get f, rc_Set = fake_Set f, rc_PTTL = fake_PTTL f,
                   rc_Del = fake_Del f, rc_FlushDB = fake_FlushDB f\<rparr>"

definition fake_entry_at :: "fake_entry \<Rightarrow> int \<Rightarrow> entry" where
  "fake_entry_at e t =
     (if past (fe_expiry e) t then Absent
      else if \<not> has_type TBytes (fe_value e) then Corrupt
      else Present (fe_value e) (if IsZero (fe_expiry e) then None else Some (fe_expiry e)))"

definition fake_view :: "nat \<Rightarrow> fake_heap view" where
  "fake_view f w k t = (case fake_data f w k of None \<Rightarrow> Absent | Some e \<Rightarrow> fake_entry_at e t)"

lemma put_fake_simps [simp]:
  "fake_data f (put_fake f m w) = m" "w_now (put_fake f m w) = w_now w"
  "f' \<noteq> f \<Longrightarrow> fake_data f' (put_fake f m w) = fake_data f' w"
  by (simp_all add: fake_data_def put_fake_def)

lemma fake_view_blind: "blind (fake_view f)"
  by (auto simp: blind_def fake_view_def fake_data_def fun_eq_iff)

lemma fake_entry_past: "past (fe_expiry e) (w_now w) \<Longrightarrow> w_now w \<le> t \<Longrightarrow> fake_entry_at e t = Absent"
  by (auto simp: fake_entry_at_def dest: past_mono)

lemma fake_drop_reads:
  "fake_data f w k = Some e \<Longrightarrow> past (fe_expiry e) (w_now w) \<Longrightarrow>
   reads (fake_view f) w (put_fake f ((fake_data f w)(k := None)) w)"
  by (auto simp: reads_def fake_view_def fake_entry_past)

lemma put_fake_writes:
  assumes "\<And>t. w_now w \<le> t \<Longrightarrow> (case x of None \<Rightarrow> Absent | Some e \<Rightarrow> fake_entry_at e t) = new (w_now w) t"
  shows "writes (fake_view f) w (put_fake f ((fake_data f w)(k := x)) w) k new"
  unfolding writes_def using assms by (intro exI [of _ "w_now w"]) (auto simp: fake_view_def)

lemma fake_entry_stored:
  "0 \<le> ttl \<Longrightarrow> zero_time < now \<Longrightarrow>
   fake_entry_at \<lparr>fe_value = VBytes b, fe_expiry = (if 0 < ttl then now + ttl else zero_time)\<rparr> t =
   stored (VBytes b) ttl now t"
  by (auto simp: fake_entry_at_def stored_def past_def IsZero_def After_def)

lemma fake_view_Present:
  "fake_view f w k t = Present v d \<longleftrightarrow>
   (\<exists>e b. fake_data f w k = Some e \<and> v = VBytes b \<and> fe_value e = v \<and> \<not> past (fe_expiry e) t \<and>
        d = (if IsZero (fe_expiry e) then None else Some (fe_expiry e)))"
  by (auto simp: fake_view_def fake_entry_at_def has_type_TBytes simp del: has_type.simps split: option.splits)

lemma fake_Get_reports:
  assumes "ctx_deadline ctx = None" and "fake_Get f ctx k w = (r, w')"
  shows "reads (fake_view f) w w' \<and> w_now w' = w_now w \<and> redis_reports (fake_view f w k (w_now w)) r"
proof (cases "fake_data f w k")
  case None
  with assms show ?thesis by (auto simp: fake_Get_def fake_view_def)
next
  case (Some e)
  show ?thesis
  proof (cases "past (fe_expiry e) (w_now w)")
    case True
    with Some fake_drop_reads [OF Some True] assms show ?thesis
      by (auto simp: fake_Get_def fake_view_def fake_entry_past past_def)
  next
    case False
    with Some assms show ?thesis
      by (auto simp: fake_Get_def fake_view_def fake_entry_at_def past_def split: gval.splits)
  qed
qed

lemma fake_PTTL_remaining:
  assumes "ctx_deadline ctx = None" and "fake_PTTL f ctx k w = (r, w')"
  shows "reads (fake_view f) w w' \<and> w_now w' = w_now w \<and> redis_remaining 1 (fake_view f w k (w_now w)) (w_now w) r"
proof (cases "fake_data f w k")
  case None
  with assms show ?thesis by (auto simp: fake_PTTL_def fake_view_def duration_defs)
next
  case (Some e)
  show ?thesis
  proof (cases "past (fe_expiry e) (w_now w)")
    case True
    with Some fake_drop_reads [OF Some True] assms(1,2) show ?thesis
      by (auto simp: fake_PTTL_def fake_view_def fake_entry_past past_def duration_defs)
  next
    case False
    with Some assms(1,2) show ?thesis
      by (auto simp: fake_PTTL_def fake_view_def fake_entry_at_def past_def IsZero_def After_def duration_defs
          simp del: has_type.simps)
  qed
qed

lemma fake_now [simp]:
  "w_now (snd (fake_Get f ctx k w)) = w_now w" "w_now (snd (fake_PTTL f ctx k w)) = w_now w"
  "w_now (snd (fake_Set f ctx k v ttl w)) = w_now w" "w_now (snd (fake_Del f ctx ks w)) = w_now w"
  "w_now (snd (fake_FlushDB f ctx w)) = w_now w"
  unfolding fake_Get_def fake_Set_def fake_PTTL_def fake_Del_def fake_FlushDB_def
  by (intro unless_done_now; simp split: option.split gval.split)+

lemma fake_done:
  assumes "ctx_Err ctx w = Some e"
  shows "fst (fake_Get f ctx k w) = Err e" "fst (fake_Set f ctx k v ttl w) = Err e"
    "fst (fake_Del f ctx ks w) = Err e" "fst (fake_FlushDB f ctx w) = Err e"
  using assms unfolding fake_Get_def fake_Set_def fake_Del_def fake_FlushDB_def
  by (simp_all add: unless_done_Err)

interpretation fake_redis: redis_server "fakeClient f" "fake_view f" "\<lambda>ttl. True" "\<lambda>t. zero_time < t" 0 1 for f
proof (unfold_locales, goal_cases)
  case 1 show ?case by (rule fake_view_blind)
next
  case (2 w k t v d t')
  then show ?case
    by (auto simp: fake_view_def fake_entry_at_def past_def split: option.splits if_splits)
next
  case 3 then show ?case by (auto simp: fake_view_Present dest: past_mono)
next
  case 4 then show ?case by (auto simp: fake_view_Present past_def After_def split: if_splits)
next
  case (5 ctx k w r w')
  then show ?case using fake_Get_reports [of ctx f k w r w'] by (auto simp: fakeClient_def)
next
  case (6 ctx k w rt w')
  then show ?case using fake_PTTL_remaining [of ctx f k w rt w'] by (auto simp: fakeClient_def)
next
  case (7 ctx ttl w k b u w')
  then show ?case using fake_entry_stored [of ttl "w_now w" b]
    by (auto simp: fakeClient_def fake_Set_def Let_def intro!: put_fake_writes)
next
  case (8 ctx k w u w')
  then show ?case by (auto simp: fakeClient_def fake_Del_def intro!: put_fake_writes)
next
  case (9 ctx w u w')
  then show ?case by (auto simp: fakeClient_def fake_FlushDB_def wipes_def fake_view_def)
qed (simp_all add: fakeClient_def fake_done)

text \<open>The store of the repository's tests: \<open>newTestStore\<close>.\<close>

definition newTestStore :: "fake_heap world \<Rightarrow> fake_heap store \<times> fake_heap world" where
  "newTestStore w =
     (let (f, w) = newFakeClient w
      in (RedisStore (redis_New (fakeClient f) [redis_WithStoreName ''test-redis'']), w))"

lemma redis_New_client [simp]:
  "rs_client (redis_New cl []) = cl"
  "rs_client (redis_New cl [redis_WithStoreName n]) = cl" "rs_name (redis_New cl [redis_WithStoreName n]) = n"
  by (simp_all add: redis_New_def redis_WithStoreName_def)

lemma newFakeClient_fresh:
  "newFakeClient w = (f, w') \<Longrightarrow> fake_view f w' k t = Absent \<and> w_now w' = w_now w"
  by (auto simp: newFakeClient_def fake_view_def Let_def)

section \<open>Properties\<close>

definition fake_world :: "fake_heap world" where
  "fake_world = \<lparr>w_now = 0, w_events = [], w_groups = 0, w_ext = \<lparr>fh_next = 0, fh_data = \<lambda>f. Map.empty\<rparr>\<rparr>"

text \<open>C35: the redis adapter over any client that behaves as documented conforms to the Store
  interface for byte values and the times to live the server can represent: the contract of
  lookups, expiry, deletion and clearing, the error sentinels, and contexts that are done. The two
  commands of GetWithTTL may straddle the expiry of the key without breaking it.\<close>

theorem RedisStore_conforming:
  assumes "redis_server cl view whole clock lag prec"
  shows "conforming_store (RedisStore (redis_New cl [redis_WithStoreName n])) view (has_type TBytes) whole clock
           (2 * lag) prec"
  by (rule redis_server.RedisStore_conforms [OF assms]) simp

theorem RedisStore_conforming_witness:
  "conforming_store (RedisStore (redis_New (fakeClient 0) [redis_WithStoreName ''test-redis'']))
     (fake_view 0) (has_type TBytes) (\<lambda>ttl. True) (\<lambda>t. zero_time < t) 0 1"
  using RedisStore_conforming [OF fake_redis.redis_server_axioms, of 0 "''test-redis''"] by simp

text \<open>The errors of the redis adapter, for any client: a negative time to live and a value that
  is not a byte slice are refused before the client is called, with the documented sentinels; a
  failed lookup is a miss exactly if the client's error wraps redis.Nil or is one already; every
  other error is the client's own.\<close>

theorem RedisStore_errors:
  assumes "rc_Get (rs_client s) ctx k w = (Err err, w1)" and "ttl < 0" and "0 \<le> ttl'" and "\<not> has_type TBytes v"
  shows "RedisStore_Set s ctx k v' ttl opts w = (Err ErrInvalidTTL, w) \<and>
     (\<exists>e. RedisStore_Set s ctx k v ttl' opts w = (Err e, w) \<and> errors_is e ErrTypeMismatch) \<and>
     (\<exists>e. RedisStore_Get s ctx k opts w = (Err e, w1) \<and> RedisStore_GetWithTTL s ctx k opts w = (Err e, w1) \<and>
          (errors_is e ErrNotFound \<longleftrightarrow> errors_is err RedisNil \<or> errors_is err ErrNotFound) \<and>
          (\<not> errors_is err RedisNil \<longrightarrow> e = err))"
proof -
  from assms(4) have "type_assert TBytes v = None" by (simp add: type_assert_def)
  with assms show ?thesis
    by (simp add: RedisStore_Set_def RedisStore_Get_def RedisStore_GetWithTTL_def errors_is_simps)
qed

theorem RedisStore_errors_witness:
  "\<exists>e. RedisStore_Get (redis_New (fakeClient 0) []) Background ''k'' [] fake_world = (Err e, fake_world) \<and>
     errors_is e ErrNotFound"
proof -
  have "rc_Get (rs_client (redis_New (fakeClient 0) [])) Background ''k'' fake_world = (Err RedisNil, fake_world)"
    by (simp add: fakeClient_def fake_Get_def fake_data_def fake_world_def)
  from RedisStore_errors [OF this, of "- 1" 0 VNil VNil "[]"] show ?thesis by auto
qed

end
