(* ===== verification/Compression.thy ===== *)
theory Compression
  imports Byte_Stage
begin

text \<open>
  core/compress/compression.go: the four compression codecs. The compressors themselves
  (compress/gzip, zlib, flate and lzw) are parameters, as writers and readers with the methods
  the codecs call; what their documentation promises is \<open>flate_laws\<close> and \<open>lzw_laws\<close>.

  A writer works on the \<open>bytes.Buffer\<close> the codec gives it, which starts empty and whose writes
  do not fail; \<open>buf\<close> is what it has put there. A reader is what \<open>io.ReadAll\<close> gets out of it: the
  bytes delivered until its first error, and that error (\<open>None\<close> for io.EOF).
\<close>

record 'zw zip_writer =
  zw_NewWriterLevel :: "int \<Rightarrow> 'zw result"
  zw_Write :: "bytes \<Rightarrow> 'zw \<Rightarrow> error option \<times> 'zw"
  zw_Close :: "'zw \<Rightarrow> error option \<times> 'zw"
  zw_buf :: "'zw \<Rightarrow> bytes"

record 'zr zip_reader =
  zr_NewReader :: "bytes \<Rightarrow> 'zr result"
  zr_stream :: "'zr \<Rightarrow> bytes \<times> error option"

definition DefaultCompression :: int where
  "DefaultCompression = - 1"

text \<open>\<open>zw.Write(src)\<close>, \<open>zw.Close()\<close>, \<open>buf.Bytes()\<close>, each error returned\<close>

definition write_out :: "(bytes \<Rightarrow> 'zw \<Rightarrow> error option \<times> 'zw) \<Rightarrow> ('zw \<Rightarrow> error option \<times> 'zw) \<Rightarrow> ('zw \<Rightarrow> bytes) \<Rightarrow>
    'zw \<Rightarrow> bytes \<Rightarrow> bytes result" where
  "write_out Write Close buf zw src =
     (case Write src zw of
        (Some err, zw) \<Rightarrow> Err err
      | (None, zw) \<Rightarrow>
          (case Close zw of
             (Some err, zw) \<Rightarrow> Err err
           | (None, zw) \<Rightarrow> Ok (buf zw)))"

definition ReadAll :: "bytes \<times> error option \<Rightarrow> bytes result" where
  "ReadAll s = (case s of (b, None) \<Rightarrow> Ok b | (b, Some err) \<Rightarrow> Err err)"

section \<open>The codecs\<close>

definition GzipCompression_Compress :: "'zw zip_writer \<Rightarrow> int \<Rightarrow> bytes \<Rightarrow> bytes result" where
  "GzipCompression_Compress gzip Level src =
     (let level = (if Level = 0 then DefaultCompression else Level)
      in bind_ok (zw_NewWriterLevel gzip level)
           (\<lambda>zw. write_out (zw_Write gzip) (zw_Close gzip) (zw_buf gzip) zw src))"

definition GzipCompression_Decompress :: "'zr zip_reader \<Rightarrow> bytes \<Rightarrow> bytes result" where
  "GzipCompression_Decompress gzip src =
     bind_ok (zr_NewReader gzip src) (\<lambda>zr. ReadAll (zr_stream gzip zr))"

definition ZlibCompression_Compress :: "'zw zip_writer \<Rightarrow> int \<Rightarrow> bytes \<Rightarrow> bytes result" where
  "ZlibCompression_Compress zlib Level src =
     (let level = (if Level = 0 then DefaultCompression else Level)
      in bind_ok (zw_NewWriterLevel zlib level)
           (\<lambda>zw. write_out (zw_Write zlib) (zw_Close zlib) (zw_buf zlib) zw src))"

definition ZlibCompression_Decompress :: "'zr zip_reader \<Rightarrow> bytes \<Rightarrow> bytes result" where
  "ZlibCompression_Decompress zlib src =
     bind_ok (zr_NewReader zlib src) (\<lambda>zr. ReadAll (zr_stream zlib zr))"

definition FlateCompression_Compress :: "'zw zip_writer \<Rightarrow> int \<Rightarrow> bytes \<Rightarrow> bytes result" where
  "FlateCompression_Compress flate Level src =
     (let level = (if Level = 0 then DefaultCompression else Level)
      in bind_ok (zw_NewWriterLevel flate level)
           (\<lambda>zw. write_out (zw_Write flate) (zw_Close flate) (zw_buf flate) zw src))"

text \<open>\<open>flate.NewReader\<close> has no error.\<close>

definition FlateCompression_Decompress :: "(bytes \<Rightarrow> 'zr) \<Rightarrow> ('zr \<Rightarrow> bytes \<times> error option) \<Rightarrow> bytes \<Rightarrow> bytes result" where
  "FlateCompression_Decompress NewReader stream src = ReadAll (stream (NewReader src))"

record 'zw lzw_writer =
  lw_NewWriter :: "int \<Rightarrow> int \<Rightarrow> 'zw"
  lw_Write :: "bytes \<Rightarrow> 'zw \<Rightarrow> error option \<times> 'zw"
  lw_Close :: "'zw \<Rightarrow> error option \<times> 'zw"
  lw_buf :: "'zw \<Rightarrow> bytes"

record lzw_config =
  lz_Order :: int
  lz_LiteralWidth :: int

text \<open>\<open>lzw.Order\<close> is an int: LSB is 0, MSB is 1.\<close>

definition LSB :: int where "LSB = 0"
definition MSB :: int where "MSB = 1"

definition lzw_order :: "lzw_config \<Rightarrow> int" where
  "lzw_order l = (if lz_Order l \<noteq> LSB \<and> lz_Order l \<noteq> MSB then LSB else lz_Order l)"

definition lzw_width :: "lzw_config \<Rightarrow> int" where
  "lzw_width l = (if lz_LiteralWidth l = 0 then 8 else lz_LiteralWidth l)"

definition LZWCompression_Compress :: "'zw lzw_writer \<Rightarrow> lzw_config \<Rightarrow> bytes \<Rightarrow> bytes result" where
  "LZWCompression_Compress lzw l src =
     write_out (lw_Write lzw) (lw_Close lzw) (lw_buf lzw) (lw_NewWriter lzw (lzw_order l) (lzw_width l)) src"

definition LZWCompression_Decompress ::
    "(bytes \<Rightarrow> int \<Rightarrow> int \<Rightarrow> 'zr) \<Rightarrow> ('zr \<Rightarrow> bytes \<times> error option) \<Rightarrow> lzw_config \<Rightarrow> bytes \<Rightarrow> bytes result" where
  "LZWCompression_Decompress NewReader stream l src =
     ReadAll (stream (NewReader src (lzw_order l) (lzw_width l)))"

text \<open>The codecs as values of the \<open>CompressionCodec\<close> interface.\<close>

definition GzipCompression :: "'zw zip_writer \<Rightarrow> 'zr zip_reader \<Rightarrow> int \<Rightarrow> compression_codec" where
  "GzipCompression wr rd Level =
     \<lparr>cc_Compress = GzipCompression_Compress wr Level, cc_Decompress = GzipCompression_Decompress rd\<rparr>"

section \<open>What the compressors promise\<close>

text \<open>A writer that takes \<open>src\<close>, and whose output the reader gives back.\<close>

definition restores ::
    "(bytes \<Rightarrow> 'zw \<Rightarrow> error option \<times> 'zw) \<Rightarrow> ('zw \<Rightarrow> error option \<times> 'zw) \<Rightarrow> ('zw \<Rightarrow> bytes) \<Rightarrow> 'zw \<Rightarrow>
     (bytes \<Rightarrow> bytes result) \<Rightarrow> bytes \<Rightarrow> bool" where
  "restores Write Close buf zw decode src \<longleftrightarrow>
     (\<exists>zw1 zw2. Write src zw = (None, zw1) \<and> Close zw1 = (None, zw2) \<and> decode (buf zw2) = Ok src)"

text \<open>
  compress/flate (gzip and zlib pass the level on): levels from -2 to 9 are accepted and others
  refused with an error, and the reader gives back what was written.
\<close>

definition flate_laws :: "'zw zip_writer \<Rightarrow> (bytes \<Rightarrow> bytes result) \<Rightarrow> bool" where
  "flate_laws z decode \<longleftrightarrow>
     (\<forall>level. if - 2 \<le> level \<and> level \<le> 9
        then \<exists>zw. zw_NewWriterLevel z level = Ok zw \<and> (\<forall>src. restores (zw_Write z) (zw_Close z) (zw_buf z) zw decode src)
        else \<exists>e. zw_NewWriterLevel z level = Err e)"

text \<open>
  compress/lzw: literal widths from 2 to 8, and every byte below 2 to the width; otherwise
  writing fails.
\<close>

definition lzw_laws :: "'zw lzw_writer \<Rightarrow> (bytes \<Rightarrow> int \<Rightarrow> int \<Rightarrow> 'zr) \<Rightarrow> ('zr \<Rightarrow> bytes \<times> error option) \<Rightarrow> bool" where
  "lzw_laws z NewReader stream \<longleftrightarrow>
     (\<forall>ord width src. (ord = LSB \<or> ord = MSB) \<longrightarrow>
        (if 2 \<le> width \<and> width \<le> 8 \<and> (\<forall>b \<in> set src. uint b < 2 ^ nat width)
         then restores (lw_Write z) (lw_Close z) (lw_buf z) (lw_NewWriter z ord width)
                (\<lambda>b. ReadAll (stream (NewReader b ord width))) src
         else \<exists>e zw'. lw_Write z src (lw_NewWriter z ord width) = (Some e, zw')))"

lemma write_out_restores:
  "restores Write Close buf zw decode src \<Longrightarrow> \<exists>out. write_out Write Close buf zw src = Ok out \<and> decode out = Ok src"
  by (auto simp: restores_def write_out_def)

lemma flate_level:
  assumes "flate_laws z decode"
  shows "if - 2 \<le> level \<and> level \<le> 9
     then \<exists>out. bind_ok (zw_NewWriterLevel z level) (\<lambda>zw. write_out (zw_Write z) (zw_Close z) (zw_buf z) zw src) = Ok out \<and>
            decode out = Ok src
     else \<exists>e. bind_ok (zw_NewWriterLevel z level) (\<lambda>zw. write_out (zw_Write z) (zw_Close z) (zw_buf z) zw src) = Err e"
  using assms [unfolded flate_laws_def, rule_format, of level] by (auto dest!: spec [of _ src] write_out_restores split: if_splits)

lemma default_level: "- 2 \<le> (if L = 0 then DefaultCompression else L) \<and> (if L = 0 then DefaultCompression else L) \<le> 9
    \<longleftrightarrow> - 2 \<le> L \<and> L \<le> 9"
  by (simp add: DefaultCompression_def)

section \<open>Properties\<close>

text \<open>A compressor that copies, for concrete runs.\<close>

definition copy_writer :: "bytes zip_writer" where
  "copy_writer =
     \<lparr>zw_NewWriterLevel = (\<lambda>level. if - 2 \<le> level \<and> level \<le> 9 then Ok [] else Err (Foreign ''invalid compression level'')),
      zw_Write = (\<lambda>src zw. (None, zw @ src)), zw_Close = (\<lambda>zw. (None, zw)), zw_buf = (\<lambda>zw. zw)\<rparr>"

definition copy_reader :: "bytes zip_reader" where
  "copy_reader = \<lparr>zr_NewReader = (\<lambda>b. Ok b), zr_stream = (\<lambda>zr. (zr, None))\<rparr>"

lemma copy_laws: "flate_laws copy_writer (GzipCompression_Decompress copy_reader)"
  "flate_laws copy_writer (ZlibCompression_Decompress copy_reader)"
  "flate_laws copy_writer (FlateCompression_Decompress (\<lambda>b. b) (\<lambda>zr. (zr, None)))"
  by (simp_all add: flate_laws_def restores_def copy_writer_def copy_reader_def GzipCompression_Decompress_def
      ZlibCompression_Decompress_def FlateCompression_Decompress_def ReadAll_def)



text \<open>The zero configuration stands for the defaults: level 0 compresses exactly as the default
  level does, whatever the compressor (so that the level NoCompression, which is 0, cannot be
  chosen), an unknown bit order is LSB and a literal width of 0 is 8.\<close>

theorem compression_defaults:
  "GzipCompression_Compress gw 0 = GzipCompression_Compress gw DefaultCompression \<and>
   ZlibCompression_Compress zw 0 = ZlibCompression_Compress zw DefaultCompression \<and>
   FlateCompression_Compress fw 0 = FlateCompression_Compress fw DefaultCompression \<and>
   LZWCompression_Compress lw \<lparr>lz_Order = n, lz_LiteralWidth = 0\<rparr> =
     LZWCompression_Compress lw \<lparr>lz_Order = (if n = MSB then MSB else LSB), lz_LiteralWidth = 8\<rparr> \<and>
   LZWCompression_Decompress lr ls \<lparr>lz_Order = n, lz_LiteralWidth = 0\<rparr> =
     LZWCompression_Decompress lr ls \<lparr>lz_Order = (if n = MSB then MSB else LSB), lz_LiteralWidth = 8\<rparr>"
  by (auto simp: fun_eq_iff GzipCompression_Compress_def ZlibCompression_Compress_def FlateCompression_Compress_def
      LZWCompression_Compress_def LZWCompression_Decompress_def lzw_order_def lzw_width_def DefaultCompression_def
      LSB_def MSB_def)

text \<open>C37: LZW: with a literal width from 2 to 8 (or 0, which is 8) decompression gives back every
  input whose bytes fit the width, and compression refuses the others; with the default width no
  input is refused.\<close>

theorem LZW_roundtrip:
  assumes "lzw_laws lw lr ls"
  shows "if 2 \<le> lzw_width l \<and> lzw_width l \<le> 8 \<and> (\<forall>b \<in> set src. uint b < 2 ^ nat (lzw_width l))
     then \<exists>out. LZWCompression_Compress lw l src = Ok out \<and> LZWCompression_Decompress lr ls l out = Ok src
     else lz_LiteralWidth l \<noteq> 0 \<and> (\<exists>e. LZWCompression_Compress lw l src = Err e)"
proof -
  have ord: "lzw_order l = LSB \<or> lzw_order l = MSB" by (auto simp: lzw_order_def)
  have small: "uint b < 256" for b :: "8 word" using uint_lt2p [of b] by simp
  note L = assms [unfolded lzw_laws_def, rule_format, OF ord, of "lzw_width l" src]
  show ?thesis
  proof (cases "2 \<le> lzw_width l \<and> lzw_width l \<le> 8 \<and> (\<forall>b \<in> set src. uint b < 2 ^ nat (lzw_width l))")
    case True
    with L show ?thesis
      by (auto simp: LZWCompression_Compress_def LZWCompression_Decompress_def dest: write_out_restores)
  next
    case False
    then have "lz_LiteralWidth l \<noteq> 0" using small by (auto simp: lzw_width_def)
    moreover from False L obtain e zw' where
      "lw_Write lw src (lw_NewWriter lw (lzw_order l) (lzw_width l)) = (Some e, zw')" by (auto split: if_splits)
    ultimately show ?thesis using False by (auto simp: LZWCompression_Compress_def write_out_def)
  qed
qed

definition copy_lzw :: "(int \<times> bytes) lzw_writer" where
  "copy_lzw =
     \<lparr>lw_NewWriter = (\<lambda>ord width. (width, [])),
      lw_Write = (\<lambda>src (width, b). if 2 \<le> width \<and> width \<le> 8 \<and> (\<forall>x \<in> set src. uint x < 2 ^ nat width)
                    then (None, (width, b @ src)) else (Some (Foreign ''lzw''), (width, b))),
      lw_Close = (\<lambda>zw. (None, zw)), lw_buf = snd\<rparr>"

theorem LZW_roundtrip_witness:
  "\<exists>out. LZWCompression_Compress copy_lzw \<lparr>lz_Order = 7, lz_LiteralWidth = 0\<rparr> [255] = Ok out \<and>
     LZWCompression_Decompress (\<lambda>b n w. b) (\<lambda>zr. (zr, None)) \<lparr>lz_Order = 7, lz_LiteralWidth = 0\<rparr> out = Ok [255]"
proof -
  have "lzw_laws copy_lzw (\<lambda>b n w. b) (\<lambda>zr. (zr, None))"
    by (simp add: lzw_laws_def restores_def copy_lzw_def ReadAll_def)
  from LZW_roundtrip [OF this, of "\<lparr>lz_Order = 7, lz_LiteralWidth = 0\<rparr>" "[255]"] show ?thesis
    by (simp add: lzw_width_def split: if_splits)
qed

lemma Gzip_restores:
  assumes "flate_laws gw (GzipCompression_Decompress gr)" and "- 2 \<le> L" and "L \<le> 9"
  shows "\<exists>out. GzipCompression_Compress gw L b = Ok out \<and> GzipCompression_Decompress gr out = Ok b"
proof -
  have "- 2 \<le> (if L = 0 then DefaultCompression else L) \<and> (if L = 0 then DefaultCompression else L) \<le> 9"
    using assms(2,3) by (simp add: default_level)
  with flate_level [OF assms(1), of "if L = 0 then DefaultCompression else L" b]
  show ?thesis unfolding GzipCompression_Compress_def Let_def by (simp only: if_True simp_thms)
qed

text \<open>A byte cache wrapped with the gzip codec, at any accepted level, keeps the contract for
  every byte slice, over any byte cache that keeps it and stores every byte slice: nothing the codec
  does loses a value.\<close>

theorem Gzip_keeps_contract:
  assumes "cache_contract c view storable clock" and "typed TBytes view" and "\<And>b. storable (VBytes b)"
    and "flate_laws gw (GzipCompression_Decompress gr)" and "- 2 \<le> L" and "L \<le> 9"
    and "\<And>z. \<not> is_panic (GzipCompression_Decompress gr z)"
  shows "cache_contract (NewCompressionDecorator c (GzipCompression gw gr L))
           (map_view_with (compress_dec (GzipCompression gw gr L)) view) (has_type TBytes) clock"
proof (rule contract_mono)
  show "cache_contract (NewCompressionDecorator c (GzipCompression gw gr L))
      (map_view_with (compress_dec (GzipCompression gw gr L)) view)
      (encodable (compress_enc (GzipCompression gw gr L)) (compress_dec (GzipCompression gw gr L)) storable) clock"
    using assms(7) by (intro NewCompressionDecorator_contract [OF assms(1,2)]) (simp add: compression_ok_def GzipCompression_def)
next
  fix v assume "has_type TBytes v"
  then obtain b where v: "v = VBytes b" by (auto simp only: has_type_TBytes)
  from Gzip_restores [OF assms(4-6)] obtain out
    where "GzipCompression_Compress gw L b = Ok out" "GzipCompression_Decompress gr out = Ok b" by blast
  then show "encodable (compress_enc (GzipCompression gw gr L)) (compress_dec (GzipCompression gw gr L)) storable v"
    using assms(3) by (simp add: v encodable_iff compress_enc_def compress_dec_def GzipCompression_def)
qed

theorem Gzip_keeps_contract_witness:
  "cache_contract (NewCompressionDecorator (NewBaseCache TBytes (SlowMapStore demo_map)) (GzipCompression copy_writer copy_reader 9))
     (map_view_with (compress_dec (GzipCompression copy_writer copy_reader 9)) (typed_view TBytes (map_view demo_map)))
     (has_type TBytes) (\<lambda>t. zero_time < t)"
  by (rule Gzip_keeps_contract [OF map_base_contract typed_typed_view _ copy_laws(1)])
    (simp_all add: GzipCompression_Decompress_def copy_reader_def ReadAll_def)

end
