(* ===== verification/Build_Contracts.thy ===== *)
theory Build_Contracts
  imports Typed_Builder Redis_Store Compression
begin

text \<open>
  What \<open>Build\<close> promises, from the store to the client: the contract of the built cache for the
  default stack, for a codec with compressions, and for logical expiry in the wire format, over any
  store that keeps its own contract; the safety of a client session; and the remote cache, a codec
  and gzip over the redis adapter. The programs of examples/ are built on these.
\<close>

section \<open>What Build assembles\<close>

text \<open>The builder of a cache of \<open>T\<close> over the in-memory store, with a discarded log.\<close>

definition demo_builder :: "gotype \<Rightarrow> map_heap builder" where
  "demo_builder T = (case NewBuilder T no_slog ''c'' (Some (SlowMapStore demo_map)) [] of Ok b \<Rightarrow> b)"

lemma demo_builder: "NewBuilder T no_slog ''c'' (Some (SlowMapStore demo_map)) [] = Ok (demo_builder T)"
  by (simp add: demo_builder_def NewBuilder_def)

text \<open>The process log does not write to the cache.\<close>

definition quiet_log_of :: "'x view \<Rightarrow> (string \<Rightarrow> 'x log_fn) \<Rightarrow> bool" where
  "quiet_log_of view slog \<longleftrightarrow> (\<forall>lvl ctx msg args w. reads view w (slog lvl ctx msg args w))"

lemma quiet_log_of_map: "quiet_log_of view slog \<Longrightarrow> quiet_log_of (map_view_with dec view) slog"
  by (simp add: quiet_log_of_def map_view_with_reads)

lemma quiet_log_of_compressed: "quiet_log_of view slog \<Longrightarrow> quiet_log_of (compressed_view ccs view) slog"
  by (induction ccs arbitrary: view) (simp_all add: quiet_log_of_map)

lemma no_slog_quiet [simp]: "quiet_log_of view no_slog"
  by (simp add: quiet_log_of_def no_slog_def)

lemma builder_quiet:
  assumes "NewBuilder T slog name (Some st) opts = Ok b" and "quiet_log_of view slog"
    and "b_metrics b' = b_metrics b" and "b_logger b' = b_logger b"
  shows "quiet view (builder_observable b')"
  using assms quiet_DefaultObservable [of view slog]
  by (auto simp: NewBuilder_Ok builder_observable_def DefaultObservable_def quiet_log_of_def)

lemma Build_plain_contract:
  assumes C: "cache_contract st view storable clock" and b: "NewBuilder T slog name (Some st) [] = Ok b"
    and slog: "quiet_log_of view slog" and rt: "sequential rt"
  shows "\<exists>c. fst (fst (Build T rt b w)) = Ok c \<and>
     cache_contract c (typed_view T view) (\<lambda>v. storable v \<and> type_assert T v = Some v) clock"
proof -
  from b have st: "b_store b = st" and ft: "b_features b = default_features" and p: "plain_builder b"
    by (auto simp: NewBuilder_Ok plain_builder_def ttls_valid_def default_features_def observed_builder_def)
  obtain c0 where "compiled_factory T rt (b_features b) (b_store b) (builder_observable b) w = (Ok c0, w)"
    and "cache_contract c0 (typed_view T view) (\<lambda>v. storable v \<and> type_assert T v = Some v) clock"
    using plain_factory_contract [OF C, of "b_features b" T rt "builder_observable b" w]
    by (auto simp: st ft default_features_def requiresBytePath_def)
  moreover have "quiet (typed_view T view) (builder_observable b)"
    unfolding typed_view_def by (rule builder_quiet [OF b quiet_log_of_map [OF slog]]) simp_all
  ultimately show ?thesis by (rule Build_keeps [OF p _ _ typed_typed_view rt])
qed

text \<open>C1: a cache built with the defaults over a store that keeps the store contract keeps the cache
  contract: base cache, singleflight and observation together promise exactly what the store
  promises for values of type T, when calls do not overlap and logging does not write to it.\<close>

theorem Build_default_contract:
  assumes "cache_contract st view storable clock" and "NewBuilder T slog name (Some st) [] = Ok b"
    and "quiet_log_of view slog" and "sequential rt"
  shows "\<exists>c. fst (fst (Build T rt b w)) = Ok c \<and>
     cache_contract c (typed_view T view) (\<lambda>v. storable v \<and> type_assert T v = Some v) clock"
  by (rule Build_plain_contract [OF assms])

theorem Build_default_contract_witness:
  "\<exists>c. fst (fst (Build TInt seq_runtime (demo_builder TInt) demo_world)) = Ok c \<and>
     cache_contract c (typed_view TInt (map_view demo_map)) (\<lambda>v. True \<and> type_assert TInt v = Some v) (\<lambda>t. zero_time < t)"
  by (rule Build_default_contract [OF map_store.cache_contract_axioms demo_builder]) simp_all

text \<open>C5: whatever sequence of calls a client makes of a cache built from typed ingredients over the
  in-memory store, with any time passing between them, the maps never hold a value that no Go
  program can build, and the next lookup does not panic and returns a value of type T if it succeeds.\<close>

theorem Build_session_safe:
  assumes "NewBuilder T slog name (Some (SlowMapStore s)) [] = Ok b0"
    and "\<And>lvl ctx msg args w. maps_well_formed (w_ext w) \<Longrightarrow> maps_well_formed (w_ext (slog lvl ctx msg args w))"
    and "typed_configured T maps_well_formed b0 b" and "sequential rt" and "maps_well_formed (w_ext w)"
    and "Build T rt b w = ((Ok c, b'), w0)" and "session c T w0 w1" and "opts_total opts"
  shows "maps_well_formed (w_ext w1) \<and> \<not> is_panic (fst (c_Get c ctx k opts w1)) \<and>
     (\<forall>v w2. c_Get c ctx k opts w1 = (Ok v, w2) \<longrightarrow> has_type T v)"
proof -
  have "typed_builder T maps_well_formed b"
    using NewBuilder_typed [OF assms(1) _ map_typed.typed_cache_axioms] assms(2)
    by (intro typed_configured_builder [OF assms(3)]) simp
  from Build_typed [OF this assms(4-6)] have C: "typed_cache c (fits T) maps_well_formed" "maps_well_formed (w_ext w0)"
    by simp_all
  have w1: "maps_well_formed (w_ext w1)" by (rule session_invariant [OF assms(7), where I = maps_well_formed]) (rule C)+
  have "ends maps_well_formed (fits T) (c_Get c ctx k opts w1)"
    by (rule typed_cache.Get_ends [OF C(1)]) (rule w1 assms(8))+
  with w1 show ?thesis
    by (cases "c_Get c ctx k opts w1"; cases "fst (c_Get c ctx k opts w1)") (auto simp: ends_def fits_has_type)
qed

theorem Build_session_safe_witness:
  "\<exists>c. fst (fst (Build TInt seq_runtime (demo_builder TInt) demo_world)) = Ok c \<and>
     \<not> is_panic (fst (c_Get c Background ''k'' []
        (snd (c_Set c Background ''k'' (VInt 7) 10 [] (snd (Build TInt seq_runtime (demo_builder TInt) demo_world))))))"
proof -
  obtain c where c: "fst (fst (Build TInt seq_runtime (demo_builder TInt) demo_world)) = Ok c"
    using Build_plain_contract [OF map_store.cache_contract_axioms demo_builder no_slog_quiet seq_runtime_sequential]
    by blast
  then obtain b' w0 where B: "Build TInt seq_runtime (demo_builder TInt) demo_world = ((Ok c, b'), w0)"
    by (metis prod.collapse)
  obtain u w1 where s: "c_Set c Background ''k'' (VInt 7) 10 [] w0 = (u, w1)" by fastforce
  have "fits TInt (VInt 7)" by (simp add: fits_def type_assert_def)
  then have "session c TInt w0 w1" using s by (intro session.Set [OF session.start _ _ s]) simp_all
  moreover have "maps_well_formed (w_ext demo_world)" by (simp add: maps_well_formed_def demo_world_def)
  ultimately show ?thesis
    using Build_session_safe [OF demo_builder _ typed_configured.start seq_runtime_sequential _ B _ opts_total_Nil] B c s
    by (simp add: no_slog_def)
qed

text \<open>What a contract says of a value that is set and read again.\<close>

lemma contract_set_get:
  assumes K: "cache_contract c view storable clock"
    and ctx: "ctx_deadline ctx = None" "ctx_deadline ctx' = None" and opts: "opts_total opts"
    and v: "storable v" and ttl: "0 < ttl" and clock: "clock (w_now w)"
    and set: "c_Set c ctx k v ttl opts w = (u, w1)"
    and get: "c_Get c ctx' k opts' (wait d w1) = (r, w2)" and d: "0 \<le> d"
  shows "u = Ok () \<and> (w_now w2 \<le> w_now w + ttl \<longrightarrow> r = Ok v) \<and> (ttl < d \<longrightarrow> not_found r)"
proof -
  from cache_contract.Set_law [OF K ctx(1) opts v less_imp_le [OF ttl] clock set] have "u = Ok ()" by blast
  moreover have "r = Ok v" if "w_now w2 \<le> w_now w + ttl"
    using cache_contract.Set_then_Get [OF K ctx opts v less_imp_le [OF ttl] clock set get d] that by blast
  moreover have "not_found r" if "ttl < d"
    by (rule cache_contract.Set_then_expired [OF K ctx opts v ttl clock set get that])
  ultimately show ?thesis by blast
qed

text \<open>End to end. With a cache built with the defaults, a value of type T set with a positive time
  to live is what Get returns until that time is over, and is reported as a miss once it is over.\<close>

theorem Build_default_set_get:
  assumes C: "cache_contract st view storable clock" and b: "NewBuilder T slog name (Some st) [] = Ok b"
    and "quiet_log_of view slog" and "sequential rt"
    and c: "fst (fst (Build T rt b w0)) = Ok c"
    and ctx: "ctx_deadline ctx = None" "ctx_deadline ctx' = None" and opts: "opts_total opts"
    and v: "storable v" "type_assert T v = Some v" and ttl: "0 < ttl" and clock: "clock (w_now w)"
    and set: "c_Set c ctx k v ttl opts w = (u, w1)"
    and get: "c_Get c ctx' k opts' (wait d w1) = (r, w2)" and d: "0 \<le> d"
  shows "u = Ok () \<and> (w_now w2 \<le> w_now w + ttl \<longrightarrow> r = Ok v) \<and> (ttl < d \<longrightarrow> not_found r)"
proof -
  from Build_plain_contract [OF C b assms(3,4), of w0] c
  have "cache_contract c (typed_view T view) (\<lambda>v. storable v \<and> type_assert T v = Some v) clock" by simp
  from contract_set_get [OF this ctx opts conjI [OF v] ttl clock set get d] show ?thesis .
qed

theorem Build_default_set_get_witness:
  "\<exists>c r. fst (fst (Build TInt seq_runtime (demo_builder TInt) demo_world)) = Ok c \<and> not_found r \<and>
     r = fst (c_Get c Background ''k'' [] (wait 20 (snd (c_Set c Background ''k'' (VInt 7) 10 [] demo_world))))"
proof -
  obtain c where c: "fst (fst (Build TInt seq_runtime (demo_builder TInt) demo_world)) = Ok c"
    using Build_plain_contract [OF map_store.cache_contract_axioms demo_builder no_slog_quiet seq_runtime_sequential]
    by blast
  obtain u w1 where s: "c_Set c Background ''k'' (VInt 7) 10 [] demo_world = (u, w1)" by fastforce
  obtain r w2 where g: "c_Get c Background ''k'' [] (wait 20 w1) = (r, w2)" by fastforce
  from Build_default_set_get [OF map_store.cache_contract_axioms demo_builder no_slog_quiet
      seq_runtime_sequential c demo_simps(6) demo_simps(6) opts_total_Nil _ _ _ _ s g]
  have "not_found r" by simp
  with c s g show ?thesis by auto
qed

section \<open>Staged features\<close>

text \<open>A builder with a codec and a list of compressions, in the order they were added.\<close>

definition with_codec :: "codec \<Rightarrow> compression_codec list \<Rightarrow> 'x builder \<Rightarrow> 'x builder" where
  "with_codec cd ccs b = fold WithCompression ccs (WithCodec (Some cd) b)"

lemma fold_WithCompression:
  "fold WithCompression ccs b =
     b\<lparr>b_features := (b_features b)\<lparr>ft_byteTransforms := ft_byteTransforms (b_features b) @ compressions ccs\<rparr>\<rparr>"
  by (induction ccs arbitrary: b) (simp_all add: WithCompression_def WithByteTransforms_def compressions_def)

lemma with_codec_fields:
  "b_features (with_codec cd ccs b) =
     (b_features b)\<lparr>ft_codec := Some cd, ft_byteTransforms := ft_byteTransforms (b_features b) @ compressions ccs\<rparr>"
  "b_store (with_codec cd ccs b) = b_store b" "b_metrics (with_codec cd ccs b) = b_metrics b"
  "b_logger (with_codec cd ccs b) = b_logger b"
  by (simp_all add: with_codec_def fold_WithCompression WithCodec_def)

lemma Build_codec:
  assumes C: "cache_contract st view storable clock" and b: "NewBuilder T slog name (Some st) [] = Ok b"
    and slog: "quiet_log_of view slog" and rt: "sequential rt"
    and cd: "codec_ok T cd" and ccs: "\<forall>cc \<in> set ccs. compression_ok cc"
  shows "\<exists>c. fst (fst (Build T rt (with_codec cd ccs b) w)) = Ok c \<and>
     cache_contract c (codec_view T cd ccs view) (codec_storable T cd ccs storable) clock"
proof -
  let ?b = "with_codec cd ccs b"
  from b have p: "plain_builder ?b"
    by (auto simp: NewBuilder_Ok plain_builder_def ttls_valid_def default_features_def observed_builder_def
        with_codec_def fold_WithCompression WithCodec_def)
  from b have ft: "ft_codec (b_features ?b) = Some cd" "ft_typeAdapter (b_features ?b) = None"
    "ft_byteTransforms (b_features ?b) = compressions ccs" "\<not> le_enabled (ft_logicExpire (b_features ?b))"
    "b_store ?b = st"
    by (auto simp: NewBuilder_Ok default_features_def with_codec_fields)
  obtain c0 where c0: "compiled_factory T rt (b_features ?b) (b_store ?b) (builder_observable ?b) w = (Ok c0, w)"
    "cache_contract c0 (codec_view T cd ccs view) (codec_storable T cd ccs storable) clock"
    using codec_factory_contract [OF C ft(4,1-3) ccs cd, of rt "builder_observable ?b" w] by (auto simp: ft(5))
  have "quiet_log_of (codec_view T cd ccs view) slog"
    unfolding codec_view_def typed_view_def by (intro quiet_log_of_map quiet_log_of_compressed slog)
  then have "quiet (codec_view T cd ccs view) (builder_observable ?b)"
    by (rule builder_quiet [OF b]) (simp_all add: with_codec_fields)
  moreover have "typed T (codec_view T cd ccs view)"
    unfolding codec_view_def by (rule codec_dec_typed [OF cd])
  ultimately show ?thesis by (intro Build_keeps [OF p c0 _ rt])
qed

text \<open>C2: a cache built with a codec and any number of compressions keeps the cache contract over any
  store that keeps the store contract, for the values that survive marshalling, compressing,
  decompressing and unmarshalling; what the store holds is visible through exactly that chain.\<close>

theorem Build_codec_contract:
  assumes C: "cache_contract st view storable clock" and b: "NewBuilder T slog name (Some st) [] = Ok b"
    and slog: "quiet_log_of view slog" and rt: "sequential rt"
    and cd: "codec_ok T cd" and ccs: "\<forall>cc \<in> set ccs. compression_ok cc"
  shows "\<exists>c. fst (fst (Build T rt (with_codec cd ccs b) w)) = Ok c \<and>
     cache_contract c (codec_view T cd ccs view) (codec_storable T cd ccs storable) clock"
  by (rule Build_codec [OF assms])

text \<open>A codec for integers and a compression, for concrete runs: one byte per integer, stored twice.\<close>

definition demo_codec :: codec where
  "demo_codec = \<lparr>cd_Marshal = (\<lambda>v. case v of VInt i \<Rightarrow> Ok [word_of_int i] | _ \<Rightarrow> Err (Foreign ''not an int'')),
     cd_Unmarshal = (\<lambda>raw T. case raw of [x] \<Rightarrow> if T = TInt then Ok (VInt (uint x)) else Err (Foreign ''type'')
                                | _ \<Rightarrow> Err (Foreign ''length''))\<rparr>"

definition demo_compression :: compression_codec where
  "demo_compression = \<lparr>cc_Compress = (\<lambda>b. Ok (b @ b)), cc_Decompress = (\<lambda>z. Ok (take (length z div 2) z))\<rparr>"

lemma demo_codecs_ok [simp]: "codec_ok TInt demo_codec" "compression_ok demo_compression"
  by (auto simp: codec_ok_def compression_ok_def demo_codec_def demo_compression_def
      split: list.splits)

theorem Build_codec_contract_witness:
  "\<exists>c. fst (fst (Build TInt seq_runtime (with_codec demo_codec [demo_compression] (demo_builder TInt)) demo_world)) = Ok c \<and>
     cache_contract c (codec_view TInt demo_codec [demo_compression] (map_view demo_map))
       (codec_storable TInt demo_codec [demo_compression] (\<lambda>v. True)) (\<lambda>t. zero_time < t) \<and>
     codec_storable TInt demo_codec [demo_compression] (\<lambda>v. True) (VInt 7)"
proof -
  have "codec_storable TInt demo_codec [demo_compression] (\<lambda>v. True) (VInt 7)"
    by (simp add: codec_storable_def encodable_def codec_enc_def codec_dec_def compress_enc_def
        compress_dec_def demo_codec_def demo_compression_def bytes_storable_def)
  with Build_codec_contract [OF map_store.cache_contract_axioms [of demo_map] demo_builder [of TInt] no_slog_quiet
      seq_runtime_sequential, of demo_codec "[demo_compression]" demo_world]
  show ?thesis by auto
qed

section \<open>A remote cache\<close>

text \<open>A redis store over a server that honours every time to live keeps the whole contract for bytes.\<close>

lemma RedisStore_cache_contract:
  assumes "redis_server cl view (\<lambda>ttl. True) clock lag prec" and "rs_client s = cl"
  shows "cache_contract (RedisStore s) view (has_type TBytes) clock"
  by (rule store_contract_exact [OF redis_server.RedisStore_contract_of [OF assms]])

lemma Gzip_codec_storable:
  assumes "flate_laws gw (GzipCompression_Decompress gr)" and "- 2 \<le> L" and "L \<le> 9"
    and "cd_Marshal cd v = Ok raw" and "cd_Unmarshal cd raw T = Ok v"
  shows "codec_storable T cd [GzipCompression gw gr L] (has_type TBytes) v"
proof -
  obtain out where "GzipCompression_Compress gw L raw = Ok out" "GzipCompression_Decompress gr out = Ok raw"
    using Gzip_restores [OF assms(1-3)] by blast
  with assms(4,5) show ?thesis
    by (simp add: codec_storable_def encodable_def codec_enc_def codec_dec_def compress_enc_def compress_dec_def
        bytes_storable_def GzipCompression_def)
qed

text \<open>End to end over the network: a cache of T built with a codec and gzip compression over the
  redis adapter, and any redis client that behaves as documented, returns a value the codec
  restores until its time to live is over, and reports a miss once it is over.\<close>

theorem remote_cache_set_get:
  assumes server: "redis_server cl view (\<lambda>ttl. True) clock lag prec"
    and b: "NewBuilder T slog name (Some (RedisStore (redis_New cl [redis_WithStoreName n]))) [] = Ok b"
    and slog: "quiet_log_of view slog" and rt: "sequential rt" and cd: "codec_ok T cd"
    and gzip: "flate_laws gw (GzipCompression_Decompress gr)" "- 2 \<le> L" "L \<le> 9"
      "\<And>z. \<not> is_panic (GzipCompression_Decompress gr z)"
    and c: "fst (fst (Build T rt (with_codec cd [GzipCompression gw gr L] b) w0)) = Ok c"
    and v: "cd_Marshal cd v = Ok raw" "cd_Unmarshal cd raw T = Ok v"
    and ctx: "ctx_deadline ctx = None" "ctx_deadline ctx' = None" and opts: "opts_total opts"
    and ttl: "0 < ttl" and clock: "clock (w_now w)"
    and set: "c_Set c ctx k v ttl opts w = (u, w1)"
    and get: "c_Get c ctx' k opts' (wait d w1) = (r, w2)" and d: "0 \<le> d"
  shows "u = Ok () \<and> (w_now w2 \<le> w_now w + ttl \<longrightarrow> r = Ok v) \<and> (ttl < d \<longrightarrow> not_found r)"
proof -
  have "cache_contract (RedisStore (redis_New cl [redis_WithStoreName n])) view (has_type TBytes) clock"
    by (rule RedisStore_cache_contract [OF server]) (simp add: redis_New_def redis_WithStoreName_def)
  moreover have "compression_ok (GzipCompression gw gr L)"
    using gzip(4) by (simp add: compression_ok_def GzipCompression_def)
  ultimately have "cache_contract c (codec_view T cd [GzipCompression gw gr L] view)
      (codec_storable T cd [GzipCompression gw gr L] (has_type TBytes)) clock"
    using Build_codec [OF _ b slog rt cd, of "has_type TBytes" clock "[GzipCompression gw gr L]" w0] c by simp
  from contract_set_get [OF this ctx opts Gzip_codec_storable [OF gzip(1-3) v] ttl clock set get d] show ?thesis .
qed

text \<open>A remote cache of integers, over the fake server with number 0.\<close>

definition remote_builder :: "fake_heap builder" where
  "remote_builder =
     (case NewBuilder TInt no_slog ''c'' (Some (RedisStore (redis_New (fakeClient 0) [redis_WithStoreName ''r'']))) []
      of Ok b \<Rightarrow> b)"

lemma remote_builder:
  "NewBuilder TInt no_slog ''c'' (Some (RedisStore (redis_New (fakeClient 0) [redis_WithStoreName ''r'']))) [] =
     Ok remote_builder"
  by (simp add: remote_builder_def NewBuilder_def)

abbreviation copy_gzip :: compression_codec where
  "copy_gzip \<equiv> GzipCompression copy_writer copy_reader 9"

lemma copy_gzip_total: "\<not> is_panic (GzipCompression_Decompress copy_reader z)"
  by (simp add: GzipCompression_Decompress_def copy_reader_def ReadAll_def)

lemma demo_codec_7: "cd_Marshal demo_codec (VInt 7) = Ok [7]" "cd_Unmarshal demo_codec [7] TInt = Ok (VInt 7)"
  by (simp_all add: demo_codec_def)

theorem remote_cache_set_get_witness:
  "\<exists>c u w1. fst (fst (Build TInt seq_runtime (with_codec demo_codec [copy_gzip] remote_builder) fake_world)) = Ok c \<and>
     c_Set c Background ''k'' (VInt 7) 10 [] fake_world = (u, w1) \<and> u = Ok () \<and>
     not_found (fst (c_Get c Background ''k'' [] (wait 20 w1)))"
proof -
  have "cache_contract (RedisStore (redis_New (fakeClient 0) [redis_WithStoreName ''r''])) (fake_view 0)
      (has_type TBytes) (\<lambda>t. zero_time < t)"
    by (rule RedisStore_cache_contract [OF fake_redis.redis_server_axioms]) (simp add: redis_New_def redis_WithStoreName_def)
  moreover have "compression_ok copy_gzip"
    using copy_gzip_total by (simp add: compression_ok_def GzipCompression_def)
  ultimately obtain c where
    c: "fst (fst (Build TInt seq_runtime (with_codec demo_codec [copy_gzip] remote_builder) fake_world)) = Ok c"
    using Build_codec [OF _ remote_builder no_slog_quiet seq_runtime_sequential demo_codecs_ok(1),
        of "fake_view 0" "has_type TBytes" "\<lambda>t. zero_time < t" "[copy_gzip]" fake_world] by auto
  obtain u w1 where s: "c_Set c Background ''k'' (VInt 7) 10 [] fake_world = (u, w1)" by fastforce
  obtain r w2 where g: "c_Get c Background ''k'' [] (wait 20 w1) = (r, w2)" by fastforce
  have "u = Ok () \<and> (w_now w2 \<le> w_now fake_world + 10 \<longrightarrow> r = Ok (VInt 7)) \<and> (10 < (20::int) \<longrightarrow> not_found r)"
    by (rule remote_cache_set_get [OF fake_redis.redis_server_axioms remote_builder no_slog_quiet
          seq_runtime_sequential demo_codecs_ok(1) copy_laws(1) _ _ copy_gzip_total c demo_codec_7 demo_simps(6)
          demo_simps(6) opts_total_Nil _ _ s g])
      (simp_all add: fake_world_def zero_time_def duration_defs)
  with c s g show ?thesis by auto
qed

text \<open>A builder of a byte cache with logical expiry, stored in the adapter's wire format.\<close>

definition with_logic_bytes :: "duration \<Rightarrow> compression_codec list \<Rightarrow> 'x builder \<Rightarrow> 'x builder" where
  "with_logic_bytes ttl ccs b =
     fold WithCompression ccs (WithLogicExpireBytesAdapter True (WithLogicExpireDefaultLogicTTL ttl b))"

lemma with_logic_bytes_fields:
  assumes "0 \<le> ttl"
  shows "with_logic_bytes ttl ccs b =
    b\<lparr>b_features := (b_features b)\<lparr>ft_byteTransforms := ft_byteTransforms (b_features b) @ compressions ccs,
        ft_logicExpire := (ft_logicExpire (b_features b))
          \<lparr>le_enabled := True, le_defaultLogicTTL := ttl, le_enableBytesAdapter := True\<rparr>\<rparr>\<rparr>"
  using assms
  by (simp add: with_logic_bytes_def fold_WithCompression WithLogicExpireBytesAdapter_def
      WithLogicExpireDefaultLogicTTL_def upd_logicExpire_def Let_def)

text \<open>C3: a byte cache built with logical expiry, the byte adapter and at least one compression keeps
  the cache contract over any store that keeps the store contract, for the byte values whose
  logical deadline the wire format can represent at every reading of the clock considered: the
  wrapper, its wire format and the compressions are invisible to the client.\<close>

theorem Build_logic_contract:
  assumes C: "cache_contract st view storable clock" and b: "NewBuilder TBytes slog name (Some st) [] = Ok b"
    and slog: "quiet_log_of view slog" and rt: "sequential rt"
    and ttl: "0 \<le> ttl" and ccs: "ccs \<noteq> []" "\<forall>cc \<in> set ccs. compression_ok cc"
  shows "\<exists>c. fst (fst (Build TBytes rt (with_logic_bytes ttl ccs b) w)) = Ok c \<and>
     cache_contract c (map_view_with unlogic (wire_view ccs view)) (stamp_storable ttl ccs storable clock) clock"
proof -
  let ?b = "with_logic_bytes ttl ccs b"
  note fields = with_logic_bytes_fields [OF ttl]
  from b ttl have p: "plain_builder ?b"
    by (auto simp: NewBuilder_Ok plain_builder_def ttls_valid_def default_features_def observed_builder_def fields)
  from b have ft: "ft_codec (b_features ?b) = None" "ft_byteTransforms (b_features ?b) = compressions ccs"
    "ft_logicExpire (b_features ?b) = \<lparr>le_enabled = True, le_defaultLogicTTL = ttl, le_loadFn = None,
       le_defaultWriteBackTTL = Hour, le_enableBytesAdapter = True\<rparr>" "b_store ?b = st"
    and ob: "builder_observable ?b = Some \<lparr>ob_Metrics = Some NoopMetrics, ob_Logger = b_logger ?b\<rparr>"
    by (auto simp: NewBuilder_Ok default_features_def fields builder_observable_def)
  obtain c0 where c0: "compiled_factory TBytes rt (b_features ?b) (b_store ?b) (builder_observable ?b) w = (Ok c0, w)"
    "cache_contract c0 (map_view_with unlogic (wire_view ccs view)) (stamp_storable ttl ccs storable clock) clock"
    using logic_factory_contract [OF C ft(3,1,2) ccs ob, of rt w] by (auto simp: ft(4) NoopMetrics_def)
  have "quiet_log_of (map_view_with unlogic (wire_view ccs view)) slog"
    unfolding wire_view_def typed_view_def by (intro quiet_log_of_map quiet_log_of_compressed slog)
  then have "quiet (map_view_with unlogic (wire_view ccs view)) (builder_observable ?b)"
    by (rule builder_quiet [OF b]) (simp_all add: fields)
  then show ?thesis by (intro Build_keeps [OF p c0 logic_view_typed rt])
qed

theorem Build_logic_contract_witness:
  "\<exists>c. fst (fst (Build TBytes seq_runtime (with_logic_bytes Minute [demo_compression] (demo_builder TBytes)) demo_world)) = Ok c \<and>
     cache_contract c (map_view_with unlogic (wire_view [demo_compression] (map_view demo_map)))
       (stamp_storable Minute [demo_compression] (\<lambda>v. True) demo_clock) demo_clock \<and>
     stamp_storable Minute [demo_compression] (\<lambda>v. True) demo_clock (VBytes [1])"
proof -
  have C: "cache_contract (SlowMapStore demo_map) (map_view demo_map) (\<lambda>v. True) demo_clock"
    by (rule contract_mono [OF map_store.cache_contract_axioms])
      (auto simp: demo_clock_def zero_time_def duration_defs)
  have "wire_storable [demo_compression] (\<lambda>v. True) (VLogic TBytes (VBytes [1]) e)" if "representable e" for e
    using adapter_encodable [OF that, of "[1]"]
    by (auto simp: wire_storable_def encodable_iff compress_enc_def compress_dec_def adapter_enc_def
        demo_compression_def bytes_storable_def encode_logic_value_def bind_ok_Ok_iff)
  then have "stamp_storable Minute [demo_compression] (\<lambda>v. True) demo_clock (VBytes [1])"
    by (simp add: stamp_storable_def representable_def demo_clock_def duration_defs)
  with Build_logic_contract [OF C demo_builder [of TBytes] no_slog_quiet seq_runtime_sequential,
      of Minute "[demo_compression]" demo_world]
  show ?thesis by (auto simp: duration_defs)
qed

end
