(* ===== verification/Option_Order.thy ===== *)
theory Option_Order
  imports Builder_Laws "HOL-Library.Multiset"
begin

text \<open>
  The fluent options of the builder as data, and which of them can be exchanged: two calls that
  write different settings commute, so the order in which a client chains them does not matter.
\<close>

datatype 'x opt =
    OSingleflight bool
  | OCodec "codec option"
  | OLogicEnabled bool
  | OLogicTTL duration
  | OLogicWriteBackTTL duration
  | OLogicBytesAdapter bool
  | OLogicLoader "'x loader option"
  | OMissLoader "'x loader option"
  | OMissTTL duration
  | ONilFn "(key \<Rightarrow> gval) option"
  | ONilTTL duration
  | OFactory "'x cache_factory option"
  | OLogger "'x logger option"
  | OMetrics "'x metrics option"
  | OObserve "'x decorator"
  | ODecorators "'x decorator list"
  | OOptions "'x cache_option list"
  | OByteTransforms "'x decorator list"
  | OCompression compression_codec
  | OTypeAdapter "'x decorator option"

fun call_opt :: "'x opt \<Rightarrow> 'x builder \<Rightarrow> 'x builder" where
  "call_opt (OSingleflight on) = WithSingleflight on"
| "call_opt (OCodec cd) = WithCodec cd"
| "call_opt (OLogicEnabled on) = WithLogicExpireEnabled on"
| "call_opt (OLogicTTL d) = WithLogicExpireDefaultLogicTTL d"
| "call_opt (OLogicWriteBackTTL d) = WithLogicExpireDefaultWriteBackTTL d"
| "call_opt (OLogicBytesAdapter on) = WithLogicExpireBytesAdapter on"
| "call_opt (OLogicLoader f) = WithLogicExpireLoader f"
| "call_opt (OMissLoader f) = WithCacheMissLoader f"
| "call_opt (OMissTTL d) = WithCacheMissDefaultWriteBackTTL d"
| "call_opt (ONilFn p) = WithNilCacheFn p"
| "call_opt (ONilTTL d) = WithNilCacheWriteBackTTL d"
| "call_opt (OFactory f) = Builder_WithFactory f"
| "call_opt (OLogger l) = WithLogger l"
| "call_opt (OMetrics m) = WithMetrics m"
| "call_opt (OObserve d) = WithObserveDecorator d"
| "call_opt (ODecorators ds) = WithDecorators ds"
| "call_opt (OOptions os) = Builder_WithOptions os"
| "call_opt (OByteTransforms ts) = WithByteTransforms ts"
| "call_opt (OCompression cc) = WithCompression cc"
| "call_opt (OTypeAdapter a) = WithTypeAdapter a"

text \<open>
  The setting a call writes; compressions and byte transforms go to the same list, and so do the
  errors of negative times. The calls for logical expiry also switch it on.
\<close>

fun setting :: "'x opt \<Rightarrow> nat" where
  "setting (OSingleflight on) = 0"
| "setting (OCodec cd) = 1"
| "setting (OLogicEnabled on) = 2"
| "setting (OLogicTTL d) = 3"
| "setting (OLogicWriteBackTTL d) = 4"
| "setting (OLogicBytesAdapter on) = 5"
| "setting (OLogicLoader f) = 6"
| "setting (OMissLoader f) = 7"
| "setting (OMissTTL d) = 8"
| "setting (ONilFn p) = 9"
| "setting (ONilTTL d) = 10"
| "setting (OFactory f) = 11"
| "setting (OLogger l) = 12"
| "setting (OMetrics m) = 13"
| "setting (OObserve d) = 14"
| "setting (ODecorators ds) = 15"
| "setting (OOptions os) = 16"
| "setting (OByteTransforms ts) = 17"
| "setting (OCompression cc) = 17"
| "setting (OTypeAdapter a) = 18"

fun switches_on :: "'x opt \<Rightarrow> bool" where
  "switches_on (OLogicTTL d) = True"
| "switches_on (OLogicWriteBackTTL d) = True"
| "switches_on (OLogicBytesAdapter on) = on"
| "switches_on (OLogicLoader f) = True"
| "switches_on opt = False"

fun reports_error :: "'x opt \<Rightarrow> bool" where
  "reports_error (OLogicTTL d) = (d < 0)"
| "reports_error (OLogicWriteBackTTL d) = (d < 0)"
| "reports_error opt = False"

definition independent :: "'x opt \<Rightarrow> 'x opt \<Rightarrow> bool" where
  "independent a b \<longleftrightarrow> setting a \<noteq> setting b \<and>
     \<not> (setting a = 2 \<and> switches_on b) \<and> \<not> (setting b = 2 \<and> switches_on a) \<and>
     \<not> (reports_error a \<and> reports_error b)"

text \<open>What a call does to the features, to the other fields, and to the error.\<close>

fun on_features :: "'x opt \<Rightarrow> 'x features \<Rightarrow> 'x features" where
  "on_features (OSingleflight on) ft = ft\<lparr>ft_singleFlight := on\<rparr>"
| "on_features (OCodec cd) ft = ft\<lparr>ft_codec := cd\<rparr>"
| "on_features (OMissLoader f) ft = ft\<lparr>ft_missLoader := (ft_missLoader ft)\<lparr>mf_loadFn := f\<rparr>\<rparr>"
| "on_features (OMissTTL d) ft = ft\<lparr>ft_missLoader := (ft_missLoader ft)\<lparr>mf_defaultWriteBackTTL := d\<rparr>\<rparr>"
| "on_features (ONilFn p) ft = ft\<lparr>ft_nilCache := (ft_nilCache ft)\<lparr>nf_protectionFn := p\<rparr>\<rparr>"
| "on_features (ONilTTL d) ft = ft\<lparr>ft_nilCache := (ft_nilCache ft)\<lparr>nf_defaultWriteBackTTL := d\<rparr>\<rparr>"
| "on_features (OByteTransforms ts) ft = ft\<lparr>ft_byteTransforms := ft_byteTransforms ft @ ts\<rparr>"
| "on_features (OCompression cc) ft =
     ft\<lparr>ft_byteTransforms := ft_byteTransforms ft @ [\<lambda>next ob w. (Ok (NewCompressionDecorator next cc), w)]\<rparr>"
| "on_features (OTypeAdapter a) ft = ft\<lparr>ft_typeAdapter := a\<rparr>"
| "on_features a ft = ft"

fun on_logic :: "'x opt \<Rightarrow> 'x logic_expire_features \<Rightarrow> 'x logic_expire_features" where
  "on_logic (OLogicEnabled on) l = l\<lparr>le_enabled := on\<rparr>"
| "on_logic (OLogicTTL d) l = l\<lparr>le_enabled := True, le_defaultLogicTTL := d\<rparr>"
| "on_logic (OLogicWriteBackTTL d) l = l\<lparr>le_enabled := True, le_defaultWriteBackTTL := d\<rparr>"
| "on_logic (OLogicBytesAdapter on) l = l\<lparr>le_enabled := le_enabled l \<or> on, le_enableBytesAdapter := on\<rparr>"
| "on_logic (OLogicLoader f) l = l\<lparr>le_enabled := True, le_loadFn := f\<rparr>"
| "on_logic a l = l"

fun on_builder :: "'x opt \<Rightarrow> 'x builder \<Rightarrow> 'x builder" where
  "on_builder (OFactory f) b = b\<lparr>b_factoryCustomized := True, b_factory := WithFactory f\<rparr>"
| "on_builder (OLogger l) b = b\<lparr>b_logger := l\<rparr>"
| "on_builder (OMetrics m) b = b\<lparr>b_metrics := m\<rparr>"
| "on_builder (OObserve d) b = b\<lparr>b_obDecorators := WithDecorator d\<rparr>"
| "on_builder (ODecorators ds) b = b\<lparr>b_decorators := b_decorators b @ map WithDecorator ds\<rparr>"
| "on_builder (OOptions os) b = b\<lparr>b_options := b_options b @ os\<rparr>"
| "on_builder a b = b"

fun opt_error :: "'x opt \<Rightarrow> error option" where
  "opt_error (OLogicTTL d) =
     (if d < 0 then Some (Errorf ''logicExpireDefaultLogicTTL must >= 0, but got %v'' [ADur d]) else None)"
| "opt_error (OLogicWriteBackTTL d) =
     (if d < 0 then Some (Errorf ''logicExpireDefaultWriteBackTTL must >= 0, but got: %v'' [ADur d]) else None)"
| "opt_error a = None"

definition add_error :: "error option \<Rightarrow> error option \<Rightarrow> error option" where
  "add_error e old = (case e of None \<Rightarrow> old | Some e' \<Rightarrow> errors_Join [old, Some e'])"

lemma call_opt_parts:
  "call_opt a b = (on_builder a b)\<lparr>b_err := add_error (opt_error a) (b_err b),
     b_features := (on_features a (b_features b))\<lparr>ft_logicExpire := on_logic a (ft_logicExpire (b_features b))\<rparr>\<rparr>"
  by (cases a) (auto simp: option_defs add_error_def appendErr_def)

lemma on_builder_fields [simp]:
  "b_err (on_builder a b) = b_err b" "b_features (on_builder a b) = b_features b"
  "on_builder a (b\<lparr>b_err := e, b_features := ft\<rparr>) = (on_builder a b)\<lparr>b_err := e, b_features := ft\<rparr>"
  by (cases a; simp)+

lemma on_features_logic [simp]:
  "ft_logicExpire (on_features a ft) = ft_logicExpire ft"
  "on_features a (ft\<lparr>ft_logicExpire := l\<rparr>) = (on_features a ft)\<lparr>ft_logicExpire := l\<rparr>"
  by (cases a; simp)+

lemma on_builder_commute: "setting a \<noteq> setting b \<Longrightarrow> on_builder a (on_builder b x) = on_builder b (on_builder a x)"
  by (cases a; simp; cases b; simp)

lemma on_features_commute: "setting a \<noteq> setting b \<Longrightarrow> on_features a (on_features b x) = on_features b (on_features a x)"
  by (cases a; simp; cases b; simp)

lemma on_logic_commute: "independent a b \<Longrightarrow> on_logic a (on_logic b x) = on_logic b (on_logic a x)"
  by (cases a; simp; cases b; simp add: independent_def)

lemma opt_error_None: "\<not> reports_error a \<Longrightarrow> opt_error a = None"
  by (cases a) simp_all

lemma add_error_commute:
  assumes "\<not> (reports_error a \<and> reports_error b)"
  shows "add_error (opt_error a) (add_error (opt_error b) e) = add_error (opt_error b) (add_error (opt_error a) e)"
proof (cases "reports_error a")
  case True
  with assms have "opt_error b = None" by (intro opt_error_None) simp
  then show ?thesis by (simp add: add_error_def)
next
  case False
  then have "opt_error a = None" by (rule opt_error_None)
  then show ?thesis by (simp add: add_error_def)
qed

lemma independent_commute:
  assumes "independent a b"
  shows "call_opt a (call_opt b x) = call_opt b (call_opt a x)"
proof -
  from assms have s: "setting a \<noteq> setting b" and e: "\<not> (reports_error a \<and> reports_error b)"
    by (simp_all add: independent_def)
  show ?thesis
    by (simp add: call_opt_parts on_builder_commute [OF s] on_features_commute [OF s] on_logic_commute [OF assms]
        add_error_commute [OF e])
qed

lemma call_opt_option_call: "option_call b (call_opt a b)"
  by (cases a) (simp_all add: option_call.intros)

lemma fold_call_opt_configured: "configured b (fold call_opt xs b)"
proof (induction xs rule: rev_induct)
  case Nil show ?case by (simp add: configured.start)
next
  case (snoc a xs) then show ?case by (simp add: configured.call [OF _ call_opt_option_call])
qed

lemma fold_call_opt_permuted:
  assumes "\<forall>a \<in> set xs. \<forall>b \<in> set xs. a \<noteq> b \<longrightarrow> independent a b" and "mset xs = mset ys"
  shows "fold call_opt xs = fold call_opt ys"
proof (rule fold_multiset_equiv [OF _ assms(2)])
  fix a b assume "a \<in> set xs" "b \<in> set xs"
  with assms(1) show "call_opt a \<circ> call_opt b = call_opt b \<circ> call_opt a"
    by (cases "a = b") (simp_all add: fun_eq_iff independent_commute)
qed

section \<open>Properties\<close>

text \<open>C15: the fluent interface is insensitive to order: option calls that write different settings,
  none of them switching logical expiry off where another switches it on, and at most one of them
  with a refused time, configure the same builder in every order, so Build does the same.\<close>

theorem option_order_irrelevant:
  assumes "\<forall>a \<in> set xs. \<forall>b \<in> set xs. a \<noteq> b \<longrightarrow> independent a b" and "mset xs = mset ys"
  shows "configured b (fold call_opt xs b) \<and> fold call_opt xs b = fold call_opt ys b \<and>
     Build T rt (fold call_opt xs b) w = Build T rt (fold call_opt ys b) w"
  by (simp add: fold_call_opt_permuted [OF assms] fold_call_opt_configured)

theorem option_order_irrelevant_witness:
  "\<exists>b. NewBuilder TInt no_slog ''c'' (Some (SlowMapStore demo_map)) [] = Ok b \<and>
   Build TInt seq_runtime (WithLogger None (WithCacheMissDefaultWriteBackTTL 5 (WithSingleflight False b))) demo_world =
   Build TInt seq_runtime (WithSingleflight False (WithLogger None (WithCacheMissDefaultWriteBackTTL 5 b))) demo_world"
proof -
  obtain b where b: "NewBuilder TInt no_slog ''c'' (Some (SlowMapStore demo_map)) [] = Ok b"
    by (simp add: NewBuilder_def)
  let ?xs = "[OSingleflight False, OMissTTL 5, OLogger (None :: map_heap logger option)]" and ?ys = "[OMissTTL 5, OLogger (None :: map_heap logger option), OSingleflight False]"
  have "\<forall>a \<in> set ?xs. \<forall>b \<in> set ?xs. a \<noteq> b \<longrightarrow> independent a b" by (simp add: independent_def)
  moreover have "mset ?xs = mset ?ys" by simp
  ultimately show ?thesis using b option_order_irrelevant [of ?xs ?ys b TInt seq_runtime demo_world] by simp
qed

end
