(* ===== verification/Go_Float.thy ===== *)
theory Go_Float
  imports Complex_Main Cachalot_Prelude "HOL-Library.Log_Nat"
begin

text \<open>
  The one place where the repository computes with floating point: freecache's
  \<open>int(ttl.Seconds())\<close>. A float64 is the rational it stands for, and an operation is the exact
  one followed by rounding to 53 significant bits, ties to even; the values that occur are zero
  or between a billionth and 2 to the 34, so overflow and the subnormal range do not.
\<close>

definition round_even :: "rat \<Rightarrow> int" where
  "round_even x =
     (let q = \<lfloor>x\<rfloor>; r = x - of_int q
      in if r < 1 / 2 \<or> (r = 1 / 2 \<and> even q) then q else q + 1)"

text \<open>
  The power of two that scales a positive rational below 2 to the 53 into the range from
  2 to the 52 up to 2 to the 53, where the floats are the integers.
\<close>

definition float_scale :: "rat \<Rightarrow> nat" where
  "float_scale x =
     (if 1 \<le> x then 53 - floorlog 2 (nat \<lfloor>x\<rfloor>)
      else floorlog 2 (nat (\<lceil>1 / x\<rceil> - 1)) + 52)"

definition float64 :: "rat \<Rightarrow> rat" where
  "float64 x = (if x = 0 then 0 else of_int (round_even (x * 2 ^ float_scale x)) / 2 ^ float_scale x)"

text \<open>\<open>time.Duration.Seconds\<close>, for a duration that is not negative.\<close>

definition Duration_Seconds :: "duration \<Rightarrow> rat" where
  "Duration_Seconds d =
     (let sec = d div Second; nsec = d mod Second
      in float64 (of_int sec + float64 (of_int nsec / 10 ^ 9)))"

section \<open>Rounding\<close>

lemma round_even_cases:
  obtains "round_even x = \<lfloor>x\<rfloor>" "x - of_int \<lfloor>x\<rfloor> \<le> 1 / 2"
    | "round_even x = \<lfloor>x\<rfloor> + 1" "1 / 2 \<le> x - of_int \<lfloor>x\<rfloor>"
proof -
  let ?q = "\<lfloor>x\<rfloor>"
  show thesis
  proof (cases "x - of_int ?q < 1 / 2 \<or> (x - of_int ?q = 1 / 2 \<and> even ?q)")
    case True
    then have "round_even x = ?q" unfolding round_even_def Let_def by (rule if_P)
    with True that(1) show thesis by linarith
  next
    case False
    then have "round_even x = ?q + 1" unfolding round_even_def Let_def by (rule if_not_P)
    with False that(2) show thesis by linarith
  qed
qed

lemma round_even_error: "\<bar>of_int (round_even x) - x\<bar> \<le> 1 / 2"
proof (cases x rule: round_even_cases)
  case 1
  then show ?thesis using of_int_floor_le [of x] by (simp only: abs_le_iff) linarith
next
  case 2
  then show ?thesis using floor_correct [of x] by (simp only: abs_le_iff of_int_add of_int_1) linarith
qed

lemma round_even_ge: "of_int m \<le> x \<Longrightarrow> m \<le> round_even x"
proof -
  assume "of_int m \<le> x"
  then have "m \<le> \<lfloor>x\<rfloor>" by (simp add: le_floor_iff)
  then show ?thesis by (cases x rule: round_even_cases) simp_all
qed

lemma round_even_le:
  assumes "x \<le> of_int m"
  shows "round_even x \<le> m"
proof (cases x rule: round_even_cases)
  case 1
  then show ?thesis using assms by (simp add: floor_le_iff)
next
  case 2
  then have "of_int \<lfloor>x\<rfloor> < (of_int m :: rat)" using assms by linarith
  then show ?thesis using 2 by simp
qed

lemma float_scale_lower:
  assumes "0 < x" and "x < 2 ^ 53"
  shows "2 ^ 52 \<le> x * 2 ^ float_scale x"
proof (cases "1 \<le> x")
  case True
  define n where "n = nat \<lfloor>x\<rfloor>"
  define b where "b = floorlog 2 n"
  from True have n: "0 < n" by (simp add: n_def)
  have "of_nat n \<le> x" using True by (simp add: n_def)
  then have "of_nat n < (2 ^ 53 :: rat)" using assms(2) by simp
  then have n53: "n < 2 ^ 53" by (metis of_nat_less_iff of_nat_numeral of_nat_power)
  have b: "2 ^ (b - 1) \<le> n" "0 < b" "b \<le> 53"
    using floorlog_bounds [of n 2] n n53 floorlog_le_iff [of 2 n 53] unfolding b_def
    by (auto intro: ccontr)
  have "2 ^ 52 = (2 :: rat) ^ (b - 1) * 2 ^ (53 - b)" using b by (simp flip: power_add)
  also have "\<dots> \<le> of_nat n * 2 ^ (53 - b)" using b(1)
    by (intro mult_right_mono) (metis of_nat_le_iff of_nat_numeral of_nat_power, simp)
  also have "\<dots> \<le> x * 2 ^ (53 - b)" using \<open>of_nat n \<le> x\<close> by (intro mult_right_mono) auto
  finally show ?thesis using True by (simp add: float_scale_def b_def n_def)
next
  case False
  define n where "n = nat (\<lceil>1 / x\<rceil> - 1)"
  from False assms have "1 < 1 / x" by simp
  then have c: "1 < \<lceil>1 / x\<rceil>" by (simp add: less_ceiling_iff)
  then have "0 < n" by (simp add: n_def)
  then have "n < 2 ^ floorlog 2 n" using floorlog_bounds [of n 2] by auto
  then have "int n < int (2 ^ floorlog 2 n)" by (simp only: of_nat_less_iff)
  moreover have "int n = \<lceil>1 / x\<rceil> - 1" using c unfolding n_def by (intro nat_0_le) linarith
  ultimately have "\<lceil>1 / x\<rceil> \<le> 2 ^ floorlog 2 n" by simp
  then have "1 / x \<le> 2 ^ floorlog 2 n" by (simp add: ceiling_le_iff)
  then have "1 \<le> x * 2 ^ floorlog 2 n" using assms by (simp add: field_simps)
  then have "2 ^ 52 \<le> x * 2 ^ floorlog 2 n * 2 ^ 52" by simp
  then show ?thesis using False by (simp add: float_scale_def n_def power_add mult.assoc)
qed

lemma float64_error:
  assumes "0 < x" and "x < 2 ^ 53"
  shows "\<bar>float64 x - x\<bar> \<le> x / 2 ^ 53"
proof -
  let ?k = "2 ^ float_scale x :: rat"
  have k: "0 < ?k" by simp
  have "float64 x - x = (of_int (round_even (x * ?k)) - x * ?k) / ?k"
    using assms by (simp add: float64_def diff_divide_distrib)
  then have "\<bar>float64 x - x\<bar> = \<bar>of_int (round_even (x * ?k)) - x * ?k\<bar> / ?k" by simp
  also have "\<dots> \<le> (1 / 2) / ?k" by (intro divide_right_mono round_even_error) simp
  also have "\<dots> \<le> (x * ?k / 2 ^ 53) / ?k"
    using float_scale_lower [OF assms] by (intro divide_right_mono) auto
  finally show ?thesis by simp
qed

lemma float64_near:
  assumes "0 < x" and "x < 2 ^ 53"
  shows "x - x / 2 ^ 53 \<le> float64 x" "float64 x \<le> x + x / 2 ^ 53"
  using float64_error [OF assms] unfolding abs_le_iff by linarith+

lemma float64_nonneg: "0 \<le> x \<Longrightarrow> x < 2 ^ 53 \<Longrightarrow> 0 \<le> float64 x"
proof (cases "x = 0")
  case False
  assume x: "0 \<le> x" "x < 2 ^ 53"
  with False have "x / 2 ^ 53 \<le> x" by (simp add: pos_divide_le_eq)
  moreover from x False have "x - x / 2 ^ 53 \<le> float64 x" by (intro float64_near) auto
  ultimately show ?thesis by linarith
qed (simp add: float64_def)

lemma float64_between:
  assumes "1 \<le> x" and "of_int m \<le> x" and "x \<le> of_int m'"
  shows "of_int m \<le> float64 x \<and> float64 x \<le> of_int m'"
proof -
  define k :: rat where "k = 2 ^ float_scale x"
  have k: "0 < k" by (simp add: k_def)
  have scale: "of_int (i * 2 ^ float_scale x) = of_int i * k" for i
    unfolding k_def of_int_mult of_int_power of_int_numeral by (rule refl)
  have "of_int (m * 2 ^ float_scale x) \<le> x * k" "x * k \<le> of_int (m' * 2 ^ float_scale x)"
    unfolding scale using assms(2,3) k by (simp_all only: mult_right_mono less_imp_le)
  then have "m * 2 ^ float_scale x \<le> round_even (x * k)" "round_even (x * k) \<le> m' * 2 ^ float_scale x"
    by (blast intro: round_even_ge round_even_le)+
  then have "of_int (m * 2 ^ float_scale x) \<le> (of_int (round_even (x * k)) :: rat)"
    "of_int (round_even (x * k)) \<le> (of_int (m' * 2 ^ float_scale x) :: rat)"
    by (simp_all only: of_int_le_iff)
  then have "of_int m \<le> of_int (round_even (x * k)) / k" "of_int (round_even (x * k)) / k \<le> of_int m'"
    unfolding scale by (simp_all only: pos_le_divide_eq [OF k] pos_divide_le_eq [OF k])
  moreover have "float64 x = of_int (round_even (x * k)) / k"
    unfolding float64_def k_def using assms(1) by (intro if_not_P) simp
  ultimately show ?thesis by simp
qed

text \<open>Integers, and the interval from 0 to 1.\<close>

lemma round_even_int [simp]: "round_even (of_int n) = n"
  by (simp add: round_even_def)

lemma float64_int: "float64 (of_int n) = of_int n"
proof -
  let ?s = "float_scale (of_int n)"
  have "of_int n * 2 ^ ?s = (of_int (n * 2 ^ ?s) :: rat)" by simp
  then have "round_even (of_int n * 2 ^ ?s) = n * 2 ^ ?s" by (simp only: round_even_int)
  then show ?thesis by (simp add: float64_def)
qed

lemma float64_unit:
  assumes "0 \<le> x" and "x \<le> 1"
  shows "0 \<le> float64 x \<and> float64 x \<le> 1"
proof -
  let ?s = "float_scale x"
  have "x * 2 ^ ?s \<le> of_int (2 ^ ?s)" using assms by simp
  then have "round_even (x * 2 ^ ?s) \<le> 2 ^ ?s" by (rule round_even_le)
  then have "(of_int (round_even (x * 2 ^ ?s)) :: rat) \<le> of_int (2 ^ ?s)" by (rule of_int_le_iff [THEN iffD2])
  moreover have "0 \<le> round_even (x * 2 ^ ?s)" using assms by (intro round_even_ge) simp
  ultimately show ?thesis by (simp add: float64_def)
qed

end
