(* ===== verification/Freecache_Store.thy ===== *)
theory Freecache_Store
  imports Store_Contract Go_Float
begin

text \<open>
  stores/freecache: the adapter over a freecache cache, which counts expiry in whole seconds. The
  client is a parameter, the adapter's own \<open>Cache\<close> interface. \<open>*freecache.Cache\<close> takes no
  context; the adapter checks it first. \<open>int(ttl.Seconds())\<close> is modelled with the rounding of
  float64 (Go\_Float).
\<close>

record 'x freecache_client =
  fc_Get :: "bytes \<Rightarrow> 'x world \<Rightarrow> bytes result \<times> 'x world"
  fc_GetWithExpiration :: "bytes \<Rightarrow> 'x world \<Rightarrow> (bytes \<times> 32 word) result \<times> 'x world"
  fc_Set :: "bytes \<Rightarrow> bytes \<Rightarrow> int \<Rightarrow> 'x world \<Rightarrow> unit result \<times> 'x world"
  fc_Del :: "bytes \<Rightarrow> 'x world \<Rightarrow> bool \<times> 'x world"
  fc_Clear :: "'x world \<Rightarrow> 'x world"

record 'x freecache_store =
  fs_client :: "'x freecache_client"
  fs_name :: string

type_synonym 'x freecache_option = "'x freecache_store \<Rightarrow> 'x freecache_store"

definition freecache_WithStoreName :: "string \<Rightarrow> 'x freecache_option" where
  "freecache_WithStoreName name s = s\<lparr>fs_name := name\<rparr>"

definition freecache_New :: "'x freecache_client \<Rightarrow> 'x freecache_option list \<Rightarrow> 'x freecache_store" where
  "freecache_New client opts = fold (\<lambda>opt s. opt s) opts \<lparr>fs_client = client, fs_name = ''freecache''\<rparr>"

definition store_not_found :: "key \<Rightarrow> string \<Rightarrow> error" where
  "store_not_found k name =
     Errorf ''key:%s not found in store:%s. %w'' [AStr k, AStr name, AErr ErrNotFound]"

definition FreecacheStore_Get ::
    "'x freecache_store \<Rightarrow> ctx \<Rightarrow> key \<Rightarrow> call_option list \<Rightarrow> 'x world \<Rightarrow> gval result \<times> 'x world" where
  "FreecacheStore_Get s ctx k opts w = unless_done ctx w (\<lambda>w.
     case fc_Get (fs_client s) (bytes_of k) w of
       (Err err, w) \<Rightarrow>
         if err = FreecacheErrNotFound then (Err (store_not_found k (fs_name s)), w) else (Err err, w)
     | (Ok val, w) \<Rightarrow> (Ok (VBytes val), w)
     | (Panic m, w) \<Rightarrow> (Panic m, w))"

text \<open>\<open>time.Until(time.Unix(int64(expireAt), 0))\<close> is \<open>expireAt\<close> seconds less the present.\<close>

definition FreecacheStore_GetWithTTL ::
    "'x freecache_store \<Rightarrow> ctx \<Rightarrow> key \<Rightarrow> call_option list \<Rightarrow> 'x world \<Rightarrow> (gval \<times> duration) result \<times> 'x world" where
  "FreecacheStore_GetWithTTL s ctx k opts w = unless_done ctx w (\<lambda>w.
     case fc_GetWithExpiration (fs_client s) (bytes_of k) w of
       (Err err, w) \<Rightarrow>
         if err = FreecacheErrNotFound then (Err (store_not_found k (fs_name s)), w) else (Err err, w)
     | (Ok (val, expireAt), w) \<Rightarrow>
         if expireAt = 0 then (Ok (VBytes val, 0), w)
         else let ttl = uint expireAt * Second - w_now w
              in if ttl \<le> 0 then (Err (store_not_found k (fs_name s)), w) else (Ok (VBytes val, ttl), w)
     | (Panic m, w) \<Rightarrow> (Panic m, w))"

definition expire_seconds :: "duration \<Rightarrow> int" where
  "expire_seconds ttl = \<lfloor>Duration_Seconds ttl\<rfloor>"

definition FreecacheStore_Set ::
    "'x freecache_store \<Rightarrow> ctx \<Rightarrow> key \<Rightarrow> gval \<Rightarrow> duration \<Rightarrow> call_option list \<Rightarrow> 'x world \<Rightarrow> unit result \<times> 'x world" where
  "FreecacheStore_Set s ctx k val ttl opts w = unless_done ctx w (\<lambda>w.
     if ttl < 0 then (Err ErrInvalidTTL, w)
     else case val of
         VBytes b \<Rightarrow>
           let expireSeconds = expire_seconds ttl
           in fc_Set (fs_client s) (bytes_of k) b expireSeconds w
       | _ \<Rightarrow> (Err (Errorf ''freecache store only accepts []byte values, got %T'' [ATypeOf val]), w))"

definition FreecacheStore_Delete ::
    "'x freecache_store \<Rightarrow> ctx \<Rightarrow> key \<Rightarrow> call_option list \<Rightarrow> 'x world \<Rightarrow> unit result \<times> 'x world" where
  "FreecacheStore_Delete s ctx k opts w = unless_done ctx w (\<lambda>w.
     (Ok (), snd (fc_Del (fs_client s) (bytes_of k) w)))"

definition FreecacheStore_Clear :: "'x freecache_store \<Rightarrow> ctx \<Rightarrow> 'x world \<Rightarrow> unit result \<times> 'x world" where
  "FreecacheStore_Clear s ctx w = unless_done ctx w (\<lambda>w. (Ok (), fc_Clear (fs_client s) w))"

definition FreecacheStore :: "'x freecache_store \<Rightarrow> 'x store" where
  "FreecacheStore s =
     \<lparr>c_Get = FreecacheStore_Get s, c_Set = FreecacheStore_Set s, c_GetWithTTL = FreecacheStore_GetWithTTL s,
      c_Delete = FreecacheStore_Delete s, c_Clear = FreecacheStore_Clear s, StoreName = fs_name s\<rparr>"

lemma FreecacheStore_ops [simp, cache_ops]:
  "c_Get (FreecacheStore s) = FreecacheStore_Get s" "c_Set (FreecacheStore s) = FreecacheStore_Set s"
  "c_GetWithTTL (FreecacheStore s) = FreecacheStore_GetWithTTL s"
  "c_Delete (FreecacheStore s) = FreecacheStore_Delete s" "c_Clear (FreecacheStore s) = FreecacheStore_Clear s"
  "StoreName (FreecacheStore s) = fs_name s"
  by (simp_all add: FreecacheStore_def)

section \<open>Whole seconds\<close>

text \<open>
  A time to live is \<open>s\<close> seconds and \<open>n\<close> nanoseconds; \<open>f\<close> is the float of \<open>n\<close> billionths.
\<close>

definition eps :: rat where "eps = 1 / 2 ^ 53"

definition tick :: rat where "tick = 1 / 10 ^ 9"

lemma eps_tick: "0 < eps" "0 < tick" "eps < tick / 1000" "tick < 1" "2 ^ 23 * eps + eps < tick" "(2 :: rat) \<le> 2 ^ 53" "(1 :: rat) \<le> 2 ^ 23"
  by (simp_all add: eps_def tick_def)

lemma near_below:
  assumes "0 \<le> x" and "x \<le> b" and "b \<le> 2 ^ 23"
  shows "float64 x \<le> x + b * eps"
proof (cases "x = 0")
  case False
  with assms have "float64 x \<le> x + x / 2 ^ 53" by (intro float64_near) auto
  moreover have "x / 2 ^ 53 \<le> b * eps" using assms by (simp add: eps_def divide_right_mono)
  ultimately show ?thesis by linarith
qed (use assms in \<open>simp add: float64_def eps_def\<close>)

lemma fraction_float:
  fixes n :: int
  assumes "0 \<le> n" and "n < 1000000000"
  shows "0 \<le> float64 (of_int n / 10 ^ 9)" "float64 (of_int n / 10 ^ 9) \<le> 1 - tick + eps"
proof -
  have f: "0 \<le> (of_int n / 10 ^ 9 :: rat)" using assms by simp
  have le: "(of_int n / 10 ^ 9 :: rat) \<le> 1 - tick"
  proof -
    have "of_int n \<le> (of_int 999999999 :: rat)" using assms by (simp only: of_int_le_iff)
    then show ?thesis by (simp add: tick_def)
  qed
  show "0 \<le> float64 (of_int n / 10 ^ 9)" using le eps_tick by (intro float64_nonneg f) linarith
  have "float64 (of_int n / 10 ^ 9) \<le> of_int n / 10 ^ 9 + 1 * eps"
    using le eps_tick by (intro near_below f) linarith+
  with le show "float64 (of_int n / 10 ^ 9) \<le> 1 - tick + eps" by linarith
qed

lemma Duration_Seconds_parts:
  assumes "0 \<le> ttl" and "ttl < 2 ^ 63"
  obtains s f where "s = ttl div Second" "0 \<le> s" "s < 2 ^ 34" "0 \<le> f" "f \<le> 1 - tick + eps"
    "Duration_Seconds ttl = float64 (of_int s + f)"
proof -
  have m: "0 \<le> ttl mod Second" "ttl mod Second < 1000000000" by (simp_all add: duration_defs)
  have "0 \<le> ttl div Second" "ttl div Second < 2 ^ 34"
    using assms by (simp_all add: duration_defs div_less_iff_less_mult pos_imp_zdiv_nonneg_iff)
  from that [OF refl this fraction_float [OF m]] show thesis
    by (simp only: Duration_Seconds_def Let_def simp_thms)
qed

lemma expire_seconds_bounds:
  assumes "0 \<le> ttl" and "ttl < 2 ^ 63"
  shows "ttl div Second \<le> expire_seconds ttl \<and> expire_seconds ttl \<le> ttl div Second + 1 \<and>
     (ttl < 2 ^ 23 * Second \<longrightarrow> expire_seconds ttl = ttl div Second)"
proof (rule Duration_Seconds_parts [OF assms])
  fix s f assume s: "s = ttl div Second" "0 \<le> s" "s < 2 ^ 34" and f: "0 \<le> f" "f \<le> 1 - tick + eps"
    and D: "Duration_Seconds ttl = float64 (of_int s + f)"
  let ?y = "float64 (of_int s + f)"
  have E: "expire_seconds ttl = \<lfloor>?y\<rfloor>" by (simp only: D expire_seconds_def)
  have le: "of_int s + f \<le> of_int (s + 1)" using f eps_tick by simp
  have exact: "\<lfloor>?y\<rfloor> = s" if "s < 2 ^ 23" and "of_int s \<le> ?y"
  proof -
    have "of_int s + f \<le> 2 ^ 23"
    proof -
      have "of_int (s + 1) \<le> (of_int (2 ^ 23) :: rat)" using that(1) by (simp only: of_int_le_iff)
      with le show ?thesis by simp
    qed
    with s(2) f have "?y \<le> of_int s + f + 2 ^ 23 * eps" by (intro near_below) auto
    with f eps_tick have "?y < of_int s + 1" by linarith
    with that(2) show ?thesis by (simp add: floor_eq_iff)
  qed
  have cut: "ttl < 2 ^ 23 * Second \<Longrightarrow> s < 2 ^ 23"
    using s(1) by (simp add: duration_defs div_less_iff_less_mult)
  show ?thesis
  proof (cases "s = 0")
    case True
    with f eps_tick have "f < 2 ^ 53" by linarith
    with f(1) have "0 \<le> float64 f" by (rule float64_nonneg)
    with True exact s(1) E show ?thesis by simp
  next
    case False
    with s have "1 \<le> (of_int s :: rat)" by simp
    with f(1) have "1 \<le> of_int s + f" by linarith
    from float64_between [OF this, of s "s + 1"] f(1) le
    have y: "of_int s \<le> ?y \<and> ?y \<le> of_int (s + 1)" by simp
    then have "s \<le> \<lfloor>?y\<rfloor>" "\<lfloor>?y\<rfloor> \<le> s + 1" by (simp_all only: le_floor_iff floor_le_iff) linarith
    with exact cut y s(1) E show ?thesis by auto
  qed
qed

section \<open>Properties\<close>

text \<open>A client whose cache is one item, for concrete runs.\<close>

definition one_item_client :: "(bytes \<times> 32 word) option freecache_client" where
  "one_item_client =
     \<lparr>fc_Get = (\<lambda>k w. (case w_ext w of None \<Rightarrow> Err FreecacheErrNotFound | Some (b, e) \<Rightarrow> Ok b, w)),
      fc_GetWithExpiration = (\<lambda>k w. (case w_ext w of None \<Rightarrow> Err FreecacheErrNotFound | Some p \<Rightarrow> Ok p, w)),
      fc_Set = (\<lambda>k b n w. (Ok (), w\<lparr>w_ext := Some (b, if n \<le> 0 then 0 else word_of_int (w_now w div Second + n))\<rparr>)),
      fc_Del = (\<lambda>k w. (w_ext w \<noteq> None, w\<lparr>w_ext := None\<rparr>)), fc_Clear = (\<lambda>w. w\<lparr>w_ext := None\<rparr>)\<rparr>"

definition one_item_world :: "(bytes \<times> 32 word) option world" where
  "one_item_world = \<lparr>w_now = 1500000000, w_events = [], w_groups = 0, w_ext = None\<rparr>"

text \<open>C38: the seconds freecache is given: the time to live rounded down to seconds, or, from 97 days
  on, possibly one more because of the float64 rounding; zero, which freecache takes for never
  expiring, for every time to live below a second.\<close>

theorem FreecacheStore_seconds:
  assumes "ctx_Err ctx w = None" and "0 \<le> ttl" and "ttl < 2 ^ 63"
  shows "\<exists>n. FreecacheStore_Set s ctx k (VBytes b) ttl opts w = fc_Set (fs_client s) (bytes_of k) b n w \<and>
     ttl div Second \<le> n \<and> n \<le> ttl div Second + 1 \<and>
     (ttl < 2 ^ 23 * Second \<longrightarrow> n = ttl div Second) \<and> (n = 0 \<longleftrightarrow> ttl < Second)"
proof (intro exI conjI)
  note E = expire_seconds_bounds [OF assms(2,3)]
  show "FreecacheStore_Set s ctx k (VBytes b) ttl opts w =
      fc_Set (fs_client s) (bytes_of k) b (expire_seconds ttl) w"
    using assms(1,2) by (simp add: FreecacheStore_Set_def unless_done_def)
  show "ttl div Second \<le> expire_seconds ttl" "expire_seconds ttl \<le> ttl div Second + 1"
    "ttl < 2 ^ 23 * Second \<longrightarrow> expire_seconds ttl = ttl div Second" using E by auto
  show "expire_seconds ttl = 0 \<longleftrightarrow> ttl < Second"
  proof (cases "ttl < Second")
    case True
    moreover from this have "ttl < 2 ^ 23 * Second" by (simp add: duration_defs)
    ultimately show ?thesis using E assms(2) by (simp add: div_pos_pos_trivial)
  next
    case False
    then have "1 \<le> ttl div Second" by (simp add: duration_defs)
    with E False show ?thesis by auto
  qed
qed

theorem FreecacheStore_seconds_witness:
  "FreecacheStore_GetWithTTL (freecache_New one_item_client []) Background ''k'' []
     (snd (FreecacheStore_Set (freecache_New one_item_client []) Background ''k'' (VBytes [1]) 999999999 [] one_item_world))
   = (Ok (VBytes [1], 0), one_item_world\<lparr>w_ext := Some ([1], 0)\<rparr>)"
proof -
  from FreecacheStore_seconds [of Background one_item_world 999999999 "freecache_New one_item_client []" "''k''" "[1]" "[]"]
  obtain n where "FreecacheStore_Set (freecache_New one_item_client []) Background ''k'' (VBytes [1]) 999999999 [] one_item_world
      = fc_Set (fs_client (freecache_New one_item_client [])) (bytes_of ''k'') [1] n one_item_world"
    and "n = 0 \<longleftrightarrow> 999999999 < Second" by auto
  then show ?thesis
    by (simp add: duration_defs FreecacheStore_GetWithTTL_def unless_done_def freecache_New_def one_item_client_def)
qed

text \<open>The remaining time freecache's GetWithTTL reports for an item stored at w0 with n seconds
  (which freecache stamps in whole seconds of the clock): never more than what is left and less
  than a second short of it, always positive; once nothing is left the item is a miss.\<close>

theorem FreecacheStore_remaining:
  assumes "ctx_Err ctx w = None" and "fc_GetWithExpiration (fs_client s) (bytes_of k) w = (Ok (b, e), w')"
    and "e \<noteq> 0" and "uint e = w_now w0 div Second + n"
  shows "if w_now w' < uint e * Second
     then \<exists>d. FreecacheStore_GetWithTTL s ctx k opts w = (Ok (VBytes b, d), w') \<and> 0 < d \<and>
            d \<le> w_now w0 + n * Second - w_now w' \<and> w_now w0 + n * Second - w_now w' < d + Second
     else \<exists>err. FreecacheStore_GetWithTTL s ctx k opts w = (Err err, w') \<and> errors_is err ErrNotFound \<and>
            w_now w0 + n * Second < w_now w' + Second"
proof -
  let ?d = "uint e * Second - w_now w'"
  have "w_now w0 div Second * Second \<le> w_now w0" by (simp add: duration_defs)
  moreover have "w_now w0 < w_now w0 div Second * Second + Second" unfolding duration_defs by presburger
  ultimately have d: "?d \<le> w_now w0 + n * Second - w_now w'" "w_now w0 + n * Second - w_now w' < ?d + Second"
    by (simp_all add: assms(4) algebra_simps)
  show ?thesis
  proof (cases "?d \<le> 0")
    case True
    with assms(1-3) d(2) show ?thesis
      by (auto simp: FreecacheStore_GetWithTTL_def unless_done_def store_not_found_def errors_is_simps)
  next
    case False
    with assms(1-3) d show ?thesis by (auto simp: FreecacheStore_GetWithTTL_def unless_done_def)
  qed
qed

theorem FreecacheStore_remaining_witness:
  "\<exists>err. FreecacheStore_GetWithTTL (freecache_New one_item_client []) Background ''k'' []
     (one_item_world\<lparr>w_now := 2000000000, w_ext := Some ([1], 2)\<rparr>) = (Err err, one_item_world\<lparr>w_now := 2000000000, w_ext := Some ([1], 2)\<rparr>)"
proof -
  let ?w = "one_item_world\<lparr>w_now := 2000000000, w_ext := Some ([1 :: 8 word], 2)\<rparr>"
  let ?s = "freecache_New one_item_client []"
  have "fc_GetWithExpiration (fs_client ?s) (bytes_of ''k'') ?w = (Ok ([1], 2), ?w)"
    by (simp add: freecache_New_def one_item_client_def)
  from FreecacheStore_remaining [OF _ this, of Background one_item_world 1 "[]"]
  show ?thesis by (auto simp: one_item_world_def duration_defs)
qed

end
