(* ===== verification/Ristretto_Store.thy ===== *)
theory Ristretto_Store
  imports Freecache_Store
begin

text \<open>
  stores/ristretto: the adapter over a ristretto cache (ristretto.go) and its call options
  (features.go). The client is a parameter, the adapter's own \<open>Cache\<close> interface. The options
  share one \<open>*setFeatures\<close> that lives in a custom field of the call's configuration and is
  changed in place; nothing else refers to it, so the field holds the struct itself.
\<close>

definition featureNameSet :: string where
  "featureNameSet = ''ristretto_set''"

definition features_conflict :: string where
  "features_conflict = ''interface conversion: interface {} is not *ristretto.setFeatures''"

definition loadOrInitSetFeatures :: "call_opt_config \<Rightarrow> (bool \<times> int) result \<times> call_opt_config" where
  "loadOrInitSetFeatures cfg =
     (case GetCustomField cfg featureNameSet of
        (f, cfg) \<Rightarrow>
          (case f of
             None \<Rightarrow> (Ok (False, 0), cfg)
           | Some v \<Rightarrow>
               (if v = VNil then (Ok (False, 0), cfg)
                else case v of
                    VSetFeatures flush cost \<Rightarrow> (Ok (flush, cost), cfg)
                  | _ \<Rightarrow> (Panic features_conflict, cfg))))"

definition setFeatures_apply :: "bool \<times> int \<Rightarrow> call_opt_config \<Rightarrow> call_opt_config" where
  "setFeatures_apply f cfg = SetCustomField cfg featureNameSet (VSetFeatures (fst f) (snd f))"

definition WithSynchronousSet :: "bool \<Rightarrow> call_option" where
  "WithSynchronousSet enable cfgs =
     (case loadOrInitSetFeatures cfgs of
        (Ok (flush, cost), cfgs) \<Rightarrow> Ok (setFeatures_apply (enable, cost) cfgs)
      | (Err e, cfgs) \<Rightarrow> Err e
      | (Panic m, cfgs) \<Rightarrow> Panic m)"

definition WithCost :: "int \<Rightarrow> call_option" where
  "WithCost cost cfgs =
     (case loadOrInitSetFeatures cfgs of
        (Ok (flush, c), cfgs) \<Rightarrow> Ok (setFeatures_apply (flush, cost) cfgs)
      | (Err e, cfgs) \<Rightarrow> Err e
      | (Panic m, cfgs) \<Rightarrow> Panic m)"

record 'x ristretto_client =
  ri_Get :: "key \<Rightarrow> 'x world \<Rightarrow> gval option \<times> 'x world"
  ri_GetTTL :: "key \<Rightarrow> 'x world \<Rightarrow> (duration \<times> bool) \<times> 'x world"
  ri_SetWithTTL :: "key \<Rightarrow> gval \<Rightarrow> int \<Rightarrow> duration \<Rightarrow> 'x world \<Rightarrow> bool \<times> 'x world"
  ri_Del :: "key \<Rightarrow> 'x world \<Rightarrow> 'x world"
  ri_Wait :: "'x world \<Rightarrow> 'x world"
  ri_Clear :: "'x world \<Rightarrow> 'x world"

record 'x ristretto_store =
  ts_client :: "'x ristretto_client"
  ts_name :: string

type_synonym 'x ristretto_option = "'x ristretto_store \<Rightarrow> 'x ristretto_store"

definition ristretto_WithStoreName :: "string \<Rightarrow> 'x ristretto_option" where
  "ristretto_WithStoreName name s = s\<lparr>ts_name := name\<rparr>"

definition ristretto_New :: "'x ristretto_client \<Rightarrow> 'x ristretto_option list \<Rightarrow> 'x ristretto_store" where
  "ristretto_New client opts = fold (\<lambda>opt s. opt s) opts \<lparr>ts_client = client, ts_name = ''ristretto''\<rparr>"

definition RistrettoStore_Get ::
    "'x ristretto_store \<Rightarrow> ctx \<Rightarrow> key \<Rightarrow> call_option list \<Rightarrow> 'x world \<Rightarrow> gval result \<times> 'x world" where
  "RistrettoStore_Get s ctx k opts w = unless_done ctx w (\<lambda>w.
     case ri_Get (ts_client s) k w of
       (None, w) \<Rightarrow> (Err (store_not_found k (ts_name s)), w)
     | (Some val, w) \<Rightarrow> (Ok val, w))"

definition RistrettoStore_GetWithTTL ::
    "'x ristretto_store \<Rightarrow> ctx \<Rightarrow> key \<Rightarrow> call_option list \<Rightarrow> 'x world \<Rightarrow> (gval \<times> duration) result \<times> 'x world" where
  "RistrettoStore_GetWithTTL s ctx k opts w =
     on_ok (RistrettoStore_Get s ctx k opts w)
       (\<lambda>val w. case ri_GetTTL (ts_client s) k w of ((ttl, ok), w) \<Rightarrow> (Ok (val, ttl), w))"

definition RistrettoStore_Set ::
    "'x ristretto_store \<Rightarrow> ctx \<Rightarrow> key \<Rightarrow> gval \<Rightarrow> duration \<Rightarrow> call_option list \<Rightarrow> 'x world \<Rightarrow> unit result \<times> 'x world" where
  "RistrettoStore_Set s ctx k val ttl opts w = unless_done ctx w (\<lambda>w.
     if ttl < 0 then (Err ErrInvalidTTL, w)
     else case bind_ok (ApplyOptions opts) (\<lambda>setOpt. fst (loadOrInitSetFeatures setOpt)) of
         Err e \<Rightarrow> (Err e, w)
       | Panic m \<Rightarrow> (Panic m, w)
       | Ok (flush, fcost) \<Rightarrow>
           let cost = (if 1 < fcost then fcost else 1);
               w = snd (ri_SetWithTTL (ts_client s) k val cost ttl w)
           in (Ok (), if flush then ri_Wait (ts_client s) w else w))"

definition RistrettoStore_Delete ::
    "'x ristretto_store \<Rightarrow> ctx \<Rightarrow> key \<Rightarrow> call_option list \<Rightarrow> 'x world \<Rightarrow> unit result \<times> 'x world" where
  "RistrettoStore_Delete s ctx k opts w = unless_done ctx w (\<lambda>w. (Ok (), ri_Del (ts_client s) k w))"

definition RistrettoStore_Clear :: "'x ristretto_store \<Rightarrow> ctx \<Rightarrow> 'x world \<Rightarrow> unit result \<times> 'x world" where
  "RistrettoStore_Clear s ctx w = unless_done ctx w (\<lambda>w. (Ok (), ri_Clear (ts_client s) w))"

definition RistrettoStore :: "'x ristretto_store \<Rightarrow> 'x store" where
  "RistrettoStore s =
     \<lparr>c_Get = RistrettoStore_Get s, c_Set = RistrettoStore_Set s, c_GetWithTTL = RistrettoStore_GetWithTTL s,
      c_Delete = RistrettoStore_Delete s, c_Clear = RistrettoStore_Clear s, StoreName = ts_name s\<rparr>"

lemma RistrettoStore_ops [simp, cache_ops]:
  "c_Get (RistrettoStore s) = RistrettoStore_Get s" "c_Set (RistrettoStore s) = RistrettoStore_Set s"
  "c_GetWithTTL (RistrettoStore s) = RistrettoStore_GetWithTTL s"
  "c_Delete (RistrettoStore s) = RistrettoStore_Delete s" "c_Clear (RistrettoStore s) = RistrettoStore_Clear s"
  "StoreName (RistrettoStore s) = ts_name s"
  by (simp_all add: RistrettoStore_def)

section \<open>What a list of options asks for\<close>

text \<open>
  The options a caller may pass, and the reference semantics: the last option of each kind wins,
  whatever stands between them.
\<close>

datatype set_option = Synchronous bool | Cost int | Custom string gval

fun denote :: "set_option \<Rightarrow> call_option" where
  "denote (Synchronous b) = WithSynchronousSet b"
| "denote (Cost c) = WithCost c"
| "denote (Custom k v) = WithOptionCustomField k v"

definition last_flush :: "set_option list \<Rightarrow> bool" where
  "last_flush os = (case [b. Synchronous b \<leftarrow> rev os] of [] \<Rightarrow> False | b # bs \<Rightarrow> b)"

definition last_cost :: "set_option list \<Rightarrow> int" where
  "last_cost os = (case [c. Cost c \<leftarrow> rev os] of [] \<Rightarrow> 0 | c # cs \<Rightarrow> c)"

text \<open>No custom field takes the adapter's own name.\<close>

definition no_conflict :: "set_option list \<Rightarrow> bool" where
  "no_conflict os = list_all (\<lambda>opt. case opt of Custom k v \<Rightarrow> k \<noteq> featureNameSet | _ \<Rightarrow> True) os"

definition features_of :: "gval option \<Rightarrow> (bool \<times> int) result" where
  "features_of f =
     (case f of None \<Rightarrow> Ok (False, 0)
      | Some v \<Rightarrow> if v = VNil then Ok (False, 0)
                  else case v of VSetFeatures flush cost \<Rightarrow> Ok (flush, cost) | _ \<Rightarrow> Panic features_conflict)"

abbreviation field :: "call_opt_config \<Rightarrow> gval option" where
  "field cfg \<equiv> fst (GetCustomField cfg featureNameSet)"

lemma custom_field_simps [simp]:
  "fst (GetCustomField (SetCustomField c k v) k') = (if k' = k then Some v else fst (GetCustomField c k'))"
  "fst (GetCustomField (snd (GetCustomField c k)) k') = fst (GetCustomField c k')"
  "SetCustomField (snd (GetCustomField c k)) = SetCustomField c"
  by (auto simp: GetCustomField_def SetCustomField_def Let_def fun_eq_iff split: option.splits)

lemma loadOrInitSetFeatures_field:
  "loadOrInitSetFeatures cfg = (features_of (field cfg), snd (GetCustomField cfg featureNameSet))"
  by (simp add: loadOrInitSetFeatures_def features_of_def split: prod.split option.split gval.split)

lemma features_of_VSetFeatures [simp]: "features_of (Some (VSetFeatures b c)) = Ok (b, c)" "features_of None = Ok (False, 0)"
  by (simp_all add: features_of_def)

lemma field_apply [simp]: "field (setFeatures_apply f cfg) = Some (VSetFeatures (fst f) (snd f))"
  by (simp add: setFeatures_apply_def)

lemma option_steps:
  assumes "features_of (field cfg) = Ok (b0, c0)"
  shows "\<exists>cfg'. WithSynchronousSet b cfg = Ok cfg' \<and> features_of (field cfg') = Ok (b, c0)"
    and "\<exists>cfg'. WithCost c cfg = Ok cfg' \<and> features_of (field cfg') = Ok (b0, c)"
  using assms by (simp_all add: WithSynchronousSet_def WithCost_def loadOrInitSetFeatures_field)

lemma last_simps:
  "last_flush (os @ [Synchronous b]) = b" "last_flush (os @ [Cost c]) = last_flush os"
  "last_flush (os @ [Custom k v]) = last_flush os" "last_flush [] = False"
  "last_cost (os @ [Synchronous b]) = last_cost os" "last_cost (os @ [Cost c]) = c"
  "last_cost (os @ [Custom k v]) = last_cost os" "last_cost [] = 0"
  by (simp_all add: last_flush_def last_cost_def)

lemma apply_each_append: "apply_each (xs @ ys) c = bind_ok (apply_each xs c) (apply_each ys)"
  by (induction xs arbitrary: c) (auto simp: bind_ok_def split: outcome.splits)

lemma apply_denoted:
  "no_conflict os \<Longrightarrow>
   \<exists>cfg. ApplyOptions (map denote os) = Ok cfg \<and> features_of (field cfg) = Ok (last_flush os, last_cost os)"
proof (induction os rule: rev_induct)
  case Nil
  then show ?case by (simp add: ApplyOptions_def last_simps GetCustomField_def)
next
  case (snoc opt os)
  then obtain cfg where a: "apply_each (map denote os) \<lparr>CustomField = None\<rparr> = Ok cfg"
    and f: "features_of (field cfg) = Ok (last_flush os, last_cost os)"
    by (auto simp: no_conflict_def ApplyOptions_def)
  show ?case
  proof (cases opt)
    case (Synchronous b)
    then show ?thesis using a option_steps(1) [OF f, of b]
      by (auto simp: ApplyOptions_def apply_each_append last_simps)
  next
    case (Cost c)
    then show ?thesis using a option_steps(2) [OF f, of c]
      by (auto simp: ApplyOptions_def apply_each_append last_simps)
  next
    case (Custom k v)
    with snoc.prems have "k \<noteq> featureNameSet" by (simp add: no_conflict_def)
    with Custom a f show ?thesis
      by (auto simp: ApplyOptions_def apply_each_append last_simps WithOptionCustomField_def)
  qed
qed

section \<open>Properties\<close>

text \<open>C40: the effect of a ristretto Set: whatever options precede or follow them, the last
  WithCost and the last WithSynchronousSet win; the item is handed to ristretto with that cost, at
  least 1, and the time to live unchanged, the write is waited for only if asked for synchronously,
  and the call reports success whether or not ristretto took the item.\<close>

theorem RistrettoStore_Set_effect:
  assumes "ctx_Err ctx w = None" and "0 \<le> ttl" and "no_conflict os"
  shows "RistrettoStore_Set s ctx k v ttl (map denote os) w =
     (Ok (), let w' = snd (ri_SetWithTTL (ts_client s) k v (max 1 (last_cost os)) ttl w)
             in if last_flush os then ri_Wait (ts_client s) w' else w')"
proof -
  obtain cfg where "ApplyOptions (map denote os) = Ok cfg"
    "features_of (field cfg) = Ok (last_flush os, last_cost os)"
    using apply_denoted [OF assms(3)] by blast
  moreover have "(if 1 < last_cost os then last_cost os else 1) = max 1 (last_cost os)" by simp
  ultimately show ?thesis using assms(1,2)
    by (simp add: RistrettoStore_Set_def unless_done_def loadOrInitSetFeatures_field Let_def)
qed

text \<open>A client that records the cost and drops every item, for concrete runs.\<close>

definition dropping_client :: "(int \<times> bool) ristretto_client" where
  "dropping_client =
     \<lparr>ri_Get = (\<lambda>k w. (None, w)), ri_GetTTL = (\<lambda>k w. ((0, False), w)),
      ri_SetWithTTL = (\<lambda>k v c ttl w. (False, w\<lparr>w_ext := (c, False)\<rparr>)), ri_Del = (\<lambda>k w. w),
      ri_Wait = (\<lambda>w. w\<lparr>w_ext := (fst (w_ext w), True)\<rparr>), ri_Clear = (\<lambda>w. w)\<rparr>"

definition dropping_world :: "(int \<times> bool) world" where
  "dropping_world = \<lparr>w_now = 0, w_events = [], w_groups = 0, w_ext = (0, False)\<rparr>"

theorem RistrettoStore_Set_effect_witness:
  "RistrettoStore_Set (ristretto_New dropping_client []) Background ''k'' (VInt 1) 0
     [WithSynchronousSet False, WithCost 9, WithSynchronousSet True, WithCost (- 3)] dropping_world
   = (Ok (), dropping_world\<lparr>w_ext := (1, True)\<rparr>)"
proof -
  let ?os = "[Synchronous False, Cost 9, Synchronous True, Cost (- 3)]"
  have "last_cost ?os = - 3" "last_flush ?os" by (simp_all add: last_cost_def last_flush_def)
  then show ?thesis
    using RistrettoStore_Set_effect [of Background dropping_world 0 ?os "ristretto_New dropping_client []" "''k''" "VInt 1"]
    by (simp add: no_conflict_def ristretto_New_def dropping_client_def)
qed

text \<open>A custom field that takes the adapter's name for another kind of value makes Set panic,
  and the adapter's own options too; a nil field is taken for an absent one.\<close>

theorem ristretto_features_conflict:
  assumes "v \<noteq> VNil" and "type_of v \<noteq> Some TSetFeatures" and "ctx_Err ctx w = None" and "0 \<le> ttl"
  shows "RistrettoStore_Set s ctx k u ttl [WithOptionCustomField featureNameSet v] w = (Panic features_conflict, w) \<and>
     ApplyOptions [WithOptionCustomField featureNameSet v, WithCost c] = Panic features_conflict \<and>
     ApplyOptions [WithOptionCustomField featureNameSet v, WithSynchronousSet b] = Panic features_conflict \<and>
     RistrettoStore_Set s ctx k u ttl [WithOptionCustomField featureNameSet VNil] w = RistrettoStore_Set s ctx k u ttl [] w"
proof -
  have f: "features_of (Some v) = Panic features_conflict" "features_of (Some VNil) = Ok (False, 0)"
    using assms(1,2) by (cases v; simp add: features_of_def)+
  have "field \<lparr>CustomField = None\<rparr> = None" by (simp add: GetCustomField_def)
  with f assms(3,4) show ?thesis
    by (simp add: RistrettoStore_Set_def unless_done_def ApplyOptions_def WithOptionCustomField_def
        loadOrInitSetFeatures_field WithCost_def WithSynchronousSet_def)
qed

theorem ristretto_features_conflict_witness:
  "ApplyOptions [WithOptionCustomField ''ristretto_set'' (VInt 3), WithCost 5] = Panic features_conflict"
  using ristretto_features_conflict [of "VInt 3" Background dropping_world 0] by (simp add: featureNameSet_def)

text \<open>The two in-process stores check the context before anything else: once it is done every
  operation returns its error and nothing is read, stored or removed.\<close>

theorem local_stores_done:
  assumes "ctx_Err ctx w = Some e"
  shows "FreecacheStore_Get f ctx k opts w = (Err e, w) \<and> FreecacheStore_GetWithTTL f ctx k opts w = (Err e, w) \<and>
     FreecacheStore_Set f ctx k v ttl opts w = (Err e, w) \<and> FreecacheStore_Delete f ctx k opts w = (Err e, w) \<and>
     FreecacheStore_Clear f ctx w = (Err e, w) \<and>
     RistrettoStore_Get s ctx k opts w = (Err e, w) \<and> RistrettoStore_GetWithTTL s ctx k opts w = (Err e, w) \<and>
     RistrettoStore_Set s ctx k v ttl opts w = (Err e, w) \<and> RistrettoStore_Delete s ctx k opts w = (Err e, w) \<and>
     RistrettoStore_Clear s ctx w = (Err e, w)"
  by (simp add: unless_done_Err [OF assms] FreecacheStore_Get_def FreecacheStore_GetWithTTL_def FreecacheStore_Set_def FreecacheStore_Delete_def
      FreecacheStore_Clear_def RistrettoStore_Get_def RistrettoStore_GetWithTTL_def RistrettoStore_Set_def
      RistrettoStore_Delete_def RistrettoStore_Clear_def)

theorem local_stores_done_witness:
  "RistrettoStore_Set (ristretto_New dropping_client []) \<lparr>ctx_deadline = Some (0, Canceled), ctx_event = None\<rparr> ''k''
     (VInt 1) 0 [] dropping_world = (Err Canceled, dropping_world)"
  using local_stores_done [of "\<lparr>ctx_deadline = Some (0, Canceled), ctx_event = None\<rparr>" dropping_world Canceled]
  by (simp add: ctx_Err_def dropping_world_def)

end
