(* ===== verification/Ristretto_Contract.thy ===== *)
theory Ristretto_Contract
  imports Ristretto_Store Store_Contract
begin

text \<open>
  What the ristretto adapter promises of a client that behaves as ristretto documents: lookups
  never show a value after its time, a write is applied behind a buffer and is certain to be seen
  once \<open>Wait\<close> has returned (the client is large enough that it refuses nothing), and waiting again
  changes nothing. Two locales: in \<open>ristretto_cache\<close> only a write that is waited for is seen, in
  \<open>ristretto_immediate\<close> every write is. The adapter keeps the Store contract over the second; over
  the first it does when every \<open>Set\<close> is synchronous.
\<close>

text \<open>An item has one value and one deadline.\<close>

definition expiring :: "'x view \<Rightarrow> bool" where
  "expiring view \<longleftrightarrow> (\<forall>w k. (\<forall>t. view w k t = Absent) \<or>
     (\<exists>v ttl t0. 0 \<le> ttl \<and> (\<forall>t. view w k t = stored v ttl t0 t)))"

definition looked_up :: "gval option \<Rightarrow> gval result" where
  "looked_up r = (case r of None \<Rightarrow> Err ErrNotFound | Some v \<Rightarrow> Ok v)"

definition ttl_reported :: "entry \<Rightarrow> int \<Rightarrow> duration \<Rightarrow> bool" where
  "ttl_reported e t d = (case e of Present v (Some x) \<Rightarrow> 0 \<le> d \<and> d \<le> x - t | _ \<Rightarrow> d = 0)"

locale ristretto_cache =
  fixes cl :: "'x ristretto_client" and view :: "'x view" and clock :: "int \<Rightarrow> bool"
  assumes view_blind: "blind view" and view_expiring: "expiring view"
    and Get_law: "ri_Get cl k w = (r, w') \<Longrightarrow>
          reads view w w' \<and> (\<exists>t. w_now w \<le> t \<and> t \<le> w_now w' \<and> reports (view w k t) (looked_up r))"
    and GetTTL_law: "ri_GetTTL cl k w = ((d, ok), w') \<Longrightarrow>
          reads view w w' \<and> (\<exists>t. w_now w \<le> t \<and> t \<le> w_now w' \<and> ttl_reported (view w k t) t d)"
    and Set_law: "0 \<le> ttl \<Longrightarrow> clock (w_now w) \<Longrightarrow> 1 \<le> cost \<Longrightarrow> ri_SetWithTTL cl k v cost ttl w = (ok, w') \<Longrightarrow>
          writes view w (ri_Wait cl w') k (stored v ttl)"
    and Del_law: "writes view w (ri_Del cl k w) k (\<lambda>t0 t. Absent)"
    and Clear_law: "wipes view w (ri_Clear cl w)"
    and Wait_law: "w_ext w' = w_ext (ri_Wait cl w) \<Longrightarrow> reads view w' (ri_Wait cl w')"

locale ristretto_immediate = ristretto_cache +
  assumes Set_now: "0 \<le> ttl \<Longrightarrow> clock (w_now w) \<Longrightarrow> 1 \<le> cost \<Longrightarrow> ri_SetWithTTL cl k v cost ttl w = (ok, w') \<Longrightarrow>
          writes view w w' k (stored v ttl)"

section \<open>The adapter\<close>

text \<open>The features a list of well-behaved options ends up with.\<close>

lemma fields_ok_features: "fields_ok c \<Longrightarrow> \<exists>flush cost. features_of (field c) = Ok (flush, cost)"
  by (auto simp: fields_ok_def GetCustomField_def features_of_def featureNameSet_def split: option.splits)

lemma setFeatures_fields_ok:
  assumes "fields_ok c"
  shows "\<exists>c'. WithSynchronousSet b c = Ok c' \<and> fields_ok c'" and "\<exists>c'. WithCost n c = Ok c' \<and> fields_ok c'"
proof -
  obtain flush cost where f: "features_of (field c) = Ok (flush, cost)" using fields_ok_features [OF assms] by blast
  have "fields_ok (snd (GetCustomField c k))" for k
    using assms by (auto simp: fields_ok_def GetCustomField_def split: option.splits)
  then have "fields_ok (setFeatures_apply g (snd (GetCustomField c featureNameSet)))" for g
    unfolding setFeatures_apply_def by (intro fields_ok_Set) auto
  with f show "\<exists>c'. WithSynchronousSet b c = Ok c' \<and> fields_ok c'" "\<exists>c'. WithCost n c = Ok c' \<and> fields_ok c'"
    by (simp_all add: WithSynchronousSet_def WithCost_def loadOrInitSetFeatures_field)
qed

lemma ristretto_options_total [simp]: "opts_total [WithSynchronousSet b]" "opts_total [WithCost n]"
  using setFeatures_fields_ok by (auto simp: opts_total_def)

text \<open>The store whose every \<open>Set\<close> is synchronous, whatever else the caller asks for.\<close>

definition synchronous :: "'x store \<Rightarrow> 'x store" where
  "synchronous st = st\<lparr>c_Set := \<lambda>ctx k v ttl opts. c_Set st ctx k v ttl (opts @ [WithSynchronousSet True])\<rparr>"

lemma synchronous_ops [simp]:
  "c_Get (synchronous st) = c_Get st" "c_GetWithTTL (synchronous st) = c_GetWithTTL st"
  "c_Set (synchronous st) = (\<lambda>ctx k v ttl opts. c_Set st ctx k v ttl (opts @ [WithSynchronousSet True]))"
  "c_Delete (synchronous st) = c_Delete st" "c_Clear (synchronous st) = c_Clear st"
  "StoreName (synchronous st) = StoreName st"
  by (simp_all add: synchronous_def)

text \<open>What \<open>Set\<close> does once the options are applied.\<close>

lemma RistrettoStore_Set_total:
  assumes "ctx_deadline ctx = None" and "opts_total opts"
  shows "\<exists>flush cost. 1 \<le> cost \<and> RistrettoStore_Set s ctx k v ttl opts w =
     (if ttl < 0 then (Err ErrInvalidTTL, w)
      else (Ok (), let w' = snd (ri_SetWithTTL (ts_client s) k v cost ttl w) in if flush then ri_Wait (ts_client s) w' else w'))"
proof -
  obtain c where c: "ApplyOptions opts = Ok c" "fields_ok c" using ApplyOptions_total [OF assms(2)] by blast
  then obtain flush fcost where "features_of (field c) = Ok (flush, fcost)" using fields_ok_features by blast
  with c assms(1) show ?thesis
    by (intro exI [of _ flush] exI [of _ "if 1 < fcost then fcost else 1"])
      (simp add: RistrettoStore_Set_def loadOrInitSetFeatures_field Let_def)
qed

lemma RistrettoStore_Set_sync:
  assumes "ctx_deadline ctx = None" and "opts_total opts"
  shows "\<exists>cost. 1 \<le> cost \<and> RistrettoStore_Set s ctx k v ttl (opts @ [WithSynchronousSet True]) w =
     (if ttl < 0 then (Err ErrInvalidTTL, w)
      else (Ok (), ri_Wait (ts_client s) (snd (ri_SetWithTTL (ts_client s) k v cost ttl w))))"
proof -
  obtain c where c: "ApplyOptions opts = Ok c" "fields_ok c" using ApplyOptions_total [OF assms(2)] by blast
  then obtain flush fcost where f: "features_of (field c) = Ok (flush, fcost)" using fields_ok_features by blast
  obtain c' where "WithSynchronousSet True c = Ok c'" "features_of (field c') = Ok (True, fcost)"
    using option_steps(1) [OF f] by blast
  with c(1) have "ApplyOptions (opts @ [WithSynchronousSet True]) = Ok c'" "features_of (field c') = Ok (True, fcost)"
    by (simp_all add: ApplyOptions_def apply_each_append)
  with assms(1) show ?thesis
    by (intro exI [of _ "if 1 < fcost then fcost else 1"])
      (simp add: RistrettoStore_Set_def loadOrInitSetFeatures_field Let_def)
qed

context ristretto_cache
begin

lemma RistrettoStore_Get_reads:
  assumes "ctx_deadline ctx = None" and "ts_client s = cl" and "RistrettoStore_Get s ctx k opts w = (r, w')"
  shows "reads view w w' \<and> (\<exists>t. w_now w \<le> t \<and> t \<le> w_now w' \<and> reports (view w k t) r)"
proof -
  obtain g where g: "ri_Get cl k w = (g, w')" and r: "r = (case g of None \<Rightarrow> Err (store_not_found k (ts_name s)) | Some v \<Rightarrow> Ok v)"
    using assms by (auto simp: RistrettoStore_Get_def split: prod.splits option.splits)
  have "reports e r" if "reports e (looked_up g)" for e
    using that by (cases e) (auto simp: r looked_up_def store_not_found_def errors_is_simps split: option.splits)
  with Get_law [OF g] show ?thesis by blast
qed

text \<open>The second lookup of \<open>GetWithTTL\<close> may come after the deadline: it then reports 0.\<close>

lemma ttl_reports:
  assumes "view w k t = Present v x" and "view w1 k t' = view w k t'" and "t \<le> t'" and "ttl_reported (view w1 k t') t' d"
  shows "reports_ttl (view w k t) t (Ok (v, d))"
proof -
  from view_expiring have "(\<forall>t. view w k t = Absent) \<or> (\<exists>v ttl t0. 0 \<le> ttl \<and> (\<forall>t. view w k t = stored v ttl t0 t))"
    by (simp add: expiring_def)
  with assms(1) obtain v' ttl t0 where ttl: "0 \<le> ttl" and S: "\<And>t. view w k t = stored v' ttl t0 t"
    by (metis entry.distinct(1))
  show ?thesis
  proof (cases "ttl = 0")
    case True
    with assms(1,2,4) show ?thesis by (auto simp: S stored_def ttl_reported_def)
  next
    case False
    with assms ttl show ?thesis by (cases "t' \<le> t0 + ttl") (auto simp: S stored_def ttl_reported_def split: if_splits)
  qed
qed

lemma RistrettoStore_GetWithTTL_reads:
  assumes ctx: "ctx_deadline ctx = None" and s: "ts_client s = cl" and g: "RistrettoStore_GetWithTTL s ctx k opts w = (rt, w')"
  shows "reads view w w' \<and> (\<exists>t. w_now w \<le> t \<and> t \<le> w_now w' \<and> reports_ttl (view w k t) t rt)"
proof -
  obtain r w1 where r: "RistrettoStore_Get s ctx k opts w = (r, w1)" by fastforce
  from RistrettoStore_Get_reads [OF ctx s r] obtain t where R: "reads view w w1" and
    t: "w_now w \<le> t" "t \<le> w_now w1" "reports (view w k t) r" by blast
  show ?thesis
  proof (cases r)
    case (Ok v)
    with t obtain x where x: "view w k t = Present v x" using reports_Ok by blast
    obtain d ok where d: "ri_GetTTL cl k w1 = ((d, ok), w')" "rt = Ok (v, d)"
      using g r Ok s by (auto simp: RistrettoStore_GetWithTTL_def split: prod.splits)
    from GetTTL_law [OF d(1)] obtain t' where R': "reads view w1 w'" and
      t': "w_now w1 \<le> t'" "ttl_reported (view w1 k t') t' d" by blast
    with R have "view w1 k t' = view w k t'" by (auto simp: reads_def)
    from ttl_reports [OF x this _ t'(2)] t t'(1) d(2) reads_trans [OF R R'] reads_now [OF R'] show ?thesis
      by (intro conjI exI [of _ t]) auto
  next
    case (Err e)
    with g r t R show ?thesis
      by (cases "view w k t") (auto simp: RistrettoStore_GetWithTTL_def intro!: exI [of _ t])
  next
    case (Panic m)
    with t reports_not_panic show ?thesis by fastforce
  qed
qed

lemma RistrettoStore_synchronous:
  assumes s: "ts_client s = cl"
  shows "cache_contract (synchronous (RistrettoStore s)) view (\<lambda>v. True) clock"
proof (unfold_locales, goal_cases)
  case 1 show ?case by (rule view_blind)
next
  case (2 ctx k opts w r w')
  then show ?case using RistrettoStore_Get_reads [OF 2(1) s] by simp
next
  case (3 ctx k opts w rt w')
  then show ?case using RistrettoStore_GetWithTTL_reads [OF 3(1) s] by simp
next
  case (4 ctx opts v ttl w k u w')
  then show ?case
    using RistrettoStore_Set_sync [OF 4(1,2), of s k v ttl w] Set_law [OF 4(4,5)] s
    by (auto simp: prod_eq_iff)
next
  case (5 ctx opts v ttl w k u w')
  then show ?case using RistrettoStore_Set_sync [OF 5(1,2), of s k v ttl w] by auto
next
  case (6 ctx k opts w u w')
  then show ?case using Del_law s by (auto simp: RistrettoStore_Delete_def)
next
  case (7 ctx w u w')
  then show ?case using Clear_law s by (auto simp: RistrettoStore_Clear_def)
qed

end

context ristretto_immediate
begin

lemma Set_any:
  assumes "0 \<le> ttl" and "clock (w_now w)" and "1 \<le> cost" and "ri_SetWithTTL cl k v cost ttl w = (ok, w')"
  shows "writes view w (if flush then ri_Wait cl w' else w') k (stored v ttl)"
  using Set_now [OF assms] Set_law [OF assms] by simp

lemma RistrettoStore_contract:
  assumes s: "ts_client s = cl"
  shows "cache_contract (RistrettoStore s) view (\<lambda>v. True) clock"
proof (unfold_locales, goal_cases)
  case 1 show ?case by (rule view_blind)
next
  case (2 ctx k opts w r w')
  then show ?case using RistrettoStore_Get_reads [OF 2(1) s] by simp
next
  case (3 ctx k opts w rt w')
  then show ?case using RistrettoStore_GetWithTTL_reads [OF 3(1) s] by simp
next
  case (4 ctx opts v ttl w k u w')
  obtain flush cost where c: "1 \<le> cost" "RistrettoStore_Set s ctx k v ttl opts w =
      (Ok (), if flush then ri_Wait cl (snd (ri_SetWithTTL cl k v cost ttl w)) else snd (ri_SetWithTTL cl k v cost ttl w))"
    using RistrettoStore_Set_total [OF 4(1,2), of s k v ttl w] 4(4) s by (auto simp: Let_def)
  with 4(6) Set_any [OF 4(4,5) c(1), of k v "fst (ri_SetWithTTL cl k v cost ttl w)" _ flush] show ?case
    by (auto simp: prod_eq_iff)
next
  case (5 ctx opts v ttl w k u w')
  then show ?case using RistrettoStore_Set_total [OF 5(1,2), of s k v ttl w] by auto
next
  case (6 ctx k opts w u w')
  then show ?case using Del_law s by (auto simp: RistrettoStore_Delete_def)
next
  case (7 ctx w u w')
  then show ?case using Clear_law s by (auto simp: RistrettoStore_Clear_def)
qed

end

section \<open>A client served by a store of the repository\<close>

text \<open>Any store can play the part of a ristretto client that applies its writes at once.\<close>

definition store_client :: "'x store \<Rightarrow> 'x ristretto_client" where
  "store_client st =
     \<lparr>ri_Get = (\<lambda>k w. case c_Get st Background k [] w of (Ok v, w) \<Rightarrow> (Some v, w) | (r, w) \<Rightarrow> (None, w)),
      ri_GetTTL = (\<lambda>k w. case c_GetWithTTL st Background k [] w of (Ok (v, d), w) \<Rightarrow> ((d, True), w) | (r, w) \<Rightarrow> ((0, False), w)),
      ri_SetWithTTL = (\<lambda>k v cost ttl w. (True, snd (c_Set st Background k v ttl [] w))),
      ri_Del = (\<lambda>k w. snd (c_Delete st Background k [] w)), ri_Wait = (\<lambda>w. w),
      ri_Clear = (\<lambda>w. snd (c_Clear st Background w))\<rparr>"

lemma reports_looked_up: "reports e r \<Longrightarrow> reports e (looked_up (case r of Ok v \<Rightarrow> Some v | _ \<Rightarrow> None))"
  by (cases e) (auto simp: looked_up_def not_found_def split: outcome.splits)

lemma reports_ttl_reported: "reports_ttl e t r \<Longrightarrow> ttl_reported e t (case r of Ok (v, d) \<Rightarrow> d | _ \<Rightarrow> 0)"
  by (cases "(e, t, r)" rule: reports_ttl.cases) (auto simp: ttl_reported_def not_found_def split: outcome.splits)

lemma store_client_immediate:
  assumes C: "cache_contract st view (\<lambda>v. True) clock" and e: "expiring view"
  shows "ristretto_immediate (store_client st) view clock"
proof (unfold_locales, goal_cases)
  case 1 show ?case by (rule cache_contract.view_blind [OF C])
next
  case 2 show ?case by (rule e)
next
  case (3 k w r w')
  obtain g where g: "c_Get st Background k [] w = (g, w')" "r = (case g of Ok v \<Rightarrow> Some v | _ \<Rightarrow> None)"
    using 3 by (auto simp: store_client_def split: prod.splits outcome.splits)
  then show ?case using cache_contract.Get_law [OF C _ g(1)] reports_looked_up [of _ g]
    by (auto simp: Background_def)
next
  case (4 k w d ok w')
  obtain g where g: "c_GetWithTTL st Background k [] w = (g, w')" "d = (case g of Ok (v, d) \<Rightarrow> d | _ \<Rightarrow> 0)"
    using 4 by (auto simp: store_client_def split: prod.splits outcome.splits)
  then show ?case using cache_contract.GetWithTTL_law [OF C _ g(1)] reports_ttl_reported [of _ _ g]
    by (auto simp: Background_def)
next
  case (5 ttl w cost k v ok w')
  obtain u w1 where "c_Set st Background k v ttl [] w = (u, w1)" by fastforce
  with cache_contract.Set_law [OF C demo_simps(6) opts_total_Nil TrueI 5(1,2) this] 5(4) show ?case
    by (simp add: store_client_def)
next
  case (6 w k)
  obtain u w1 where "c_Delete st Background k [] w = (u, w1)" by fastforce
  with cache_contract.Delete_law [OF C demo_simps(6) this] show ?case by (simp add: store_client_def)
next
  case (7 w)
  obtain u w1 where "c_Clear st Background w = (u, w1)" by fastforce
  with cache_contract.Clear_law [OF C demo_simps(6) this] show ?case by (simp add: store_client_def)
next
  case (8 w' w)
  show ?case by (simp add: store_client_def)
next
  case (9 ttl w cost k v ok w')
  obtain u w1 where "c_Set st Background k v ttl [] w = (u, w1)" by fastforce
  with cache_contract.Set_law [OF C demo_simps(6) opts_total_Nil TrueI 9(1,2) this] 9(4) show ?case
    by (simp add: store_client_def)
qed

lemma map_view_expiring: "expiring (map_view s)"
  unfolding expiring_def
proof (intro allI)
  fix w k
  show "(\<forall>t. map_view s w k t = Absent) \<or> (\<exists>v ttl t0. 0 \<le> ttl \<and> (\<forall>t. map_view s w k t = stored v ttl t0 t))"
  proof (cases "map_data s w k")
    case (Some it)
    show ?thesis
    proof (cases "IsZero (it_expireAt it)")
      case True
      with Some show ?thesis
        by (intro disjI2 exI [of _ "it_value it"] exI [of _ 0] exI [of _ 0])
          (simp add: map_view_def item_entry_def stored_def past_def)
    next
      case False
      with Some show ?thesis
        by (intro disjI2 exI [of _ "it_value it"] exI [of _ 1] exI [of _ "it_expireAt it - 1"])
          (simp add: map_view_def item_entry_def stored_def past_def After_def)
    qed
  qed (simp add: map_view_def)
qed

interpretation map_ristretto: ristretto_immediate "store_client (SlowMapStore s)" "map_view s" "\<lambda>t. zero_time < t" for s
  by (rule store_client_immediate [OF map_store.cache_contract_axioms map_view_expiring])

section \<open>Property\<close>



end
