(* ===== verification/Go_Program.thy ===== *)
theory Go_Program
  imports Build_Contracts Ristretto_Contract
begin

text \<open>
  Programs that use the library, as the mains of examples/ do. A program owns a part of the memory,
  its variables and what it has printed; each storage client owns another. \<open>hosted\<close> runs code that
  was written for its own memory inside a program, so that nothing else is touched. The rest of the
  theory says what a program may rely on: how \<open>panic(err)\<close> and printing behave, what the built
  stack adds around the cache of its factory (nothing but telemetry), and, in the locale
  \<open>program_store\<close>, what the store below it does.
\<close>

section \<open>Parts of the memory\<close>

record ('x, 'y) part =
  pt_get :: "'x \<Rightarrow> 'y"
  pt_put :: "'y \<Rightarrow> 'x \<Rightarrow> 'x"

locale memory_part =
  fixes p :: "('x, 'y) part"
  assumes get_put: "pt_get p (pt_put p y x) = y" and put_put: "pt_put p y (pt_put p y' x) = pt_put p y x"
    and put_get: "pt_put p (pt_get p x) x = x"

definition apart :: "('x, 'y) part \<Rightarrow> ('x, 'z) part \<Rightarrow> bool" where
  "apart p q \<longleftrightarrow> (\<forall>x y. pt_get q (pt_put p y x) = pt_get q x) \<and> (\<forall>x z. pt_get p (pt_put q z x) = pt_get p x)"

definition first_part :: "('a \<times> 'b, 'a) part" where
  "first_part = \<lparr>pt_get = fst, pt_put = (\<lambda>y. apfst (\<lambda>_. y))\<rparr>"

definition second_part :: "('a \<times> 'b, 'b) part" where
  "second_part = \<lparr>pt_get = snd, pt_put = (\<lambda>y. apsnd (\<lambda>_. y))\<rparr>"

definition then_part :: "('x, 'y) part \<Rightarrow> ('y, 'z) part \<Rightarrow> ('x, 'z) part" where
  "then_part p q = \<lparr>pt_get = (\<lambda>x. pt_get q (pt_get p x)), pt_put = (\<lambda>z x. pt_put p (pt_put q z (pt_get p x)) x)\<rparr>"

lemma part_simps [simp]:
  "pt_get first_part = fst" "pt_put first_part y (a, b) = (y, b)"
  "pt_get second_part = snd" "pt_put second_part z (a, b) = (a, z)"
  "pt_get (then_part p q) x = pt_get q (pt_get p x)"
  "pt_put (then_part p q) z x = pt_put p (pt_put q z (pt_get p x)) x"
  by (simp_all add: first_part_def second_part_def then_part_def)

interpretation first: memory_part first_part
  by unfold_locales auto

interpretation second: memory_part second_part
  by unfold_locales auto

lemma then_memory_part: "memory_part p \<Longrightarrow> memory_part q \<Longrightarrow> memory_part (then_part p q)"
  by unfold_locales (simp_all add: memory_part_def)

lemma apart_pair [simp]: "apart first_part second_part" "apart second_part first_part"
  by (simp_all add: apart_def first_part_def second_part_def)

lemma apart_then: "memory_part p \<Longrightarrow> apart p q \<Longrightarrow> apart (then_part p r) q"
  by (simp add: apart_def memory_part_def)

lemma apart_siblings: "memory_part p \<Longrightarrow> apart q r \<Longrightarrow> apart (then_part p q) (then_part p r)"
  by (simp add: apart_def memory_part_def)

lemma apart_sym: "apart p q \<Longrightarrow> apart q p"
  by (simp add: apart_def)

section \<open>Hosted code\<close>

definition inside :: "('x, 'y) part \<Rightarrow> 'x world \<Rightarrow> 'y world" where
  "inside p w = \<lparr>w_now = w_now w, w_events = w_events w, w_groups = w_groups w, w_ext = pt_get p (w_ext w)\<rparr>"

definition outside :: "('x, 'y) part \<Rightarrow> 'x world \<Rightarrow> 'y world \<Rightarrow> 'x world" where
  "outside p w v = \<lparr>w_now = w_now v, w_events = w_events v, w_groups = w_groups v, w_ext = pt_put p (w_ext v) (w_ext w)\<rparr>"

definition hosted :: "('x, 'y) part \<Rightarrow> ('y world \<Rightarrow> 'a \<times> 'y world) \<Rightarrow> 'x world \<Rightarrow> 'a \<times> 'x world" where
  "hosted p f w = (case f (inside p w) of (r, v) \<Rightarrow> (r, outside p w v))"

definition hosted_store :: "('x, 'y) part \<Rightarrow> 'y store \<Rightarrow> 'x store" where
  "hosted_store p st =
     \<lparr>c_Get = (\<lambda>ctx k opts. hosted p (c_Get st ctx k opts)),
      c_Set = (\<lambda>ctx k v ttl opts. hosted p (c_Set st ctx k v ttl opts)),
      c_GetWithTTL = (\<lambda>ctx k opts. hosted p (c_GetWithTTL st ctx k opts)),
      c_Delete = (\<lambda>ctx k opts. hosted p (c_Delete st ctx k opts)),
      c_Clear = (\<lambda>ctx. hosted p (c_Clear st ctx)), StoreName = StoreName st\<rparr>"

definition hosted_client :: "('x, 'y) part \<Rightarrow> 'y ristretto_client \<Rightarrow> 'x ristretto_client" where
  "hosted_client p cl =
     \<lparr>ri_Get = (\<lambda>k. hosted p (ri_Get cl k)), ri_GetTTL = (\<lambda>k. hosted p (ri_GetTTL cl k)),
      ri_SetWithTTL = (\<lambda>k v cost ttl. hosted p (ri_SetWithTTL cl k v cost ttl)),
      ri_Del = (\<lambda>k w. snd (hosted p (\<lambda>w. ((), ri_Del cl k w)) w)),
      ri_Wait = (\<lambda>w. snd (hosted p (\<lambda>w. ((), ri_Wait cl w)) w)),
      ri_Clear = (\<lambda>w. snd (hosted p (\<lambda>w. ((), ri_Clear cl w)) w))\<rparr>"

definition hosted_view :: "('x, 'y) part \<Rightarrow> 'y view \<Rightarrow> 'x view" where
  "hosted_view p view w = view (inside p w)"

lemma inside_simps [simp]:
  "w_now (inside p w) = w_now w" "w_ext (inside p w) = pt_get p (w_ext w)"
  "w_now (outside p w v) = w_now v" "w_ext (outside p w v) = pt_put p (w_ext v) (w_ext w)"
  by (simp_all add: inside_def outside_def)

lemma hosted_store_ops [simp]:
  "c_Get (hosted_store p st) = (\<lambda>ctx k opts. hosted p (c_Get st ctx k opts))"
  "c_Set (hosted_store p st) = (\<lambda>ctx k v ttl opts. hosted p (c_Set st ctx k v ttl opts))"
  "c_GetWithTTL (hosted_store p st) = (\<lambda>ctx k opts. hosted p (c_GetWithTTL st ctx k opts))"
  "c_Delete (hosted_store p st) = (\<lambda>ctx k opts. hosted p (c_Delete st ctx k opts))"
  "c_Clear (hosted_store p st) = (\<lambda>ctx. hosted p (c_Clear st ctx))" "StoreName (hosted_store p st) = StoreName st"
  by (simp_all add: hosted_store_def)

lemma hosted_apart: "apart p q \<Longrightarrow> pt_get q (w_ext (snd (hosted p f w))) = pt_get q (w_ext w)"
  by (simp add: hosted_def apart_def split: prod.split)

context memory_part
begin

lemma inside_outside [simp]: "inside p (outside p w v) = v"
  by (simp add: inside_def outside_def get_put)

lemma outside_inside [simp]: "outside p w (inside p w) = w"
  by (simp add: inside_def outside_def put_get)

lemma outside_outside [simp]: "outside p (outside p w v) v' = outside p w v'"
  by (simp add: outside_def put_put)

lemma hosted_iff: "hosted p f w = (r, w') \<longleftrightarrow> (\<exists>v. f (inside p w) = (r, v) \<and> w' = outside p w v)"
  by (auto simp: hosted_def split: prod.splits)

lemma hosted_blind: "blind view \<Longrightarrow> blind (hosted_view p view)"
  by (simp add: blind_def hosted_view_def)

lemma hosted_reads: "reads view (inside p w) v \<Longrightarrow> reads (hosted_view p view) w (outside p w v)"
  by (simp add: reads_def hosted_view_def)

lemma hosted_writes: "writes view (inside p w) v k new \<Longrightarrow> writes (hosted_view p view) w (outside p w v) k new"
  unfolding writes_def hosted_view_def by (simp only: inside_outside inside_simps)

lemma hosted_wipes: "wipes view (inside p w) v \<Longrightarrow> wipes (hosted_view p view) w (outside p w v)"
  by (simp add: wipes_def hosted_view_def)

lemma hosted_store_contract:
  assumes C: "store_contract st view storable whole clock"
  shows "store_contract (hosted_store p st) (hosted_view p view) storable whole clock"
proof (unfold_locales, goal_cases)
  case 1 show ?case by (rule hosted_blind [OF store_contract.view_blind [OF C]])
next
  case (2 ctx k opts w r w')
  then show ?case
    by (auto simp: hosted_iff hosted_view_def dest!: store_contract.Get_law [OF C 2(1)] intro: hosted_reads)
next
  case (3 ctx k opts w rt w')
  then show ?case
    by (auto simp: hosted_iff hosted_view_def dest!: store_contract.GetWithTTL_law [OF C 3(1)] intro: hosted_reads)
next
  case (4 ctx opts v ttl w k u w')
  then obtain w1 where s: "c_Set st ctx k v ttl opts (inside p w) = (u, w1)" "w' = outside p w w1" by (auto simp: hosted_iff)
  from store_contract.Set_law [OF C 4(1-5) _ s(1)] 4(6) s(2) show ?case by (auto intro: hosted_writes)
next
  case (5 ctx opts v ttl w k u w')
  then obtain w1 where s: "c_Set st ctx k v ttl opts (inside p w) = (u, w1)" "w' = outside p w w1" by (auto simp: hosted_iff)
  from store_contract.Set_negative [OF C 5(1-4) _ s(1)] 5(5) s(2) show ?case by (auto intro: hosted_reads)
next
  case (6 ctx k opts w u w')
  then show ?case by (auto simp: hosted_iff dest!: store_contract.Delete_law [OF C 6(1)] intro: hosted_writes)
next
  case (7 ctx w u w')
  then show ?case by (auto simp: hosted_iff dest!: store_contract.Clear_law [OF C 7(1)] intro: hosted_wipes)
qed

lemma hosted_contract:
  "cache_contract st view storable clock \<Longrightarrow> cache_contract (hosted_store p st) (hosted_view p view) storable clock"
  by (rule store_contract_exact [OF hosted_store_contract [OF cache_contract_store]])

text \<open>The ristretto adapter does not care where its client keeps its data.\<close>

lemma hosted_unless_done: "hosted p (\<lambda>w. unless_done ctx w f) w = unless_done ctx w (hosted p f)"
  by (simp add: hosted_def unless_done_def ctx_Err_def split: option.split)

lemma hosted_RistrettoStore:
  "RistrettoStore \<lparr>ts_client = hosted_client p cl, ts_name = n\<rparr> =
   hosted_store p (RistrettoStore \<lparr>ts_client = cl, ts_name = n\<rparr>)" (is "RistrettoStore ?s = hosted_store p (RistrettoStore ?s')")
proof -
  have g: "RistrettoStore_Get ?s ctx k opts w = hosted p (RistrettoStore_Get ?s' ctx k opts) w" for ctx k opts w
    unfolding RistrettoStore_Get_def hosted_unless_done
    by (rule arg_cong [where f = "unless_done ctx w"])
      (auto simp: fun_eq_iff hosted_client_def hosted_def split: prod.split option.split)
  moreover have "RistrettoStore_GetWithTTL ?s ctx k opts w = hosted p (RistrettoStore_GetWithTTL ?s' ctx k opts) w" for ctx k opts w
    unfolding RistrettoStore_GetWithTTL_def g
    by (auto simp: hosted_client_def hosted_def on_ok_def split: prod.split outcome.split)
  moreover have "RistrettoStore_Set ?s ctx k v ttl opts w = hosted p (RistrettoStore_Set ?s' ctx k v ttl opts) w" for ctx k v ttl opts w
    unfolding RistrettoStore_Set_def hosted_unless_done
    by (rule arg_cong [where f = "unless_done ctx w"])
      (auto simp: fun_eq_iff hosted_client_def hosted_def Let_def split: prod.split outcome.split)
  moreover have "RistrettoStore_Delete ?s ctx k opts w = hosted p (RistrettoStore_Delete ?s' ctx k opts) w" for ctx k opts w
    unfolding RistrettoStore_Delete_def hosted_unless_done
    by (rule arg_cong [where f = "unless_done ctx w"]) (simp add: fun_eq_iff hosted_client_def hosted_def)
  moreover have "RistrettoStore_Clear ?s ctx w = hosted p (RistrettoStore_Clear ?s' ctx) w" for ctx w
    unfolding RistrettoStore_Clear_def hosted_unless_done
    by (rule arg_cong [where f = "unless_done ctx w"]) (simp add: fun_eq_iff hosted_client_def hosted_def)
  ultimately show ?thesis
    by (simp add: RistrettoStore_def hosted_store_def fun_eq_iff)
qed

end

lemma synchronous_hosted [simp]: "synchronous (hosted_store p st) = hosted_store p (synchronous st)"
  by (simp add: synchronous_def hosted_store_def)

text \<open>Waiting for a hosted client once more.\<close>

lemma hosted_Wait:
  assumes C: "ristretto_cache cl view clock" and p: "memory_part p"
    and w: "w_ext w' = w_ext (ri_Wait (hosted_client p cl) w)"
  shows "reads (hosted_view p view) w' (ri_Wait (hosted_client p cl) w')"
    and "apart p own \<Longrightarrow> pt_get own (w_ext (ri_Wait (hosted_client p cl) w')) = pt_get own (w_ext w')"
proof -
  have W: "ri_Wait (hosted_client p cl) u = outside p u (ri_Wait cl (inside p u))" for u
    by (simp add: hosted_client_def hosted_def)
  have "w_ext (inside p w') = w_ext (ri_Wait cl (inside p w))" using w by (simp add: W memory_part.get_put [OF p])
  from ristretto_cache.Wait_law [OF C this] show "reads (hosted_view p view) w' (ri_Wait (hosted_client p cl) w')"
    unfolding W by (rule memory_part.hosted_reads [OF p])
  show "apart p own \<Longrightarrow> pt_get own (w_ext (ri_Wait (hosted_client p cl) w')) = pt_get own (w_ext w')"
    by (simp add: W apart_def)
qed

lemma RistrettoStore_Set_waits:
  assumes "ctx_deadline ctx = None" and "opts_total opts" and "0 \<le> ttl"
    and "c_Set (RistrettoStore s) ctx k v ttl (opts @ [WithSynchronousSet True]) w = (u, w')"
  shows "\<exists>w1. w' = ri_Wait (ts_client s) w1"
  using RistrettoStore_Set_sync [OF assms(1,2), of s k v ttl w] assms(3,4) by auto

section \<open>Printing and panics\<close>

datatype out_arg = OVal gval | OStr string | OInt int | ODur duration | OTime int | OTypeOf gval | ORate "rat option" | OArgs log_args

text \<open>What \<open>fmt\<close> is given, not rendered.\<close>

datatype line = LPrintln string | LPrintf string "out_arg list"

text \<open>A process: what it has printed, and the counter of loader calls that some examples keep.\<close>

record proc =
  pr_out :: "line list"
  pr_calls :: "32 word"

definition print :: "('x, proc) part \<Rightarrow> line \<Rightarrow> 'x world \<Rightarrow> 'x world" where
  "print q l w = w\<lparr>w_ext := pt_put q (pt_get q (w_ext w)\<lparr>pr_out := pr_out (pt_get q (w_ext w)) @ [l]\<rparr>) (w_ext w)\<rparr>"

definition Println :: "('x, proc) part \<Rightarrow> string \<Rightarrow> 'x world \<Rightarrow> 'x world" where
  "Println q s = print q (LPrintln s)"

definition Printf :: "('x, proc) part \<Rightarrow> string \<Rightarrow> out_arg list \<Rightarrow> 'x world \<Rightarrow> 'x world" where
  "Printf q fmt args = print q (LPrintf fmt args)"

lemma print_now [simp]: "w_now (print q l w) = w_now w"
  by (simp add: print_def)

text \<open>A format string that ends the line.\<close>

definition lined :: "string \<Rightarrow> string" where
  "lined s = s @ [CHR 0x0A]"

definition printed :: "('x, proc) part \<Rightarrow> 'x world \<Rightarrow> line list" where
  "printed q w = pr_out (pt_get q (w_ext w))"

lemma print_own: "memory_part q \<Longrightarrow> pt_get q (w_ext (print q l w)) = pt_get q (w_ext w)\<lparr>pr_out := pr_out (pt_get q (w_ext w)) @ [l]\<rparr>"
  by (simp add: print_def memory_part.get_put)

lemma print_first [simp]: "fst (w_ext (print first_part l w)) = fst (w_ext w)\<lparr>pr_out := pr_out (fst (w_ext w)) @ [l]\<rparr>"
  using print_own [OF first.memory_part_axioms, of l w] by simp

lemma printed_print: "memory_part q \<Longrightarrow> printed q (print q l w) = printed q w @ [l]"
  by (simp add: printed_def print_own)

text \<open>\<open>if err != nil { panic(err) }\<close>\<close>

definition must :: "'a result \<times> 'w \<Rightarrow> 'a result \<times> 'w" where
  "must p = (case p of (Err e, w) \<Rightarrow> (Panic ''panic(err)'', w) | _ \<Rightarrow> p)"

text \<open>\<open>until D p Q\<close>: the program ends without a panic and with \<open>Q\<close>, or it panics after the instant \<open>D\<close>.\<close>

definition until :: "int \<Rightarrow> 'a result \<times> 'x world \<Rightarrow> ('a \<Rightarrow> 'x world \<Rightarrow> bool) \<Rightarrow> bool" where
  "until D p Q \<longleftrightarrow> (case p of (Ok v, w) \<Rightarrow> Q v w | (_, w) \<Rightarrow> D < w_now w)"

lemma until_simps [simp]:
  "until D (Ok v, w) Q \<longleftrightarrow> Q v w" "until D (Err e, w) Q \<longleftrightarrow> D < w_now w" "until D (Panic m, w) Q \<longleftrightarrow> D < w_now w"
  by (simp_all add: until_def)

lemma until_on_ok: "until D p P \<Longrightarrow> (\<And>v w. P v w \<Longrightarrow> until D (f v w) Q) \<Longrightarrow> until D (on_ok p f) Q"
  by (cases p; cases "fst p") auto

lemma until_must: "until D p P \<Longrightarrow> until D (must p) P"
  by (auto simp: until_def must_def split: prod.splits outcome.splits)

lemmas until_step = until_on_ok [OF until_must]

lemma until_mono: "until D p P \<Longrightarrow> (\<And>v w. P v w \<Longrightarrow> Q v w) \<Longrightarrow> until D p Q"
  by (auto simp: until_def split: prod.splits outcome.splits)

section \<open>What Build puts in front\<close>

text \<open>Events and singleflight groups come and go; the clock and the memory stay.\<close>

definition telemetry_only :: "'x world \<Rightarrow> 'x world \<Rightarrow> bool" where
  "telemetry_only w w' \<longleftrightarrow> w_now w' = w_now w \<and> w_ext w' = w_ext w"

definition front :: "gotype \<Rightarrow> 'x runtime \<Rightarrow> nat \<Rightarrow> 'x cache \<Rightarrow> string \<Rightarrow> string \<Rightarrow> 'x logger option \<Rightarrow> 'x cache" where
  "front T rt g c storeName cacheName l =
     NewObservableDecorator (SingleflightDecorator T rt g c) storeName cacheName
       (Some \<lparr>ob_Metrics = Some NoopMetrics, ob_Logger = l\<rparr>)"

lemma obs_defer_Noop:
  "obs_defer (Some \<lparr>ob_Metrics = Some NoopMetrics, ob_Logger = l\<rparr>) msg get ctx evt start (r, w) =
   (r, update_event evt (complete_event get (final_err r) (w_now w - start)) w)"
  by (simp add: obs_defer_def record_event_def NoopMetrics_def)

lemma telemetry_only_refl [simp]: "telemetry_only w w"
  by (simp add: telemetry_only_def)

lemma telemetry_only_trans: "telemetry_only w w1 \<Longrightarrow> telemetry_only w1 w2 \<Longrightarrow> telemetry_only w w2"
  by (simp add: telemetry_only_def)

lemma front_call:
  assumes "(let start = w_now w; ((ctx', evt), w1) = obs_initCtx o' ctx op w in
      obs_defer (od_ob o') msg get ctx' evt start (call ctx' w1)) = (r, w')"
    and "od_ob o' = Some \<lparr>ob_Metrics = Some NoopMetrics, ob_Logger = l\<rparr>"
  obtains ctx' w1 w2 where "ctx_deadline ctx' = ctx_deadline ctx" "telemetry_only w w1" "call ctx' w1 = (r, w2)"
    "telemetry_only w2 w'"
proof -
  obtain ctx' evt w1 where i: "obs_initCtx o' ctx op w = ((ctx', evt), w1)" by (metis prod.exhaust)
  obtain r2 w2 where c: "call ctx' w1 = (r2, w2)" by fastforce
  from assms i c have "r2 = r" "w' = update_event evt (complete_event get (final_err r) (w_now w2 - w_now w)) w2"
    by (auto simp: obs_defer_Noop)
  with obs_initCtx_facts [OF i] c that [of ctx' w1 w2] show thesis by (simp add: telemetry_only_def)
qed

lemma front_Get:
  assumes "c_Get (front T rt g c sn cn l) ctx k opts w = (r, w')" and "sequential rt"
  obtains ctx' w1 r0 w2 where "ctx_deadline ctx' = ctx_deadline ctx" "telemetry_only w w1"
    "c_Get c ctx' k opts w1 = (r0, w2)" "r = bind_ok r0 (must_assert T)" "telemetry_only w2 w'"
proof -
  obtain ctx' w1 w2 where c: "ctx_deadline ctx' = ctx_deadline ctx" "telemetry_only w w1"
    "SingleflightDecorator_Get T rt g c ctx' k opts w1 = (r, w2)" "telemetry_only w2 w'"
    using assms(1)
    unfolding front_def NewObservableDecorator_def ObservableDecorator_ops ObservableDecorator_Get_def
    by (rule front_call) auto
  obtain r0 w3 where g: "c_Get c ctx' k opts w1 = (r0, w3)" by fastforce
  from c(3) sequential_Get [OF assms(2) g] have "r = bind_ok r0 (must_assert T)" "telemetry_only w3 w2"
    by (auto simp: telemetry_only_def sf_addTags_def)
  with c g that show thesis by (blast intro: telemetry_only_trans)
qed

lemma front_Set:
  assumes "c_Set (front T rt g c sn cn l) ctx k v ttl opts w = (r, w')"
  obtains ctx' w1 w2 where "ctx_deadline ctx' = ctx_deadline ctx" "telemetry_only w w1"
    "c_Set c ctx' k v ttl opts w1 = (r, w2)" "telemetry_only w2 w'"
  using assms
  unfolding front_def NewObservableDecorator_def ObservableDecorator_ops ObservableDecorator_Set_def
  by (rule front_call) (auto simp: SingleflightDecorator_Set_def)

lemma front_Delete:
  assumes "c_Delete (front T rt g c sn cn l) ctx k opts w = (r, w')"
  obtains ctx' w1 w2 where "ctx_deadline ctx' = ctx_deadline ctx" "telemetry_only w w1"
    "c_Delete c ctx' k opts w1 = (r, w2)" "telemetry_only w2 w'"
  using assms
  unfolding front_def NewObservableDecorator_def ObservableDecorator_ops ObservableDecorator_Delete_def
  by (rule front_call) (auto simp: SingleflightDecorator_Delete_def)

text \<open>The result and the world of \<open>Build\<close>.\<close>

definition built :: "('a \<times> 'b) \<times> 'w \<Rightarrow> 'a \<times> 'w" where
  "built p = (fst (fst p), snd p)"

lemma Build_front:
  assumes b: "plain_builder b" and sf: "ft_singleFlight (b_features b)" and m: "b_metrics b = Some NoopMetrics"
    and f: "compiled_factory T rt (b_features b) (b_store b) (builder_observable b) w = (Ok c0, w0)" "telemetry_only w w0"
  shows "\<exists>g w'. built (Build T rt b w) =
       (Ok (front T rt g c0 (StoreName (b_store b)) (b_cacheName b) (b_logger b)), w') \<and> telemetry_only w w'"
proof -
  let ?od = "\<lambda>c ob w. (Ok (NewObservableDecorator c (StoreName (b_store b)) (b_cacheName b) ob), w)"
  have "fst (fst (Build T rt b w)) = wrap_build_error (b_cacheName b)
        (Ok (front T rt (w_groups w0) c0 (StoreName (b_store b)) (b_cacheName b) (b_logger b))) \<and>
      snd (Build T rt b w) = snd (new_group w0)"
    using b f(1) sf m
    by (intro Build_layers [where ds = "[]" and od = ?od and os = "[]", OF _ _ _ _ _ _ refl])
      (auto simp: plain_builder_def observed_builder_def builder_observable_def miss_layer_def
        nil_layer_def loader_group_def flight_layer_def front_def new_group_def)
  with f(2) show ?thesis by (auto simp: built_def wrap_build_error_def telemetry_only_def new_group_def)
qed

section \<open>What the store holds\<close>

text \<open>
  \<open>holds D view w m\<close>: from now on the store has exactly the entries of \<open>m\<close>, which stay at least
  until \<open>D\<close>. \<open>program_at\<close> adds what the program's own memory is, and that the clock has not gone
  back behind the start of the program.
\<close>

definition shows_entry :: "int \<Rightarrow> gval option \<Rightarrow> int \<Rightarrow> entry \<Rightarrow> bool" where
  "shows_entry D x t e = (case x of None \<Rightarrow> e = Absent | Some v \<Rightarrow> (\<exists>d. e = Present v d) \<or> D < t \<and> e = Absent)"

definition holds :: "int \<Rightarrow> 'x view \<Rightarrow> 'x world \<Rightarrow> (key \<rightharpoonup> gval) \<Rightarrow> bool" where
  "holds D view w m \<longleftrightarrow> (\<forall>k t. w_now w \<le> t \<longrightarrow> shows_entry D (m k) t (view w k t))"

definition program_at ::
    "'x view \<Rightarrow> ('x, 'm) part \<Rightarrow> int \<Rightarrow> int \<Rightarrow> (key \<rightharpoonup> gval) \<Rightarrow> 'm \<Rightarrow> 'x world \<Rightarrow> bool" where
  "program_at view own D t0 m y w \<longleftrightarrow> holds D view w m \<and> pt_get own (w_ext w) = y \<and> t0 \<le> w_now w"

lemma holds_reads: "holds D view w m \<Longrightarrow> reads view w w' \<Longrightarrow> holds D view w' m"
  unfolding holds_def reads_def by auto

lemma at_reads:
  "program_at view own D t0 m y w \<Longrightarrow> reads view w w' \<Longrightarrow> pt_get own (w_ext w') = pt_get own (w_ext w) \<Longrightarrow>
   program_at view own D t0 m y w'"
  by (auto simp: program_at_def intro: holds_reads dest: reads_now)

lemma holds_Set:
  assumes "holds D view w m" and "writes view w w' k (stored v ttl)" and "ttl = 0 \<or> D \<le> w_now w + ttl"
  shows "holds D view w' (m(k \<mapsto> v))"
proof -
  from assms(2) obtain t0 where t0: "w_now w \<le> t0" "t0 \<le> w_now w'"
    and V: "\<And>k' t. w_now w' \<le> t \<Longrightarrow> view w' k' t = (if k' = k then stored v ttl t0 t else view w k' t)"
    by (auto simp: writes_def)
  show ?thesis unfolding holds_def
  proof (intro allI impI)
    fix k' t assume t: "w_now w' \<le> t"
    show "shows_entry D ((m(k \<mapsto> v)) k') t (view w' k' t)"
      using V [OF t, of k'] t t0 assms(1,3) by (auto simp: stored_def holds_def shows_entry_def)
  qed
qed

lemma holds_Delete: "holds D view w m \<Longrightarrow> writes view w w' k (\<lambda>t0 t. Absent) \<Longrightarrow> holds D view w' (m(k := None))"
  unfolding holds_def writes_def by (auto simp: shows_entry_def [of D None])

lemma holds_wiped: "wipes view w w' \<Longrightarrow> holds D view w' Map.empty"
  by (simp add: holds_def wipes_def shows_entry_def)

lemma holds_reports:
  assumes "holds D view w m" and "w_now w \<le> t" and "reports (view w k t) r"
  shows "case m k of None \<Rightarrow> not_found r | Some v \<Rightarrow> r = Ok v \<or> not_found r \<and> D < t"
proof -
  from assms(1,2) have "shows_entry D (m k) t (view w k t)" by (simp add: holds_def)
  with assms(3) show ?thesis by (cases "m k") (auto simp: shows_entry_def)
qed

text \<open>A store every \<open>Set\<close> of which carries the options \<open>os\<close>.\<close>

definition setting :: "call_option list \<Rightarrow> 'x store \<Rightarrow> 'x store" where
  "setting os st = st\<lparr>c_Set := \<lambda>ctx k v ttl opts. c_Set st ctx k v ttl (opts @ os)\<rparr>"

lemma setting_simps [simp]:
  "setting [] st = st" "setting [WithSynchronousSet True] st = synchronous st"
  "c_Get (setting os st) = c_Get st" "c_Delete (setting os st) = c_Delete st"
  "c_Set (setting os st) = (\<lambda>ctx k v ttl opts. c_Set st ctx k v ttl (opts @ os))"
  by (simp_all add: setting_def synchronous_def)

text \<open>
  A store that keeps its contract as long as every \<open>Set\<close> carries \<open>os\<close>, and that has nothing to do
  with the program's own memory.
\<close>

locale program_store =
  fixes st :: "'x store" and view :: "'x view" and storable :: "gval \<Rightarrow> bool" and whole :: "duration \<Rightarrow> bool"
    and clock :: "int \<Rightarrow> bool" and os :: "call_option list" and own :: "('x, 'm) part"
  assumes own_part: "memory_part own"
    and contract: "store_contract (setting os st) view storable whole clock"
    and keeps_own: "pt_get own (w_ext (snd (c_Get st ctx k opts w))) = pt_get own (w_ext w)"
      "pt_get own (w_ext (snd (c_Set st ctx k v ttl opts w))) = pt_get own (w_ext w)"
      "pt_get own (w_ext (snd (c_Delete st ctx k opts w))) = pt_get own (w_ext w)"
    and view_own: "view (w\<lparr>w_ext := pt_put own y (w_ext w)\<rparr>) = view w"
begin

lemma at_telemetry:
  assumes "program_at view own D t0 m y w" and "telemetry_only w w'"
  shows "program_at view own D t0 m y w'"
proof -
  have "reads view w w'"
    using assms(2) by (intro blind_reads [OF store_contract.view_blind [OF contract]]) (simp_all add: telemetry_only_def)
  with assms show ?thesis by (auto simp: program_at_def telemetry_only_def intro: holds_reads)
qed

lemma at_own:
  assumes "program_at view own D t0 m y w"
  shows "program_at view own D t0 m y' (w\<lparr>w_ext := pt_put own y' (w_ext w)\<rparr>)"
  using assms memory_part.get_put [OF own_part] by (simp add: program_at_def holds_def view_own)

lemma store_Get:
  assumes A: "program_at view own D t0 m y w" and ctx: "ctx_deadline ctx = None" and g: "c_Get st ctx k opts w = (r, w')"
  shows "program_at view own D t0 m y w' \<and>
     (case m k of None \<Rightarrow> not_found r | Some v \<Rightarrow> r = Ok v \<or> not_found r \<and> D < w_now w')"
proof -
  from store_contract.Get_law [OF contract ctx, of k opts w r w'] g obtain t where R: "reads view w w'"
    and t: "w_now w \<le> t" "t \<le> w_now w'" "reports (view w k t) r" by auto
  from A have "holds D view w m" by (simp add: program_at_def)
  note H = holds_reports [OF this t(1,3)]
  from A R keeps_own(1) [of ctx k opts w] g have "program_at view own D t0 m y w'"
    by (auto simp: program_at_def intro: holds_reads dest: reads_now)
  with H t(2) show ?thesis by (auto split: option.splits)
qed

lemma store_Set:
  assumes A: "program_at view own D t0 m y w" and ctx: "ctx_deadline ctx = None" and opts: "opts_total opts"
    and clock: "\<And>t. t0 \<le> t \<Longrightarrow> clock t" and v: "storable v"
    and ttl: "0 \<le> ttl" "whole ttl" "ttl = 0 \<or> D \<le> w_now w + ttl" and s: "c_Set st ctx k v ttl (opts @ os) w = (u, w')"
  shows "u = Ok () \<and> program_at view own D t0 (m(k \<mapsto> v)) y w'"
proof -
  from A have t0: "t0 \<le> w_now w" by (simp add: program_at_def)
  with store_contract.Set_law [OF contract ctx opts v ttl(1,2) clock, of w k u w'] s
  have "u = Ok ()" and W: "writes view w w' k (stored v ttl)" by simp_all
  moreover have "holds D view w' (m(k \<mapsto> v))"
    using A W ttl(3) by (intro holds_Set) (auto simp: program_at_def)
  ultimately show ?thesis
    using A keeps_own(2) [of ctx k v ttl "opts @ os" w] s by (auto simp: program_at_def dest: writes_now)
qed

lemma store_Delete:
  assumes A: "program_at view own D t0 m y w" and ctx: "ctx_deadline ctx = None" and d: "c_Delete st ctx k opts w = (u, w')"
  shows "u = Ok () \<and> program_at view own D t0 (m(k := None)) y w'"
proof -
  from store_contract.Delete_law [OF contract ctx, of k opts w u w'] d
  have "u = Ok ()" and W: "writes view w w' k (\<lambda>t0 t. Absent)" by simp_all
  with A keeps_own(3) [of ctx k opts w] d show ?thesis
    by (auto simp: program_at_def intro: holds_Delete dest: writes_now)
qed

text \<open>The same through the front of a built cache, around a cache that translates values.\<close>

lemma coded_Get_present:
  assumes A: "program_at view own D t0 m y w" and k: "m k = Some v" "dec v = Ok u" "type_assert T u = Some u"
    and rt: "sequential rt"
  shows "until D (c_Get (front T rt g (transcode enc dec st) sn cn l) Background k opts w)
     (\<lambda>r w'. r = u \<and> program_at view own D t0 m y w')"
proof -
  obtain r w' where c: "c_Get (front T rt g (transcode enc dec st) sn cn l) Background k opts w = (r, w')" by fastforce
  obtain ctx' w1 r0 w2 where F: "ctx_deadline ctx' = None" "telemetry_only w w1"
    "transcode_Get dec st ctx' k opts w1 = (r0, w2)" "r = bind_ok r0 (must_assert T)" "telemetry_only w2 w'"
    by (rule front_Get [OF c rt]) (auto simp: demo_simps(6))
  obtain r1 w3 where s: "c_Get st ctx' k opts w1 = (r1, w3)" by fastforce
  from store_Get [OF at_telemetry [OF A F(2)] F(1) s] k(1)
  have S: "program_at view own D t0 m y w3" "r1 = Ok v \<or> not_found r1 \<and> D < w_now w3" by simp_all
  from F(3) s k(2) S(2) have "w2 = w3" "r0 = Ok u \<or> not_found r0 \<and> D < w_now w3"
    by (auto simp: transcode_Get_def not_found_def split: outcome.splits)
  with S F(4,5) k(3) at_telemetry [OF S(1), of w'] show ?thesis
    by (auto simp: c not_found_def telemetry_only_def split: outcome.splits)
qed

lemma coded_Get_absent:
  assumes A: "program_at view own D t0 m y w" and k: "m k = None" and rt: "sequential rt"
  shows "\<exists>e w'. c_Get (front T rt g (transcode enc dec st) sn cn l) Background k opts w = (Err e, w') \<and>
     errors_is e ErrNotFound \<and> program_at view own D t0 m y w'"
proof -
  obtain r w' where c: "c_Get (front T rt g (transcode enc dec st) sn cn l) Background k opts w = (r, w')" by fastforce
  obtain ctx' w1 r0 w2 where F: "ctx_deadline ctx' = None" "telemetry_only w w1"
    "transcode_Get dec st ctx' k opts w1 = (r0, w2)" "r = bind_ok r0 (must_assert T)" "telemetry_only w2 w'"
    by (rule front_Get [OF c rt]) (auto simp: demo_simps(6))
  obtain r1 w3 where s: "c_Get st ctx' k opts w1 = (r1, w3)" by fastforce
  from store_Get [OF at_telemetry [OF A F(2)] F(1) s] k
  have S: "program_at view own D t0 m y w3" "not_found r1" by simp_all
  then obtain e where "r1 = Err e" "errors_is e ErrNotFound" by (auto simp: not_found_def split: outcome.splits)
  with F(3,4,5) s at_telemetry [OF S(1), of w'] show ?thesis by (auto simp: c transcode_Get_def)
qed

lemma coded_Set:
  assumes A: "program_at view own D t0 m y w" and opts: "opts_total opts"
    and clock: "\<And>t. t0 \<le> t \<Longrightarrow> clock t" and v: "enc u = Ok v" "storable v"
    and ttl: "0 \<le> ttl" "whole ttl" "ttl = 0 \<or> D \<le> w_now w + ttl"
    and s: "c_Set (front T rt g (transcode enc dec st) sn cn l) Background k u ttl (opts @ os) w = (r, w')"
  obtains ctx' w1 w2 where "r = Ok ()" "program_at view own D t0 (m(k \<mapsto> v)) y w'"
    "ctx_deadline ctx' = None" "telemetry_only w w1" "c_Set st ctx' k v ttl (opts @ os) w1 = (r, w2)" "telemetry_only w2 w'"
proof -
  obtain ctx' w1 w2 where F: "ctx_deadline ctx' = None" "telemetry_only w w1"
    "c_Set st ctx' k v ttl (opts @ os) w1 = (r, w2)" "telemetry_only w2 w'"
    by (rule front_Set [OF s]) (auto simp: demo_simps(6) transcode_Set_def v(1))
  have "ttl = 0 \<or> D \<le> w_now w1 + ttl" using F(2) ttl(3) by (simp add: telemetry_only_def)
  from store_Set [OF at_telemetry [OF A F(2)] F(1) opts clock v(2) ttl(1,2) this F(3)] F that show thesis
    by (auto intro: at_telemetry)
qed

lemma coded_Delete:
  assumes A: "program_at view own D t0 m y w"
  shows "until D (c_Delete (front T rt g (transcode enc dec st) sn cn l) Background k opts w)
     (\<lambda>_. program_at view own D t0 (m(k := None)) y)"
proof -
  obtain u w' where c: "c_Delete (front T rt g (transcode enc dec st) sn cn l) Background k opts w = (u, w')" by fastforce
  obtain ctx' w1 w2 where F: "ctx_deadline ctx' = None" "telemetry_only w w1"
    "c_Delete st ctx' k opts w1 = (u, w2)" "telemetry_only w2 w'"
    by (rule front_Delete [OF c]) (auto simp: demo_simps(6))
  from store_Delete [OF at_telemetry [OF A F(2)] F(1) F(3)] F(4) show ?thesis
    by (auto simp: c intro: at_telemetry)
qed

text \<open>And around the base cache.\<close>

lemma default_Delete:
  "program_at view own D t0 m y w \<Longrightarrow>
   until D (c_Delete (front T rt g (NewBaseCache T st) sn cn l) Background k opts w)
     (\<lambda>_. program_at view own D t0 (m(k := None)) y)"
  unfolding NewBaseCache_transcode by (rule coded_Delete)

lemma default_Get_present:
  assumes "program_at view own D t0 m y w" and "m k = Some v" "type_assert T v = Some v" and "sequential rt"
  shows "until D (c_Get (front T rt g (NewBaseCache T st) sn cn l) Background k opts w) (\<lambda>r w'. r = v \<and> program_at view own D t0 m y w')"
  unfolding NewBaseCache_transcode
  by (rule coded_Get_present [OF assms(1,2) _ assms(3,4)]) (simp add: assert_type_def assms(3))

lemma default_Get_absent:
  "program_at view own D t0 m y w \<Longrightarrow> m k = None \<Longrightarrow> sequential rt \<Longrightarrow>
   \<exists>e w'. c_Get (front T rt g (NewBaseCache T st) sn cn l) Background k opts w = (Err e, w') \<and>
     errors_is e ErrNotFound \<and> program_at view own D t0 m y w'"
  unfolding NewBaseCache_transcode by (rule coded_Get_absent)

lemma default_Set:
  assumes "program_at view own D t0 m y w" and "opts_total opts" and "\<And>t. t0 \<le> t \<Longrightarrow> clock t" and "storable v"
    and "0 \<le> ttl" "whole ttl" "ttl = 0 \<or> D \<le> w_now w + ttl"
  shows "until D (c_Set (front T rt g (NewBaseCache T st) sn cn l) Background k v ttl (opts @ os) w)
     (\<lambda>_. program_at view own D t0 (m(k \<mapsto> v)) y)"
proof -
  obtain u w' where s: "c_Set (front T rt g (NewBaseCache T st) sn cn l) Background k v ttl (opts @ os) w = (u, w')" by fastforce
  have "u = Ok () \<and> program_at view own D t0 (m(k \<mapsto> v)) y w'"
    by (rule coded_Set [where enc = Ok and u = v, OF assms(1-3) _ assms(4-7) s [unfolded NewBaseCache_transcode]]) simp_all
  with s show ?thesis by simp
qed

end

lemma program_at_now: "program_at view own D t0 m y w \<Longrightarrow> t0 \<le> w_now w"
  by (simp add: program_at_def)

text \<open>Every ristretto client provides one, in a part of the memory apart from the program's own.\<close>

lemma ristretto_program:
  fixes p :: "('x, 'y) part" and own :: "('x, 'm) part"
  assumes C: "ristretto_cache cl view clock" and p: "memory_part p" "memory_part own" "apart p own"
  shows "program_store (RistrettoStore \<lparr>ts_client = hosted_client p cl, ts_name = n\<rparr>) (hosted_view p view)
     (\<lambda>v. True) (\<lambda>ttl. True) clock [WithSynchronousSet True] own"
proof -
  let ?s = "\<lparr>ts_client = cl, ts_name = n\<rparr>"
  have "pt_get p (w_ext (w\<lparr>w_ext := pt_put own y (w_ext w)\<rparr>)) = pt_get p (w_ext w)" for w :: "'x world" and y
    using p(3) by (simp add: apart_def)
  then have "view (inside p (w\<lparr>w_ext := pt_put own y (w_ext w)\<rparr>)) = view (inside p w)" for w y
    by (intro blindD [OF ristretto_cache.view_blind [OF C]]) simp
  moreover have "cache_contract (synchronous (hosted_store p (RistrettoStore ?s))) (hosted_view p view) (\<lambda>v. True) clock"
    using memory_part.hosted_contract [OF p(1) ristretto_cache.RistrettoStore_synchronous [OF C, of ?s]] by simp
  ultimately show ?thesis unfolding memory_part.hosted_RistrettoStore [OF p(1)]
    by (intro program_store.intro p(2)) (simp_all add: hosted_apart [OF p(3)] hosted_view_def cache_contract_store)
qed

interpretation map_program: program_store
  "RistrettoStore \<lparr>ts_client = hosted_client second_part (store_client (SlowMapStore s)), ts_name = n\<rparr>"
  "hosted_view second_part (map_view s)" "\<lambda>v. True" "\<lambda>ttl. True" "\<lambda>t. zero_time < t" "[WithSynchronousSet True]" "first_part :: (proc \<times> map_heap, proc) part" for s n
  by (rule ristretto_program [OF map_ristretto.ristretto_cache_axioms second.memory_part_axioms first.memory_part_axioms])
    simp

end
