(* ===== verification/Stats_Metrics.thy ===== *)
theory Stats_Metrics
  imports Go_Program "HOL-Library.Signed_Division"
begin

text \<open>
  examples/04_observability/metrics.go: metrics that count the recorded events, the logger of the
  example, and what the counters say about the operations of a cache that is observed with them.
  The state outside the library is a pair: the counters, and everything else, of which the output
  of the process is a part. Counters are 64-bit words and the sum of the latencies wraps around as
  int64 does.
\<close>

record stats_metrics =
  sm_total :: "64 word"
  sm_hits :: "64 word"
  sm_misses :: "64 word"
  sm_fails :: "64 word"
  sm_totalLatency :: duration

definition newStatsMetrics :: stats_metrics where
  "newStatsMetrics = \<lparr>sm_total = 0, sm_hits = 0, sm_misses = 0, sm_fails = 0, sm_totalLatency = 0\<rparr>"

definition count_event :: "event \<Rightarrow> stats_metrics \<Rightarrow> stats_metrics" where
  "count_event evt m =
     (let m = m\<lparr>sm_total := sm_total m + 1\<rparr>;
          m = m\<lparr>sm_totalLatency := wrap64 (sm_totalLatency m + ev_Latency evt)\<rparr>
      in if ev_Result evt = ResultHit then m\<lparr>sm_hits := sm_hits m + 1\<rparr>
         else if ev_Result evt = ResultMiss then m\<lparr>sm_misses := sm_misses m + 1\<rparr>
         else if ev_Result evt = ResultFail then m\<lparr>sm_fails := sm_fails m + 1\<rparr>
         else m)"

definition metric_line :: "event \<Rightarrow> line" where
  "metric_line e = LPrintf (lined ''metric: op=%s result=%s latency=%s cache=%s store=%s'')
     [OStr (ev_Op e), OStr (ev_Result e), ODur (ev_Latency e), OStr (ev_CacheName e), OStr (ev_StoreName e)]"

definition statsMetrics_Record ::
    "(stats_metrics \<times> 'y, proc) part \<Rightarrow> ctx \<Rightarrow> nat \<Rightarrow> (stats_metrics \<times> 'y) world \<Rightarrow> unit result \<times> (stats_metrics \<times> 'y) world" where
  "statsMetrics_Record out ctx evt w =
     (let e = w_events w ! evt; w = print out (metric_line e) (w\<lparr>w_ext := apfst (count_event e) (w_ext w)\<rparr>)
      in if ev_Op e = OpDelete then (Err (ErrorsNew ''demo metrics sink timeout''), w) else (Ok (), w))"

definition statsMetrics :: "(stats_metrics \<times> 'y, proc) part \<Rightarrow> (stats_metrics \<times> 'y) metrics" where
  "statsMetrics out = \<lparr>m_Record = statsMetrics_Record out, m_RecordLogicExpire = None\<rparr>"

text \<open>The output of the process stands for both of its streams, \<open>log.Printf\<close> writes to the second.\<close>

definition consoleLogger :: "('x, proc) part \<Rightarrow> 'x logger" where
  "consoleLogger out =
     \<lparr>lg_DebugContext = (\<lambda>ctx msg args. Printf out ''[DEBUG] %s %v'' [OStr msg, OArgs args]),
      lg_InfoContext = (\<lambda>ctx msg args. Printf out ''[INFO]  %s %v'' [OStr msg, OArgs args]),
      lg_WarnContext = (\<lambda>ctx msg args. Printf out ''[WARN]  %s %v'' [OStr msg, OArgs args]),
      lg_ErrorContext = (\<lambda>ctx msg args. Printf out ''[ERROR] %s %v'' [OStr msg, OArgs args])\<rparr>"

text \<open>
  The figures \<open>Report\<close> prints. The hit rate is a quotient of floats, with no value (NaN or an
  infinity) when the denominator is zero; the model of float64 is exact for counters below 2 to
  the 53. The average latency is an integer division, which truncates.
\<close>

datatype report =
    NoMetricsRecorded
  | Summary (rp_total: int) (rp_hits: int) (rp_misses: int) (rp_fails: int)
      (rp_hitRate: "rat option") (rp_avgLatency: duration)

definition statsMetrics_Report :: "stats_metrics \<Rightarrow> report" where
  "statsMetrics_Report m =
     (if sm_total m = 0 then NoMetricsRecorded
      else
        let lookups = sint (sm_hits m + sm_misses m);
            hitRate = (if lookups = 0 then None
                       else Some (float64 (float64 (of_int (sint (sm_hits m))) / float64 (of_int lookups))));
            avgLatency = wrap64 (sm_totalLatency m sdiv sint (sm_total m))
        in Summary (sint (sm_total m)) (sint (sm_hits m)) (sint (sm_misses m)) (sint (sm_fails m)) hitRate avgLatency)"

section \<open>What an observed operation counts\<close>

text \<open>
  The layers below the observation do not touch the counters, nor the operation and result of
  events that exist already (no code of the library does, beside the observable decorator).
\<close>

definition leaves_stats :: "(stats_metrics \<times> 'y) world \<Rightarrow> (stats_metrics \<times> 'y) world \<Rightarrow> bool" where
  "leaves_stats w w' \<longleftrightarrow> fst (w_ext w') = fst (w_ext w) \<and> length (w_events w) \<le> length (w_events w') \<and>
     (\<forall>i < length (w_events w). ev_Op (w_events w' ! i) = ev_Op (w_events w ! i) \<and>
                               ev_Result (w_events w' ! i) = ev_Result (w_events w ! i))"

locale uncounted =
  fixes c :: "((stats_metrics \<times> 'y), 'm) cache_scheme"
  assumes leaves: "leaves_stats w (snd (c_Get c ctx k opts w))" "leaves_stats w (snd (c_GetWithTTL c ctx k opts w))"
    "leaves_stats w (snd (c_Set c ctx k v ttl opts w))" "leaves_stats w (snd (c_Delete c ctx k opts w))"
    "leaves_stats w (snd (c_Clear c ctx w))"

text \<open>The observable of the example: these metrics and a logger that does not touch the counters.\<close>

definition counting :: "(stats_metrics \<times> 'y) observable option \<Rightarrow> bool" where
  "counting ob \<longleftrightarrow> (\<exists>out l. apart out first_part \<and> ob = Some \<lparr>ob_Metrics = Some (statsMetrics out), ob_Logger = Some l\<rparr> \<and>
     (\<forall>ctx msg args w. fst (w_ext (lg_ErrorContext l ctx msg args w)) = fst (w_ext w)))"

lemma print_apart: "apart out q \<Longrightarrow> pt_get q (w_ext (print out x w)) = pt_get q (w_ext w)"
  by (simp add: print_def apart_def)

lemmas print_counters = print_apart [where q = first_part, simplified part_simps]

lemma counting_console:
  "apart out first_part \<Longrightarrow>
   counting (Some \<lparr>ob_Metrics = Some (statsMetrics out), ob_Logger = Some (consoleLogger out)\<rparr>)"
  by (auto simp: counting_def consoleLogger_def Printf_def print_counters)

lemma obs_defer_counts:
  assumes ob: "counting ob" and evt: "evt < length (w_events w)"
  shows "\<exists>e. fst (w_ext (snd (obs_defer ob msg get ctx evt start (r, w)))) = count_event e (fst (w_ext w)) \<and>
     ev_Result e = (if get then ResultFromErr (final_err r) else ev_Result (w_events w ! evt))"
proof -
  let ?e = "complete_event get (final_err r) (w_now w - start) (w_events w ! evt)"
  let ?w = "update_event evt (complete_event get (final_err r) (w_now w - start)) w"
  from ob obtain out l where l: "apart out first_part" "ob = Some \<lparr>ob_Metrics = Some (statsMetrics out), ob_Logger = Some l\<rparr>"
    "\<And>ctx msg args w. fst (w_ext (lg_ErrorContext l ctx msg args w)) = fst (w_ext w)"
    by (auto simp: counting_def)
  have "w_events ?w ! evt = ?e" by (rule update_event_nth [OF evt])
  then have "fst (w_ext (snd (obs_defer ob msg get ctx evt start (r, w)))) = count_event ?e (fst (w_ext w))"
    using l by (simp add: obs_defer_def record_event_def log_error_def statsMetrics_def statsMetrics_Record_def Let_def print_counters)
  then show ?thesis by (intro exI [of _ ?e]) (simp add: complete_event_def)
qed

text \<open>An operation adds one to the total and, if it is a lookup, to exactly one of the three counters.\<close>

definition adds :: "bool \<Rightarrow> stats_metrics \<Rightarrow> stats_metrics \<Rightarrow> bool" where
  "adds get m m' \<longleftrightarrow> sm_total m' = sm_total m + 1 \<and>
     (if get then
        (sm_hits m', sm_misses m', sm_fails m') = (sm_hits m + 1, sm_misses m, sm_fails m) \<or>
        (sm_hits m', sm_misses m', sm_fails m') = (sm_hits m, sm_misses m + 1, sm_fails m) \<or>
        (sm_hits m', sm_misses m', sm_fails m') = (sm_hits m, sm_misses m, sm_fails m + 1)
      else (sm_hits m', sm_misses m', sm_fails m') = (sm_hits m, sm_misses m, sm_fails m))"

lemma count_event_adds:
  assumes "ev_Result e = (if get then ResultFromErr err else [])"
  shows "adds get m (count_event e m)"
  using assms by (auto simp: adds_def count_event_def ResultFromErr_def telemetry_names Let_def split: option.splits if_splits)

lemma observed_adds:
  assumes ob: "counting (od_ob o')" and call: "\<And>ctx' w1. leaves_stats w1 (snd (call ctx' w1))"
  shows "adds get (fst (w_ext w)) (fst (w_ext (snd (let start = w_now w; ((ctx', evt), w1) = obs_initCtx o' ctx op w in
          obs_defer (od_ob o') msg get ctx' evt start (call ctx' w1)))))"
proof -
  obtain ctx' evt w1 where i: "obs_initCtx o' ctx op w = ((ctx', evt), w1)" by (metis prod.exhaust)
  note F = obs_initCtx_facts [OF i]
  obtain r w2 where c: "call ctx' w1 = (r, w2)" by fastforce
  with call [of w1 ctx'] have L: "leaves_stats w1 w2" by simp
  from i have len: "evt < length (w_events w1)"
    by (auto simp: obs_initCtx_def new_event_def)
  with L F have w2: "evt < length (w_events w2)" "fst (w_ext w2) = fst (w_ext w)" "ev_Result (w_events w2 ! evt) = []"
    by (auto simp: leaves_stats_def)
  from obs_defer_counts [OF ob w2(1), of msg get ctx' "w_now w" r] obtain e where
    "fst (w_ext (snd (obs_defer (od_ob o') msg get ctx' evt (w_now w) (r, w2)))) = count_event e (fst (w_ext w2))"
    "ev_Result e = (if get then ResultFromErr (final_err r) else [])"
    using w2(3) by auto
  with count_event_adds [of e get "final_err r" "fst (w_ext w)"] w2(2) i c show ?thesis by simp
qed

section \<open>The layers of the example\<close>

lemma leaves_stats_refl [simp]: "leaves_stats w w"
  by (simp add: leaves_stats_def)

lemma leaves_stats_trans: "leaves_stats w w1 \<Longrightarrow> leaves_stats w1 w2 \<Longrightarrow> leaves_stats w w2"
  by (auto simp: leaves_stats_def)

lemma update_event_leaves:
  assumes "\<And>e. ev_Op (f e) = ev_Op e \<and> ev_Result (f e) = ev_Result e"
  shows "leaves_stats w (update_event r f w)"
  using assms
  by (cases "r < length (w_events w)") (auto simp: leaves_stats_def update_event_def nth_list_update list_update_beyond)

lemma AddCustomFields_leaves: "leaves_stats w (AddCustomFields ctx fs w)"
  by (auto simp: AddCustomFields_def getOrInitCustomFields_def split: option.split intro!: update_event_leaves)

context uncounted
begin

lemma transcode_uncounted: "uncounted (transcode enc dec c)"
proof (unfold_locales, goal_cases)
  case (1 w ctx k opts)
  then show ?case using leaves(1) by (simp add: transcode_Get_def on_ok_snd_const)
next
  case (2 w ctx k opts)
  then show ?case using leaves(2) by (simp add: transcode_GetWithTTL_def on_ok_snd_const split_beta)
next
  case (3 w ctx k v ttl opts)
  then show ?case using leaves(3) by (simp add: transcode_Set_def split: outcome.split)
qed (simp_all add: leaves(4,5))

end

lemma NewBaseCache_uncounted: "uncounted st \<Longrightarrow> uncounted (NewBaseCache T st)"
  unfolding NewBaseCache_transcode by (rule uncounted.transcode_uncounted)

lemma SingleflightDecorator_uncounted:
  assumes c: "uncounted c" and rt: "sequential rt"
  shows "uncounted (SingleflightDecorator T rt g c)"
proof (unfold_locales, goal_cases)
  case (1 w ctx k opts)
  obtain r w1 where g: "c_Get c ctx k opts w = (r, w1)" by fastforce
  with uncounted.leaves(1) [OF c, of w ctx k opts] show ?case
    by (auto simp: sequential_Get [OF rt g] sf_addTags_def intro: leaves_stats_trans AddCustomFields_leaves)
next
  case (2 w ctx k opts)
  obtain r w1 where g: "c_GetWithTTL c ctx k opts w = (r, w1)" by fastforce
  with uncounted.leaves(2) [OF c, of w ctx k opts] show ?case
    by (auto simp: sequential_GetWithTTL [OF rt g] sf_addTags_def intro: leaves_stats_trans AddCustomFields_leaves)
qed (simp_all add: SingleflightDecorator_Set_def SingleflightDecorator_Delete_def SingleflightDecorator_Clear_def
    uncounted.leaves(3-5) [OF c])

text \<open>The ristretto store, if the client does not touch the counters, events or clock.\<close>

definition quiet_ristretto :: "(stats_metrics \<times> 'y) ristretto_client \<Rightarrow> bool" where
  "quiet_ristretto cl \<longleftrightarrow> (\<forall>k v n d w.
     leaves_stats w (snd (ri_Get cl k w)) \<and> leaves_stats w (snd (ri_GetTTL cl k w)) \<and>
     leaves_stats w (snd (ri_SetWithTTL cl k v n d w)) \<and> leaves_stats w (ri_Del cl k w) \<and>
     leaves_stats w (ri_Wait cl w) \<and> leaves_stats w (ri_Clear cl w))"

lemma unless_done_leaves: "(\<And>w. leaves_stats w (snd (f w))) \<Longrightarrow> leaves_stats w (snd (unless_done ctx w f))"
  by (auto simp: unless_done_def split: option.split)

lemma RistrettoStore_Get_leaves:
  "quiet_ristretto (ts_client s) \<Longrightarrow> leaves_stats w (snd (RistrettoStore_Get s ctx k opts w))"
  unfolding RistrettoStore_Get_def quiet_ristretto_def
  by (intro unless_done_leaves) (auto split: prod.split option.split, metis snd_conv, metis snd_conv)

lemma RistrettoStore_uncounted:
  assumes q: "quiet_ristretto (ts_client s)"
  shows "uncounted (RistrettoStore s)"
proof (unfold_locales, goal_cases)
  case 1 then show ?case by (simp add: RistrettoStore_Get_leaves [OF q])
next
  case (2 w ctx k opts)
  obtain r w1 where g: "RistrettoStore_Get s ctx k opts w = (r, w1)" by fastforce
  with RistrettoStore_Get_leaves [OF q, of w ctx k opts] have L: "leaves_stats w w1" by simp
  have "leaves_stats w1 (snd (ri_GetTTL (ts_client s) k w1))" using q by (simp add: quiet_ristretto_def)
  with leaves_stats_trans [OF L] g L show ?case
    by (cases r) (auto simp: RistrettoStore_GetWithTTL_def split: prod.split)
next
  case (3 w ctx k v ttl opts)
  have L: "leaves_stats w' (snd (ri_SetWithTTL (ts_client s) k v n ttl w'))" "leaves_stats w' (ri_Wait (ts_client s) w')" for n w'
    using q by (auto simp: quiet_ristretto_def)
  then have "leaves_stats w' (ri_Wait (ts_client s) (snd (ri_SetWithTTL (ts_client s) k v n ttl w')))" for n w'
    by (rule leaves_stats_trans)
  with L(1)
  show ?case
    by (auto simp: RistrettoStore_Set_def Let_def intro!: unless_done_leaves split: outcome.split prod.split)
next
  case 4 then show ?case using q
    by (auto simp: RistrettoStore_Delete_def quiet_ristretto_def intro!: unless_done_leaves)
next
  case 5 then show ?case using q
    by (auto simp: RistrettoStore_Clear_def quiet_ristretto_def intro!: unless_done_leaves)
qed

section \<open>Runs of an observed cache\<close>

text \<open>A run of \<open>n\<close> lookups and \<open>m\<close> other operations of a cache; between them other code may do anything
  that leaves the counters alone.\<close>

inductive counted_run :: "(stats_metrics \<times> 'y) cache \<Rightarrow> nat \<Rightarrow> nat \<Rightarrow> (stats_metrics \<times> 'y) world \<Rightarrow> (stats_metrics \<times> 'y) world \<Rightarrow> bool"
  for c where
  start: "counted_run c 0 0 w w"
| Get: "counted_run c n m w w1 \<Longrightarrow> c_Get c ctx k opts w1 = (r, w2) \<Longrightarrow> counted_run c (Suc n) m w w2"
| GetWithTTL: "counted_run c n m w w1 \<Longrightarrow> c_GetWithTTL c ctx k opts w1 = (rt, w2) \<Longrightarrow> counted_run c (Suc n) m w w2"
| Set: "counted_run c n m w w1 \<Longrightarrow> c_Set c ctx k v ttl opts w1 = (u, w2) \<Longrightarrow> counted_run c n (Suc m) w w2"
| Delete: "counted_run c n m w w1 \<Longrightarrow> c_Delete c ctx k opts w1 = (u, w2) \<Longrightarrow> counted_run c n (Suc m) w w2"
| Clear: "counted_run c n m w w1 \<Longrightarrow> c_Clear c ctx w1 = (u, w2) \<Longrightarrow> counted_run c n (Suc m) w w2"
| between: "counted_run c n m w w1 \<Longrightarrow> fst (w_ext w2) = fst (w_ext w1) \<Longrightarrow> counted_run c n m w w2"

definition counts :: "stats_metrics \<Rightarrow> nat \<Rightarrow> nat \<Rightarrow> stats_metrics \<Rightarrow> bool" where
  "counts s n m s' \<longleftrightarrow> sm_total s' = sm_total s + of_nat (n + m) \<and>
     (\<exists>h mi f. h + mi + f = n \<and> sm_hits s' = sm_hits s + of_nat h \<and> sm_misses s' = sm_misses s + of_nat mi \<and>
               sm_fails s' = sm_fails s + of_nat f)"

lemma counts_start: "counts s 0 0 s"
  by (simp add: counts_def)

lemma counts_lookup:
  assumes "counts s n m s1" and "adds True s1 s2"
  shows "counts s (Suc n) m s2"
proof -
  from assms(1) obtain h mi f where n: "h + mi + f = n" and t: "sm_total s1 = sm_total s + of_nat (n + m)"
    and c: "sm_hits s1 = sm_hits s + of_nat h" "sm_misses s1 = sm_misses s + of_nat mi" "sm_fails s1 = sm_fails s + of_nat f"
    by (auto simp: counts_def)
  have t2: "sm_total s2 = sm_total s + of_nat (Suc n + m)" using assms(2) t by (simp add: adds_def)
  consider "sm_hits s2 = sm_hits s1 + 1" "sm_misses s2 = sm_misses s1" "sm_fails s2 = sm_fails s1"
    | "sm_hits s2 = sm_hits s1" "sm_misses s2 = sm_misses s1 + 1" "sm_fails s2 = sm_fails s1"
    | "sm_hits s2 = sm_hits s1" "sm_misses s2 = sm_misses s1" "sm_fails s2 = sm_fails s1 + 1"
    using assms(2) by (auto simp: adds_def)
  then show ?thesis
  proof cases
    case 1 with n t2 c show ?thesis unfolding counts_def
      by (intro conjI exI [of _ "Suc h"] exI [of _ mi] exI [of _ f]) simp_all
  next
    case 2 with n t2 c show ?thesis unfolding counts_def
      by (intro conjI exI [of _ h] exI [of _ "Suc mi"] exI [of _ f]) simp_all
  next
    case 3 with n t2 c show ?thesis unfolding counts_def
      by (intro conjI exI [of _ h] exI [of _ mi] exI [of _ "Suc f"]) simp_all
  qed
qed

lemma counts_other: "counts s n m s1 \<Longrightarrow> adds False s1 s2 \<Longrightarrow> counts s n (Suc m) s2"
  by (auto simp: counts_def adds_def)

lemma observed_run_counts:
  assumes "counted_run (ObservableDecorator o') n m w w'" and ob: "counting (od_ob o')" and c: "uncounted (od_cache o')"
  shows "counts (fst (w_ext w)) n m (fst (w_ext w'))"
  using assms(1)
proof (induction rule: counted_run.induct)
  case (start w) show ?case by (rule counts_start)
next
  case (Get n m w w1 ctx k opts r w2)
  have "adds True (fst (w_ext w1)) (fst (w_ext (snd (ObservableDecorator_Get o' ctx k opts w1))))"
    unfolding ObservableDecorator_Get_def by (rule observed_adds [OF ob uncounted.leaves(1) [OF c]])
  with Get show ?case by (simp add: counts_lookup)
next
  case (GetWithTTL n m w w1 ctx k opts rt w2)
  have "adds True (fst (w_ext w1)) (fst (w_ext (snd (ObservableDecorator_GetWithTTL o' ctx k opts w1))))"
    unfolding ObservableDecorator_GetWithTTL_def by (rule observed_adds [OF ob uncounted.leaves(2) [OF c]])
  with GetWithTTL show ?case by (simp add: counts_lookup)
next
  case (Set n m w w1 ctx k v ttl opts u w2)
  have "adds False (fst (w_ext w1)) (fst (w_ext (snd (ObservableDecorator_Set o' ctx k v ttl opts w1))))"
    unfolding ObservableDecorator_Set_def by (rule observed_adds [OF ob uncounted.leaves(3) [OF c]])
  with Set show ?case by (simp add: counts_other)
next
  case (Delete n m w w1 ctx k opts u w2)
  have "adds False (fst (w_ext w1)) (fst (w_ext (snd (ObservableDecorator_Delete o' ctx k opts w1))))"
    unfolding ObservableDecorator_Delete_def by (rule observed_adds [OF ob uncounted.leaves(4) [OF c]])
  with Delete show ?case by (simp add: counts_other)
next
  case (Clear n m w w1 ctx u w2)
  have "adds False (fst (w_ext w1)) (fst (w_ext (snd (ObservableDecorator_Clear o' ctx w1))))"
    unfolding ObservableDecorator_Clear_def by (rule observed_adds [OF ob uncounted.leaves(5) [OF c]])
  with Clear show ?case by (simp add: counts_other)
next
  case (between n m w w1 w2) then show ?case by simp
qed

section \<open>The summary\<close>

lemma sint_of_nat_small:
  assumes "k < 2 ^ 63"
  shows "sint (of_nat k :: 64 word) = int k"
proof -
  have "int k < 2 ^ 63" using assms by simp
  then have "wrap64 (int k) = int k" by (intro wrap64_id) simp_all
  then show ?thesis by (simp add: wrap64_def)
qed

lemma Report_counts:
  assumes "counts newStatsMetrics n m s" and "n + m < 2 ^ 63" and "0 < n + m"
  shows "\<exists>h mi f rate avg. h + mi + f = n \<and>
     statsMetrics_Report s = Summary (int (n + m)) (int h) (int mi) (int f) rate avg \<and>
     (rate = None \<longleftrightarrow> h + mi = 0) \<and> (\<forall>x. rate = Some x \<longrightarrow> x = float64 (of_nat h / of_nat (h + mi)) \<and> 0 \<le> x \<and> x \<le> 1)"
proof -
  from assms(1) obtain h mi f where n: "h + mi + f = n" and t: "sm_total s = of_nat (n + m)"
    and c: "sm_hits s = of_nat h" "sm_misses s = of_nat mi" "sm_fails s = of_nat f"
    by (auto simp: counts_def newStatsMetrics_def)
  have i: "sint (sm_total s) = int (n + m)" "sint (sm_hits s) = int h" "sint (sm_misses s) = int mi"
    "sint (sm_fails s) = int f" "sint (sm_hits s + sm_misses s) = int (h + mi)"
    using n assms(2) t c by (simp_all add: sint_of_nat_small del: of_nat_add, simp add: sint_of_nat_small flip: of_nat_add)
  have nz: "sm_total s \<noteq> 0" using i(1) assms(3) by (metis of_nat_0_less_iff less_irrefl signed_0)
  let ?rate = "if h + mi = 0 then None else Some (float64 (of_nat h / of_nat (h + mi)))"
  have "float64 (float64 (of_int (int h)) / float64 (of_int (int (h + mi)))) = float64 (of_nat h / of_nat (h + mi))"
    by (simp only: float64_int) simp
  then have R: "statsMetrics_Report s =
      Summary (int (n + m)) (int h) (int mi) (int f) ?rate (wrap64 (sm_totalLatency s sdiv int (n + m)))"
    using nz by (simp only: statsMetrics_Report_def i Let_def if_False of_nat_eq_0_iff refl)
  have "0 \<le> float64 (of_nat h / of_nat (h + mi)) \<and> float64 (of_nat h / of_nat (h + mi)) \<le> 1"
    by (rule float64_unit) (auto simp: divide_le_eq_1 simp flip: of_nat_add)
  with n R show ?thesis
    by (intro exI [of _ h] exI [of _ mi] exI [of _ f] exI [of _ ?rate]) auto
qed

section \<open>The cache of the example\<close>

lemma Build_observed_default:
  assumes b0: "NewBuilder T slog name (Some st) [] = Ok b0"
  shows "fst (fst (Build T rt (WithMetrics (Some m) (WithLogger (Some l) b0)) w)) =
     Ok (NewObservableDecorator (SingleflightDecorator T rt (w_groups w) (NewBaseCache T st)) (StoreName st) name
           (Some \<lparr>ob_Metrics = Some m, ob_Logger = Some l\<rparr>))"
proof -
  let ?b = "WithMetrics (Some m) (WithLogger (Some l) b0)"
  let ?od = "\<lambda>c ob w. (Ok (NewObservableDecorator c (StoreName st) name ob), w)"
  have b: "\<not> b_factoryCustomized ?b" "ttls_valid (b_features ?b)" "b_err ?b = None" "b_decorators ?b = map WithDecorator []"
    "b_obDecorators ?b = WithDecorator ?od" "b_options ?b = map WithDecorator []" "b_features ?b = default_features"
    "b_store ?b = st" "b_cacheName ?b = name" "b_metrics ?b = Some m" "b_logger ?b = Some l"
    using b0 by (auto simp: NewBuilder_Ok WithMetrics_def WithLogger_def ttls_valid_def default_features_def)
  have f: "compiled_factory T rt default_features st ob w = (Ok (NewBaseCache T st), w)" for ob and w :: "'a world"
    by (simp add: compiled_factory_def default_features_def buildPlainTypedCache_def requiresBytePath_def)
  show ?thesis
    using Build_result [OF b(1-6) refl, of T rt w] f
    by (simp add: b(7-11) loader_group_def miss_layer_def nil_layer_def flight_layer_def default_features_def
        new_group_def wrap_build_error_def)
qed

text \<open>A ristretto client that is a map, beside the counters, for concrete runs.\<close>

definition map_client :: "(stats_metrics \<times> (proc \<times> (key \<rightharpoonup> gval))) ristretto_client" where
  "map_client =
     \<lparr>ri_Get = (\<lambda>k w. (snd (snd (w_ext w)) k, w)), ri_GetTTL = (\<lambda>k w. ((0, False), w)),
      ri_SetWithTTL = (\<lambda>k v c ttl w. (True, w\<lparr>w_ext := apsnd (apsnd (\<lambda>m. m(k \<mapsto> v))) (w_ext w)\<rparr>)),
      ri_Del = (\<lambda>k w. w\<lparr>w_ext := apsnd (apsnd (\<lambda>m. m(k := None))) (w_ext w)\<rparr>), ri_Wait = (\<lambda>w. w),
      ri_Clear = (\<lambda>w. w\<lparr>w_ext := apsnd (apsnd (\<lambda>m. Map.empty)) (w_ext w)\<rparr>)\<rparr>"

lemma map_client_quiet: "quiet_ristretto map_client"
  by (simp add: quiet_ristretto_def map_client_def leaves_stats_def)

interpretation obs_ristretto: uncounted "RistrettoStore (ristretto_New map_client [ristretto_WithStoreName name])" for name
  by (rule RistrettoStore_uncounted) (simp add: ristretto_New_def ristretto_WithStoreName_def map_client_quiet)

section \<open>Properties\<close>

text \<open>C16: the counters of the example's metrics account for every operation: on the cache built with
  them over a store that leaves them alone, after n lookups and m other operations, panicking ones
  included, the total is n + m, each lookup was counted as exactly one of hit, miss and failure,
  and the summary shows these numbers and a hit rate between 0 and 1 (none without a hit or miss).\<close>

theorem statsMetrics_account:
  assumes "NewBuilder T slog name (Some st) [] = Ok b0" and "uncounted st" and "sequential rt"
    and "apart out first_part"
    and "fst (fst (Build T rt (WithMetrics (Some (statsMetrics out)) (WithLogger (Some (consoleLogger out)) b0)) w0)) = Ok c"
    and "fst (w_ext w) = newStatsMetrics" and "counted_run c n m w w'" and "0 < n + m" and "n + m < 2 ^ 63"
  shows "\<exists>h mi f rate avg. h + mi + f = n \<and>
     statsMetrics_Report (fst (w_ext w')) = Summary (int (n + m)) (int h) (int mi) (int f) rate avg \<and>
     (rate = None \<longleftrightarrow> h + mi = 0) \<and> (\<forall>x. rate = Some x \<longrightarrow> x = float64 (of_nat h / of_nat (h + mi)) \<and> 0 \<le> x \<and> x \<le> 1)"
proof -
  let ?o = "\<lparr>od_ob = Some \<lparr>ob_Metrics = Some (statsMetrics out), ob_Logger = Some (consoleLogger out)\<rparr>,
     od_storeName = StoreName st, od_cacheName = name, od_cache = SingleflightDecorator T rt (w_groups w0) (NewBaseCache T st)\<rparr>"
  have c: "c = ObservableDecorator ?o"
    using Build_observed_default [OF assms(1), of rt "statsMetrics out" "consoleLogger out" w0] assms(5)
    by (simp add: NewObservableDecorator_def)
  have "counts (fst (w_ext w)) n m (fst (w_ext w'))"
  proof (rule observed_run_counts)
    show "counted_run (ObservableDecorator ?o) n m w w'" using assms(7) c by simp
    show "counting (od_ob ?o)" using counting_console [OF assms(4)] by simp
    show "uncounted (od_cache ?o)"
      using SingleflightDecorator_uncounted [OF NewBaseCache_uncounted [OF assms(2)] assms(3)] by simp
  qed
  with Report_counts assms(6,8,9) show ?thesis by simp
qed

definition stats_out :: "(stats_metrics \<times> (proc \<times> 'y), proc) part" where
  "stats_out = then_part second_part first_part"

lemma stats_out_apart [simp]: "apart stats_out first_part" "memory_part stats_out"
  by (simp_all add: stats_out_def apart_then then_memory_part first.memory_part_axioms second.memory_part_axioms)

definition stats_world :: "(stats_metrics \<times> (proc \<times> (key \<rightharpoonup> gval))) world" where
  "stats_world = \<lparr>w_now = 0, w_events = [], w_groups = 0, w_ext = (newStatsMetrics, (\<lparr>pr_out = [], pr_calls = 0\<rparr>, Map.empty))\<rparr>"

theorem statsMetrics_account_witness:
  "\<exists>b0 c h mi f rate avg.
     NewBuilder TString no_slog ''obs-cache'' (Some (RistrettoStore (ristretto_New map_client [ristretto_WithStoreName ''obs-ristretto'']))) [] = Ok b0 \<and>
     fst (fst (Build TString seq_runtime (WithMetrics (Some (statsMetrics stats_out)) (WithLogger (Some (consoleLogger stats_out)) b0)) stats_world)) = Ok c \<and>
     h + mi + f = 1 \<and>
     statsMetrics_Report (fst (w_ext (snd (c_Get c Background ''k404'' [] (snd (c_Set c Background ''k1'' (VString ''hello'') 0 [] stats_world)))))) =
       Summary 2 (int h) (int mi) (int f) rate avg"
proof -
  let ?st = "RistrettoStore (ristretto_New map_client [ristretto_WithStoreName ''obs-ristretto''])"
  obtain b0 where b0: "NewBuilder TString no_slog ''obs-cache'' (Some ?st) [] = Ok b0"
    by (simp add: NewBuilder_def)
  obtain c where c: "fst (fst (Build TString seq_runtime (WithMetrics (Some (statsMetrics stats_out)) (WithLogger (Some (consoleLogger stats_out)) b0)) stats_world)) = Ok c"
    using Build_observed_default [OF b0] by blast
  obtain u w1 where s: "c_Set c Background ''k1'' (VString ''hello'') 0 [] stats_world = (u, w1)" by fastforce
  obtain r w2 where g: "c_Get c Background ''k404'' [] w1 = (r, w2)" by fastforce
  have run: "counted_run c 1 1 stats_world w2"
    using counted_run.Get [OF counted_run.Set [OF counted_run.start s] g] by simp
  have "fst (w_ext stats_world) = newStatsMetrics" by (simp add: stats_world_def)
  from statsMetrics_account [OF b0 obs_ristretto.uncounted_axioms seq_runtime_sequential stats_out_apart(1) c this run] b0 c s g
  show ?thesis by fastforce
qed

end
