(* ===== verification/Multi_Cache.thy ===== *)
theory Multi_Cache
  imports Loaders
begin

text \<open>
  core/multicache: several caches read one after the other with a loader as the last resort, and
  the caches that missed written back.

  The error pool of github.com/sourcegraph/conc and the start of a goroutine are parameters: a
  \<open>scheduler\<close>. \<open>sd_Wait sd first tasks w\<close> is \<open>p.Wait()\<close> after \<open>p.Go\<close> of each task, on a
  pool with or without \<open>WithFirstError\<close>; \<open>sd_go sd body w\<close> is \<open>go body()\<close>.

  A multi cache hands itself to its fetch policy. The policy's view of it leaves out \<open>Get\<close>, by
  which a policy could only call itself again. A fetch policy and a filter given by the user are
  functions that do not change the fetch context they are given.
\<close>

type_synonym 'x task = "'x world \<Rightarrow> unit result \<times> 'x world"

record 'x scheduler =
  sd_Wait :: "bool \<Rightarrow> 'x task list \<Rightarrow> 'x world \<Rightarrow> unit result \<times> 'x world"
  sd_go :: "('x world \<Rightarrow> 'x world) \<Rightarrow> 'x world \<Rightarrow> 'x world"

record 'x multi_view =
  mc_Set :: "ctx \<Rightarrow> key \<Rightarrow> gval \<Rightarrow> duration \<Rightarrow> call_option list \<Rightarrow> 'x world \<Rightarrow> unit result \<times> 'x world"
  mc_Delete :: "ctx \<Rightarrow> key \<Rightarrow> call_option list \<Rightarrow> 'x world \<Rightarrow> unit result \<times> 'x world"
  mc_Clear :: "ctx \<Rightarrow> 'x world \<Rightarrow> unit result \<times> 'x world"
  mc_Caches :: "'x cache list"
  mc_FetchByLoader :: "'x loader"
  mc_Logger :: "'x logger option result"
  mc_Metrics :: "'x metrics option result"

record 'x multi_cache = "'x multi_view" +
  mc_Get :: "ctx \<Rightarrow> key \<Rightarrow> call_option list \<Rightarrow> 'x world \<Rightarrow> gval result \<times> 'x world"

record 'x fetch_context =
  fc_Key :: key
  fc_Options :: "call_option list"
  fc_MultiCache :: "'x multi_view"
  fc_GotValue :: gval

type_synonym 'x failed_cache = "'x cache \<times> error"
type_synonym 'x fetch_policy =
  "ctx \<Rightarrow> 'x fetch_context \<Rightarrow> 'x world \<Rightarrow> (gval \<times> 'x failed_cache list) result \<times> 'x world"
type_synonym 'x write_back_filter = "ctx \<Rightarrow> 'x fetch_context \<Rightarrow> 'x failed_cache list \<Rightarrow> 'x cache list"
type_synonym 'x write_back_fn =
  "ctx \<Rightarrow> 'x fetch_context \<Rightarrow> 'x cache list \<Rightarrow> 'x world \<Rightarrow> unit result \<times> 'x world"

text \<open>\<open>ErrorHandleMode\<close> is an int with two named values.\<close>

definition ErrorHandleStrict :: int where "ErrorHandleStrict = 0"
definition ErrorHandleTolerant :: int where "ErrorHandleTolerant = 1"

record 'x multi_config =
  mf_LoaderFn :: "'x loader option"
  mf_FetchPolicy :: "'x fetch_policy option"
  mf_WriteBackCacheFilter :: "'x write_back_filter option"
  mf_WriteBackFn :: "'x write_back_fn option"
  mf_ErrorHandleMode :: int
  mf_Observable :: "'x observable option"

section \<open>Fetch policy, filter and write back\<close>

text \<open>\<open>strconv.Itoa\<close> of a non-negative number.\<close>

fun Itoa :: "nat \<Rightarrow> string" where
  "Itoa n = (if n < 10 then [char_of (48 + n)] else Itoa (n div 10) @ [char_of (48 + n mod 10)])"

declare Itoa.simps [simp del]

text \<open>The loop over the caches: the value found and its position, or nothing, and the failures so far.\<close>

fun fetch_loop ::
    "ctx \<Rightarrow> key \<Rightarrow> call_option list \<Rightarrow> nat \<Rightarrow> 'x cache list \<Rightarrow> 'x failed_cache list \<Rightarrow> 'x world \<Rightarrow>
     ((gval \<times> nat) option \<times> 'x failed_cache list) result \<times> 'x world" where
  "fetch_loop ctx k opts i [] failed w = (Ok (None, failed), w)"
| "fetch_loop ctx k opts i (c # cs) failed w =
     (case c_Get c ctx k opts w of
        (Ok v, w) \<Rightarrow> (Ok (Some (v, i), failed), w)
      | (Err e, w) \<Rightarrow> fetch_loop ctx k opts (Suc i) cs (failed @ [(c, e)]) w
      | (Panic m, w) \<Rightarrow> (Panic m, w))"

text \<open>The deferred \<open>AddCustomFields\<close> sees the tag set before the return; without a tag it does nothing.\<close>

definition FetchPolicySequential :: "'x fetch_policy" where
  "FetchPolicySequential ctx getCtx w =
     (let m = fc_MultiCache getCtx; key = fc_Key getCtx in
      on_ok (fetch_loop ctx key (fc_Options getCtx) 0 (mc_Caches m) [] w)
        (\<lambda>(found, failedCaches) w.
           case found of
             Some (val, i) \<Rightarrow>
               (Ok (val, failedCaches), AddCustomFields ctx [(''source'', ''cache_'' @ Itoa i)] w)
           | None \<Rightarrow>
               (case mc_FetchByLoader m ctx key (fc_Options getCtx) w of
                  (Ok val, w) \<Rightarrow> (Ok (val, failedCaches), AddCustomFields ctx [(''source'', ''loader'')] w)
                | (Err err, w) \<Rightarrow>
                    (Err (Errorf ''[FetchPolicySequential] get from source failed: %w'' [AErr err]), w)
                | (Panic p, w) \<Rightarrow> (Panic p, w))))"

definition MissedCacheFilter :: "'x write_back_filter" where
  "MissedCacheFilter ctx getCtx failedCaches =
     map fst (filter (\<lambda>(c, e). errors_is e ErrNotFound) failedCaches)"

definition WriteBackParallel :: "'x scheduler \<Rightarrow> duration \<Rightarrow> 'x write_back_fn" where
  "WriteBackParallel sd defaultTTL ctx getCtx caches w =
     sd_Wait sd False
       (map (\<lambda>cache. c_Set cache ctx (fc_Key getCtx) (fc_GotValue getCtx) defaultTTL []) caches) w"

section \<open>The multi cache\<close>

record 'x multi_state =
  ms_caches :: "'x cache list"
  ms_cfg :: "'x multi_config"

definition multiCache_Set ::
    "'x scheduler \<Rightarrow> 'x multi_state \<Rightarrow> ctx \<Rightarrow> key \<Rightarrow> gval \<Rightarrow> duration \<Rightarrow> call_option list \<Rightarrow> 'x world \<Rightarrow> unit result \<times> 'x world" where
  "multiCache_Set sd m ctx k val ttl opts w =
     sd_Wait sd True (map (\<lambda>c. c_Set c ctx k val ttl opts) (ms_caches m)) w"

text \<open>The serial loops of \<open>Delete\<close> and \<open>Clear\<close>.\<close>

fun collect_errors :: "'x task list \<Rightarrow> error list \<Rightarrow> 'x world \<Rightarrow> error list result \<times> 'x world" where
  "collect_errors [] errs w = (Ok errs, w)"
| "collect_errors (f # fs) errs w =
     (case f w of
        (Ok u, w) \<Rightarrow> collect_errors fs errs w
      | (Err e, w) \<Rightarrow> collect_errors fs (errs @ [e]) w
      | (Panic m, w) \<Rightarrow> (Panic m, w))"

definition join_result :: "error list \<Rightarrow> unit result" where
  "join_result errs = (case errors_Join (map Some errs) of None \<Rightarrow> Ok () | Some e \<Rightarrow> Err e)"

definition multiCache_Delete ::
    "'x multi_state \<Rightarrow> ctx \<Rightarrow> key \<Rightarrow> call_option list \<Rightarrow> 'x world \<Rightarrow> unit result \<times> 'x world" where
  "multiCache_Delete m ctx k opts w =
     on_ok (collect_errors (map (\<lambda>c. c_Delete c ctx k opts) (ms_caches m)) [] w)
       (\<lambda>errs w. (join_result errs, w))"

definition multiCache_Clear :: "'x multi_state \<Rightarrow> ctx \<Rightarrow> 'x world \<Rightarrow> unit result \<times> 'x world" where
  "multiCache_Clear m ctx w =
     on_ok (collect_errors (map (\<lambda>c. c_Clear c ctx) (ms_caches m)) [] w)
       (\<lambda>errs w. (join_result errs, w))"

definition multiCache_FetchByLoader :: "'x multi_state \<Rightarrow> 'x loader" where
  "multiCache_FetchByLoader m ctx k opts w =
     (case mf_LoaderFn (ms_cfg m) of None \<Rightarrow> (Panic nil_call, w) | Some f \<Rightarrow> f ctx k opts w)"

definition multiCache_Logger :: "'x multi_state \<Rightarrow> 'x logger option result" where
  "multiCache_Logger m = (case mf_Observable (ms_cfg m) of None \<Rightarrow> Panic nil_deref | Some ob \<Rightarrow> Ok (ob_Logger ob))"

definition multiCache_Metrics :: "'x multi_state \<Rightarrow> 'x metrics option result" where
  "multiCache_Metrics m = (case mf_Observable (ms_cfg m) of None \<Rightarrow> Panic nil_deref | Some ob \<Rightarrow> Ok (ob_Metrics ob))"

definition multiCache_view :: "'x scheduler \<Rightarrow> 'x multi_state \<Rightarrow> 'x multi_view" where
  "multiCache_view sd m =
     \<lparr>mc_Set = multiCache_Set sd m, mc_Delete = multiCache_Delete m, mc_Clear = multiCache_Clear m,
      mc_Caches = ms_caches m, mc_FetchByLoader = multiCache_FetchByLoader m,
      mc_Logger = multiCache_Logger m, mc_Metrics = multiCache_Metrics m\<rparr>"

text \<open>The rest of \<open>Get\<close> once a value was fetched.\<close>

definition multiCache_writeBack ::
    "'x multi_state \<Rightarrow> ctx \<Rightarrow> 'x fetch_context \<Rightarrow> 'x failed_cache list \<Rightarrow> 'x world \<Rightarrow> gval result \<times> 'x world" where
  "multiCache_writeBack m ctx getCtx failedCaches w =
     (case mf_WriteBackCacheFilter (ms_cfg m) of
        None \<Rightarrow> (Panic nil_call, w)
      | Some cacheFilter \<Rightarrow>
          (let writeBackCaches = cacheFilter ctx getCtx failedCaches in
           case mf_WriteBackFn (ms_cfg m) of
             None \<Rightarrow> (Panic nil_call, w)
           | Some writeBack \<Rightarrow>
               (case writeBack ctx getCtx writeBackCaches w of
                  (Ok u, w) \<Rightarrow> (Ok (fc_GotValue getCtx), w)
                | (Panic p, w) \<Rightarrow> (Panic p, w)
                | (Err err, w) \<Rightarrow>
                    (let e = mf_ErrorHandleMode (ms_cfg m) in
                     if e = ErrorHandleStrict then (Err err, w)
                     else if e = ErrorHandleTolerant
                     then on_ok (log_error (mf_Observable (ms_cfg m)) ctx ''[multiCache] cache write back error''
                                   [(''key'', AStr (fc_Key getCtx)), (''error'', AErr err)] w)
                            (\<lambda>_ w. (Ok (fc_GotValue getCtx), w))
                     else (Err (Errorf ''[multiCache] unexpected error handling strategy: %v'' [AInt e]), w)))))"

definition multiCache_Get ::
    "'x scheduler \<Rightarrow> 'x multi_state \<Rightarrow> ctx \<Rightarrow> key \<Rightarrow> call_option list \<Rightarrow> 'x world \<Rightarrow> gval result \<times> 'x world" where
  "multiCache_Get sd m ctx k opts w =
     (let getCtx = \<lparr>fc_Key = k, fc_Options = opts, fc_MultiCache = multiCache_view sd m, fc_GotValue = VNil\<rparr> in
      case mf_FetchPolicy (ms_cfg m) of
        None \<Rightarrow> (Panic nil_call, w)
      | Some fetch \<Rightarrow>
          on_ok (fetch ctx getCtx w)
            (\<lambda>(val, failedCaches) w. multiCache_writeBack m ctx (getCtx\<lparr>fc_GotValue := val\<rparr>) failedCaches w))"

definition multiCache :: "'x scheduler \<Rightarrow> 'x multi_state \<Rightarrow> 'x multi_cache" where
  "multiCache sd m =
     \<lparr>mc_Set = multiCache_Set sd m, mc_Delete = multiCache_Delete m, mc_Clear = multiCache_Clear m,
      mc_Caches = ms_caches m, mc_FetchByLoader = multiCache_FetchByLoader m,
      mc_Logger = multiCache_Logger m, mc_Metrics = multiCache_Metrics m, mc_Get = multiCache_Get sd m\<rparr>"

section \<open>Its observable decorator\<close>

record 'x multi_observable =
  mo_inner :: "'x multi_cache"
  mo_ob :: "'x observable"
  mo_name :: string

definition mo_run ::
    "'x multi_observable \<Rightarrow> string \<Rightarrow> string \<Rightarrow> bool \<Rightarrow> (ctx \<Rightarrow> 'x world \<Rightarrow> 'a result \<times> 'x world) \<Rightarrow> ctx \<Rightarrow> 'x world \<Rightarrow> 'a result \<times> 'x world" where
  "mo_run d op msg get call ctx w =
     (let startTime = w_now w; (evt, w1) = new_event op (mo_name d) [] w; ctx' = ContextWithEvent ctx evt in
      obs_defer (Some (mo_ob d)) msg get ctx' evt startTime (call ctx' w1))"

definition multiObservable_Get ::
    "'x multi_observable \<Rightarrow> ctx \<Rightarrow> key \<Rightarrow> call_option list \<Rightarrow> 'x world \<Rightarrow> gval result \<times> 'x world" where
  "multiObservable_Get d ctx k opts w =
     mo_run d OpGet ''[observableDecorator.Get] Record Metrics Failed.'' True
       (\<lambda>ctx. mc_Get (mo_inner d) ctx k opts) ctx w"

definition multiObservable_Set ::
    "'x multi_observable \<Rightarrow> ctx \<Rightarrow> key \<Rightarrow> gval \<Rightarrow> duration \<Rightarrow> call_option list \<Rightarrow> 'x world \<Rightarrow> unit result \<times> 'x world" where
  "multiObservable_Set d ctx k val ttl opts w =
     mo_run d OpSet ''[observableDecorator.Set] Record Metrics Failed.'' False
       (\<lambda>ctx. mc_Set (mo_inner d) ctx k val ttl opts) ctx w"

definition multiObservable_Delete ::
    "'x multi_observable \<Rightarrow> ctx \<Rightarrow> key \<Rightarrow> call_option list \<Rightarrow> 'x world \<Rightarrow> unit result \<times> 'x world" where
  "multiObservable_Delete d ctx k opts w =
     mo_run d OpDelete ''[observableDecorator.Delete] Record Metrics Failed.'' False
       (\<lambda>ctx. mc_Delete (mo_inner d) ctx k opts) ctx w"

definition multiObservable_Clear :: "'x multi_observable \<Rightarrow> ctx \<Rightarrow> 'x world \<Rightarrow> unit result \<times> 'x world" where
  "multiObservable_Clear d ctx w =
     mo_run d OpClear ''[observableDecorator.Clear] Record Metrics Failed.'' False (mc_Clear (mo_inner d)) ctx w"

definition multiObservable_FetchByLoader :: "'x multi_observable \<Rightarrow> 'x loader" where
  "multiObservable_FetchByLoader d ctx k opts w =
     mo_run d ''fetch_by_loader'' ''[observableDecorator.FetchByLoader] Record Metrics Failed.'' True
       (\<lambda>ctx. mc_FetchByLoader (mo_inner d) ctx k opts) ctx w"

definition multi_newObservableDecorator :: "string \<Rightarrow> 'x multi_cache \<Rightarrow> 'x observable \<Rightarrow> 'x multi_cache" where
  "multi_newObservableDecorator name inner ob =
     (let d = \<lparr>mo_inner = inner, mo_ob = ob, mo_name = name\<rparr> in
      \<lparr>mc_Set = multiObservable_Set d, mc_Delete = multiObservable_Delete d, mc_Clear = multiObservable_Clear d,
       mc_Caches = mc_Caches inner, mc_FetchByLoader = multiObservable_FetchByLoader d,
       mc_Logger = Ok (ob_Logger ob), mc_Metrics = Ok (ob_Metrics ob), mc_Get = multiObservable_Get d\<rparr>)"

definition multicache_New ::
    "'x scheduler \<Rightarrow> string \<Rightarrow> 'x multi_config \<Rightarrow> 'x cache list \<Rightarrow> 'x multi_cache result" where
  "multicache_New sd name cfg caches =
     (let m = multiCache sd \<lparr>ms_caches = caches, ms_cfg = cfg\<rparr> in
      case mf_Observable cfg of
        None \<Rightarrow> Ok m
      | Some ob \<Rightarrow> Ok (multi_newObservableDecorator name m ob))"

end
