(* ===== verification/Multi_Builder.thy ===== *)
theory Multi_Builder
  imports Multi_Cache
begin

text \<open>
  The builders of the multi cache: core/multicache/write_back/builder.go, which makes a write-back
  function, and multi_cache.go of the root package, which makes the multi cache.
\<close>

section \<open>The write-back builder\<close>

text \<open>The callback is given the error, or nil.\<close>

type_synonym 'x err_callback =
  "ctx \<Rightarrow> 'x fetch_context \<Rightarrow> 'x cache list \<Rightarrow> error option \<Rightarrow> 'x world \<Rightarrow> unit result \<times> 'x world"

record 'x write_back_builder =
  wb_DefaultTTL :: duration
  wb_CustomWriteBack :: "'x write_back_fn option"
  wb_Async :: bool
  wb_ErrCallback :: "'x err_callback option"

definition write_back_DefaultBuilder :: "'x write_back_builder" where
  "write_back_DefaultBuilder =
     \<lparr>wb_DefaultTTL = Minute, wb_CustomWriteBack = None, wb_Async = False, wb_ErrCallback = None\<rparr>"

definition nopeCallback :: "'x err_callback" where
  "nopeCallback ctx getCtx caches err w = (Ok (), w)"

definition buildBasicFn :: "'x scheduler \<Rightarrow> 'x write_back_builder \<Rightarrow> 'x write_back_fn" where
  "buildBasicFn sd wb = (case wb_CustomWriteBack wb of Some f \<Rightarrow> f | None \<Rightarrow> WriteBackParallel sd (wb_DefaultTTL wb))"

definition buildCallback :: "'x write_back_builder \<Rightarrow> 'x err_callback" where
  "buildCallback wb = (case wb_ErrCallback wb of None \<Rightarrow> nopeCallback | Some cb \<Rightarrow> cb)"

definition wrapErrCallback :: "'x write_back_fn \<Rightarrow> 'x err_callback \<Rightarrow> 'x write_back_fn" where
  "wrapErrCallback fn cb ctx getCtx caches w =
     (case fn ctx getCtx caches w of
        (Err err, w) \<Rightarrow> on_ok (cb ctx getCtx caches (Some err) w) (\<lambda>_ w. (Err err, w))
      | (Panic m, w) \<Rightarrow> (Panic m, w)
      | (Ok u, w) \<Rightarrow> (Ok (), w))"

text \<open>\<open>panics.Try\<close> runs its argument and recovers a panic, which is dropped here.\<close>

definition panics_Try :: "('x world \<Rightarrow> unit result \<times> 'x world) \<Rightarrow> 'x world \<Rightarrow> 'x world" where
  "panics_Try f w = snd (f w)"

definition asyncDecorator :: "'x scheduler \<Rightarrow> 'x write_back_fn \<Rightarrow> 'x err_callback \<Rightarrow> 'x write_back_fn" where
  "asyncDecorator sd f cb ctx getCtx caches w =
     (Ok (), sd_go sd (panics_Try (\<lambda>w.
        case f ctx getCtx caches w of
          (Panic m, w) \<Rightarrow> (Panic m, w)
        | (Err err, w) \<Rightarrow> cb ctx getCtx caches (Some err) w
        | (Ok u, w) \<Rightarrow> cb ctx getCtx caches None w)) w)"

definition write_back_Build :: "'x scheduler \<Rightarrow> 'x write_back_builder \<Rightarrow> 'x write_back_fn" where
  "write_back_Build sd wb =
     (let fn = buildBasicFn sd wb; cb = buildCallback wb in
      if wb_Async wb then asyncDecorator sd fn cb else wrapErrCallback fn cb)"

section \<open>MultiBuilder\<close>

record 'x multi_builder =
  mb_err :: "error option"
  mb_name :: string
  mb_caches :: "'x cache list"
  mb_needLoaderFnNilCheck :: bool
  mb_singleFlight :: bool
  mb_metrics :: "'x metrics option"
  mb_logger :: "'x logger option"
  mb_cfg :: "'x multi_config"

definition NewMultiBuilder ::
    "'x scheduler \<Rightarrow> (string \<Rightarrow> 'x log_fn) \<Rightarrow> string \<Rightarrow> 'x cache list \<Rightarrow> 'x multi_builder" where
  "NewMultiBuilder sd slog name caches =
     (let mb = \<lparr>mb_err = None, mb_name = name, mb_caches = caches, mb_needLoaderFnNilCheck = True,
               mb_singleFlight = True, mb_metrics = Some NoopMetrics, mb_logger = Some (SlogLogger slog),
               mb_cfg = \<lparr>mf_LoaderFn = None, mf_FetchPolicy = Some FetchPolicySequential,
                 mf_WriteBackCacheFilter = Some MissedCacheFilter,
                 mf_WriteBackFn = Some (WriteBackParallel sd Minute),
                 mf_ErrorHandleMode = ErrorHandleTolerant, mf_Observable = None\<rparr>\<rparr>
      in if name = [] then mb\<lparr>mb_err := Some (ErrorsNew ''cache name cannot be empty'')\<rparr> else mb)"

definition WithLoader :: "'x loader option \<Rightarrow> 'x multi_builder \<Rightarrow> 'x multi_builder" where
  "WithLoader fn b = b\<lparr>mb_cfg := (mb_cfg b)\<lparr>mf_LoaderFn := fn\<rparr>\<rparr>"

definition WithFetchPolicy :: "'x fetch_policy option \<Rightarrow> 'x multi_builder \<Rightarrow> 'x multi_builder" where
  "WithFetchPolicy policy b = b\<lparr>mb_cfg := (mb_cfg b)\<lparr>mf_FetchPolicy := policy\<rparr>\<rparr>"

definition WithWriteBack :: "'x write_back_fn option \<Rightarrow> 'x multi_builder \<Rightarrow> 'x multi_builder" where
  "WithWriteBack fn b = b\<lparr>mb_cfg := (mb_cfg b)\<lparr>mf_WriteBackFn := fn\<rparr>\<rparr>"

definition WithWriteBackFilter :: "'x write_back_filter option \<Rightarrow> 'x multi_builder \<Rightarrow> 'x multi_builder" where
  "WithWriteBackFilter flt b = b\<lparr>mb_cfg := (mb_cfg b)\<lparr>mf_WriteBackCacheFilter := flt\<rparr>\<rparr>"

definition WithErrorHandling :: "int \<Rightarrow> 'x multi_builder \<Rightarrow> 'x multi_builder" where
  "WithErrorHandling mode b = b\<lparr>mb_cfg := (mb_cfg b)\<lparr>mf_ErrorHandleMode := mode\<rparr>\<rparr>"

definition Multi_WithSingleflight :: "bool \<Rightarrow> 'x multi_builder \<Rightarrow> 'x multi_builder" where
  "Multi_WithSingleflight enabled b = b\<lparr>mb_singleFlight := enabled\<rparr>"

definition Multi_WithLogger :: "'x logger option \<Rightarrow> 'x multi_builder \<Rightarrow> 'x multi_builder" where
  "Multi_WithLogger logger b = b\<lparr>mb_logger := logger\<rparr>"

definition Multi_WithMetrics :: "'x metrics option \<Rightarrow> 'x multi_builder \<Rightarrow> 'x multi_builder" where
  "Multi_WithMetrics metrics b = b\<lparr>mb_metrics := metrics\<rparr>"

definition WithRequiredLoader :: "bool \<Rightarrow> 'x multi_builder \<Rightarrow> 'x multi_builder" where
  "WithRequiredLoader enabled b = b\<lparr>mb_needLoaderFnNilCheck := enabled\<rparr>"

text \<open>The singleflight wrapper is put around the loader whether or not there is one.\<close>

definition nil_loader :: "'x loader" where
  "nil_loader ctx k opts w = (Panic nil_call, w)"

definition Multi_Build ::
    "'x scheduler \<Rightarrow> gotype \<Rightarrow> 'x runtime \<Rightarrow> 'x multi_builder \<Rightarrow> 'x world \<Rightarrow> 'x multi_cache result \<times> 'x world" where
  "Multi_Build sd T rt b w =
     (case mb_err b of
        Some e \<Rightarrow> (Err e, w)
      | None \<Rightarrow>
          if mb_needLoaderFnNilCheck b \<and> mf_LoaderFn (mb_cfg b) = None
          then (Err (ErrorsNew ''loader function is required''), w)
          else
            let finalCfg = mb_cfg b;
                (finalCfg, w) =
                  (if mb_singleFlight b
                   then let (g, w) = new_group w;
                            fn = (case mf_LoaderFn finalCfg of None \<Rightarrow> nil_loader | Some f \<Rightarrow> f)
                        in (finalCfg\<lparr>mf_LoaderFn := Some (SingleflightWrapper T rt g fn)\<rparr>, w)
                   else (finalCfg, w));
                finalCfg = finalCfg\<lparr>mf_Observable := Some \<lparr>ob_Metrics = mb_metrics b, ob_Logger = mb_logger b\<rparr>\<rparr>
            in (multicache_New sd (mb_name b) finalCfg (mb_caches b), w))"

end
