(* ===== verification/Multi_Laws.thy ===== *)
theory Multi_Laws
  imports Multi_Builder "HOL-Library.Multiset"
begin

text \<open>
  What the multi cache does: the order of the reads, which caches are written back, and, over
  levels that keep the cache contract and do not disturb one another, that a value found below is
  afterwards visible above.
\<close>

section \<open>What is documented of the error pool\<close>

text \<open>
  Every task runs once, in an order the pool chooses; \<open>Wait\<close> raises a panic of a task, else it
  returns the first error or all of them joined. Tasks are taken to be atomic: each is one call
  of a cache.
\<close>

fun run_tasks :: "'x task list \<Rightarrow> 'x world \<Rightarrow> unit result list \<times> 'x world" where
  "run_tasks [] w = ([], w)"
| "run_tasks (f # fs) w = (let (r, w1) = f w; (rs, w2) = run_tasks fs w1 in (r # rs, w2))"

definition wait_result :: "bool \<Rightarrow> unit result list \<Rightarrow> unit result" where
  "wait_result first rs =
     (case filter is_panic rs of
        p # ps \<Rightarrow> p
      | [] \<Rightarrow>
          (case List.map_filter final_err rs of
             [] \<Rightarrow> Ok ()
           | e # es \<Rightarrow> if first then Err e else Err (JoinError (e # es))))"

definition pool_law :: "'x scheduler \<Rightarrow> bool" where
  "pool_law sd \<longleftrightarrow>
     (\<forall>first tasks w. \<exists>is. mset is = mset [0..<length tasks] \<and>
        sd_Wait sd first tasks w =
          (let (rs, w') = run_tasks (map ((!) tasks) is) w in (wait_result first rs, w')))"

definition seq_scheduler :: "'x scheduler" where
  "seq_scheduler =
     \<lparr>sd_Wait = (\<lambda>first tasks w. let (rs, w') = run_tasks tasks w in (wait_result first rs, w')),
      sd_go = (\<lambda>body w. body w)\<rparr>"

lemma seq_scheduler_pool [simp]: "pool_law seq_scheduler"
  unfolding pool_law_def
proof (intro allI)
  fix first :: bool and tasks :: "'x task list" and w :: "'x world"
  have "sd_Wait seq_scheduler first tasks w = (let (rs, w') =
      run_tasks (map ((!) tasks) [0..<length tasks]) w in (wait_result first rs, w'))"
    by (simp only: seq_scheduler_def scheduler.simps map_nth)
  then show "\<exists>is. mset is = mset [0..<length tasks] \<and> sd_Wait seq_scheduler first tasks w = (let (rs, w') =
      run_tasks (map ((!) tasks) is) w in (wait_result first rs, w'))"
    by blast
qed

lemma wait_result_Ok: "set rs \<subseteq> {Ok ()} \<Longrightarrow> wait_result first rs = Ok ()"
proof -
  assume "set rs \<subseteq> {Ok ()}"
  then have "filter is_panic rs = [] \<and> List.map_filter final_err rs = []"
    by (induction rs) (auto simp: map_filter_simps final_err_def)
  then show ?thesis by (simp add: wait_result_def)
qed

text \<open>The pool over one task per element of a list.\<close>

lemma pool_map:
  assumes "pool_law sd"
  obtains ys where "mset ys = mset xs" "sd_Wait sd first (map f xs) w =
      (let (rs, w') = run_tasks (map f ys) w in (wait_result first rs, w'))"
proof -
  obtain "is" where i: "mset is = mset [0..<length (map f xs)]"
    "sd_Wait sd first (map f xs) w =
       (let (rs, w') = run_tasks (map ((!) (map f xs)) is) w in (wait_result first rs, w'))"
    using assms unfolding pool_law_def by blast
  have lt: "\<forall>j \<in> set is. j < length xs"
    using arg_cong [OF i(1), of set_mset] by simp
  have "mset (map ((!) xs) is) = image_mset ((!) xs) (mset [0..<length xs])"
    using i(1) by simp
  also have "\<dots> = mset (map ((!) xs) [0..<length xs])" by simp
  also have "\<dots> = mset xs" by (simp only: map_nth)
  finally have "mset (map ((!) xs) is) = mset xs" .
  moreover have "map ((!) (map f xs)) is = map f (map ((!) xs) is)" using lt by simp
  ultimately show thesis using that i(2) by metis
qed

text \<open>Caches that all missed are all written back.\<close>

lemma MissedCacheFilter_all:
  "length es = length cs \<Longrightarrow> \<forall>e \<in> set es. errors_is e ErrNotFound \<Longrightarrow> MissedCacheFilter ctx gc (zip cs es) = cs"
  unfolding MissedCacheFilter_def
  by (induction es cs rule: list_induct2) auto

section \<open>Levels\<close>

text \<open>\<open>frames c V\<close>: no operation of \<open>c\<close> disturbs the view \<open>V\<close>.\<close>

definition frames :: "'x cache \<Rightarrow> 'x view \<Rightarrow> bool" where
  "frames c V \<longleftrightarrow>
     (\<forall>ctx k opts w r w'. c_Get c ctx k opts w = (r, w') \<longrightarrow> reads V w w') \<and>
     (\<forall>ctx k v ttl opts w r w'. c_Set c ctx k v ttl opts w = (r, w') \<longrightarrow> reads V w w') \<and>
     (\<forall>ctx k opts w r w'. c_Delete c ctx k opts w = (r, w') \<longrightarrow> reads V w w')"

lemma framesD:
  assumes "frames c V"
  shows "c_Get c ctx k opts w = (r, w') \<Longrightarrow> reads V w w'"
    and "c_Set c ctx k v ttl opts w = (u, w') \<Longrightarrow> reads V w w'"
    and "c_Delete c ctx k opts w = (u, w') \<Longrightarrow> reads V w w'"
  using assms unfolding frames_def by blast+

lemma writes_writes: "writes V w w1 k new \<Longrightarrow> writes V w1 w2 k new \<Longrightarrow> writes V w w2 k new"
  unfolding writes_def by (elim exE conjE, rule_tac x = t0a in exI) auto

text \<open>
  \<open>undisturbed_in levels w w'\<close>: every level shows what it showed. \<open>updated_in levels new ps k w w'\<close>:
  the levels of \<open>ps\<close> show \<open>new\<close> for \<open>k\<close>, and nothing else changed in them or in the others.
\<close>

definition undisturbed_in :: "('x cache \<times> 'x view) set \<Rightarrow> 'x world \<Rightarrow> 'x world \<Rightarrow> bool" where
  "undisturbed_in levels w w' \<longleftrightarrow> w_now w \<le> w_now w' \<and> (\<forall>q \<in> levels. reads (snd q) w w')"

definition updated_in ::
    "('x cache \<times> 'x view) set \<Rightarrow> (int \<Rightarrow> int \<Rightarrow> entry) \<Rightarrow> ('x cache \<times> 'x view) set \<Rightarrow> key \<Rightarrow> 'x world \<Rightarrow> 'x world \<Rightarrow> bool" where
  "updated_in levels new ps k w w' \<longleftrightarrow> w_now w \<le> w_now w' \<and>
     (\<forall>q \<in> levels. if q \<in> ps then writes (snd q) w w' k new else reads (snd q) w w')"

text \<open>Levels that keep the contract each and do not disturb one another.\<close>

locale cache_levels =
  fixes levels :: "('x cache \<times> 'x view) set"
    and storable :: "gval \<Rightarrow> bool"
    and clock :: "int \<Rightarrow> bool"
  assumes level: "p \<in> levels \<Longrightarrow> cache_contract (fst p) (snd p) storable clock"
    and frame: "p \<in> levels \<Longrightarrow> q \<in> levels \<Longrightarrow> p \<noteq> q \<Longrightarrow> frames (fst p) (snd q)"
    and later: "clock t \<Longrightarrow> t \<le> t' \<Longrightarrow> clock t'"
begin

abbreviation undisturbed :: "'x world \<Rightarrow> 'x world \<Rightarrow> bool" where
  "undisturbed \<equiv> undisturbed_in levels"

abbreviation updated ::
    "(int \<Rightarrow> int \<Rightarrow> entry) \<Rightarrow> ('x cache \<times> 'x view) set \<Rightarrow> key \<Rightarrow> 'x world \<Rightarrow> 'x world \<Rightarrow> bool" where
  "updated \<equiv> updated_in levels"

lemma undisturbed_trans: "undisturbed w w1 \<Longrightarrow> undisturbed w1 w2 \<Longrightarrow> undisturbed w w2"
  unfolding undisturbed_in_def by (meson order_trans reads_trans)

lemma undisturbed_refl [simp]: "undisturbed w w"
  by (simp add: undisturbed_in_def)

lemma undisturbed_telemetry: "undisturbed w (AddCustomFields ctx fs w)"
proof -
  have "reads (snd q) w (AddCustomFields ctx fs w)" if "q \<in> levels" for q
    using cache_contract.view_blind [OF level [OF that]] by (rule blind_reads) simp_all
  then show ?thesis by (simp add: undisturbed_in_def)
qed

lemma level_Get:
  assumes "p \<in> levels" and "ctx_deadline ctx = None" and "c_Get (fst p) ctx k opts w = (r, w')"
  shows "undisturbed w w' \<and> (\<exists>t. w_now w \<le> t \<and> t \<le> w_now w' \<and> reports (snd p w k t) r)"
proof -
  from cache_contract.Get_law [OF level [OF assms(1)] assms(2,3)]
  obtain t where p: "reads (snd p) w w'" "w_now w \<le> t" "t \<le> w_now w'" "reports (snd p w k t) r" by blast
  have "reads (snd q) w w'" if "q \<in> levels" for q
    using p(1) framesD(1) [OF frame [OF assms(1) that] assms(3)] by (cases "p = q") simp_all
  with p show ?thesis by (auto simp: undisturbed_in_def)
qed

lemma level_Get_missing:
  assumes "p \<in> levels" and "ctx_deadline ctx = None" and "missing (snd p) w k"
  obtains e w' where "c_Get (fst p) ctx k opts w = (Err e, w')" "errors_is e ErrNotFound" "undisturbed w w'"
proof -
  obtain r w' where g: "c_Get (fst p) ctx k opts w = (r, w')" by fastforce
  from level_Get [OF assms(1,2) g] assms(3) have "not_found r" "undisturbed w w'"
    by (auto simp: missing_def)
  with g that show thesis by (cases r) auto
qed

lemma missing_later: "undisturbed w w' \<Longrightarrow> q \<in> levels \<Longrightarrow> missing (snd q) w k \<Longrightarrow> missing (snd q) w' k"
  by (auto simp: undisturbed_in_def missing_def reads_def)

lemma fetch_loop_misses:
  assumes "set ps \<subseteq> levels" and "ctx_deadline ctx = None" and "\<forall>q \<in> set ps. missing (snd q) w k"
  shows "\<exists>es w'. fetch_loop ctx k opts i (map fst ps @ rest) failed w =
       fetch_loop ctx k opts (i + length ps) rest (failed @ zip (map fst ps) es) w' \<and>
     length es = length ps \<and> (\<forall>e \<in> set es. errors_is e ErrNotFound) \<and> undisturbed w w'"
  using assms
proof (induction ps arbitrary: i failed w)
  case Nil
  show ?case by (simp, rule exI [of _ w], simp)
next
  case (Cons p ps)
  obtain e w1 where g: "c_Get (fst p) ctx k opts w = (Err e, w1)" "errors_is e ErrNotFound" "undisturbed w w1"
    using level_Get_missing [of p ctx w k opts] Cons.prems by auto
  have "\<forall>q \<in> set ps. missing (snd q) w1 k"
    using missing_later [OF g(3)] Cons.prems by (meson in_mono list.set_intros(2))
  then obtain es w' where "fetch_loop ctx k opts (Suc i) (map fst ps @ rest) (failed @ [(fst p, e)]) w1 =
       fetch_loop ctx k opts (Suc i + length ps) rest ((failed @ [(fst p, e)]) @ zip (map fst ps) es) w'"
     "length es = length ps" "\<forall>e \<in> set es. errors_is e ErrNotFound" "undisturbed w1 w'"
    using Cons.IH [of w1 "Suc i" "failed @ [(fst p, e)]"] Cons.prems(1,2) by auto
  with g show ?case
    by (intro exI [of _ "e # es"] exI [of _ w']) (auto intro: undisturbed_trans)
qed

lemma updatedI:
  assumes "w_now w \<le> w_now w'" and "\<And>q. q \<in> levels \<Longrightarrow> q \<in> ps \<Longrightarrow> writes (snd q) w w' k new"
    and "\<And>q. q \<in> levels \<Longrightarrow> q \<notin> ps \<Longrightarrow> reads (snd q) w w'"
  shows "updated new ps k w w'"
  unfolding updated_in_def using assms by simp

lemma updatedD:
  assumes "updated new ps k w w'"
  shows "w_now w \<le> w_now w'" and "q \<in> levels \<Longrightarrow> q \<in> ps \<Longrightarrow> writes (snd q) w w' k new"
    and "q \<in> levels \<Longrightarrow> q \<notin> ps \<Longrightarrow> reads (snd q) w w'"
  using assms unfolding updated_in_def by meson+

lemma undisturbedD:
  assumes "undisturbed w w'"
  shows "w_now w \<le> w_now w'" and "q \<in> levels \<Longrightarrow> reads (snd q) w w'"
  using assms unfolding undisturbed_in_def by meson+

lemma updated_from:
  assumes u: "undisturbed w w1" and d: "updated new ps k w1 w2"
  shows "updated new ps k w w2"
proof (rule updatedI)
  show "w_now w \<le> w_now w2" using undisturbedD(1) [OF u] updatedD(1) [OF d] by simp
qed (blast intro: reads_trans reads_writes undisturbedD(2) [OF u] updatedD(2,3) [OF d])+

lemma updated_to:
  assumes d: "updated new ps k w w1" and u: "undisturbed w1 w2"
  shows "updated new ps k w w2"
proof (rule updatedI)
  show "w_now w \<le> w_now w2" using undisturbedD(1) [OF u] updatedD(1) [OF d] by simp
qed (blast intro: reads_trans writes_reads undisturbedD(2) [OF u] updatedD(2,3) [OF d])+

lemma updated_none: "updated new {} k w w' = undisturbed w w'"
  by (simp add: updated_in_def undisturbed_in_def)

lemma updated_insert:
  assumes a: "updated new {p} k w w1" and b: "updated new ps k w1 w2"
  shows "updated new (insert p ps) k w w2"
proof (rule updatedI)
  show "w_now w \<le> w_now w2" using updatedD(1) [OF a] updatedD(1) [OF b] by simp
next
  fix q assume q: "q \<in> levels" "q \<in> insert p ps"
  show "writes (snd q) w w2 k new"
  proof (cases "q = p")
    case True
    then have "writes (snd q) w w1 k new" using updatedD(2) [OF a q(1)] by simp
    then show ?thesis using updatedD(2,3) [OF b q(1)] by (cases "q \<in> ps") (blast intro: writes_writes writes_reads)+
  next
    case False
    then have "reads (snd q) w w1" using updatedD(3) [OF a q(1)] by simp
    then show ?thesis using updatedD(2) [OF b q(1)] q(2) False by (blast intro: reads_writes)
  qed
next
  fix q assume "q \<in> levels" "q \<notin> insert p ps"
  then show "reads (snd q) w w2" using updatedD(3) [OF a, of q] updatedD(3) [OF b, of q] by (blast intro: reads_trans)
qed

lemma level_update:
  assumes "p \<in> levels" and "writes (snd p) w w' k new" and "\<And>q. q \<in> levels \<Longrightarrow> q \<noteq> p \<Longrightarrow> reads (snd q) w w'"
  shows "updated new {p} k w w'"
  using assms writes_now [OF assms(2)] by (intro updatedI) auto

lemma level_Set:
  assumes "p \<in> levels" and "ctx_deadline ctx = None" and "opts_total opts" and "storable v" and "0 \<le> ttl"
    and "clock (w_now w)" and "c_Set (fst p) ctx k v ttl opts w = (u, w')"
  shows "u = Ok () \<and> updated (stored v ttl) {p} k w w'"
  using cache_contract.Set_law [OF level [OF assms(1)] assms(2-7)]
    framesD(2) [OF frame [OF assms(1)] assms(7)] level_update [OF assms(1)] by blast

lemma level_Delete:
  assumes "p \<in> levels" and "ctx_deadline ctx = None" and "c_Delete (fst p) ctx k opts w = (u, w')"
  shows "u = Ok () \<and> updated (\<lambda>t0 t. Absent) {p} k w w'"
  using cache_contract.Delete_law [OF level [OF assms(1)] assms(2,3)]
    framesD(3) [OF frame [OF assms(1)] assms(3)] level_update [OF assms(1)] by blast

lemma set_tasks:
  assumes "set ps \<subseteq> levels" and "ctx_deadline ctx = None" and "opts_total opts" and "storable v" and "0 \<le> ttl"
    and "clock (w_now w)" and "run_tasks (map (\<lambda>p. c_Set (fst p) ctx k v ttl opts) ps) w = (rs, w')"
  shows "set rs \<subseteq> {Ok ()} \<and> updated (stored v ttl) (set ps) k w w'"
  using assms
proof (induction ps arbitrary: w rs)
  case Nil
  then show ?case by (simp add: updated_none)
next
  case (Cons p ps)
  obtain u w1 where s: "c_Set (fst p) ctx k v ttl opts w = (u, w1)" by fastforce
  obtain rs' where r: "run_tasks (map (\<lambda>p. c_Set (fst p) ctx k v ttl opts) ps) w1 = (rs', w')" "rs = u # rs'"
    using Cons.prems(7) s by (auto split: prod.splits)
  have p: "u = Ok ()" "updated (stored v ttl) {p} k w w1"
    using level_Set [OF _ Cons.prems(2-6) s] Cons.prems(1) by auto
  then have "clock (w_now w1)" using later Cons.prems(6) by (auto simp: updated_in_def)
  then have "set rs' \<subseteq> {Ok ()} \<and> updated (stored v ttl) (set ps) k w1 w'"
    using Cons.IH [OF _ Cons.prems(2-5) _ r(1)] Cons.prems(1) by auto
  with p r(2) show ?case by (auto intro: updated_insert)
qed

lemma pool_sets:
  assumes "pool_law sd" and "set ps \<subseteq> levels" and "ctx_deadline ctx = None" and "opts_total opts"
    and "storable v" and "0 \<le> ttl" and "clock (w_now w)"
  shows "\<exists>w'. sd_Wait sd first (map (\<lambda>c. c_Set c ctx k v ttl opts) (map fst ps)) w = (Ok (), w') \<and>
     updated (stored v ttl) (set ps) k w w'"
proof -
  let ?f = "\<lambda>p. c_Set (fst p) ctx k v ttl opts"
  obtain ys where ys: "mset ys = mset ps" "sd_Wait sd first (map ?f ps) w =
      (let (rs, w') = run_tasks (map ?f ys) w in (wait_result first rs, w'))"
    by (rule pool_map [OF assms(1)])
  obtain rs w' where r: "run_tasks (map ?f ys) w = (rs, w')" by fastforce
  have "set ys = set ps" by (rule mset_eq_setD [OF ys(1)])
  with set_tasks [OF _ assms(3-7) r] assms(2) have
    "set rs \<subseteq> {Ok ()}" "updated (stored v ttl) (set ps) k w w'" by auto
  with ys(2) r show ?thesis by (simp add: wait_result_Ok comp_def)
qed

end

text \<open>A value that a view shows from now on.\<close>

definition held :: "'x view \<Rightarrow> 'x world \<Rightarrow> key \<Rightarrow> gval \<Rightarrow> bool" where
  "held V w k v \<longleftrightarrow> (\<forall>t. w_now w \<le> t \<longrightarrow> (\<exists>d. V w k t = Present v d))"

text \<open>The configuration of \<open>NewMultiBuilder\<close>, with any write-back time and error mode.\<close>

definition sequential_multi :: "'x scheduler \<Rightarrow> duration \<Rightarrow> 'x multi_state \<Rightarrow> bool" where
  "sequential_multi sd ttl m \<longleftrightarrow>
     mf_FetchPolicy (ms_cfg m) = Some FetchPolicySequential \<and>
     mf_WriteBackCacheFilter (ms_cfg m) = Some MissedCacheFilter \<and>
     mf_WriteBackFn (ms_cfg m) = Some (WriteBackParallel sd ttl)"

lemma multiCache_Get_sequential:
  assumes "sequential_multi sd ttl m"
  shows "multiCache_Get sd m ctx k opts w =
     (let getCtx = \<lparr>fc_Key = k, fc_Options = opts, fc_MultiCache = multiCache_view sd m, fc_GotValue = VNil\<rparr> in
      on_ok (FetchPolicySequential ctx getCtx w)
            (\<lambda>(val, failedCaches) w. multiCache_writeBack m ctx (getCtx\<lparr>fc_GotValue := val\<rparr>) failedCaches w))"
  using assms by (simp add: multiCache_Get_def sequential_multi_def)

context cache_levels
begin

lemma write_back_misses:
  assumes cfg: "sequential_multi sd ttl m" and sd: "pool_law sd" and ps: "set ps \<subseteq> levels"
    and ctx: "ctx_deadline ctx = None" and v: "storable v" and ttl: "0 \<le> ttl" and clk: "clock (w_now w)"
    and es: "length es = length ps" "\<forall>e \<in> set es. errors_is e ErrNotFound"
    and gc: "fc_GotValue gc = v" "fc_Key gc = k"
  shows "\<exists>w'. multiCache_writeBack m ctx gc (zip (map fst ps) es) w = (Ok v, w') \<and>
     updated (stored v ttl) (set ps) k w w'"
proof -
  obtain w' where w': "sd_Wait sd False (map (\<lambda>c. c_Set c ctx k v ttl []) (map fst ps)) w = (Ok (), w')"
    "updated (stored v ttl) (set ps) k w w'"
    using pool_sets [OF sd ps ctx opts_total_Nil v ttl clk] by blast
  have "WriteBackParallel sd ttl ctx gc (map fst ps) w = (Ok (), w')"
    using w'(1) gc by (simp add: WriteBackParallel_def comp_def)
  then have "multiCache_writeBack m ctx gc (zip (map fst ps) es) w = (Ok v, w')"
    using cfg gc by (simp add: multiCache_writeBack_def sequential_multi_def MissedCacheFilter_all es)
  with w'(2) show ?thesis by blast
qed

text \<open>A level below holds the value: it is returned, and the levels above are filled with it.\<close>

lemma Get_hit:
  assumes cfg: "sequential_multi sd ttl m" and sd: "pool_law sd"
    and caches: "ms_caches m = map fst pre @ fst p # post" and L: "set pre \<subseteq> levels" "p \<in> levels"
    and ctx: "ctx_deadline ctx = None" and v: "storable v" and ttl: "0 \<le> ttl" and clk: "clock (w_now w)"
    and miss: "\<forall>q \<in> set pre. missing (snd q) w k" and hit: "held (snd p) w k v"
  shows "\<exists>w'. multiCache_Get sd m ctx k opts w = (Ok v, w') \<and> updated (stored v ttl) (set pre) k w w'"
proof -
  let ?gc = "\<lparr>fc_Key = k, fc_Options = opts, fc_MultiCache = multiCache_view sd m, fc_GotValue = VNil\<rparr>"
  obtain es w1 where f: "fetch_loop ctx k opts 0 (map fst pre @ fst p # post) [] w =
       fetch_loop ctx k opts (length pre) (fst p # post) (zip (map fst pre) es) w1"
     and es: "length es = length pre" "\<forall>e \<in> set es. errors_is e ErrNotFound" and w1: "undisturbed w w1"
    using fetch_loop_misses [OF L(1) ctx miss, of opts 0 "fst p # post" "[]"] by auto
  obtain r w2 where g: "c_Get (fst p) ctx k opts w1 = (r, w2)" by fastforce
  from level_Get [OF L(2) ctx g] obtain t where w2: "undisturbed w1 w2"
    and t: "w_now w1 \<le> t" "reports (snd p w1 k t) r" by blast
  have "snd p w1 k t = snd p w k t" using undisturbedD(2) [OF w1 L(2)] t(1) by (simp add: reads_def)
  moreover obtain d where "snd p w k t = Present v d"
    using hit t(1) undisturbedD(1) [OF w1] unfolding held_def by (meson order_trans)
  ultimately have r: "r = Ok v" using t(2) by simp
  let ?w3 = "AddCustomFields ctx [(''source'', ''cache_'' @ Itoa (length pre))] w2"
  have w3: "undisturbed w ?w3"
    using w1 w2 undisturbed_telemetry by (blast intro: undisturbed_trans)
  have F: "FetchPolicySequential ctx ?gc w = (Ok (v, zip (map fst pre) es), ?w3)"
    using f g r by (simp add: FetchPolicySequential_def multiCache_view_def caches)
  have "clock (w_now ?w3)" using later [OF clk undisturbedD(1) [OF w3]] .
  from write_back_misses [OF cfg sd L(1) ctx v ttl this es, of "?gc\<lparr>fc_GotValue := v\<rparr>" k]
  obtain w' where "multiCache_writeBack m ctx (?gc\<lparr>fc_GotValue := v\<rparr>) (zip (map fst pre) es) ?w3 = (Ok v, w')"
    "updated (stored v ttl) (set pre) k ?w3 w'" by auto
  then show ?thesis
    using F w3 updated_from unfolding multiCache_Get_sequential [OF cfg] by (auto simp: Let_def)
qed

text \<open>No level has the value: the loader's is returned, and every level is filled with it.\<close>

lemma Get_loads:
  assumes cfg: "sequential_multi sd ttl m" and sd: "pool_law sd"
    and caches: "ms_caches m = map fst ps" and L: "set ps \<subseteq> levels"
    and ctx: "ctx_deadline ctx = None" and v: "storable v" and ttl: "0 \<le> ttl" and clk: "clock (w_now w)"
    and miss: "\<forall>q \<in> set ps. missing (snd q) w k"
    and f: "mf_LoaderFn (ms_cfg m) = Some f" "yields f ctx k opts v src" "\<And>w. undisturbed w (src w)"
  shows "\<exists>w'. multiCache_Get sd m ctx k opts w = (Ok v, w') \<and> updated (stored v ttl) (set ps) k w w'"
proof -
  let ?gc = "\<lparr>fc_Key = k, fc_Options = opts, fc_MultiCache = multiCache_view sd m, fc_GotValue = VNil\<rparr>"
  obtain es w1 where l: "fetch_loop ctx k opts 0 (map fst ps) [] w = (Ok (None, zip (map fst ps) es), w1)"
     and es: "length es = length ps" "\<forall>e \<in> set es. errors_is e ErrNotFound" and w1: "undisturbed w w1"
    using fetch_loop_misses [OF L ctx miss, of opts 0 "[]" "[]"] by auto
  let ?w3 = "AddCustomFields ctx [(''source'', ''loader'')] (src w1)"
  have w3: "undisturbed w ?w3"
    using w1 f(3) undisturbed_telemetry by (blast intro: undisturbed_trans)
  have F: "FetchPolicySequential ctx ?gc w = (Ok (v, zip (map fst ps) es), ?w3)"
    using l f(1,2) by (simp add: FetchPolicySequential_def multiCache_view_def caches
        multiCache_FetchByLoader_def yields_def)
  have "clock (w_now ?w3)" using later [OF clk undisturbedD(1) [OF w3]] .
  from write_back_misses [OF cfg sd L ctx v ttl this es, of "?gc\<lparr>fc_GotValue := v\<rparr>" k]
  obtain w' where "multiCache_writeBack m ctx (?gc\<lparr>fc_GotValue := v\<rparr>) (zip (map fst ps) es) ?w3 = (Ok v, w')"
    "updated (stored v ttl) (set ps) k ?w3 w'" by auto
  then show ?thesis
    using F w3 updated_from unfolding multiCache_Get_sequential [OF cfg] by (auto simp: Let_def)
qed

text \<open>The loader fails: its error is returned and no level changes.\<close>

lemma Get_load_fails:
  assumes cfg: "sequential_multi sd ttl m" and caches: "ms_caches m = map fst ps" and L: "set ps \<subseteq> levels"
    and ctx: "ctx_deadline ctx = None" and miss: "\<forall>q \<in> set ps. missing (snd q) w k"
    and f: "mf_LoaderFn (ms_cfg m) = Some f" "\<And>w. f ctx k opts w = (Err e, src w)" "\<And>w. undisturbed w (src w)"
  shows "\<exists>w'. multiCache_Get sd m ctx k opts w =
      (Err (Errorf ''[FetchPolicySequential] get from source failed: %w'' [AErr e]), w') \<and> undisturbed w w'"
proof -
  let ?gc = "\<lparr>fc_Key = k, fc_Options = opts, fc_MultiCache = multiCache_view sd m, fc_GotValue = VNil\<rparr>"
  obtain es w1 where l: "fetch_loop ctx k opts 0 (map fst ps) [] w = (Ok (None, zip (map fst ps) es), w1)"
    and w1: "undisturbed w w1"
    using fetch_loop_misses [OF L ctx miss, of opts 0 "[]" "[]"] by auto
  have "FetchPolicySequential ctx ?gc w =
      (Err (Errorf ''[FetchPolicySequential] get from source failed: %w'' [AErr e]), src w1)"
    using l f(1,2) by (simp add: FetchPolicySequential_def multiCache_view_def caches multiCache_FetchByLoader_def)
  then show ?thesis
    using w1 f(3) undisturbed_trans unfolding multiCache_Get_sequential [OF cfg] by (auto simp: Let_def)
qed

text \<open>\<open>Set\<close> and \<open>Delete\<close> reach every level.\<close>

lemma Set_all:
  assumes "pool_law sd" and "ms_caches m = map fst ps" and "set ps \<subseteq> levels" and "ctx_deadline ctx = None"
    and "opts_total opts" and "storable v" and "0 \<le> ttl" and "clock (w_now w)"
  shows "\<exists>w'. multiCache_Set sd m ctx k v ttl opts w = (Ok (), w') \<and> updated (stored v ttl) (set ps) k w w'"
  using pool_sets [OF assms(1,3-8), of True k] by (simp add: multiCache_Set_def assms(2))

lemma collect_deletes:
  assumes "set ps \<subseteq> levels" and "ctx_deadline ctx = None"
  shows "\<exists>w'. collect_errors (map (\<lambda>p. c_Delete (fst p) ctx k opts) ps) errs w = (Ok errs, w') \<and>
     updated (\<lambda>t0 t. Absent) (set ps) k w w'"
  using assms
proof (induction ps arbitrary: w)
  case Nil
  show ?case by (simp add: updated_none)
next
  case (Cons p ps)
  obtain u w1 where d: "c_Delete (fst p) ctx k opts w = (u, w1)" by fastforce
  with level_Delete [of p ctx k opts w u w1] Cons.prems
  have p: "u = Ok ()" "updated (\<lambda>t0 t. Absent) {p} k w w1" by auto
  obtain w' where "collect_errors (map (\<lambda>p. c_Delete (fst p) ctx k opts) ps) errs w1 = (Ok errs, w')"
    "updated (\<lambda>t0 t. Absent) (set ps) k w1 w'" using Cons.IH [of w1] Cons.prems by auto
  with d p show ?case by (auto intro: updated_insert)
qed

lemma Delete_all:
  assumes "ms_caches m = map fst ps" and "set ps \<subseteq> levels" and "ctx_deadline ctx = None"
  shows "\<exists>w'. multiCache_Delete m ctx k opts w = (Ok (), w') \<and> updated (\<lambda>t0 t. Absent) (set ps) k w w'"
  using collect_deletes [OF assms(2,3), of k opts "[]" w]
  by (auto simp: multiCache_Delete_def assms(1) join_result_def errors_Join_def comp_def)

end

section \<open>Levels of in-memory stores\<close>

text \<open>Base caches over in-memory stores at different addresses.\<close>

definition map_level :: "gotype \<Rightarrow> slow_map_store \<Rightarrow> nat \<Rightarrow> map_heap cache \<times> map_heap view" where
  "map_level T s i =
     (NewBaseCache T (SlowMapStore (s\<lparr>sm_addr := i\<rparr>)), typed_view T (map_view (s\<lparr>sm_addr := i\<rparr>)))"

lemma map_view_elsewhere:
  "sm_addr s \<noteq> sm_addr s' \<Longrightarrow> map_view s' (put_data s m w) = map_view s' w"
  by (simp add: fun_eq_iff map_view_def map_data_def put_data_def)

lemma map_view_sleep: "map_view s (sleep d w) = map_view s w"
  by (simp add: fun_eq_iff map_view_def map_data_def)

lemma sleep_0: "sleep 0 w = w"
  by (simp add: sleep_def wait_def)

lemma map_frames:
  assumes "sm_addr s \<noteq> sm_addr s'"
  shows "frames (NewBaseCache T (SlowMapStore s)) (typed_view T' (map_view s'))"
proof -
  note elsewhere = map_view_elsewhere [OF assms]
  have g: "reads (map_view s') w w'" if "c_Get (NewBaseCache T (SlowMapStore s)) ctx k opts w = (r, w')" for ctx k opts w r w'
    using that elsewhere
    by (auto simp: BaseCache_Get_def on_ok_def SlowMapStore_Get_def Let_def reads_def map_view_sleep
        split: outcome.splits option.splits if_splits prod.splits)
  have s: "reads (map_view s') w w'" if "c_Set (NewBaseCache T (SlowMapStore s)) ctx k v ttl opts w = (r, w')"
    for ctx k v ttl opts w r w'
    using that elsewhere by (auto simp: BaseCache_Set_def SlowMapStore_Set_def Let_def reads_def split: if_splits)
  have d: "reads (map_view s') w w'" if "c_Delete (NewBaseCache T (SlowMapStore s)) ctx k opts w = (r, w')"
    for ctx k opts w r w'
    using that elsewhere by (auto simp: BaseCache_Delete_def SlowMapStore_Delete_def reads_def)
  show ?thesis
    unfolding frames_def typed_view_def
    by (intro conjI allI impI; rule map_view_with_reads; erule g s d)
qed

interpretation map_levels: cache_levels "range (map_level T s)" "\<lambda>v. type_assert T v = Some v" "\<lambda>t. zero_time < t" for T s
proof (rule cache_levels.intro, goal_cases)
  case (1 p)
  then show ?case using map_base_contract by (auto simp: map_level_def)
next
  case (2 p q)
  then show ?case by (auto simp: map_level_def intro!: map_frames)
qed simp

end
