(* ===== verification/Multi_Properties.thy ===== *)
theory Multi_Properties
  imports Multi_Laws
begin

text \<open>
  The properties of the multi cache and of its builders: refilling the levels that missed, the
  loader as the last resort, writes to every level, the order of the reads, the error modes, and a
  multi cache built with the defaults end to end.
\<close>

section \<open>Properties\<close>

text \<open>C8: a lower level refills the upper ones. When the first levels of a sequential multi cache miss a
  key and the next one holds its value, Get returns that value without asking the levels below or
  the loader, and afterwards every level that missed shows the value for the write-back time; the
  level that had it, the levels below and all other keys are as before, in whatever order the
  write-backs ran.\<close>

theorem multi_Get_refills:
  assumes L: "cache_levels levels storable clock" and cfg: "sequential_multi sd ttl m" and sd: "pool_law sd"
    and caches: "ms_caches m = map fst pre @ fst p # post" "set pre \<subseteq> levels" "p \<in> levels"
    and ctx: "ctx_deadline ctx = None" and v: "storable v" "0 \<le> ttl" "clock (w_now w)"
    and miss: "\<forall>q \<in> set pre. missing (snd q) w k" and hit: "held (snd p) w k v"
  shows "\<exists>w'. multiCache_Get sd m ctx k opts w = (Ok v, w') \<and>
     updated_in levels (stored v ttl) (set pre) k w w'"
  by (rule cache_levels.Get_hit [OF assms])

definition demo_multi :: "map_heap loader option \<Rightarrow> map_heap multi_state" where
  "demo_multi lf = \<lparr>ms_caches = map (\<lambda>i. fst (map_level TInt demo_map i)) [0, 1],
     ms_cfg = \<lparr>mf_LoaderFn = lf, mf_FetchPolicy = Some FetchPolicySequential,
       mf_WriteBackCacheFilter = Some MissedCacheFilter, mf_WriteBackFn = Some (WriteBackParallel seq_scheduler Minute),
       mf_ErrorHandleMode = ErrorHandleTolerant, mf_Observable = silent\<rparr>\<rparr>"

lemma demo_multi_simps [simp]:
  "sequential_multi seq_scheduler Minute (demo_multi lf)"
  "ms_caches (demo_multi lf) = map fst [map_level TInt demo_map 0, map_level TInt demo_map 1]"
  "mf_LoaderFn (ms_cfg (demo_multi lf)) = lf"
  by (simp_all add: demo_multi_def sequential_multi_def)

lemma demo_level_missing [simp]: "missing (snd (map_level T s i)) demo_world k"
  by (simp add: map_level_def)

theorem multi_Get_refills_witness:
  "\<exists>w'. multiCache_Get seq_scheduler (demo_multi None) Background ''k'' []
     (put_data (demo_map\<lparr>sm_addr := 1\<rparr>) [''k'' \<mapsto> \<lparr>it_value = VInt 7, it_expireAt = zero_time\<rparr>] demo_world) = (Ok (VInt 7), w')"
proof -
  let ?w = "put_data (demo_map\<lparr>sm_addr := 1\<rparr>) [''k'' \<mapsto> \<lparr>it_value = VInt 7, it_expireAt = zero_time\<rparr>] demo_world"
  have "missing (snd (map_level TInt demo_map 0)) ?w ''k''" "held (snd (map_level TInt demo_map 1)) ?w ''k'' (VInt 7)"
    by (simp_all add: missing_def held_def map_level_def typed_view_def map_view_with_def map_entry_def
        map_view_def map_data_def put_data_def demo_world_def item_entry_def assert_type_def IsZero_def)
  then show ?thesis
    using multi_Get_refills [OF map_levels.cache_levels_axioms [of TInt demo_map] demo_multi_simps(1) [of None]
        seq_scheduler_pool, where pre = "[map_level TInt demo_map 0]" and p = "map_level TInt demo_map 1"
        and post = "[]" and w = ?w and ctx = Background and k = "''k''" and v = "VInt 7"]
    by (auto simp: duration_defs)
qed

text \<open>When every level misses the key, Get returns what the loader loads and afterwards every level
  shows it for the write-back time.\<close>

theorem multi_Get_loads:
  assumes L: "cache_levels levels storable clock" and cfg: "sequential_multi sd ttl m" and sd: "pool_law sd"
    and caches: "ms_caches m = map fst ps" "set ps \<subseteq> levels"
    and ctx: "ctx_deadline ctx = None" and v: "storable v" "0 \<le> ttl" "clock (w_now w)"
    and miss: "\<forall>q \<in> set ps. missing (snd q) w k"
    and f: "mf_LoaderFn (ms_cfg m) = Some f" "yields f ctx k opts v src" "\<And>w. undisturbed_in levels w (src w)"
  shows "\<exists>w'. multiCache_Get sd m ctx k opts w = (Ok v, w') \<and> updated_in levels (stored v ttl) (set ps) k w w'"
  by (rule cache_levels.Get_loads [OF assms])

lemma wait_undisturbed: "0 \<le> d \<Longrightarrow> undisturbed_in (range (map_level T s)) w (wait d w)"
  by (auto simp: undisturbed_in_def map_level_def typed_view_def
      intro!: map_view_with_reads blind_reads [OF map_view_blind])

theorem multi_Get_loads_witness:
  "\<exists>w'. multiCache_Get seq_scheduler (demo_multi (Some (\<lambda>ctx k opts w. (Ok (VInt 7), wait 5 w)))) Background ''k'' []
     demo_world = (Ok (VInt 7), w')"
  using multi_Get_loads [OF map_levels.cache_levels_axioms [of TInt demo_map] demo_multi_simps(1) seq_scheduler_pool
      demo_multi_simps(2) [unfolded list.map(2) [symmetric] list.map(1) [symmetric]]
      _ demo_simps(6) _ _ _ _ demo_multi_simps(3) demo_yields wait_undisturbed, of demo_world "''k''"]
  by auto

text \<open>When every level misses and the loader fails, Get fails with an error that wraps the
  loader's (so that errors.Is still finds the cause) and no level changes.\<close>

theorem multi_Get_load_fails:
  assumes L: "cache_levels levels storable clock" and cfg: "sequential_multi sd ttl m"
    and caches: "ms_caches m = map fst ps" "set ps \<subseteq> levels" and ctx: "ctx_deadline ctx = None"
    and miss: "\<forall>q \<in> set ps. missing (snd q) w k"
    and f: "mf_LoaderFn (ms_cfg m) = Some f" "\<And>w. f ctx k opts w = (Err e, src w)"
      "\<And>w. undisturbed_in levels w (src w)"
  shows "\<exists>e' w'. multiCache_Get sd m ctx k opts w = (Err e', w') \<and> undisturbed_in levels w w' \<and>
     (\<forall>t. errors_is e t \<longrightarrow> errors_is e' t)"
proof -
  obtain w' where "multiCache_Get sd m ctx k opts w =
      (Err (Errorf ''[FetchPolicySequential] get from source failed: %w'' [AErr e]), w')" "undisturbed_in levels w w'"
    using cache_levels.Get_load_fails [OF assms] by blast
  moreover have "errors_is (Errorf ''[FetchPolicySequential] get from source failed: %w'' [AErr e]) t"
    if "errors_is e t" for t using that by (simp add: errors_is_Errorf)
  ultimately show ?thesis by blast
qed

theorem multi_Get_load_fails_witness:
  "\<exists>e' w'. multiCache_Get seq_scheduler (demo_multi (Some (\<lambda>ctx k opts w. (Err DeadlineExceeded, w)))) Background ''k'' []
     demo_world = (Err e', w') \<and> errors_is e' DeadlineExceeded"
  using multi_Get_load_fails [OF map_levels.cache_levels_axioms [of TInt demo_map] 
      demo_multi_simps(1) [of "Some (\<lambda>ctx k opts w. (Err DeadlineExceeded, w))"]
      demo_multi_simps(2) [of "Some (\<lambda>ctx k opts w. (Err DeadlineExceeded, w))"], where ctx = Background
      and w = demo_world and k = "''k''" and opts = "[]" and e = DeadlineExceeded and src = "\<lambda>w. w"]
  by (force simp: undisturbed_in_def)

text \<open>Set and Delete of the multi cache reach every level: afterwards each shows the value for its
  time to live, or nothing, and other keys are as before.\<close>

theorem multi_Set_Delete_all:
  assumes L: "cache_levels levels storable clock" and sd: "pool_law sd"
    and caches: "ms_caches m = map fst ps" "set ps \<subseteq> levels" and ctx: "ctx_deadline ctx = None"
    and v: "opts_total opts" "storable v" "0 \<le> ttl" "clock (w_now w)"
  shows "(\<exists>w'. multiCache_Set sd m ctx k v ttl opts w = (Ok (), w') \<and> updated_in levels (stored v ttl) (set ps) k w w') \<and>
     (\<exists>w'. multiCache_Delete m ctx k opts w = (Ok (), w') \<and> updated_in levels (\<lambda>t0 t. Absent) (set ps) k w w')"
  using cache_levels.Set_all [OF L sd caches ctx v] cache_levels.Delete_all [OF L caches ctx] by blast

theorem multi_Set_Delete_all_witness:
  "\<exists>w'. multiCache_Set seq_scheduler (demo_multi None) Background ''k'' (VInt 7) 10 [] demo_world = (Ok (), w')"
  using multi_Set_Delete_all [OF map_levels.cache_levels_axioms [of TInt demo_map] seq_scheduler_pool
      demo_multi_simps(2) [of None], where ctx = Background and opts = "[]" and v = "VInt 7" and ttl = 10
      and w = demo_world and k = "''k''"]
  by auto

text \<open>All the caches of a list fail, with these errors, leaving this world.\<close>

inductive all_fail :: "ctx \<Rightarrow> key \<Rightarrow> call_option list \<Rightarrow> 'x cache list \<Rightarrow> 'x world \<Rightarrow> error list \<Rightarrow> 'x world \<Rightarrow> bool"
  for ctx k opts where
  none: "all_fail ctx k opts [] w [] w"
| more: "c_Get c ctx k opts w = (Err e, w1) \<Longrightarrow> all_fail ctx k opts cs w1 es w' \<Longrightarrow>
    all_fail ctx k opts (c # cs) w (e # es) w'"

lemma all_fail_loop:
  "all_fail ctx k opts cs w es w1 \<Longrightarrow>
   fetch_loop ctx k opts i (cs @ rest) failed w = fetch_loop ctx k opts (i + length cs) rest (failed @ zip cs es) w1"
  by (induction arbitrary: i failed rule: all_fail.induct) simp_all

text \<open>The sequential policy asks the caches in order and stops at the first that answers: it returns
  that answer with the caches before it and their errors, whatever those errors are, tags the event
  with the position of the cache, and neither the caches behind it nor the loader are asked; only when all fail does it
  return the loader's value, with every cache failed and the event tagged accordingly.\<close>

theorem FetchPolicySequential_order:
  assumes "mc_Caches (fc_MultiCache gc) = cs @ rest"
    and fail: "all_fail ctx (fc_Key gc) (fc_Options gc) cs w es w1"
    and answer: "rest = c # behind \<and> c_Get c ctx (fc_Key gc) (fc_Options gc) w1 = (Ok v, w2) \<and> tag = ''cache_'' @ Itoa (length cs) \<or>
       rest = [] \<and> mc_FetchByLoader (fc_MultiCache gc) ctx (fc_Key gc) (fc_Options gc) w1 = (Ok v, w2) \<and> tag = ''loader''"
  shows "FetchPolicySequential ctx gc w = (Ok (v, zip cs es), AddCustomFields ctx [(''source'', tag)] w2)"
  using assms(1,3) all_fail_loop [OF fail, of 0 rest "[]"]
  by (auto simp: FetchPolicySequential_def)

theorem FetchPolicySequential_order_witness:
  "fst (FetchPolicySequential Background
     \<lparr>fc_Key = ''k'', fc_Options = [], fc_MultiCache = multiCache_view seq_scheduler
        (demo_multi (Some (\<lambda>ctx k opts w. (Ok (VInt 7), wait 5 w)))), fc_GotValue = VNil\<rparr> demo_world) =
   Ok (VInt 7, zip (map fst [map_level TInt demo_map 0, map_level TInt demo_map 1])
     [Errorf ''key=%s not found: %w'' [AStr ''k'', AErr ErrNotFound], Errorf ''key=%s not found: %w'' [AStr ''k'', AErr ErrNotFound]])"
proof -
  let ?e = "Errorf ''key=%s not found: %w'' [AStr ''k'', AErr ErrNotFound]"
  have m: "c_Get (fst (map_level TInt demo_map i)) Background ''k'' [] demo_world = (Err ?e, demo_world)" for i
    by (simp add: map_level_def BaseCache_Get_def SlowMapStore_Get_def sleep_0)
  then have "all_fail Background ''k'' [] (map fst [map_level TInt demo_map 0, map_level TInt demo_map 1])
      demo_world [?e, ?e] demo_world"
    by (auto intro: all_fail.intros)
  then show ?thesis
    by (subst FetchPolicySequential_order [where rest = "[]" and tag = "''loader''" and v = "VInt 7" and ?w2.0 = "wait 5 demo_world"])
      (auto simp: multiCache_view_def multiCache_FetchByLoader_def)
qed

text \<open>What a failed write-back does to Get is decided by the error mode alone: strict returns the
  error, tolerant logs it and returns the value, any other mode is itself an error.\<close>

theorem multi_Get_error_modes:
  assumes gc: "gc = \<lparr>fc_Key = k, fc_Options = opts, fc_MultiCache = multiCache_view sd m, fc_GotValue = v0\<rparr>" "v0 = VNil"
    and cfg: "mf_FetchPolicy (ms_cfg m) = Some fetch" "mf_WriteBackCacheFilter (ms_cfg m) = Some flt"
      "mf_WriteBackFn (ms_cfg m) = Some wb" "mf_Observable (ms_cfg m) = Some ob" "ob_Logger ob = Some lg"
    and fetch: "fetch ctx gc w = (Ok (v, failed), w1)"
    and wb: "wb ctx (gc\<lparr>fc_GotValue := v\<rparr>) (flt ctx (gc\<lparr>fc_GotValue := v\<rparr>) failed) w1 = (Err err, w2)"
    and get: "multiCache_Get sd m ctx k opts w = (r, w')"
  shows "(mf_ErrorHandleMode (ms_cfg m) = ErrorHandleStrict \<longrightarrow> r = Err err \<and> w' = w2) \<and>
     (mf_ErrorHandleMode (ms_cfg m) = ErrorHandleTolerant \<longrightarrow> r = Ok v \<and>
        w' = lg_ErrorContext lg ctx ''[multiCache] cache write back error'' [(''key'', AStr k), (''error'', AErr err)] w2) \<and>
     (mf_ErrorHandleMode (ms_cfg m) \<notin> {ErrorHandleStrict, ErrorHandleTolerant} \<longrightarrow> (\<exists>e. r = Err e) \<and> w' = w2)"
  using assms
  by (auto simp: multiCache_Get_def multiCache_writeBack_def ErrorHandleStrict_def ErrorHandleTolerant_def
      log_error_def Let_def)

theorem multi_Get_error_modes_witness:
  "fst (multiCache_Get seq_scheduler \<lparr>ms_caches = [], ms_cfg =
      \<lparr>mf_LoaderFn = None, mf_FetchPolicy = Some (\<lambda>ctx gc w. (Ok (VInt 7, []), w)),
       mf_WriteBackCacheFilter = Some MissedCacheFilter,
       mf_WriteBackFn = Some (\<lambda>ctx gc cs w. (Err (Foreign ''write back failed''), w)),
       mf_ErrorHandleMode = ErrorHandleStrict, mf_Observable = Some (DefaultObservable no_slog)\<rparr>\<rparr>
     Background ''k'' [] demo_world) = Err (Foreign ''write back failed'')"
proof -
  let ?m = "\<lparr>ms_caches = [], ms_cfg =
      \<lparr>mf_LoaderFn = None, mf_FetchPolicy = Some (\<lambda>ctx gc w. (Ok (VInt 7, []), w)),
       mf_WriteBackCacheFilter = Some MissedCacheFilter,
       mf_WriteBackFn = Some (\<lambda>ctx gc cs w. (Err (Foreign ''write back failed''), w)),
       mf_ErrorHandleMode = ErrorHandleStrict, mf_Observable = Some (DefaultObservable no_slog)\<rparr>\<rparr> :: map_heap multi_state"
  obtain r w' where g: "multiCache_Get seq_scheduler ?m Background ''k'' [] demo_world = (r, w')" by fastforce
  have "r = Err (Foreign ''write back failed'')"
    using multi_Get_error_modes [OF refl refl _ _ _ _ _ _ _ g] by (simp add: DefaultObservable_def)
  with g show ?thesis by simp
qed

lemma run_tasks_results:
  "(\<And>y w. y \<in> set ys \<Longrightarrow> fst (F y w) = res y) \<Longrightarrow> fst (run_tasks (map F ys) w) = map res ys"
proof (induction ys arbitrary: w)
  case (Cons y ys)
  have "fst (F y w) = res y" using Cons.prems by simp
  moreover have "fst (run_tasks (map F ys) w1) = map res ys" for w1 using Cons.IH Cons.prems by simp
  ultimately show ?case by (simp add: split_beta)
qed simp

lemma final_errs_set: "set (List.map_filter final_err rs) = {e. Err e \<in> set rs}"
  by (induction rs) (auto simp: map_filter_simps final_err_def split: outcome.splits)

lemma pool_results:
  assumes sd: "pool_law sd" and res: "\<And>c w. c \<in> set cs \<Longrightarrow> fst (F c w) = res c"
    and p: "\<And>c. c \<in> set cs \<Longrightarrow> \<not> is_panic (res c)"
  shows "case fst (sd_Wait sd first (map F cs) w) of
      Ok u \<Rightarrow> \<forall>c \<in> set cs. res c = Ok ()
    | Err j \<Rightarrow> if first then \<exists>c \<in> set cs. res c = Err j
               else \<forall>c \<in> set cs. \<forall>e t. res c = Err e \<and> errors_is e t \<longrightarrow> errors_is j t
    | Panic m \<Rightarrow> False"
proof -
  obtain ys where ys: "mset ys = mset cs" "sd_Wait sd first (map F cs) w =
      (let (rs, w') = run_tasks (map F ys) w in (wait_result first rs, w'))"
    by (rule pool_map [OF sd])
  have s: "set ys = set cs" by (rule mset_eq_setD [OF ys(1)])
  have r: "fst (sd_Wait sd first (map F cs) w) = wait_result first (map res ys)"
    using run_tasks_results [of ys F res w] res s ys(2) by (simp add: split_beta)
  have np: "filter is_panic (map res ys) = []" using p s by (auto simp: filter_empty_conv)
  have e: "\<And>e. e \<in> set (List.map_filter final_err (map res ys)) \<longleftrightarrow> (\<exists>c \<in> set cs. res c = Err e)"
    by (auto simp: final_errs_set s [symmetric]) (metis imageI)
  show ?thesis
  proof (cases "List.map_filter final_err (map res ys)")
    case Nil
    then have ne: "res c \<noteq> Err e" if "c \<in> set cs" for c e using e [of e] that by auto
    have "res c = Ok ()" if "c \<in> set cs" for c
      using ne [OF that] p [OF that] by (cases "res c") auto
    with Nil r np show ?thesis by (simp add: wait_result_def)
  next
    case (Cons e1 es)
    have "errors_is (JoinError (e1 # es)) t" if "c \<in> set cs" "res c = Err e2" "errors_is e2 t" for c e2 t
    proof -
      have "e2 \<in> set (e1 # es)" using e [of e2] Cons that(1,2) by auto
      with that(3) show ?thesis by (auto simp: errors_is_JoinError list_ex_iff)
    qed
    with Cons r np e [of e1] show ?thesis by (simp add: wait_result_def)
  qed
qed



section \<open>The builders\<close>

text \<open>The write-back builder. A synchronous write-back returns the error of the write-back function and
  calls the callback exactly when there is one; an asynchronous one always reports success at once, and the goroutine
  calls the callback in either case, with nil when nothing failed.\<close>

theorem write_back_Build_callback:
  assumes fn: "buildBasicFn sd wb ctx gc cs w = (r, w1)" "\<not> is_panic r"
    and cb: "buildCallback wb ctx gc cs (final_err r) w1 = (Ok (), w2)"
    and go: "\<And>body w. sd_go sd body w = body w"
  shows "write_back_Build sd wb ctx gc cs w =
     (if wb_Async wb then (Ok (), w2) else if final_err r = None then (r, w1) else (r, w2))"
  using assms
  by (cases r) (simp_all add: write_back_Build_def asyncDecorator_def wrapErrCallback_def panics_Try_def final_err_def Let_def)

theorem write_back_Build_callback_witness:
  "w_now (snd (write_back_Build seq_scheduler
     (write_back_DefaultBuilder\<lparr>wb_Async := True, wb_ErrCallback := Some (\<lambda>ctx gc cs err w. (Ok (), wait (if err = None then 1 else 2) w))\<rparr>)
     Background \<lparr>fc_Key = ''k'', fc_Options = [], fc_MultiCache = multiCache_view seq_scheduler (demo_multi None),
                 fc_GotValue = VInt 7\<rparr> [] demo_world)) = 1000000001"
proof -
  let ?wb = "write_back_DefaultBuilder\<lparr>wb_Async := True,
      wb_ErrCallback := Some (\<lambda>ctx gc cs err w. (Ok (), wait (if err = None then 1 else 2) w))\<rparr> :: map_heap write_back_builder"
  let ?gc = "\<lparr>fc_Key = ''k'', fc_Options = [], fc_MultiCache = multiCache_view seq_scheduler (demo_multi None),
                 fc_GotValue = VInt 7\<rparr>"
  have "buildBasicFn seq_scheduler ?wb Background ?gc [] demo_world = (Ok (), demo_world)"
    by (simp add: buildBasicFn_def write_back_DefaultBuilder_def WriteBackParallel_def seq_scheduler_def
        wait_result_def map_filter_simps)
  from write_back_Build_callback [OF this, of "wait 1 demo_world"] show ?thesis
    by (simp add: buildCallback_def final_err_def seq_scheduler_def write_back_DefaultBuilder_def)
qed

text \<open>MultiBuilder refuses exactly an empty name and a missing loader that was not declared optional;
  everything else builds.\<close>

theorem Multi_Build_rejects_iff:
  assumes "name = [] \<longleftrightarrow> mb_err b \<noteq> None"
  shows "(if name = [] \<or> (mb_needLoaderFnNilCheck b \<and> mf_LoaderFn (mb_cfg b) = None)
     then \<exists>e. Multi_Build sd T rt b w = (Err e, w) else \<exists>mc. fst (Multi_Build sd T rt b w) = Ok mc) \<and>
     (mb_err (NewMultiBuilder sd slog name cs) \<noteq> None \<longleftrightarrow> name = []) \<and>
     mb_needLoaderFnNilCheck (NewMultiBuilder sd slog name cs) \<and> mf_LoaderFn (mb_cfg (NewMultiBuilder sd slog name cs)) = None"
  using assms
  by (auto simp: Multi_Build_def NewMultiBuilder_def multicache_New_def new_group_def Let_def
      split: option.splits)

theorem Multi_Build_rejects_iff_witness:
  "\<exists>e. Multi_Build seq_scheduler TInt seq_runtime (NewMultiBuilder seq_scheduler no_slog ''m'' []) demo_world = (Err e, demo_world)"
  using Multi_Build_rejects_iff [of "''m''" "NewMultiBuilder seq_scheduler no_slog ''m'' []" seq_scheduler TInt seq_runtime
      demo_world no_slog "[]"]
  by (simp add: NewMultiBuilder_def)

lemma multi_default_Build:
  assumes "name \<noteq> []"
  shows "Multi_Build sd T rt (WithLoader (Some f) (NewMultiBuilder sd slog name cs)) w =
     (Ok (multi_newObservableDecorator name
        (multiCache sd \<lparr>ms_caches = cs, ms_cfg = \<lparr>mf_LoaderFn = Some (SingleflightWrapper T rt (w_groups w) f),
           mf_FetchPolicy = Some FetchPolicySequential, mf_WriteBackCacheFilter = Some MissedCacheFilter,
           mf_WriteBackFn = Some (WriteBackParallel sd Minute), mf_ErrorHandleMode = ErrorHandleTolerant,
           mf_Observable = Some (DefaultObservable slog)\<rparr>\<rparr>) (DefaultObservable slog)),
      snd (new_group w))"
  using assms
  by (simp add: Multi_Build_def WithLoader_def NewMultiBuilder_def multicache_New_def new_group_def
      DefaultObservable_def Let_def)

lemma mo_run_default:
  assumes L: "cache_levels levels storable clock"
    and call: "\<And>ctx' w1. ctx_deadline ctx' = ctx_deadline ctx \<Longrightarrow> undisturbed_in levels w w1 \<Longrightarrow> w_now w1 = w_now w \<Longrightarrow>
      \<exists>w2. call ctx' w1 = (r, w2) \<and> updated_in levels new ps k w1 w2"
  shows "\<exists>w'. mo_run \<lparr>mo_inner = inner, mo_ob = DefaultObservable slog, mo_name = name\<rparr> op msg get call ctx w = (r, w') \<and>
     updated_in levels new ps k w w'"
proof -
  let ?e = "fst (new_event op name [] w)" and ?w1 = "snd (new_event op name [] w)"
  let ?ctx = "ContextWithEvent ctx ?e"
  have quiet: "undisturbed_in levels x y" if "w_ext y = w_ext x" "w_now y = w_now x" for x y
  proof -
    have "reads (snd q) x y" if "q \<in> levels" for q
      by (rule blind_reads [OF cache_contract.view_blind [OF cache_levels.level [OF L that]]])
        (use \<open>w_ext y = w_ext x\<close> \<open>w_now y = w_now x\<close> in simp_all)
    then show ?thesis using that by (simp add: undisturbed_in_def)
  qed
  have w1: "undisturbed_in levels w ?w1" by (rule quiet) simp_all
  obtain w2 where c: "call ?ctx ?w1 = (r, w2)" "updated_in levels new ps k ?w1 w2"
    using call [of ?ctx ?w1] w1 by auto
  let ?w3 = "update_event ?e (complete_event get (final_err r) (w_now w2 - w_now w)) w2"
  have w3: "undisturbed_in levels w2 ?w3" by (rule quiet) simp_all
  have "mo_run \<lparr>mo_inner = inner, mo_ob = DefaultObservable slog, mo_name = name\<rparr> op msg get call ctx w = (r, ?w3)"
    using c(1) by (simp add: mo_run_def split_beta obs_defer_def record_event_def DefaultObservable_def NoopMetrics_def)
  moreover have "updated_in levels new ps k w ?w3"
    using cache_levels.updated_from [OF L w1 cache_levels.updated_to [OF L c(2) w3]] .
  ultimately show ?thesis by blast
qed

text \<open>C7: end to end. A multi cache built with the defaults and a loader, over levels that keep the
  contract and do not disturb one another: when every level misses, Get loads the value through the
  singleflight wrapper, records one event, returns the value, and leaves it in every level for a
  minute; when the first levels miss and the next holds the value, Get returns it and refills those.\<close>

theorem Multi_Build_Get:
  assumes L: "cache_levels levels storable clock" and sd: "pool_law sd" and rt: "sequential rt" and name: "name \<noteq> []"
    and caches: "set ps \<subseteq> levels" "ps = pre @ post" and ctx: "ctx_deadline ctx = None"
    and v: "storable v" "clock (w_now w)" "type_assert T v = Some v"
    and f: "\<And>ctx'. yields f ctx' k opts v src" "\<And>w. undisturbed_in levels w (src w)"
    and miss: "\<forall>q \<in> set pre. missing (snd q) w k"
    and below: "post = [] \<or> (\<exists>p behind. post = p # behind \<and> held (snd p) w k v)"
    and build: "fst (Multi_Build sd T rt (WithLoader (Some f) (NewMultiBuilder sd slog name (map fst ps))) w0) = Ok mc"
  shows "\<exists>w'. mc_Get mc ctx k opts w = (Ok v, w') \<and> updated_in levels (stored v Minute) (set pre) k w w'"
proof -
  let ?f = "SingleflightWrapper T rt (w_groups w0) f"
  let ?m = "\<lparr>ms_caches = map fst ps, ms_cfg = \<lparr>mf_LoaderFn = Some ?f,
           mf_FetchPolicy = Some FetchPolicySequential, mf_WriteBackCacheFilter = Some MissedCacheFilter,
           mf_WriteBackFn = Some (WriteBackParallel sd Minute), mf_ErrorHandleMode = ErrorHandleTolerant,
           mf_Observable = Some (DefaultObservable slog)\<rparr>\<rparr>"
  have mc: "mc_Get mc = multiObservable_Get \<lparr>mo_inner = multiCache sd ?m, mo_ob = DefaultObservable slog, mo_name = name\<rparr>"
    using build by (auto simp: multi_default_Build [OF name] multi_newObservableDecorator_def Let_def)
  have cfg: "sequential_multi sd Minute ?m" by (simp add: sequential_multi_def)
  have "\<exists>w2. multiCache_Get sd ?m ctx' k opts w1 = (Ok v, w2) \<and> updated_in levels (stored v Minute) (set pre) k w1 w2"
    if c': "ctx_deadline ctx' = ctx_deadline ctx" and w1: "undisturbed_in levels w w1" "w_now w1 = w_now w" for ctx' w1
  proof -
    have d: "ctx_deadline ctx' = None" using c' ctx by simp
    have clk: "clock (w_now w1)" using v(2) w1(2) by simp
    have miss1: "\<forall>q \<in> set pre. missing (snd q) w1 k"
    proof
      fix q assume q: "q \<in> set pre"
      then have "q \<in> levels" using caches by auto
      then show "missing (snd q) w1 k"
        using cache_levels.missing_later [OF L w1(1)] miss q by blast
    qed
    from below show ?thesis
    proof (elim disjE exE conjE)
      assume "post = []"
      moreover have "yields ?f ctx' k opts v src"
        using f(1) [of ctx'] v(3) by (simp add: yields_def SingleflightWrapper_def sequential_DoChan [OF rt d])
      ultimately show ?thesis
        using cache_levels.Get_loads [OF L cfg sd _ _ d v(1) _ clk miss1 _ _ f(2)] caches by simp
    next
      fix p behind assume p: "post = p # behind" "held (snd p) w k v"
      have "p \<in> levels" using p(1) caches by simp
      moreover have "held (snd p) w1 k v"
        using p(2) w1 \<open>p \<in> levels\<close> by (auto simp: held_def undisturbed_in_def reads_def)
      ultimately show ?thesis
        using cache_levels.Get_hit [OF L cfg sd _ _ _ d v(1) _ clk miss1, of p "map fst behind" opts] p(1) caches by simp
    qed
  qed
  then show ?thesis
    unfolding mc multiObservable_Get_def by (intro mo_run_default [OF L]) (simp add: multiCache_def)
qed

theorem Multi_Build_Get_witness:
  "\<exists>mc w'. fst (Multi_Build seq_scheduler TInt seq_runtime (WithLoader (Some (\<lambda>ctx k opts w. (Ok (VInt 7), wait 5 w)))
       (NewMultiBuilder seq_scheduler no_slog ''m'' (map fst [map_level TInt demo_map 0, map_level TInt demo_map 1]))) demo_world) = Ok mc \<and>
     mc_Get mc Background ''k'' [] demo_world = (Ok (VInt 7), w')"
proof -
  let ?ps = "[map_level TInt demo_map 0, map_level TInt demo_map 1]"
  obtain mc where b: "fst (Multi_Build seq_scheduler TInt seq_runtime (WithLoader (Some (\<lambda>ctx k opts w. (Ok (VInt 7), wait 5 w)))
       (NewMultiBuilder seq_scheduler no_slog ''m'' (map fst ?ps))) demo_world) = Ok mc"
    by (simp add: multi_default_Build)
  have "\<exists>w'. mc_Get mc Background ''k'' [] demo_world = (Ok (VInt 7), w') \<and>
      updated_in (range (map_level TInt demo_map)) (stored (VInt 7) Minute) (set ?ps) ''k'' demo_world w'"
    by (rule Multi_Build_Get [OF map_levels.cache_levels_axioms seq_scheduler_pool seq_runtime_sequential _ _ _ _ _ _ _
          demo_yields wait_undisturbed _ _ b, where post = "[]"]) auto
  with b show ?thesis by blast
qed

end
