(* ===== verification/Store_Suite.thy ===== *)
theory Store_Suite
  imports Redis_Store
begin

text \<open>
  stores/storetests: the conformance suite every store adapter of the repository is run against
  (testsuite.go, option.go). A test case is a function from the world to its verdict: a failed
  \<open>require\<close> ends the case, a failed \<open>assert\<close> is remembered. The value a store returns beside
  a non-nil error is nil in every adapter, which is what \<open>got\<close> reads there. Each case gets a
  store of its own; the calls made on \<open>t\<close> by the configured callbacks are their verdicts.
\<close>

section \<open>Test cases\<close>

type_synonym 'x verdict = "'x world \<Rightarrow> bool \<times> 'x world"

definition t_end :: "'x verdict" where
  "t_end w = (True, w)"

definition t_call :: "('x world \<Rightarrow> 'a \<times> 'x world) \<Rightarrow> ('a \<Rightarrow> 'x verdict) \<Rightarrow> 'x verdict" where
  "t_call op k w = (case op w of (r, w') \<Rightarrow> k r w')"

definition t_do :: "('x world \<Rightarrow> 'x world) \<Rightarrow> 'x verdict \<Rightarrow> 'x verdict" where
  "t_do f k w = k (f w)"

text \<open>\<open>ctx, cancel := context.WithCancel(t.Context()); cancel()\<close>\<close>

definition t_cancelled :: "(ctx \<Rightarrow> 'x verdict) \<Rightarrow> 'x verdict" where
  "t_cancelled k w = k \<lparr>ctx_deadline = Some (w_now w, Canceled), ctx_event = None\<rparr> w"

definition require :: "bool \<Rightarrow> 'x verdict \<Rightarrow> 'x verdict" where
  "require b k w = (if b then k w else (False, w))"

definition assert_that :: "bool \<Rightarrow> 'x verdict \<Rightarrow> 'x verdict" where
  "assert_that b k w = (case k w of (p, w') \<Rightarrow> (b \<and> p, w'))"

definition NoError :: "'a result \<Rightarrow> bool" where
  "NoError r = (case r of Ok v \<Rightarrow> True | _ \<Rightarrow> False)"

definition AnError :: "'a result \<Rightarrow> bool" where
  "AnError r = (case r of Err e \<Rightarrow> True | _ \<Rightarrow> False)"

definition ErrorIs :: "'a result \<Rightarrow> error \<Rightarrow> bool" where
  "ErrorIs r t = (case r of Err e \<Rightarrow> errors_is e t | _ \<Rightarrow> False)"

definition got :: "'a \<Rightarrow> 'a result \<Rightarrow> 'a" where
  "got zero r = (case r of Ok v \<Rightarrow> v | _ \<Rightarrow> zero)"

section \<open>The configuration\<close>

record 'x suite_config =
  WaitingAfterWrite :: "'x store \<Rightarrow> 'x world \<Rightarrow> 'x world"
  SetOptions :: "call_option list"
  EncodeSetValue :: "string \<Rightarrow> gval"
  AssertValue :: "gval \<Rightarrow> string \<Rightarrow> bool"
  SkipTests :: "string list"

type_synonym 'x suite_option = "'x suite_config \<Rightarrow> 'x suite_config"

definition WithWaitingAfterWrite :: "('x store \<Rightarrow> 'x world \<Rightarrow> 'x world) \<Rightarrow> 'x suite_option" where
  "WithWaitingAfterWrite f c = c\<lparr>WaitingAfterWrite := f\<rparr>"

definition WithSetOptions :: "call_option list \<Rightarrow> 'x suite_option" where
  "WithSetOptions opts c = c\<lparr>SetOptions := opts\<rparr>"

definition WithEncodeSetValue :: "(string \<Rightarrow> gval) \<Rightarrow> 'x suite_option" where
  "WithEncodeSetValue f c = c\<lparr>EncodeSetValue := f\<rparr>"

definition WithAssertValue :: "(gval \<Rightarrow> string \<Rightarrow> bool) \<Rightarrow> 'x suite_option" where
  "WithAssertValue f c = c\<lparr>AssertValue := f\<rparr>"

definition WithSkipTests :: "string list \<Rightarrow> 'x suite_option" where
  "WithSkipTests ts c = c\<lparr>SkipTests := ts\<rparr>"

definition NewConfig :: "'x suite_config" where
  "NewConfig = \<lparr>WaitingAfterWrite = (\<lambda>s w. w), SetOptions = [], EncodeSetValue = VString,
                AssertValue = (\<lambda>got expected. got = VString expected), SkipTests = []\<rparr>"

section \<open>The cases\<close>

definition clear_keys :: "key list" where
  "clear_keys = [''clear-key1'', ''clear-key2'', ''clear-key3'']"

definition Get_ExistingKey :: "'x suite_config \<Rightarrow> 'x store \<Rightarrow> 'x verdict" where
  "Get_ExistingKey cfg s =
     t_call (c_Set s Background ''key1'' (EncodeSetValue cfg ''value1'') Minute (SetOptions cfg)) (\<lambda>err.
     require (NoError err) (
     t_do (WaitingAfterWrite cfg s) (
     t_call (c_Get s Background ''key1'' []) (\<lambda>val.
     assert_that (NoError val) (
     assert_that (AssertValue cfg (got VNil val) ''value1'') (
     t_end))))))"

definition Get_NonExistingKey :: "'x suite_config \<Rightarrow> 'x store \<Rightarrow> 'x verdict" where
  "Get_NonExistingKey cfg s =
     t_call (c_Get s Background ''non-existing-key'' []) (\<lambda>val.
     assert_that (got VNil val = VNil) (
     assert_that (AnError val) (
     assert_that (ErrorIs val ErrNotFound) (
     t_end))))"

definition Get_ExpiredKey :: "'x suite_config \<Rightarrow> 'x store \<Rightarrow> 'x verdict" where
  "Get_ExpiredKey cfg s =
     t_call (c_Set s Background ''expired-key'' (EncodeSetValue cfg ''value'') Second (SetOptions cfg)) (\<lambda>err.
     require (NoError err) (
     t_do (WaitingAfterWrite cfg s) (
     t_do (sleep (1100 * Millisecond)) (
     t_call (c_Get s Background ''expired-key'' []) (\<lambda>val.
     assert_that (got VNil val = VNil) (
     assert_that (AnError val) (
     assert_that (ErrorIs val ErrNotFound) (
     t_end))))))))"

definition Get_WithOptions :: "'x suite_config \<Rightarrow> 'x store \<Rightarrow> 'x verdict" where
  "Get_WithOptions cfg s =
     t_call (c_Set s Background ''option-key'' (EncodeSetValue cfg ''option-value'') Minute (SetOptions cfg)) (\<lambda>err.
     require (NoError err) (
     t_do (WaitingAfterWrite cfg s) (
     t_call (c_Get s Background ''option-key'' [WithOptionCustomField ''custom'' (VString ''field'')]) (\<lambda>val.
     assert_that (NoError val) (
     assert_that (AssertValue cfg (got VNil val) ''option-value'') (
     t_end))))))"

definition Get_ContextCancelled :: "'x suite_config \<Rightarrow> 'x store \<Rightarrow> 'x verdict" where
  "Get_ContextCancelled cfg s =
     t_cancelled (\<lambda>ctx.
     t_call (c_Set s Background ''cancel-key'' (EncodeSetValue cfg ''value'') Minute (SetOptions cfg)) (\<lambda>err.
     require (NoError err) (
     t_do (WaitingAfterWrite cfg s) (
     t_call (c_Get s ctx ''cancel-key'' []) (\<lambda>val.
     assert_that (got VNil val = VNil) (
     require (AnError val) (
     assert_that (ErrorIs val Canceled) (
     t_end))))))))"

definition Set_NewKey :: "'x suite_config \<Rightarrow> 'x store \<Rightarrow> 'x verdict" where
  "Set_NewKey cfg s =
     t_call (c_Set s Background ''new-key'' (EncodeSetValue cfg ''new-value'') Minute (SetOptions cfg)) (\<lambda>err.
     assert_that (NoError err) (
     t_do (WaitingAfterWrite cfg s) (
     t_call (c_Get s Background ''new-key'' []) (\<lambda>val.
     assert_that (NoError val) (
     assert_that (AssertValue cfg (got VNil val) ''new-value'') (
     t_end))))))"

definition Set_OverwriteExistingKey :: "'x suite_config \<Rightarrow> 'x store \<Rightarrow> 'x verdict" where
  "Set_OverwriteExistingKey cfg s =
     t_call (c_Set s Background ''overwrite-key'' (EncodeSetValue cfg ''old-value'') Minute (SetOptions cfg)) (\<lambda>err.
     require (NoError err) (
     t_do (WaitingAfterWrite cfg s) (
     t_call (c_Set s Background ''overwrite-key'' (EncodeSetValue cfg ''new-value'') Minute (SetOptions cfg)) (\<lambda>err.
     assert_that (NoError err) (
     t_do (WaitingAfterWrite cfg s) (
     t_call (c_Get s Background ''overwrite-key'' []) (\<lambda>val.
     assert_that (NoError val) (
     assert_that (AssertValue cfg (got VNil val) ''new-value'') (
     t_end)))))))))"

definition Set_ZeroTTL :: "'x suite_config \<Rightarrow> 'x store \<Rightarrow> 'x verdict" where
  "Set_ZeroTTL cfg s =
     t_call (c_Set s Background ''zero-ttl-key'' (EncodeSetValue cfg ''value'') 0 (SetOptions cfg)) (\<lambda>err.
     assert_that (NoError err) (
     t_do (WaitingAfterWrite cfg s) (
     t_do (sleep (50 * Millisecond)) (
     t_call (c_Get s Background ''zero-ttl-key'' []) (\<lambda>val.
     assert_that (NoError val) (
     assert_that (AssertValue cfg (got VNil val) ''value'') (
     t_end)))))))"

definition Set_NegativeTTL :: "'x suite_config \<Rightarrow> 'x store \<Rightarrow> 'x verdict" where
  "Set_NegativeTTL cfg s =
     t_call (c_Set s Background ''negative-ttl-key'' (EncodeSetValue cfg ''value'') (- 1 * Second) (SetOptions cfg)) (\<lambda>err.
     assert_that (ErrorIs err ErrInvalidTTL) (
     t_end))"

definition Set_WithOptions :: "'x suite_config \<Rightarrow> 'x store \<Rightarrow> 'x verdict" where
  "Set_WithOptions cfg s =
     t_call (c_Set s Background ''options-key'' (EncodeSetValue cfg ''value'') Minute (SetOptions cfg @ [WithOptionCustomField ''cost'' (VInt 10)])) (\<lambda>err.
     assert_that (NoError err) (
     t_do (WaitingAfterWrite cfg s) (
     t_call (c_Get s Background ''options-key'' []) (\<lambda>val.
     assert_that (NoError val) (
     assert_that (AssertValue cfg (got VNil val) ''value'') (
     t_end))))))"

definition Set_ContextCancelled :: "'x suite_config \<Rightarrow> 'x store \<Rightarrow> 'x verdict" where
  "Set_ContextCancelled cfg s =
     t_cancelled (\<lambda>ctx.
     t_call (c_Set s ctx ''cancel-set-key'' (EncodeSetValue cfg ''value'') Minute (SetOptions cfg)) (\<lambda>err.
     require (AnError err) (
     assert_that (ErrorIs err Canceled) (
     t_end))))"

definition GetWithTTL_ExistingKey :: "'x suite_config \<Rightarrow> 'x store \<Rightarrow> 'x verdict" where
  "GetWithTTL_ExistingKey cfg s =
     t_call (c_Set s Background ''ttl-key'' (EncodeSetValue cfg ''value'') Minute (SetOptions cfg)) (\<lambda>err.
     require (NoError err) (
     t_do (WaitingAfterWrite cfg s) (
     t_call (c_GetWithTTL s Background ''ttl-key'' []) (\<lambda>ret.
     assert_that (NoError ret) (
     assert_that (AssertValue cfg (fst (got (VNil, 0) ret)) ''value'') (
     assert_that (0 < snd (got (VNil, 0) ret) \<and> snd (got (VNil, 0) ret) \<le> Minute) (
     t_end)))))))"

definition GetWithTTL_NonExistingKey :: "'x suite_config \<Rightarrow> 'x store \<Rightarrow> 'x verdict" where
  "GetWithTTL_NonExistingKey cfg s =
     t_call (c_GetWithTTL s Background ''non-existing-ttl-key'' []) (\<lambda>ret.
     assert_that (fst (got (VNil, 0) ret) = VNil) (
     assert_that (snd (got (VNil, 0) ret) = 0) (
     assert_that (AnError ret) (
     assert_that (ErrorIs ret ErrNotFound) (
     t_end)))))"

definition GetWithTTL_TTLDecreasing :: "'x suite_config \<Rightarrow> 'x store \<Rightarrow> 'x verdict" where
  "GetWithTTL_TTLDecreasing cfg s =
     t_call (c_Set s Background ''decreasing-ttl-key'' (EncodeSetValue cfg ''value'') (5 * Second) (SetOptions cfg)) (\<lambda>err.
     require (NoError err) (
     t_do (WaitingAfterWrite cfg s) (
     t_call (c_GetWithTTL s Background ''decreasing-ttl-key'' []) (\<lambda>ret1.
     require (NoError ret1) (
     t_do (sleep (100 * Millisecond)) (
     t_call (c_GetWithTTL s Background ''decreasing-ttl-key'' []) (\<lambda>ret2.
     require (NoError ret2) (
     assert_that (snd (got (VNil, 0) ret2) < snd (got (VNil, 0) ret1)) (
     t_end)))))))))"

definition GetWithTTL_NoExpiry :: "'x suite_config \<Rightarrow> 'x store \<Rightarrow> 'x verdict" where
  "GetWithTTL_NoExpiry cfg s =
     t_call (c_Set s Background ''no-expiry-key'' (EncodeSetValue cfg ''value'') 0 (SetOptions cfg)) (\<lambda>err.
     require (NoError err) (
     t_do (WaitingAfterWrite cfg s) (
     t_call (c_GetWithTTL s Background ''no-expiry-key'' []) (\<lambda>ret.
     assert_that (NoError ret) (
     assert_that (AssertValue cfg (fst (got (VNil, 0) ret)) ''value'') (
     assert_that (snd (got (VNil, 0) ret) = 0) (
     t_end)))))))"

definition GetWithTTL_WithOptions :: "'x suite_config \<Rightarrow> 'x store \<Rightarrow> 'x verdict" where
  "GetWithTTL_WithOptions cfg s =
     t_call (c_Set s Background ''ttl-option-key'' (EncodeSetValue cfg ''value'') Minute (SetOptions cfg)) (\<lambda>err.
     require (NoError err) (
     t_do (WaitingAfterWrite cfg s) (
     t_call (c_GetWithTTL s Background ''ttl-option-key'' [WithOptionCustomField ''custom'' (VString ''field'')]) (\<lambda>ret.
     assert_that (NoError ret) (
     assert_that (AssertValue cfg (fst (got (VNil, 0) ret)) ''value'') (
     assert_that (0 < snd (got (VNil, 0) ret)) (
     t_end)))))))"

definition Delete_ExistingKey :: "'x suite_config \<Rightarrow> 'x store \<Rightarrow> 'x verdict" where
  "Delete_ExistingKey cfg s =
     t_call (c_Set s Background ''delete-key'' (EncodeSetValue cfg ''value'') Minute (SetOptions cfg)) (\<lambda>err.
     require (NoError err) (
     t_do (WaitingAfterWrite cfg s) (
     t_call (c_Delete s Background ''delete-key'' []) (\<lambda>err.
     assert_that (NoError err) (
     t_call (c_Get s Background ''delete-key'' []) (\<lambda>val.
     assert_that (got VNil val = VNil) (
     assert_that (AnError val) (
     assert_that (ErrorIs val ErrNotFound) (
     t_end)))))))))"

definition Delete_NonExistingKey :: "'x suite_config \<Rightarrow> 'x store \<Rightarrow> 'x verdict" where
  "Delete_NonExistingKey cfg s =
     t_call (c_Delete s Background ''non-existing-delete-key'' []) (\<lambda>err.
     assert_that (NoError err) (
     t_end))"

definition Delete_WithOptions :: "'x suite_config \<Rightarrow> 'x store \<Rightarrow> 'x verdict" where
  "Delete_WithOptions cfg s =
     t_call (c_Set s Background ''delete-option-key'' (EncodeSetValue cfg ''value'') Minute (SetOptions cfg)) (\<lambda>err.
     require (NoError err) (
     t_do (WaitingAfterWrite cfg s) (
     t_call (c_Delete s Background ''delete-option-key'' []) (\<lambda>err.
     assert_that (NoError err) (
     t_call (c_Get s Background ''delete-option-key'' []) (\<lambda>val.
     assert_that (ErrorIs val ErrNotFound) (
     t_end)))))))"

definition Delete_ContextCancelled :: "'x suite_config \<Rightarrow> 'x store \<Rightarrow> 'x verdict" where
  "Delete_ContextCancelled cfg s =
     t_call (c_Set s Background ''cancel-delete-key'' (EncodeSetValue cfg ''value'') Minute (SetOptions cfg)) (\<lambda>err.
     require (NoError err) (
     t_do (WaitingAfterWrite cfg s) (
     t_cancelled (\<lambda>ctx.
     t_call (c_Delete s ctx ''cancel-delete-key'' []) (\<lambda>err.
     require (AnError err) (
     assert_that (ErrorIs err Canceled) (
     t_end)))))))"

definition Clear_EmptyStore :: "'x suite_config \<Rightarrow> 'x store \<Rightarrow> 'x verdict" where
  "Clear_EmptyStore cfg s =
     t_call (c_Clear s Background) (\<lambda>err.
     assert_that (NoError err) (
     t_end))"

definition Clear_NonEmptyStore :: "'x suite_config \<Rightarrow> 'x store \<Rightarrow> 'x verdict" where
  "Clear_NonEmptyStore cfg s =
     foldr (\<lambda>key rest. t_call (c_Set s Background key (EncodeSetValue cfg ''value'') Minute (SetOptions cfg)) (\<lambda>err. require (NoError err) rest)) clear_keys (
     t_do (WaitingAfterWrite cfg s) (
     foldr (\<lambda>key rest. t_call (c_Get s Background key []) (\<lambda>val. require (NoError val) rest)) clear_keys (
     t_call (c_Clear s Background) (\<lambda>err.
     assert_that (NoError err) (
     foldr (\<lambda>key rest. t_call (c_Get s Background key []) (\<lambda>val. assert_that (got VNil val = VNil) (assert_that (ErrorIs val ErrNotFound) rest))) clear_keys (
     t_end))))))"

definition Clear_ContextCancelled :: "'x suite_config \<Rightarrow> 'x store \<Rightarrow> 'x verdict" where
  "Clear_ContextCancelled cfg s =
     t_cancelled (\<lambda>ctx.
     t_call (c_Clear s ctx) (\<lambda>err.
     require (AnError err) (
     assert_that (ErrorIs err Canceled) (
     t_end))))"

definition Clear_MultipleTimes :: "'x suite_config \<Rightarrow> 'x store \<Rightarrow> 'x verdict" where
  "Clear_MultipleTimes cfg s =
     ((\<lambda>rest. t_call (c_Clear s Background) (\<lambda>err. assert_that (NoError err) rest)) ^^ 3) (
     t_end)"

section \<open>The runner\<close>

definition suite_groups :: "(string \<times> (string \<times> ('x suite_config \<Rightarrow> 'x store \<Rightarrow> 'x verdict)) list) list" where
  "suite_groups =
     [(''Get'', [(''ExistingKey'', Get_ExistingKey), (''NonExistingKey'', Get_NonExistingKey), (''ExpiredKey'', Get_ExpiredKey), (''WithOptions'', Get_WithOptions), (''ContextCancelled'', Get_ContextCancelled)]),
      (''Set'', [(''NewKey'', Set_NewKey), (''OverwriteExistingKey'', Set_OverwriteExistingKey), (''ZeroTTL'', Set_ZeroTTL), (''NegativeTTL'', Set_NegativeTTL), (''WithOptions'', Set_WithOptions), (''ContextCancelled'', Set_ContextCancelled)]),
      (''GetWithTTL'', [(''ExistingKey'', GetWithTTL_ExistingKey), (''NonExistingKey'', GetWithTTL_NonExistingKey), (''TTLDecreasing'', GetWithTTL_TTLDecreasing), (''NoExpiry'', GetWithTTL_NoExpiry), (''WithOptions'', GetWithTTL_WithOptions)]),
      (''Delete'', [(''ExistingKey'', Delete_ExistingKey), (''NonExistingKey'', Delete_NonExistingKey), (''WithOptions'', Delete_WithOptions), (''ContextCancelled'', Delete_ContextCancelled)]),
      (''Clear'', [(''EmptyStore'', Clear_EmptyStore), (''NonEmptyStore'', Clear_NonEmptyStore), (''ContextCancelled'', Clear_ContextCancelled), (''MultipleTimes'', Clear_MultipleTimes)])]"

text \<open>
  \<open>t.Run\<close> names a subtest after its parent; a group or case whose name is in \<open>SkipTests\<close> is
  skipped. The result lists the cases that ran, with their verdicts.
\<close>

fun run_cases ::
    "'x suite_config \<Rightarrow> ('x world \<Rightarrow> 'x store \<times> 'x world) \<Rightarrow> string \<Rightarrow>
     (string \<times> ('x suite_config \<Rightarrow> 'x store \<Rightarrow> 'x verdict)) list \<Rightarrow> 'x world \<Rightarrow>
     (string \<times> bool) list \<times> 'x world" where
  "run_cases cfg newStore parent [] w = ([], w)"
| "run_cases cfg newStore parent ((c, f) # cs) w =
     (let name = parent @ ''/'' @ c in
      if name \<in> set (SkipTests cfg) then run_cases cfg newStore parent cs w
      else case newStore w of (s, w1) \<Rightarrow>
           case f cfg s w1 of (p, w2) \<Rightarrow>
           case run_cases cfg newStore parent cs w2 of (ps, w3) \<Rightarrow> ((name, p) # ps, w3))"

fun run_groups ::
    "'x suite_config \<Rightarrow> ('x world \<Rightarrow> 'x store \<times> 'x world) \<Rightarrow> string \<Rightarrow>
     (string \<times> (string \<times> ('x suite_config \<Rightarrow> 'x store \<Rightarrow> 'x verdict)) list) list \<Rightarrow> 'x world \<Rightarrow>
     (string \<times> bool) list \<times> 'x world" where
  "run_groups cfg newStore parent [] w = ([], w)"
| "run_groups cfg newStore parent ((g, cs) # gs) w =
     (let name = parent @ ''/'' @ g in
      if name \<in> set (SkipTests cfg) then run_groups cfg newStore parent gs w
      else case run_cases cfg newStore name cs w of (ps, w1) \<Rightarrow>
           case run_groups cfg newStore parent gs w1 of (qs, w2) \<Rightarrow> (ps @ qs, w2))"

definition RunStoreTestSuites ::
    "string \<Rightarrow> ('x world \<Rightarrow> 'x store \<times> 'x world) \<Rightarrow> 'x suite_option list \<Rightarrow> 'x world \<Rightarrow>
     (string \<times> bool) list \<times> 'x world" where
  "RunStoreTestSuites t newStore opts w =
     run_groups (fold (\<lambda>opt c. opt c) opts NewConfig) newStore t suite_groups w"

section \<open>A conforming store passes\<close>

text \<open>A case passes, and leaves a clock the store can work with.\<close>

definition passes :: "(int \<Rightarrow> bool) \<Rightarrow> bool \<times> 'x world \<Rightarrow> bool" where
  "passes clock p \<longleftrightarrow> fst p \<and> clock (w_now (snd p))"

lemma passes_simps [simp]:
  "passes clock (t_end w) \<longleftrightarrow> clock (w_now w)"
  "passes clock (require b k w) \<longleftrightarrow> b \<and> passes clock (k w)"
  "passes clock (assert_that b k w) \<longleftrightarrow> b \<and> passes clock (k w)"
  by (auto simp: passes_def t_end_def require_def assert_that_def split: prod.split)

lemma verdict_simps [simp]:
  "NoError (Ok v)" "\<not> NoError (Err e)" "AnError (Err e)" "got z (Ok v) = v" "got z (Err e) = z"
  "ErrorIs (Err e) t \<longleftrightarrow> errors_is e t"
  by (simp_all add: NoError_def AnError_def ErrorIs_def got_def)

lemma passes_call: "(\<And>r w'. op w = (r, w') \<Longrightarrow> passes clock (k r w')) \<Longrightarrow> passes clock (t_call op k w)"
  by (auto simp: t_call_def split: prod.split)

locale suite_run = conforming_store s view storable whole clock lag prec
  for s :: "'x store" and view :: "'x view" and storable :: "gval \<Rightarrow> bool"
    and whole :: "duration \<Rightarrow> bool" and clock :: "int \<Rightarrow> bool" and lag prec :: duration +
  fixes cfg :: "'x suite_config"
  assumes cfg_opts: "opts_total (SetOptions cfg)"
    and cfg_storable: "storable (EncodeSetValue cfg x)"
    and cfg_value: "AssertValue cfg (EncodeSetValue cfg x) x"
    and cfg_wait: "w_ext (WaitingAfterWrite cfg s w) = w_ext w"
      "w_now w \<le> w_now (WaitingAfterWrite cfg s w)" "w_now (WaitingAfterWrite cfg s w) \<le> w_now w + Second"
    and lag_small: "lag \<le> Second" and prec_small: "prec \<le> 100 * Millisecond"
    and whole_seconds: "whole 0" "whole Second" "whole (5 * Second)" "whole Minute"
begin

text \<open>
  The state between two steps: key \<open>k\<close> holds the value \<open>x\<close> stored at \<open>t0\<close>, between \<open>lo\<close>
  and \<open>hi\<close> ago; or it is missing.
\<close>

definition Live :: "key \<Rightarrow> string \<Rightarrow> duration \<Rightarrow> int \<Rightarrow> duration \<Rightarrow> duration \<Rightarrow> 'x world \<Rightarrow> bool" where
  "Live k x ttl t0 lo hi w \<longleftrightarrow> clock (w_now w) \<and> t0 + lo \<le> w_now w \<and> w_now w \<le> t0 + hi \<and>
     kept view w k (EncodeSetValue cfg x) ttl t0"

definition Gone :: "key \<Rightarrow> 'x world \<Rightarrow> bool" where
  "Gone k w \<longleftrightarrow> clock (w_now w) \<and> gone view w k"

lemma Live_clock: "Live k x ttl t0 lo hi w \<Longrightarrow> clock (w_now w)"
  by (simp add: Live_def)

lemma Gone_clock: "Gone k w \<Longrightarrow> clock (w_now w)"
  by (simp add: Gone_def)

lemma Live_reads:
  assumes "Live k x ttl t0 lo hi w" and "reads view w w'" and "w_now w + a \<le> w_now w'" and "w_now w' \<le> w_now w + d"
  shows "Live k x ttl t0 (lo + a) (hi + d) w'"
  using assms clock_mono [of "w_now w" "w_now w'"]
  by (auto simp: Live_def intro: kept_reads reads_now)

lemma lag_bound: "w_now w' \<le> w_now w + lag \<Longrightarrow> w_now w' \<le> w_now w + Second"
  using lag_small by simp

lemma set_any:
  assumes clock: "clock (w_now w)" and ttl: "0 \<le> ttl" "whole ttl" and opts: "opts_total opts"
    and k: "\<And>t0 w'. Live k x ttl t0 0 Second w' \<Longrightarrow> w_now w \<le> w_now w' \<Longrightarrow>
              (\<And>k' x' ttl' t1 lo hi. k' \<noteq> k \<Longrightarrow> Live k' x' ttl' t1 lo hi w \<Longrightarrow> Live k' x' ttl' t1 lo (hi + Second) w') \<Longrightarrow>
              passes clock (K (Ok ()) w')"
  shows "passes clock (t_call (c_Set s Background k (EncodeSetValue cfg x) ttl opts) K w)"
proof (rule passes_call)
  fix r w' assume c: "c_Set s Background k (EncodeSetValue cfg x) ttl opts w = (r, w')"
  obtain t0 where r: "r = Ok ()" and t0: "w_now w \<le> t0" "t0 \<le> w_now w'"
    and kept: "kept view w' k (EncodeSetValue cfg x) ttl t0"
    and wr: "writes view w w' k (stored (EncodeSetValue cfg x) ttl)"
    using Set_kept [OF _ opts cfg_storable ttl clock c] by auto
  from Set_lag [OF c] have lag: "w_now w \<le> w_now w'" "w_now w' \<le> w_now w + Second" using lag_bound by auto
  with clock have ck: "clock (w_now w')" by (blast intro: clock_mono)
  have "Live k x ttl t0 0 Second w'" using ck lag t0 kept by (simp add: Live_def)
  moreover have "Live k' x' ttl' t1 lo (hi + Second) w'" if "k' \<noteq> k" "Live k' x' ttl' t1 lo hi w" for k' x' ttl' t1 lo hi
    using that lag ck kept_writes [OF _ wr] by (auto simp: Live_def)
  ultimately show "passes clock (K r w')" unfolding r using lag(1) by (intro k) auto
qed

lemma set_T:
  assumes "clock (w_now w)" and "0 \<le> ttl" "whole ttl"
    and "\<And>t0 w'. Live k x ttl t0 0 Second w' \<Longrightarrow> w_now w \<le> w_now w' \<Longrightarrow> passes clock (K (Ok ()) w')"
  shows "passes clock (t_call (c_Set s Background k (EncodeSetValue cfg x) ttl (SetOptions cfg)) K w)"
  using assms by (intro set_any cfg_opts)

lemma set_options_T:
  assumes n: "n \<noteq> ''ristretto_set''" and "clock (w_now w)" and "0 \<le> ttl" "whole ttl"
    and "\<And>t0 w'. Live k x ttl t0 0 Second w' \<Longrightarrow> w_now w \<le> w_now w' \<Longrightarrow> passes clock (K (Ok ()) w')"
  shows "passes clock (t_call (c_Set s Background k (EncodeSetValue cfg x) ttl
           (SetOptions cfg @ [WithOptionCustomField n v])) K w)"
proof (intro set_any assms(2-))
  show "opts_total (SetOptions cfg @ [WithOptionCustomField n v])"
    using cfg_opts n by simp
qed

lemma wait_reads: "reads view w (WaitingAfterWrite cfg s w)"
  using view_blind cfg_wait by (intro blind_reads) auto

lemma wait_T:
  assumes "Live k x ttl t0 lo hi w" and "\<And>w'. Live k x ttl t0 lo (hi + Second) w' \<Longrightarrow> w_now w \<le> w_now w' \<Longrightarrow> passes clock (K w')"
  shows "passes clock (t_do (WaitingAfterWrite cfg s) K w)"
  unfolding t_do_def using Live_reads [OF assms(1) wait_reads, of 0 Second] cfg_wait by (intro assms(2)) simp_all

lemma sleep_T:
  assumes "Live k x ttl t0 lo hi w" and "0 \<le> d"
    and "\<And>w'. Live k x ttl t0 (lo + d) (hi + d) w' \<Longrightarrow> w_now w' = w_now w + d \<Longrightarrow> passes clock (K w')"
  shows "passes clock (t_do (sleep d) K w)"
proof -
  have "reads view w (sleep d w)" using view_blind assms(2) by (intro blind_reads) auto
  then show ?thesis unfolding t_do_def using Live_reads [OF assms(1), of "sleep d w" d d] assms(2)
    by (intro assms(3)) auto
qed

lemma get_any:
  assumes L: "Live k x ttl t0 lo hi w" and ttl: "ttl = 0 \<or> hi + Second \<le> ttl"
    and K: "\<And>w'. (\<And>k' x' ttl' t1 lo hi. Live k' x' ttl' t1 lo hi w \<Longrightarrow> Live k' x' ttl' t1 lo (hi + Second) w') \<Longrightarrow>
              passes clock (K (Ok (EncodeSetValue cfg x)) w')"
  shows "passes clock (t_call (c_Get s Background k opts) K w)"
proof (rule passes_call)
  fix r w' assume c: "c_Get s Background k opts w = (r, w')"
  from Get_lag [OF c] have lag: "w_now w \<le> w_now w'" "w_now w' \<le> w_now w + Second" using lag_bound by auto
  with L ttl have "ttl = 0 \<or> w_now w' \<le> t0 + ttl" by (auto simp: Live_def)
  moreover have "kept view w k (EncodeSetValue cfg x) ttl t0" using L by (simp add: Live_def)
  ultimately have r: "r = Ok (EncodeSetValue cfg x)" "reads view w w'" using Get_kept [OF _ c] by auto
  show "passes clock (K r w')" unfolding r(1)
  proof (rule K)
    fix k' x' ttl' t1 lo hi assume "Live k' x' ttl' t1 lo hi w"
    from Live_reads [OF this r(2), of 0 Second] lag show "Live k' x' ttl' t1 lo (hi + Second) w'" by simp
  qed
qed

lemma get_T:
  assumes "Live k x ttl t0 lo hi w" and "ttl = 0 \<or> hi + Second \<le> ttl"
    and "\<And>w'. Live k x ttl t0 lo (hi + Second) w' \<Longrightarrow> passes clock (K (Ok (EncodeSetValue cfg x)) w')"
  shows "passes clock (t_call (c_Get s Background k opts) K w)"
  using assms(1,3) by (intro get_any [OF assms(1,2)]) blast

lemma get_gone_T:
  assumes G: "Gone k w" and K: "\<And>e w'. errors_is e ErrNotFound \<Longrightarrow> reads view w w' \<Longrightarrow> Gone k w' \<Longrightarrow> passes clock (K (Err e) w')"
  shows "passes clock (t_call (c_Get s Background k opts) K w)"
proof (rule passes_call)
  fix r w' assume c: "c_Get s Background k opts w = (r, w')"
  with G have r: "not_found r" "reads view w w'" using Get_gone [OF _ c] by (auto simp: Gone_def)
  then obtain e where "r = Err e" "errors_is e ErrNotFound" by (auto simp: not_found_def split: outcome.splits)
  moreover have "Gone k w'" using G r reads_now [OF r(2)] clock_mono by (auto simp: Gone_def intro: gone_reads)
  ultimately show "passes clock (K r w')" using r by (simp add: K)
qed

lemma expire_T:
  assumes "Live k x ttl t0 lo hi w" and "0 < ttl" and "ttl < lo"
  shows "Gone k w"
  using assms kept_expired [of view w k _ ttl t0] by (auto simp: Live_def Gone_def)

lemma getttl_T:
  assumes L: "Live k x ttl t0 lo hi w" and ttl: "0 < ttl" "hi + Second \<le> ttl"
    and K: "\<And>d w'. Live k x ttl t0 lo (hi + Second) w' \<Longrightarrow> ttl - hi - Second - 100 * Millisecond < d \<Longrightarrow> d \<le> ttl - lo \<Longrightarrow>
              d \<le> t0 + ttl - w_now w \<Longrightarrow> t0 + ttl - w_now w' - 100 * Millisecond < d \<Longrightarrow>
              passes clock (K (Ok (EncodeSetValue cfg x, d)) w')"
  shows "passes clock (t_call (c_GetWithTTL s Background k opts) K w)"
proof (rule passes_call)
  fix r w' assume c: "c_GetWithTTL s Background k opts w = (r, w')"
  from GetWithTTL_lag [OF c] have lag: "w_now w \<le> w_now w'" "w_now w' \<le> w_now w + Second" using lag_bound by auto
  with L ttl have live: "w_now w' \<le> t0 + ttl" by (auto simp: Live_def)
  have "view w k (w_now w') = Present (EncodeSetValue cfg x) (Some (t0 + ttl))"
    using L ttl live lag keptD [of view w k _ ttl t0 "w_now w'"] by (auto simp: Live_def stored_live)
  from GetWithTTL_precise [OF _ c this] obtain t d where t: "w_now w \<le> t" "t \<le> w_now w'"
    and r: "r = Ok (EncodeSetValue cfg x, d)" and d: "t0 + ttl - t - prec < d" "d \<le> t0 + ttl - t" by auto
  have "reads view w w'" using GetWithTTL_law [OF _ c] by simp
  with L lag have L': "Live k x ttl t0 lo (hi + Second) w'" using Live_reads [OF L, of w' 0 Second] by simp
  show "passes clock (K r w')" unfolding r
    using L L' t d prec_small by (intro K) (auto simp: Live_def)
qed

lemma getttl_forever_T:
  assumes L: "Live k x 0 t0 lo hi w"
    and K: "\<And>w'. clock (w_now w') \<Longrightarrow> passes clock (K (Ok (EncodeSetValue cfg x, 0)) w')"
  shows "passes clock (t_call (c_GetWithTTL s Background k opts) K w)"
proof (rule passes_call)
  fix r w' assume c: "c_GetWithTTL s Background k opts w = (r, w')"
  from GetWithTTL_lag [OF c] L have "clock (w_now w')" by (auto simp: Live_def intro: clock_mono)
  moreover have "r = Ok (EncodeSetValue cfg x, 0)"
    using GetWithTTL_forever [OF _ c] L by (auto simp: Live_def)
  ultimately show "passes clock (K r w')" by (simp add: K)
qed

lemma getttl_gone_T:
  assumes G: "Gone k w" and K: "\<And>e w'. errors_is e ErrNotFound \<Longrightarrow> clock (w_now w') \<Longrightarrow> passes clock (K (Err e) w')"
  shows "passes clock (t_call (c_GetWithTTL s Background k opts) K w)"
proof (rule passes_call)
  fix r w' assume c: "c_GetWithTTL s Background k opts w = (r, w')"
  from GetWithTTL_lag [OF c] G have "clock (w_now w')" by (auto simp: Gone_def intro: clock_mono)
  moreover have "not_found r" using GetWithTTL_gone [OF _ c] G by (auto simp: Gone_def)
  then obtain e where "r = Err e" "errors_is e ErrNotFound" by (auto simp: not_found_def split: outcome.splits)
  ultimately show "passes clock (K r w')" by (simp add: K)
qed

lemma delete_T:
  assumes "clock (w_now w)" and K: "\<And>w'. Gone k w' \<Longrightarrow> passes clock (K (Ok ()) w')"
  shows "passes clock (t_call (c_Delete s Background k opts) K w)"
proof (rule passes_call)
  fix u w' assume c: "c_Delete s Background k opts w = (u, w')"
  from Delete_lag [OF c] assms(1) have "clock (w_now w')" by (auto intro: clock_mono)
  with Delete_law [OF _ c] have "u = Ok ()" "Gone k w'" by (auto simp: Gone_def writes_gone)
  then show "passes clock (K u w')" by (simp add: K)
qed

lemma clear_T:
  assumes "clock (w_now w)" and K: "\<And>w'. (\<And>k. Gone k w') \<Longrightarrow> clock (w_now w') \<Longrightarrow> passes clock (K (Ok ()) w')"
  shows "passes clock (t_call (c_Clear s Background) K w)"
proof (rule passes_call)
  fix u w' assume c: "c_Clear s Background w = (u, w')"
  from Clear_lag [OF c] assms(1) have "clock (w_now w')" by (auto intro: clock_mono)
  with Clear_law [OF _ c] have "u = Ok ()" "\<And>k. Gone k w'" by (auto simp: Gone_def wipes_gone)
  with \<open>clock (w_now w')\<close> show "passes clock (K u w')" by (simp add: K)
qed

text \<open>Calls that must fail.\<close>

lemma cancelled_T:
  assumes "clock (w_now w)"
    and "\<And>ctx. (\<And>w' :: 'x world. w_now w \<le> w_now w' \<Longrightarrow> ctx_Err ctx w' = Some Canceled) \<Longrightarrow> passes clock (K ctx w)"
  shows "passes clock (t_cancelled K w)"
  unfolding t_cancelled_def by (rule assms(2)) (simp add: ctx_Err_def)

lemma failing_call:
  assumes "clock (w_now w)" and "\<And>e w'. errors_is e target \<Longrightarrow> clock (w_now w') \<Longrightarrow> passes clock (K (Err e) w')"
    and "\<And>r w'. op w = (r, w') \<Longrightarrow> (\<exists>e. r = Err e \<and> errors_is e target) \<and> w_now w \<le> w_now w'"
  shows "passes clock (t_call op K w)"
proof (rule passes_call)
  fix r w' assume "op w = (r, w')"
  from assms(3) [OF this] obtain e where "r = Err e" "errors_is e target" "w_now w \<le> w_now w'" by blast
  with assms(1,2) clock_mono show "passes clock (K r w')" by simp
qed

lemma set_negative_T:
  assumes "clock (w_now w)" "ttl < 0"
    and "\<And>e w'. errors_is e ErrInvalidTTL \<Longrightarrow> clock (w_now w') \<Longrightarrow> passes clock (K (Err e) w')"
  shows "passes clock (t_call (c_Set s Background k (EncodeSetValue cfg x) ttl (SetOptions cfg)) K w)"
  using Set_invalid [OF demo_simps(6) cfg_opts cfg_storable assms(2,1)] Set_lag
  by (intro failing_call [where K = K and target = ErrInvalidTTL] assms) auto

lemma set_done_T:
  assumes "clock (w_now w)" "ctx_Err ctx w = Some Canceled" "0 \<le> ttl"
    and "\<And>e w'. errors_is e Canceled \<Longrightarrow> clock (w_now w') \<Longrightarrow> passes clock (K (Err e) w')"
  shows "passes clock (t_call (c_Set s ctx k (EncodeSetValue cfg x) ttl (SetOptions cfg)) K w)"
  using Set_done [OF assms(2) cfg_opts cfg_storable assms(3,1)] Set_lag
  by (intro failing_call [where K = K and target = Canceled] assms) auto

lemma get_done_T:
  assumes "clock (w_now w)" "ctx_Err ctx w = Some Canceled"
    and "\<And>e w'. errors_is e Canceled \<Longrightarrow> clock (w_now w') \<Longrightarrow> passes clock (K (Err e) w')"
  shows "passes clock (t_call (c_Get s ctx k opts) K w)"
  using Get_done [OF assms(2)] Get_lag
  by (intro failing_call [where K = K and target = Canceled] assms) auto

lemma delete_done_T:
  assumes "clock (w_now w)" "ctx_Err ctx w = Some Canceled"
    and "\<And>e w'. errors_is e Canceled \<Longrightarrow> clock (w_now w') \<Longrightarrow> passes clock (K (Err e) w')"
  shows "passes clock (t_call (c_Delete s ctx k opts) K w)"
  using Delete_done [OF assms(2)] Delete_lag
  by (intro failing_call [where K = K and target = Canceled] assms) auto

lemma clear_done_T:
  assumes "clock (w_now w)" "ctx_Err ctx w = Some Canceled"
    and "\<And>e w'. errors_is e Canceled \<Longrightarrow> clock (w_now w') \<Longrightarrow> passes clock (K (Err e) w')"
  shows "passes clock (t_call (c_Clear s ctx) K w)"
  using Clear_done [OF assms(2)] Clear_lag
  by (intro failing_call [where K = K and target = Canceled] assms) auto

end

context suite_run
begin

text \<open>One lemma per case; each step of a case is one rule.\<close>

lemma seconds: "Second = 1000000000" "Minute = 60000000000" "Millisecond = 1000000"
  by (simp_all add: duration_defs)

lemmas suite_simps = whole_seconds [unfolded seconds, simplified] whole_seconds seconds cfg_value Live_clock Gone_clock
lemmas suite_steps = wait_T sleep_T get_T getttl_T getttl_forever_T get_gone_T getttl_gone_T

lemma Get_ExistingKey_passes: "clock (w_now w) \<Longrightarrow> passes clock (Get_ExistingKey cfg s w)"
  unfolding Get_ExistingKey_def
  by (rule set_T; (erule suite_steps | simp add: suite_simps)+)

lemma Get_WithOptions_passes: "clock (w_now w) \<Longrightarrow> passes clock (Get_WithOptions cfg s w)"
  unfolding Get_WithOptions_def
  by (rule set_T; (erule suite_steps | simp add: suite_simps)+)

lemma Set_NewKey_passes: "clock (w_now w) \<Longrightarrow> passes clock (Set_NewKey cfg s w)"
  unfolding Set_NewKey_def
  by (rule set_T; (erule suite_steps | simp add: suite_simps)+)

lemma Set_ZeroTTL_passes: "clock (w_now w) \<Longrightarrow> passes clock (Set_ZeroTTL cfg s w)"
  unfolding Set_ZeroTTL_def
  by (rule set_T; (erule suite_steps | simp add: suite_simps)+)

lemma GetWithTTL_ExistingKey_passes: "clock (w_now w) \<Longrightarrow> passes clock (GetWithTTL_ExistingKey cfg s w)"
  unfolding GetWithTTL_ExistingKey_def
  by (rule set_T; (erule suite_steps | simp add: suite_simps)+)

lemma GetWithTTL_TTLDecreasing_passes: "clock (w_now w) \<Longrightarrow> passes clock (GetWithTTL_TTLDecreasing cfg s w)"
  unfolding GetWithTTL_TTLDecreasing_def
  by (rule set_T; (erule suite_steps | simp add: suite_simps)+)

lemma GetWithTTL_NoExpiry_passes: "clock (w_now w) \<Longrightarrow> passes clock (GetWithTTL_NoExpiry cfg s w)"
  unfolding GetWithTTL_NoExpiry_def
  by (rule set_T; (erule suite_steps | simp add: suite_simps)+)

lemma GetWithTTL_WithOptions_passes: "clock (w_now w) \<Longrightarrow> passes clock (GetWithTTL_WithOptions cfg s w)"
  unfolding GetWithTTL_WithOptions_def
  by (rule set_T; (erule suite_steps | simp add: suite_simps)+)

lemma Get_NonExistingKey_passes: "Gone ''non-existing-key'' w \<Longrightarrow> passes clock (Get_NonExistingKey cfg s w)"
  unfolding Get_NonExistingKey_def
  by (erule get_gone_T; simp add: suite_simps)

lemma GetWithTTL_NonExistingKey_passes: "Gone ''non-existing-ttl-key'' w \<Longrightarrow> passes clock (GetWithTTL_NonExistingKey cfg s w)"
  unfolding GetWithTTL_NonExistingKey_def
  by (erule getttl_gone_T; simp)

lemma Get_ExpiredKey_passes: "clock (w_now w) \<Longrightarrow> passes clock (Get_ExpiredKey cfg s w)"
  unfolding Get_ExpiredKey_def
  by (rule set_T; (erule wait_T sleep_T get_gone_T [OF expire_T] | simp add: suite_simps)+)

lemma Set_OverwriteExistingKey_passes: "clock (w_now w) \<Longrightarrow> passes clock (Set_OverwriteExistingKey cfg s w)"
  unfolding Set_OverwriteExistingKey_def
  by (rule set_T; (erule suite_steps | rule set_T | simp add: suite_simps)+)

lemma Set_WithOptions_passes: "clock (w_now w) \<Longrightarrow> passes clock (Set_WithOptions cfg s w)"
  unfolding Set_WithOptions_def
  by (rule set_options_T; (erule suite_steps | simp add: suite_simps)+)

lemma Set_NegativeTTL_passes: "clock (w_now w) \<Longrightarrow> passes clock (Set_NegativeTTL cfg s w)"
  unfolding Set_NegativeTTL_def
  by (erule set_negative_T; simp add: suite_simps)

lemma Delete_ExistingKey_passes: "clock (w_now w) \<Longrightarrow> passes clock (Delete_ExistingKey cfg s w)"
  unfolding Delete_ExistingKey_def
  by (rule set_T; (erule suite_steps | rule delete_T | simp add: suite_simps)+)

lemma Delete_WithOptions_passes: "clock (w_now w) \<Longrightarrow> passes clock (Delete_WithOptions cfg s w)"
  unfolding Delete_WithOptions_def
  by (rule set_T; (erule suite_steps | rule delete_T | simp add: suite_simps)+)

lemma Delete_NonExistingKey_passes: "clock (w_now w) \<Longrightarrow> passes clock (Delete_NonExistingKey cfg s w)"
  unfolding Delete_NonExistingKey_def
  by (erule delete_T; simp add: suite_simps)

lemma Clear_EmptyStore_passes: "clock (w_now w) \<Longrightarrow> passes clock (Clear_EmptyStore cfg s w)"
  unfolding Clear_EmptyStore_def
  by (erule clear_T; simp)

lemma Clear_MultipleTimes_passes: "clock (w_now w) \<Longrightarrow> passes clock (Clear_MultipleTimes cfg s w)"
  unfolding Clear_MultipleTimes_def
  by (simp add: numeral_3_eq_3, (erule clear_T, simp)+)

lemma Set_ContextCancelled_passes: "clock (w_now w) \<Longrightarrow> passes clock (Set_ContextCancelled cfg s w)"
  unfolding Set_ContextCancelled_def
  by (rule cancelled_T, assumption, rule set_done_T, assumption) (simp_all add: seconds)

lemma Clear_ContextCancelled_passes: "clock (w_now w) \<Longrightarrow> passes clock (Clear_ContextCancelled cfg s w)"
  unfolding Clear_ContextCancelled_def
  by (rule cancelled_T, assumption, rule clear_done_T, assumption) simp_all

text \<open>Here the cancelled context is made before, or after, the key is set.\<close>

lemma Get_ContextCancelled_passes: "clock (w_now w) \<Longrightarrow> passes clock (Get_ContextCancelled cfg s w)"
  unfolding Get_ContextCancelled_def
proof (rule cancelled_T, assumption, rule set_T, assumption)
  fix ctx t0 and w1 :: "'x world" assume ctx: "\<And>w' :: 'x world. w_now w \<le> w_now w' \<Longrightarrow> ctx_Err ctx w' = Some Canceled"
    and L: "Live ''cancel-key'' ''value'' Minute t0 0 Second w1" and now: "w_now w \<le> w_now w1"
  show "passes clock (require (NoError (Ok ()))
     (t_do (WaitingAfterWrite cfg s)
       (t_call (c_Get s ctx ''cancel-key'' [])
         (\<lambda>val. assert_that (got VNil val = VNil)
                (require (AnError val) (assert_that (ErrorIs val Canceled) t_end))))) w1)"
    using wait_T [OF L] now ctx by (auto intro!: get_done_T wait_T [OF L] Live_clock)
qed (simp_all add: suite_simps)

lemma Delete_ContextCancelled_passes: "clock (w_now w) \<Longrightarrow> passes clock (Delete_ContextCancelled cfg s w)"
  unfolding Delete_ContextCancelled_def
  by (rule set_T; (erule wait_T | rule cancelled_T | rule delete_done_T | simp add: suite_simps)+)

text \<open>Several keys are alive at once before the store is cleared.\<close>

definition Lives :: "key list \<Rightarrow> string \<Rightarrow> nat \<Rightarrow> 'x world \<Rightarrow> bool" where
  "Lives ks x n w \<longleftrightarrow> clock (w_now w) \<and> (\<forall>k \<in> set ks. \<exists>t0. Live k x Minute t0 0 (int n * Second) w)"

lemma Live_later: "Live k x ttl t0 lo hi w \<Longrightarrow> hi \<le> hi' \<Longrightarrow> Live k x ttl t0 lo hi' w"
  by (simp add: Live_def)

lemma Lives_step:
  assumes "Lives ks x n w" and "clock (w_now w')"
    and "\<And>k t0. k \<in> set ks \<Longrightarrow> Live k x Minute t0 0 (int n * Second) w \<Longrightarrow> Live k x Minute t0 0 (int n * Second + Second) w'"
  shows "Lives ks x (Suc n) w'"
  using assms by (fastforce simp: Lives_def algebra_simps)

lemma sets_T:
  assumes "Lives ls x n w" and "distinct (ks @ ls)" and "0 < n"
    and "\<And>w'. Lives (rev ks @ ls) x (n + length ks) w' \<Longrightarrow> passes clock (rest w')"
  shows "passes clock (foldr (\<lambda>key rest. t_call (c_Set s Background key (EncodeSetValue cfg x) Minute (SetOptions cfg))
           (\<lambda>err. require (NoError err) rest)) ks rest w)"
  using assms
proof (induction ks arbitrary: ls n w)
  case (Cons k ks)
  have "clock (w_now w)" using Cons.prems(1) by (simp add: Lives_def)
  show ?case unfolding foldr.simps o_def
  proof (rule set_any [OF \<open>clock (w_now w)\<close> _ _ cfg_opts])
    fix t0 w1 assume new: "Live k x Minute t0 0 Second w1"
      and old: "\<And>k' x' ttl' t1 lo hi. k' \<noteq> k \<Longrightarrow> Live k' x' ttl' t1 lo hi w \<Longrightarrow> Live k' x' ttl' t1 lo (hi + Second) w1"
    from new have ck: "clock (w_now w1)" by (rule Live_clock)
    have "Lives ls x (Suc n) w1" using Cons.prems(2) by (intro Lives_step [OF Cons.prems(1) ck] old) auto
    moreover have "Live k x Minute t0 0 (int (Suc n) * Second) w1"
      by (rule Live_later [OF new]) (simp add: algebra_simps duration_defs)
    ultimately have L: "Lives (k # ls) x (Suc n) w1" unfolding Lives_def by auto
    have "passes clock (foldr (\<lambda>key rest. t_call (c_Set s Background key (EncodeSetValue cfg x) Minute (SetOptions cfg))
           (\<lambda>err. require (NoError err) rest)) ks rest w1)"
      using Cons.prems(2,4) by (intro Cons.IH [OF L]) auto
    then show "passes clock (require (NoError (Ok ())) (foldr (\<lambda>key rest. t_call (c_Set s Background key
        (EncodeSetValue cfg x) Minute (SetOptions cfg)) (\<lambda>err. require (NoError err) rest)) ks rest) w1)" by simp
  qed (simp_all add: whole_seconds)
qed simp

lemma gets_T:
  assumes "Lives ls x n w" and "set ks \<subseteq> set ls" and "int (n + length ks) * Second \<le> Minute"
    and "\<And>w'. clock (w_now w') \<Longrightarrow> passes clock (rest w')"
  shows "passes clock (foldr (\<lambda>key rest. t_call (c_Get s Background key []) (\<lambda>val. require (NoError val) rest)) ks rest w)"
  using assms
proof (induction ks arbitrary: n w)
  case Nil
  then show ?case by (simp add: Lives_def)
next
  case (Cons k ks)
  then obtain t0 where L: "Live k x Minute t0 0 (int n * Second) w" by (auto simp: Lives_def)
  have le: "int n * Second + Second \<le> Minute"
    using Cons.prems(3) by (simp add: algebra_simps duration_defs)
  show ?case unfolding foldr.simps o_def
  proof (rule get_any [OF L])
    fix w1 assume old: "\<And>k' x' ttl' t1 lo hi. Live k' x' ttl' t1 lo hi w \<Longrightarrow> Live k' x' ttl' t1 lo (hi + Second) w1"
    have "Lives ls x (Suc n) w1" by (rule Lives_step [OF Cons.prems(1) Live_clock [OF old [OF L]]]) (rule old)
    then have "passes clock (foldr (\<lambda>key rest. t_call (c_Get s Background key []) (\<lambda>val. require (NoError val) rest)) ks rest w1)"
      by (rule Cons.IH) (use Cons.prems in auto)
    then show "passes clock (require (NoError (Ok (EncodeSetValue cfg x))) (foldr (\<lambda>key rest. t_call
        (c_Get s Background key []) (\<lambda>val. require (NoError val) rest)) ks rest) w1)" by simp
  qed (use le in simp)
qed

lemma gets_gone_T:
  assumes "\<And>k. Gone k w" and "\<And>w'. clock (w_now w') \<Longrightarrow> passes clock (rest w')"
  shows "passes clock (foldr (\<lambda>key rest. t_call (c_Get s Background key []) (\<lambda>val.
           assert_that (got VNil val = VNil) (assert_that (ErrorIs val ErrNotFound) rest))) ks rest w)"
  using assms
proof (induction ks arbitrary: w)
  case Nil
  then show ?case using Gone_clock by simp
next
  case (Cons k ks)
  show ?case unfolding foldr.simps o_def
  proof (rule get_gone_T [OF Cons.prems(1)])
    fix e w1 assume "errors_is e ErrNotFound" "reads view w w1" "Gone k w1"
    moreover from this have "Gone k' w1" for k'
      using Cons.prems(1) [of k'] by (auto simp: Gone_def intro: gone_reads)
    ultimately show "passes clock (assert_that (got VNil (Err e) = VNil) (assert_that (ErrorIs (Err e :: gval result) ErrNotFound)
        (foldr (\<lambda>key rest. t_call (c_Get s Background key []) (\<lambda>val. assert_that (got VNil val = VNil)
          (assert_that (ErrorIs val ErrNotFound) rest))) ks rest)) w1)"
      using Cons.IH Cons.prems(2) by simp
  qed
qed

lemma Clear_NonEmptyStore_passes: "clock (w_now w) \<Longrightarrow> passes clock (Clear_NonEmptyStore cfg s w)"
  unfolding Clear_NonEmptyStore_def
proof (rule sets_T [of "[]" _ 1], goal_cases)
  case (4 w1)
  then have L: "Lives (rev clear_keys) ''value'' 4 w1" by (simp add: clear_keys_def numeral_eq_Suc)
  then have "clock (w_now w1)" by (simp add: Lives_def)
  with cfg_wait [of w1] have ck: "clock (w_now (WaitingAfterWrite cfg s w1))" by (blast intro: clock_mono)
  have later: "Live k x ttl t0 lo (hi + Second) (WaitingAfterWrite cfg s w1)" if "Live k x ttl t0 lo hi w1" for k x ttl t0 lo hi
    using Live_reads [OF that wait_reads, of 0 Second] cfg_wait [of w1] by simp
  have "Lives (rev clear_keys) ''value'' (Suc 4) (WaitingAfterWrite cfg s w1)"
    by (rule Lives_step [OF L ck]) (rule later)
  then show ?case unfolding t_do_def
  proof (rule gets_T)
    fix w2 :: "'x world" assume "clock (w_now w2)"
    then show "passes clock (t_call (c_Clear s Background) (\<lambda>err. assert_that (NoError err)
        (foldr (\<lambda>key rest. t_call (c_Get s Background key []) (\<lambda>val. assert_that (got VNil val = VNil)
          (assert_that (ErrorIs val ErrNotFound) rest))) clear_keys t_end)) w2)"
      by (rule clear_T) (simp add: gets_gone_T del: foldr.simps)
  qed (simp_all add: clear_keys_def duration_defs)
qed (simp_all add: Lives_def clear_keys_def)

lemma suite_case_passes:
  assumes "clock (w_now w)" and "\<And>k t. w_now w \<le> t \<Longrightarrow> view w k t = Absent"
    and "(g, cs) \<in> set suite_groups" and "(c, f) \<in> set cs"
  shows "passes clock (f cfg s w)"
proof -
  from assms(1,2) have "\<And>k. Gone k w" by (simp add: Gone_def gone_def)
  with assms show ?thesis
    by (auto simp: suite_groups_def Get_ExistingKey_passes Get_WithOptions_passes Set_NewKey_passes
      Set_ZeroTTL_passes GetWithTTL_ExistingKey_passes GetWithTTL_TTLDecreasing_passes
      GetWithTTL_NoExpiry_passes GetWithTTL_WithOptions_passes Get_NonExistingKey_passes
      GetWithTTL_NonExistingKey_passes Get_ExpiredKey_passes Set_OverwriteExistingKey_passes
      Set_WithOptions_passes Set_NegativeTTL_passes Delete_ExistingKey_passes Delete_WithOptions_passes
      Delete_NonExistingKey_passes Clear_EmptyStore_passes Clear_MultipleTimes_passes
      Set_ContextCancelled_passes Clear_ContextCancelled_passes Get_ContextCancelled_passes
      Delete_ContextCancelled_passes Clear_NonEmptyStore_passes)
qed

end

section \<open>The suite over a conforming provider\<close>

text \<open>The names of the cases that are run.\<close>

definition suite_names :: "'x suite_config \<Rightarrow> string \<Rightarrow> string list" where
  "suite_names cfg t =
     concat (map (\<lambda>(g, cs). if t @ ''/'' @ g \<in> set (SkipTests cfg) then []
                     else filter (\<lambda>n. n \<notin> set (SkipTests cfg)) (map (\<lambda>(c, f). (t @ ''/'' @ g) @ ''/'' @ c) cs))
        (suite_groups :: (string \<times> (string \<times> ('x suite_config \<Rightarrow> 'x store \<Rightarrow> 'x verdict)) list) list))"

text \<open>
  \<open>newStore\<close> gives empty stores that conform; the configuration encodes strings as values the
  store takes and its assertion accepts, and waits no longer than a second.
\<close>

definition conforming_provider ::
    "('x world \<Rightarrow> 'x store \<times> 'x world) \<Rightarrow> (gval \<Rightarrow> bool) \<Rightarrow> (duration \<Rightarrow> bool) \<Rightarrow> (int \<Rightarrow> bool) \<Rightarrow>
     duration \<Rightarrow> duration \<Rightarrow> bool" where
  "conforming_provider newStore storable whole clock lag prec \<longleftrightarrow>
     (\<forall>w s w'. clock (w_now w) \<longrightarrow> newStore w = (s, w') \<longrightarrow> clock (w_now w') \<and>
        (\<exists>view. conforming_store s view storable whole clock lag prec \<and>
                (\<forall>k t. w_now w' \<le> t \<longrightarrow> view w' k t = Absent)))"

definition suite_config_ok :: "(gval \<Rightarrow> bool) \<Rightarrow> 'x suite_config \<Rightarrow> bool" where
  "suite_config_ok storable cfg \<longleftrightarrow>
     opts_total (SetOptions cfg) \<and>
     (\<forall>x. storable (EncodeSetValue cfg x) \<and> AssertValue cfg (EncodeSetValue cfg x) x) \<and>
     (\<forall>s w. w_ext (WaitingAfterWrite cfg s w) = w_ext w \<and> w_now w \<le> w_now (WaitingAfterWrite cfg s w) \<and>
            w_now (WaitingAfterWrite cfg s w) \<le> w_now w + Second)"

definition suite_bounds :: "(duration \<Rightarrow> bool) \<Rightarrow> duration \<Rightarrow> duration \<Rightarrow> bool" where
  "suite_bounds whole lag prec \<longleftrightarrow> lag \<le> Second \<and> prec \<le> 100 * Millisecond \<and>
     whole 0 \<and> whole Second \<and> whole (5 * Second) \<and> whole Minute"

lemma suite_run_intro:
  assumes "conforming_store s view storable whole clock lag prec" and "suite_config_ok storable cfg"
    and "suite_bounds whole lag prec"
  shows "suite_run s view storable whole clock lag prec cfg"
  using assms unfolding suite_run_def suite_run_axioms_def suite_config_ok_def suite_bounds_def by simp

locale suite_provider =
  fixes newStore :: "'x world \<Rightarrow> 'x store \<times> 'x world" and storable :: "gval \<Rightarrow> bool"
    and whole :: "duration \<Rightarrow> bool" and clock :: "int \<Rightarrow> bool" and lag prec :: duration
    and cfg :: "'x suite_config"
  assumes provider: "conforming_provider newStore storable whole clock lag prec"
    and config: "suite_config_ok storable cfg" and bounds: "suite_bounds whole lag prec"
begin

lemma run_cases_pass:
  assumes "(g, cs) \<in> set suite_groups" and "set ds \<subseteq> set cs" and "clock (w_now w)"
    and "run_cases cfg newStore parent ds w = (ps, w')"
  shows "(\<forall>(n, p) \<in> set ps. p) \<and> clock (w_now w') \<and>
     map fst ps = filter (\<lambda>n. n \<notin> set (SkipTests cfg)) (map (\<lambda>(c, f). parent @ ''/'' @ c) ds)"
  using assms(2-4)
proof (induction ds arbitrary: w ps w')
  case (Cons d ds)
  obtain c f where d: "d = (c, f)" by fastforce
  show ?case
  proof (cases "parent @ ''/'' @ c \<in> set (SkipTests cfg)")
    case True
    with Cons d show ?thesis by simp
  next
    case False
    obtain s w1 where s: "newStore w = (s, w1)" by fastforce
    obtain p w2 where p: "f cfg s w1 = (p, w2)" by fastforce
    obtain qs where qs: "run_cases cfg newStore parent ds w2 = (qs, w')" "ps = (parent @ ''/'' @ c, p) # qs"
      using Cons.prems(3) False s p d by (auto split: prod.splits)
    from provider Cons.prems(2) s obtain view where v: "conforming_store s view storable whole clock lag prec"
      "\<And>k t. w_now w1 \<le> t \<Longrightarrow> view w1 k t = Absent" "clock (w_now w1)"
      unfolding conforming_provider_def by blast
    have "passes clock (f cfg s w1)"
      using Cons.prems(1) d
      by (intro suite_run.suite_case_passes [OF suite_run_intro [OF v(1) config bounds] v(3,2) assms(1)]) auto
    then have "p" "clock (w_now w2)" using p by (auto simp: passes_def)
    with Cons.IH [OF _ _ qs(1)] Cons.prems(1) qs(2) False d show ?thesis by simp
  qed
qed simp

lemma run_groups_pass:
  assumes "set gs \<subseteq> set suite_groups" and "clock (w_now w)" and "run_groups cfg newStore t gs w = (ps, w')"
  shows "(\<forall>(n, p) \<in> set ps. p) \<and> clock (w_now w') \<and>
     map fst ps = concat (map (\<lambda>(g, cs). if t @ ''/'' @ g \<in> set (SkipTests cfg) then []
        else filter (\<lambda>n. n \<notin> set (SkipTests cfg)) (map (\<lambda>(c, f). (t @ ''/'' @ g) @ ''/'' @ c) cs)) gs)"
  using assms
proof (induction gs arbitrary: w ps w')
  case (Cons d gs)
  obtain g cs where d: "d = (g, cs)" by fastforce
  show ?case
  proof (cases "t @ ''/'' @ g \<in> set (SkipTests cfg)")
    case True
    with Cons d show ?thesis by simp
  next
    case False
    obtain ps1 w1 where r: "run_cases cfg newStore (t @ ''/'' @ g) cs w = (ps1, w1)" by fastforce
    obtain qs where qs: "run_groups cfg newStore t gs w1 = (qs, w')" "ps = ps1 @ qs"
      using Cons.prems(3) False r d by (auto split: prod.splits)
    have "(g, cs) \<in> set suite_groups" using Cons.prems(1) d by simp
    note R = run_cases_pass [OF this subset_refl Cons.prems(2) r]
    from Cons.IH [OF _ _ qs(1)] R Cons.prems(1) have
      "(\<forall>(n, p) \<in> set qs. p) \<and> clock (w_now w') \<and>
       map fst qs = concat (map (\<lambda>(g, cs). if t @ ''/'' @ g \<in> set (SkipTests cfg) then []
        else filter (\<lambda>n. n \<notin> set (SkipTests cfg)) (map (\<lambda>(c, f). (t @ ''/'' @ g) @ ''/'' @ c) cs)) gs)" by simp
    with R False d qs(2) show ?thesis by auto
  qed
qed simp

end

section \<open>The redis adapter under the suite\<close>

text \<open>The options of \<open>TestStoreSuites\<close> in redis\_test.go.\<close>

definition redis_suite_options :: "fake_heap suite_option list" where
  "redis_suite_options =
     [WithEncodeSetValue (\<lambda>v. VBytes (bytes_of v)),
      WithAssertValue (\<lambda>got expected. case got of VBytes raw \<Rightarrow> raw = bytes_of expected | _ \<Rightarrow> False)]"

definition TestStoreSuites :: "fake_heap world \<Rightarrow> (string \<times> bool) list \<times> fake_heap world" where
  "TestStoreSuites = RunStoreTestSuites ''TestStoreSuites'' newTestStore redis_suite_options"

lemma redis_test_store_conforms:
  "conforming_store (RedisStore (redis_New (fakeClient f) [redis_WithStoreName ''test-redis'']))
     (fake_view f) (has_type TBytes) (\<lambda>ttl. True) (\<lambda>t. zero_time < t) 0 1"
  using fake_redis.RedisStore_conforms [of "redis_New (fakeClient f) [redis_WithStoreName ''test-redis'']"] by simp

interpretation redis_conforms: conforming_store
  "RedisStore (redis_New (fakeClient f) [redis_WithStoreName ''test-redis''])" "fake_view f" "has_type TBytes"
  "\<lambda>ttl. True" "\<lambda>t. zero_time < t" 0 1 for f
  by (rule redis_test_store_conforms)

lemma redis_provider:
  "conforming_provider newTestStore (has_type TBytes) (\<lambda>ttl. True) (\<lambda>t. zero_time < t) 0 1"
  unfolding conforming_provider_def newTestStore_def
  by (auto split: prod.splits dest: newFakeClient_fresh
      intro!: exI [of _ "fake_view _"] redis_test_store_conforms)

lemma redis_config_ok:
  "suite_config_ok (has_type TBytes) (fold (\<lambda>opt c. opt c) redis_suite_options NewConfig)"
  by (simp add: suite_config_ok_def redis_suite_options_def NewConfig_def WithEncodeSetValue_def
      WithAssertValue_def duration_defs)

lemma redis_bounds: "suite_bounds (\<lambda>ttl. True) 0 1"
  by (simp add: suite_bounds_def duration_defs)

interpretation redis_suite: suite_provider newTestStore "has_type TBytes" "\<lambda>ttl. True" "\<lambda>t. zero_time < t" 0 1
  "fold (\<lambda>opt c. opt c) redis_suite_options NewConfig"
  by unfold_locales (rule redis_provider redis_config_ok redis_bounds)+

interpretation redis_run: suite_run
  "RedisStore (redis_New (fakeClient f) [redis_WithStoreName ''test-redis''])" "fake_view f" "has_type TBytes"
  "\<lambda>ttl. True" "\<lambda>t. zero_time < t" 0 1 "fold (\<lambda>opt c. opt c) redis_suite_options NewConfig" for f
  by (rule suite_run_intro [OF redis_test_store_conforms redis_config_ok redis_bounds])

lemma suite_passes:
  assumes "suite_provider newStore storable whole clock lag prec (fold (\<lambda>opt c. opt c) opts NewConfig)"
    and "clock (w_now w)" and "RunStoreTestSuites t newStore opts w = (ps, w')"
  shows "(\<forall>(n, p) \<in> set ps. p) \<and> map fst ps = suite_names (fold (\<lambda>opt c. opt c) opts NewConfig) t"
  using suite_provider.run_groups_pass [OF assms(1) subset_refl assms(2)] assms(3)
  unfolding RunStoreTestSuites_def suite_names_def by blast

section \<open>Properties\<close>

text \<open>C34: the conformance suite is sound for the contract: over any provider of empty stores that
  conform (with calls that take at most a second, remaining times exact to 100 milliseconds and
  times to live of whole seconds honoured) every case that is not skipped runs and passes.\<close>

theorem conforming_stores_pass:
  assumes "conforming_provider newStore storable whole clock lag prec"
    and "suite_config_ok storable (fold (\<lambda>opt c. opt c) opts NewConfig)"
    and "suite_bounds whole lag prec" and "clock (w_now w)"
    and "RunStoreTestSuites t newStore opts w = (ps, w')"
  shows "(\<forall>(n, p) \<in> set ps. p) \<and> map fst ps = suite_names (fold (\<lambda>opt c. opt c) opts NewConfig) t"
  using assms by (intro suite_passes [of newStore storable whole clock lag prec]) (auto intro: suite_provider.intro)

theorem conforming_stores_pass_witness:
  "let ps = fst (TestStoreSuites fake_world) in (\<forall>(n, p) \<in> set ps. p) \<and> length ps = 24"
proof -
  let ?cfg = "fold (\<lambda>opt c. opt c) redis_suite_options NewConfig"
  obtain ps w' where run: "RunStoreTestSuites ''TestStoreSuites'' newTestStore redis_suite_options fake_world = (ps, w')" by fastforce
  have "(\<forall>(n, p) \<in> set ps. p) \<and> map fst ps = suite_names ?cfg ''TestStoreSuites''"
    by (rule conforming_stores_pass [OF redis_provider redis_config_ok redis_bounds _ run])
      (simp add: fake_world_def zero_time_def duration_defs)
  moreover have "length (suite_names ?cfg ''TestStoreSuites'') = 24"
    by (simp add: suite_names_def suite_groups_def redis_suite_options_def NewConfig_def
        WithEncodeSetValue_def WithAssertValue_def)
  ultimately have "(\<forall>(n, p) \<in> set ps. p) \<and> length ps = 24" by (metis length_map)
  with run show ?thesis unfolding TestStoreSuites_def by simp
qed

end
