(* ===== verification/Valkey_Store.thy ===== *)
theory Valkey_Store
  imports Store_Contract
begin

text \<open>
  stores/valkey: the adapter over a valkey-go client. The client, its command builder and its
  replies are parameters: \<open>'c\<close> is the type of commands, \<open>'r\<close> that of replies. The builder
  writes into the command it is called on, so \<open>vc_Px c ttl\<close> is what \<open>c\<close> has become after
  \<open>c.Px(ttl)\<close>, whose result the adapter drops.
\<close>

record ('x, 'c, 'r) valkey_client =
  vc_GetKey :: "key \<Rightarrow> 'c"                   \<comment> \<open>B().Get().Key(key)\<close>
  vc_SetKeyValue :: "key \<Rightarrow> bytes \<Rightarrow> 'c"     \<comment> \<open>B().Set().Key(key).Value(BinaryString(val))\<close>
  vc_Px :: "'c \<Rightarrow> duration \<Rightarrow> 'c"
  vc_PttlKey :: "key \<Rightarrow> 'c"                  \<comment> \<open>B().Pttl().Key(key)\<close>
  vc_DelKey :: "key \<Rightarrow> 'c"                   \<comment> \<open>B().Del().Key(key)\<close>
  vc_FlushallSync :: "'c"                    \<comment> \<open>B().Flushall().Sync()\<close>
  vc_DoCache :: "ctx \<Rightarrow> 'c \<Rightarrow> duration \<Rightarrow> 'x world \<Rightarrow> 'r \<times> 'x world"
  vc_Do :: "ctx \<Rightarrow> 'c \<Rightarrow> 'x world \<Rightarrow> 'r \<times> 'x world"
  vc_DoMulti :: "ctx \<Rightarrow> 'c list \<Rightarrow> 'x world \<Rightarrow> 'r list \<times> 'x world"
  vr_AsBytes :: "'r \<Rightarrow> bytes result"
  vr_ToInt64 :: "'r \<Rightarrow> int result"
  vr_Error :: "'r \<Rightarrow> error option"
  vc_IsValkeyNil :: "error \<Rightarrow> bool"

record ('x, 'c, 'r) valkey_store =
  vs_name :: string
  vs_client :: "('x, 'c, 'r) valkey_client"
  vs_clientSideCacheExpiration :: duration

type_synonym ('x, 'c, 'r) valkey_option = "('x, 'c, 'r) valkey_store \<Rightarrow> ('x, 'c, 'r) valkey_store"

definition valkey_WithName :: "string \<Rightarrow> ('x, 'c, 'r) valkey_option" where
  "valkey_WithName name s = s\<lparr>vs_name := name\<rparr>"

definition WithClientSideCacheExpiration :: "duration \<Rightarrow> ('x, 'c, 'r) valkey_option" where
  "WithClientSideCacheExpiration d s = s\<lparr>vs_clientSideCacheExpiration := d\<rparr>"

definition defaultClientSideCacheExpiration :: duration where
  "defaultClientSideCacheExpiration = Minute"

definition valkey_New ::
    "('x, 'c, 'r) valkey_client \<Rightarrow> ('x, 'c, 'r) valkey_option list \<Rightarrow> ('x, 'c, 'r) valkey_store" where
  "valkey_New client opts = fold (\<lambda>opt s. opt s) opts
     \<lparr>vs_name = ''valkey'', vs_client = client,
      vs_clientSideCacheExpiration = defaultClientSideCacheExpiration\<rparr>"

definition ValkeyStore_Get ::
    "('x, 'c, 'r) valkey_store \<Rightarrow> ctx \<Rightarrow> key \<Rightarrow> call_option list \<Rightarrow> 'x world \<Rightarrow> gval result \<times> 'x world" where
  "ValkeyStore_Get s ctx k opts w =
     (let c = vs_client s;
          (ret, w) = vc_DoCache c ctx (vc_GetKey c k) (vs_clientSideCacheExpiration s) w
      in case vr_AsBytes c ret of
           Err err \<Rightarrow> (if vc_IsValkeyNil c err then (Err ErrNotFound, w) else (Err err, w))
         | Ok bs \<Rightarrow> (Ok (VBytes bs), w)
         | Panic m \<Rightarrow> (Panic m, w))"

definition ValkeyStore_Set ::
    "('x, 'c, 'r) valkey_store \<Rightarrow> ctx \<Rightarrow> key \<Rightarrow> gval \<Rightarrow> duration \<Rightarrow> call_option list \<Rightarrow> 'x world \<Rightarrow> unit result \<times> 'x world" where
  "ValkeyStore_Set s ctx k val ttl opts w =
     (if ttl < 0 then (Err ErrInvalidTTL, w)
      else case val of
          VBytes byteVal \<Rightarrow>
            let c = vs_client s;
                cmdBuilder = vc_SetKeyValue c k byteVal;
                cmd = (if 0 < ttl then vc_Px c cmdBuilder ttl else cmdBuilder);
                (ret, w) = vc_Do c ctx cmd w
            in (case vr_Error c ret of Some err \<Rightarrow> (Err err, w) | None \<Rightarrow> (Ok (), w))
        | _ \<Rightarrow> (Err (Errorf ''valkey.Set expects byte array: %s'' [AErr ErrTypeMismatch]), w))"

definition err_of :: "'a result \<Rightarrow> error option" where
  "err_of r = (case r of Err e \<Rightarrow> Some e | _ \<Rightarrow> None)"

definition ValkeyStore_GetWithTTL ::
    "('x, 'c, 'r) valkey_store \<Rightarrow> ctx \<Rightarrow> key \<Rightarrow> call_option list \<Rightarrow> 'x world \<Rightarrow> (gval \<times> duration) result \<times> 'x world" where
  "ValkeyStore_GetWithTTL s ctx k opts w =
     (let c = vs_client s;
          (rets, w) = vc_DoMulti c ctx [vc_GetKey c k, vc_PttlKey c k] w
      in if length rets \<noteq> 2
         then (Err (Errorf ''unknown err: valkey.GetWithTTL expects 2 results, but got %d''
                      [AInt (int (length rets))]), w)
         else
           let val = vr_AsBytes c (rets ! 0)
           in if (case err_of val of Some err \<Rightarrow> vc_IsValkeyNil c err | None \<Rightarrow> False)
              then (Err (Errorf ''key:%s is nil: %w'' [AStr k, AErr ErrNotFound]), w)
              else
                let joinedErr = errors_Join [None, err_of val];
                    pttl = vr_ToInt64 c (rets ! 1);
                    joinedErr = errors_Join [joinedErr, err_of pttl]
                in case joinedErr of
                     Some e \<Rightarrow> (Err (Errorf ''valkey.GetWithTTL parse result failed: %w'' [AErr e]), w)
                   | None \<Rightarrow>
                       (bind_ok val (\<lambda>bs. bind_ok pttl (\<lambda>pttl.
                          let pttl = (if pttl = - 1 then 0 else pttl)
                          in Ok (VBytes bs, wrap64 (pttl * Millisecond)))), w))"

definition ValkeyStore_Delete ::
    "('x, 'c, 'r) valkey_store \<Rightarrow> ctx \<Rightarrow> key \<Rightarrow> call_option list \<Rightarrow> 'x world \<Rightarrow> unit result \<times> 'x world" where
  "ValkeyStore_Delete s ctx k opts w =
     (let c = vs_client s; (ret, w) = vc_Do c ctx (vc_DelKey c k) w
      in (case vr_Error c ret of Some err \<Rightarrow> (Err err, w) | None \<Rightarrow> (Ok (), w)))"

definition ValkeyStore_Clear ::
    "('x, 'c, 'r) valkey_store \<Rightarrow> ctx \<Rightarrow> 'x world \<Rightarrow> unit result \<times> 'x world" where
  "ValkeyStore_Clear s ctx w =
     (let c = vs_client s; (ret, w) = vc_Do c ctx (vc_FlushallSync c) w
      in (case vr_Error c ret of Some err \<Rightarrow> (Err err, w) | None \<Rightarrow> (Ok (), w)))"

definition ValkeyStore :: "('x, 'c, 'r) valkey_store \<Rightarrow> 'x store" where
  "ValkeyStore s =
     \<lparr>c_Get = ValkeyStore_Get s, c_Set = ValkeyStore_Set s, c_GetWithTTL = ValkeyStore_GetWithTTL s,
      c_Delete = ValkeyStore_Delete s, c_Clear = ValkeyStore_Clear s, StoreName = vs_name s\<rparr>"

lemma ValkeyStore_ops [simp, cache_ops]:
  "c_Get (ValkeyStore s) = ValkeyStore_Get s" "c_Set (ValkeyStore s) = ValkeyStore_Set s"
  "c_GetWithTTL (ValkeyStore s) = ValkeyStore_GetWithTTL s"
  "c_Delete (ValkeyStore s) = ValkeyStore_Delete s" "c_Clear (ValkeyStore s) = ValkeyStore_Clear s"
  "StoreName (ValkeyStore s) = vs_name s"
  by (simp_all add: ValkeyStore_def)

section \<open>Properties\<close>

lemma err_of_simps [simp]: "err_of (Ok v) = None" "err_of (Err e) = Some e" "err_of (Panic m) = None"
  by (simp_all add: err_of_def)

lemma errors_Join_one: "errors_Join [None, None] = None" "errors_Join [None, Some e] = Some (JoinError [e])"
  "errors_Join [Some e, None] = Some (JoinError [e])" "errors_Join [Some e, Some e'] = Some (JoinError [e, e'])"
  by (simp_all add: errors_Join_def map_filter_simps)

text \<open>A client with canned replies, for concrete runs: a reply is bytes, a number, or an error.\<close>

datatype canned = CBytes bytes | CInt int | CErr error

definition canned_client :: "canned list \<Rightarrow> (nat, string, canned) valkey_client" where
  "canned_client rs =
     \<lparr>vc_GetKey = (\<lambda>k. ''GET '' @ k), vc_SetKeyValue = (\<lambda>k b. ''SET '' @ k), vc_Px = (\<lambda>c d. c @ '' PX''),
      vc_PttlKey = (\<lambda>k. ''PTTL '' @ k), vc_DelKey = (\<lambda>k. ''DEL '' @ k), vc_FlushallSync = ''FLUSHALL SYNC'',
      vc_DoCache = (\<lambda>ctx c d w. (hd rs, w)), vc_Do = (\<lambda>ctx c w. (hd rs, w)), vc_DoMulti = (\<lambda>ctx cs w. (rs, w)),
      vr_AsBytes = (\<lambda>r. case r of CBytes b \<Rightarrow> Ok b | CInt i \<Rightarrow> Err (Foreign ''type'') | CErr e \<Rightarrow> Err e),
      vr_ToInt64 = (\<lambda>r. case r of CInt i \<Rightarrow> Ok i | CBytes b \<Rightarrow> Err (Foreign ''type'') | CErr e \<Rightarrow> Err e),
      vr_Error = (\<lambda>r. case r of CErr e \<Rightarrow> Some e | _ \<Rightarrow> None), vc_IsValkeyNil = (\<lambda>e. e = ValkeyNil)\<rparr>"

lemma Millisecond_bounds:
  "- 9223372036854775808 \<le> p * Millisecond \<and> p * Millisecond < 9223372036854775808 \<longleftrightarrow> \<bar>p\<bar> \<le> 9223372036854"
  unfolding Millisecond_def abs_le_iff by (intro iffI conjI; elim conjE; linarith)

text \<open>C39: the remaining time valkey's GetWithTTL reports: with both replies read, a time of -1 (no
  expiry) becomes 0 and any other number of milliseconds is multiplied out in 64 bits, so that it
  is exact precisely up to 9223372036854 ms. The reply -2, a key that expired between the two
  commands, is not a miss: the value is returned with a remaining time of minus 2 milliseconds.\<close>

theorem ValkeyStore_reported_ttl:
  assumes "vc_DoMulti (vs_client s) ctx [vc_GetKey (vs_client s) k, vc_PttlKey (vs_client s) k] w = ([r0, r1], w')"
    and "vr_AsBytes (vs_client s) r0 = Ok b" and "vr_ToInt64 (vs_client s) r1 = Ok p"
  shows "\<exists>d. ValkeyStore_GetWithTTL s ctx k opts w = (Ok (VBytes b, d), w') \<and>
     (if p = - 1 then d = 0 else d = p * Millisecond \<longleftrightarrow> \<bar>p\<bar> \<le> 9223372036854) \<and>
     (p = - 2 \<longrightarrow> d = - 2 * Millisecond)"
proof -
  let ?d = "wrap64 ((if p = - 1 then 0 else p) * Millisecond)"
  have "ValkeyStore_GetWithTTL s ctx k opts w = (Ok (VBytes b, ?d), w')"
    using assms by (simp add: ValkeyStore_GetWithTTL_def errors_Join_one)
  moreover have "wrap64 (p * Millisecond) = p * Millisecond \<longleftrightarrow> \<bar>p\<bar> \<le> 9223372036854"
    by (simp add: wrap64_fixed_iff Millisecond_bounds)
  moreover have "wrap64 0 = 0" "wrap64 (- 2 * Millisecond) = - 2 * Millisecond"
    by (simp_all add: wrap64_fixed_iff Millisecond_def)
  ultimately show ?thesis by (auto intro!: exI [of _ ?d])
qed

theorem ValkeyStore_reported_ttl_witness:
  "fst (ValkeyStore_GetWithTTL (valkey_New (canned_client [CBytes [1], CInt (- 2)]) []) Background ''k'' []
     \<lparr>w_now = 0, w_events = [], w_groups = 0, w_ext = 0\<rparr>) = Ok (VBytes [1], - 2000000)"
proof -
  let ?s = "valkey_New (canned_client [CBytes [1], CInt (- 2)]) []"
  let ?w = "\<lparr>w_now = 0, w_events = [], w_groups = 0, w_ext = 0\<rparr> :: nat world"
  have "vc_DoMulti (vs_client ?s) Background [vc_GetKey (vs_client ?s) ''k'', vc_PttlKey (vs_client ?s) ''k''] ?w
        = ([CBytes [1], CInt (- 2)], ?w)"
    "vr_AsBytes (vs_client ?s) (CBytes [1]) = Ok [1]" "vr_ToInt64 (vs_client ?s) (CInt (- 2)) = Ok (- 2)"
    by (simp_all add: valkey_New_def canned_client_def)
  from ValkeyStore_reported_ttl [OF this, of "[]"] show ?thesis by (auto simp: Millisecond_def)
qed

text \<open>The failures of the valkey adapter: a nil reply is a miss, in GetWithTTL even if the second
  reply could not be read; otherwise every failed reply is wrapped in the error returned, both of
  them when both failed; a value that is not a byte slice is refused without calling the client,
  with an error that does not wrap ErrTypeMismatch.\<close>

theorem ValkeyStore_failures:
  assumes "vc_DoMulti (vs_client s) ctx [vc_GetKey (vs_client s) k, vc_PttlKey (vs_client s) k] w = ([r0, r1], w')"
    and "vr_AsBytes (vs_client s) r0 = Err e0" and "\<not> is_panic (vr_ToInt64 (vs_client s) r1)"
    and "0 \<le> ttl" and "\<not> has_type TBytes v"
  shows "\<exists>e. ValkeyStore_GetWithTTL s ctx k opts w = (Err e, w') \<and>
     (if vc_IsValkeyNil (vs_client s) e0 then errors_is e ErrNotFound
      else errors_is e e0 \<and> (\<forall>e1. vr_ToInt64 (vs_client s) r1 = Err e1 \<longrightarrow> errors_is e e1)) \<and>
     (\<exists>e'. ValkeyStore_Set s ctx k v ttl opts w = (Err e', w) \<and> \<not> errors_is e' ErrTypeMismatch)"
proof -
  have "\<exists>e'. ValkeyStore_Set s ctx k v ttl opts w = (Err e', w) \<and> \<not> errors_is e' ErrTypeMismatch"
    using assms(4,5) by (cases v) (auto simp: ValkeyStore_Set_def errors_is_simps)
  then show ?thesis using assms(1-3)
    by (cases "vr_ToInt64 (vs_client s) r1"; cases "vc_IsValkeyNil (vs_client s) e0")
      (simp_all add: ValkeyStore_GetWithTTL_def errors_Join_one errors_is_simps)
qed

theorem ValkeyStore_failures_witness:
  "\<exists>e. fst (ValkeyStore_GetWithTTL (valkey_New (canned_client [CErr ValkeyNil, CErr (Foreign ''io'')]) []) Background
     ''k'' [] \<lparr>w_now = 0, w_events = [], w_groups = 0, w_ext = 0\<rparr>) = Err e \<and> errors_is e ErrNotFound"
proof -
  let ?s = "valkey_New (canned_client [CErr ValkeyNil, CErr (Foreign ''io'')]) []"
  let ?w = "\<lparr>w_now = 0, w_events = [], w_groups = 0, w_ext = 0\<rparr> :: nat world"
  have "vc_DoMulti (vs_client ?s) Background [vc_GetKey (vs_client ?s) ''k'', vc_PttlKey (vs_client ?s) ''k''] ?w
        = ([CErr ValkeyNil, CErr (Foreign ''io'')], ?w)"
    "vr_AsBytes (vs_client ?s) (CErr ValkeyNil) = Err ValkeyNil"
    "\<not> is_panic (vr_ToInt64 (vs_client ?s) (CErr (Foreign ''io'')))" "vc_IsValkeyNil (vs_client ?s) ValkeyNil"
    by (simp_all add: valkey_New_def canned_client_def)
  from ValkeyStore_failures [OF this(1-3), of 0 VNil "[]"] this(4) show ?thesis by auto
qed

end
