(* ===== verification/Map_Store_Threads.thy ===== *)
theory Map_Store_Threads
  imports Map_Store
begin

text \<open>
  The in-memory store under concurrent calls, statement by statement. \<open>Map_Store\<close> runs an
  operation from its call to its return; here every access to the lock and to the map is a step of
  its own, several threads take turns, and the clock advances in between. The locks are the
  \<open>sync.RWMutex\<close> of the store; that a waiting writer holds back new readers is left out, which
  allows more schedules.
\<close>

section \<open>Threads\<close>

lemma wait_0 [simp]: "wait 0 w = w"
  by (simp add: wait_def)

lemma map_data_wait [simp]: "map_data s (wait d w) = map_data s w"
  by (simp add: map_data_def)

datatype op = OGet key | OGetWithTTL key | OSet key gval duration | ODelete key | OClear

datatype reply = RVal "gval result" | RValTTL "(gval \<times> duration) result" | RUnit "unit result"

record mutex =
  mu_readers :: nat
  mu_writer :: bool

text \<open>
  Where a thread stands: before the named statement of the named operation, with the local
  variables it still needs. \<open>Get\<close> serves two callers; the flag says that it is \<open>GetWithTTL\<close>.
\<close>

datatype point =
    Idle
  | Get_Sleep bool key int
  | Get_RLock bool key
  | Get_Read bool key
  | Get_RUnlock bool key "map_item option"
  | Get_Test bool key "map_item option"
  | Get_Lock bool key
  | Get_Delete bool key
  | Get_Unlock bool key
  | TTL_RLock key gval
  | TTL_Read key gval
  | TTL_RUnlock gval int
  | TTL_Report gval int
  | Set_Lock key map_item
  | Set_Write key map_item
  | Set_Unlock
  | Delete_Lock key
  | Delete_Remove key
  | Delete_Unlock
  | Clear_Lock
  | Clear_Make
  | Clear_Unlock

datatype next_stmt = Goto point | Return reply

definition key_missing :: "key \<Rightarrow> error" where
  "key_missing k = Errorf ''key=%s not found: %w'' [AStr k, AErr ErrNotFound]"

definition key_expired :: "key \<Rightarrow> error" where
  "key_expired k = Errorf ''key=%s expired: %w'' [AStr k, AErr ErrNotFound]"

text \<open>\<open>Get\<close> returns to the client, or to \<open>GetWithTTL\<close>, which goes on if there is a value.\<close>

definition Get_returns :: "bool \<Rightarrow> key \<Rightarrow> gval result \<Rightarrow> next_stmt" where
  "Get_returns ttl k r =
     (if ttl then (case r of Ok v \<Rightarrow> Goto (TTL_RLock k v) | Err e \<Rightarrow> Return (RValTTL (Err e)) | Panic m \<Rightarrow> Return (RValTTL (Panic m)))
      else Return (RVal r))"

definition free_lock :: mutex where
  "free_lock = \<lparr>mu_readers = 0, mu_writer = False\<rparr>"

text \<open>The lock operations; \<open>None\<close>: the thread has to wait.\<close>

definition RLock :: "mutex \<Rightarrow> mutex option" where
  "RLock m = (if mu_writer m then None else Some (m\<lparr>mu_readers := Suc (mu_readers m)\<rparr>))"

definition RUnlock :: "mutex \<Rightarrow> mutex" where
  "RUnlock m = m\<lparr>mu_readers := mu_readers m - 1\<rparr>"

definition Lock :: "mutex \<Rightarrow> mutex option" where
  "Lock m = (if mu_writer m \<or> 0 < mu_readers m then None else Some (m\<lparr>mu_writer := True\<rparr>))"

definition Unlock :: "mutex \<Rightarrow> mutex" where
  "Unlock m = m\<lparr>mu_writer := False\<rparr>"

type_synonym shared = "mutex \<times> map_heap world"

text \<open>The first statements of an operation, up to its first access to the lock or its sleep.\<close>

fun enter :: "slow_map_store \<Rightarrow> op \<Rightarrow> map_heap world \<Rightarrow> next_stmt" where
  "enter s (OGet k) w = Goto (Get_Sleep False k (w_now w + max 0 (sm_readDelay s)))"
| "enter s (OGetWithTTL k) w = Goto (Get_Sleep True k (w_now w + max 0 (sm_readDelay s)))"
| "enter s (OSet k v ttl) w =
     (if ttl < 0 then Return (RUnit (Err (Errorf ''ttl must be >= 0'' [])))
      else Goto (Set_Lock k \<lparr>it_value = v, it_expireAt = (if 0 < ttl then w_now w + ttl else zero_time)\<rparr>))"
| "enter s (ODelete k) w = Goto (Delete_Lock k)"
| "enter s OClear w = Goto Clear_Lock"

text \<open>One statement of an operation under way; \<open>None\<close>: it cannot be executed yet.\<close>

fun stmt :: "slow_map_store \<Rightarrow> point \<Rightarrow> shared \<Rightarrow> (next_stmt \<times> shared) option" where
  "stmt s Idle (m, w) = None"
| "stmt s (Get_Sleep b k wake) (m, w) = (if wake \<le> w_now w then Some (Goto (Get_RLock b k), m, w) else None)"
| "stmt s (Get_RLock b k) (m, w) = map_option (\<lambda>m. (Goto (Get_Read b k), m, w)) (RLock m)"
| "stmt s (Get_Read b k) (m, w) = Some (Goto (Get_RUnlock b k (map_data s w k)), m, w)"
| "stmt s (Get_RUnlock b k it) (m, w) = Some (Goto (Get_Test b k it), RUnlock m, w)"
| "stmt s (Get_Test b k None) (m, w) = Some (Get_returns b k (Err (key_missing k)), m, w)"
| "stmt s (Get_Test b k (Some it)) (m, w) =
     (if \<not> IsZero (it_expireAt it) \<and> After (w_now w) (it_expireAt it) then Some (Goto (Get_Lock b k), m, w)
      else Some (Get_returns b k (Ok (it_value it)), m, w))"
| "stmt s (Get_Lock b k) (m, w) = map_option (\<lambda>m. (Goto (Get_Delete b k), m, w)) (Lock m)"
| "stmt s (Get_Delete b k) (m, w) = Some (Goto (Get_Unlock b k), m, put_data s ((map_data s w)(k := None)) w)"
| "stmt s (Get_Unlock b k) (m, w) = Some (Get_returns b k (Err (key_expired k)), Unlock m, w)"
| "stmt s (TTL_RLock k v) (m, w) = map_option (\<lambda>m. (Goto (TTL_Read k v), m, w)) (RLock m)"
| "stmt s (TTL_Read k v) (m, w) =
     Some (Goto (TTL_RUnlock v (case map_data s w k of None \<Rightarrow> zero_time | Some it \<Rightarrow> it_expireAt it)), m, w)"
| "stmt s (TTL_RUnlock v e) (m, w) = Some (Goto (TTL_Report v e), RUnlock m, w)"
| "stmt s (TTL_Report v e) (m, w) = Some (Return (RValTTL (Ok (v, if IsZero e then 0 else e - w_now w))), m, w)"
| "stmt s (Set_Lock k it) (m, w) = map_option (\<lambda>m. (Goto (Set_Write k it), m, w)) (Lock m)"
| "stmt s (Set_Write k it) (m, w) = Some (Goto Set_Unlock, m, put_data s ((map_data s w)(k \<mapsto> it)) w)"
| "stmt s Set_Unlock (m, w) = Some (Return (RUnit (Ok ())), Unlock m, w)"
| "stmt s (Delete_Lock k) (m, w) = map_option (\<lambda>m. (Goto (Delete_Remove k), m, w)) (Lock m)"
| "stmt s (Delete_Remove k) (m, w) = Some (Goto Delete_Unlock, m, put_data s ((map_data s w)(k := None)) w)"
| "stmt s Delete_Unlock (m, w) = Some (Return (RUnit (Ok ())), Unlock m, w)"
| "stmt s Clear_Lock (m, w) = map_option (\<lambda>m. (Goto Clear_Make, m, w)) (Lock m)"
| "stmt s Clear_Make (m, w) = Some (Goto Clear_Unlock, m, put_data s Map.empty w)"
| "stmt s Clear_Unlock (m, w) = Some (Return (RUnit (Ok ())), Unlock m, w)"

text \<open>A thread calls its operations one after the other.\<close>

record thread =
  th_ops :: "op list"
  th_point :: point
  th_replies :: "reply list"

definition proceed :: "thread \<Rightarrow> next_stmt \<Rightarrow> thread" where
  "proceed th n = (case n of Goto p \<Rightarrow> th\<lparr>th_point := p\<rparr> | Return r \<Rightarrow> th\<lparr>th_point := Idle, th_replies := th_replies th @ [r]\<rparr>)"

definition thread_step :: "slow_map_store \<Rightarrow> thread \<Rightarrow> shared \<Rightarrow> (thread \<times> shared) option" where
  "thread_step s th sh =
     (if th_point th = Idle
      then (case th_ops th of [] \<Rightarrow> None | p # ops \<Rightarrow> Some (proceed (th\<lparr>th_ops := ops\<rparr>) (enter s p (snd sh)), sh))
      else map_option (\<lambda>(n, sh). (proceed th n, sh)) (stmt s (th_point th) sh))"

definition caller :: "op list \<Rightarrow> thread" where
  "caller ops = \<lparr>th_ops = ops, th_point = Idle, th_replies = []\<rparr>"

definition finished :: "thread \<Rightarrow> bool" where
  "finished th \<longleftrightarrow> th_ops th = [] \<and> th_point th = Idle"

type_synonym system = "shared \<times> thread list"

text \<open>\<open>sys_run s n c c'\<close>: a run from \<open>c\<close> to \<open>c'\<close> in which threads make \<open>n\<close> steps.\<close>

inductive sys_run :: "slow_map_store \<Rightarrow> nat \<Rightarrow> system \<Rightarrow> system \<Rightarrow> bool" for s where
  start: "sys_run s 0 c c"
| tick: "sys_run s n c ((m, w), ths) \<Longrightarrow> 0 \<le> d \<Longrightarrow> sys_run s n c ((m, wait d w), ths)"
| run: "sys_run s n c (sh, ths) \<Longrightarrow> i < length ths \<Longrightarrow> thread_step s (ths ! i) sh = Some (th, sh') \<Longrightarrow>
        sys_run s (Suc n) c (sh', ths[i := th])"


text \<open>A schedule fixes whose turn it is and how much time passes; it can be executed.\<close>

datatype turn = Tick duration | Turn nat

fun turns :: "slow_map_store \<Rightarrow> turn list \<Rightarrow> system \<Rightarrow> system option" where
  "turns s [] c = Some c"
| "turns s (Tick d # es) ((m, w), ths) = (if d < 0 then None else turns s es ((m, wait d w), ths))"
| "turns s (Turn i # es) (sh, ths) =
     (if length ths \<le> i then None
      else case thread_step s (ths ! i) sh of None \<Rightarrow> None | Some (th, sh') \<Rightarrow> turns s es (sh', ths[i := th]))"

lemma turns_run: "turns s es c = Some c' \<Longrightarrow> sys_run s n c0 c \<Longrightarrow> \<exists>n'. sys_run s n' c0 c'"
proof (induction s es c arbitrary: n rule: turns.induct)
  case (2 s d es m w ths)
  then have "sys_run s n c0 ((m, wait d w), ths)" by (auto split: if_splits intro: sys_run.tick)
  with 2 show ?case by (auto split: if_splits)
next
  case (3 s i es sh ths)
  then obtain th sh' where st: "i < length ths" "thread_step s (ths ! i) sh = Some (th, sh')"
    "turns s es (sh', ths[i := th]) = Some c'"
    by (auto split: if_splits option.splits)
  from 3(1) [OF _ st(2) refl st(3) sys_run.run [OF 3(3) st(1,2)]] st(1) show ?case by simp
qed auto

lemma sys_run_trans: "sys_run s n c1 c2 \<Longrightarrow> sys_run s m c0 c1 \<Longrightarrow> sys_run s (m + n) c0 c2"
  by (induction rule: sys_run.induct) (auto intro: sys_run.intros)

lemma sys_run_threads: "sys_run s n c c' \<Longrightarrow> length (snd c') = length (snd c)"
  by (induction rule: sys_run.induct) auto

section \<open>The lock\<close>

fun reading :: "point \<Rightarrow> bool" where
  "reading (Get_Read b k) = True"
| "reading (Get_RUnlock b k it) = True"
| "reading (TTL_Read k v) = True"
| "reading (TTL_RUnlock v e) = True"
| "reading p = False"

fun writing :: "point \<Rightarrow> bool" where
  "writing (Get_Delete b k) = True"
| "writing (Get_Unlock b k) = True"
| "writing (Set_Write k it) = True"
| "writing Set_Unlock = True"
| "writing (Delete_Remove k) = True"
| "writing Delete_Unlock = True"
| "writing Clear_Make = True"
| "writing Clear_Unlock = True"
| "writing p = False"

definition count_at :: "(point \<Rightarrow> bool) \<Rightarrow> thread list \<Rightarrow> nat" where
  "count_at P ths = length (filter (\<lambda>th. P (th_point th)) ths)"

definition lock_ok :: "mutex \<Rightarrow> thread list \<Rightarrow> bool" where
  "lock_ok m ths \<longleftrightarrow> mu_readers m = count_at reading ths \<and>
     count_at writing ths = (if mu_writer m then 1 else 0) \<and> (mu_writer m \<longrightarrow> mu_readers m = 0)"

lemma count_at_update:
  assumes "i < length ths"
  shows "count_at P (ths[i := th]) + of_bool (P (th_point (ths ! i))) = count_at P ths + of_bool (P (th_point th))"
  using assms
proof (induction ths arbitrary: i)
  case (Cons a ths)
  then show ?case by (cases i) (auto simp: count_at_def)
qed simp

lemma count_at_pos: "i < length ths \<Longrightarrow> P (th_point (ths ! i)) \<Longrightarrow> 0 < count_at P ths"
  by (auto simp: count_at_def filter_empty_conv)

definition next_at :: "(point \<Rightarrow> bool) \<Rightarrow> next_stmt \<Rightarrow> bool" where
  "next_at P n = (case n of Goto p \<Rightarrow> P p | Return r \<Rightarrow> False)"

lemma proceed_at: "\<not> P Idle \<Longrightarrow> P (th_point (proceed th n)) = next_at P n"
  by (simp add: proceed_def next_at_def split: next_stmt.split)

lemma enter_at: "\<not> next_at reading (enter s p w)" "\<not> next_at writing (enter s p w)"
  by (cases p; simp add: next_at_def)+

lemma Get_returns_at [simp]: "\<not> next_at reading (Get_returns b k r)" "\<not> next_at writing (Get_returns b k r)"
  by (simp_all add: Get_returns_def next_at_def split: outcome.split)

text \<open>How a statement changes the lock, and where it leaves the thread.\<close>

lemma stmt_reading:
  assumes "reading p" and "stmt s p (m, w) = Some (n, m', w')"
  shows "m' = m \<and> next_at reading n \<and> \<not> next_at writing n \<or>
     m' = RUnlock m \<and> \<not> next_at reading n \<and> \<not> next_at writing n"
  using assms by (cases p) (auto simp: next_at_def)

lemma stmt_writing:
  assumes "writing p" and "stmt s p (m, w) = Some (n, m', w')"
  shows "m' = m \<and> \<not> next_at reading n \<and> next_at writing n \<or>
     m' = Unlock m \<and> \<not> next_at reading n \<and> \<not> next_at writing n"
  using assms by (cases p) (auto simp: next_at_def [of _ "Goto _"] next_at_def [of _ "Return _"])

lemma stmt_outside:
  assumes "\<not> reading p" "\<not> writing p" and "stmt s p (m, w) = Some (n, m', w')"
  shows "m' = m \<and> \<not> next_at reading n \<and> \<not> next_at writing n \<or>
     RLock m = Some m' \<and> next_at reading n \<and> \<not> next_at writing n \<or>
     Lock m = Some m' \<and> \<not> next_at reading n \<and> next_at writing n"
proof (cases p)
  case (Get_Test b k it)
  with assms(3) show ?thesis
    by (cases it) (auto simp: next_at_def [of _ "Goto _"] split: if_splits)
qed (use assms in \<open>auto simp: next_at_def [of _ "Goto _"] next_at_def [of _ "Return _"] split: if_splits\<close>)

lemma thread_step_lock:
  assumes "lock_ok m ths" and "i < length ths" and "thread_step s (ths ! i) (m, w) = Some (th, m', w')"
  shows "lock_ok m' (ths[i := th])"
proof -
  let ?p = "th_point (ths ! i)"
  note R = count_at_update [OF assms(2), of reading th] and W = count_at_update [OF assms(2), of writing th]
  have r: "reading ?p \<Longrightarrow> 0 < count_at reading ths" and wr: "writing ?p \<Longrightarrow> 0 < count_at writing ths"
    using count_at_pos [OF assms(2)] by auto
  have ex: "\<not> (reading ?p \<and> writing ?p)" by (cases ?p) auto
  show ?thesis
  proof (cases "?p = Idle")
    case True
    then obtain p ops where "m' = m" "th = proceed ((ths ! i)\<lparr>th_ops := ops\<rparr>) (enter s p w)"
      using assms(3) by (auto simp: thread_step_def split: list.splits)
    with True R W assms(1) enter_at [of s p w] show ?thesis
      by (auto simp: lock_ok_def proceed_at)
  next
    case False
    then obtain n where st: "stmt s ?p (m, w) = Some (n, m', w')" "th = proceed (ths ! i) n"
      using assms(3) by (auto simp: thread_step_def)
    have at: "reading (th_point th) = next_at reading n" "writing (th_point th) = next_at writing n"
      by (simp_all add: st(2) proceed_at)
    consider "reading ?p" | "writing ?p" | "\<not> reading ?p" "\<not> writing ?p" by blast
    then show ?thesis
    proof cases
      case 1
      with stmt_reading [OF 1 st(1)] R W r ex at assms(1) show ?thesis
        by (auto simp: lock_ok_def RUnlock_def)
    next
      case 2
      with stmt_writing [OF 2 st(1)] R W wr ex at assms(1) show ?thesis
        by (auto simp: lock_ok_def Unlock_def split: if_splits)
    next
      case 3
      with stmt_outside [OF 3 st(1)] R W at assms(1) show ?thesis
        by (auto simp: lock_ok_def RLock_def Lock_def split: if_splits)
    qed
  qed
qed

lemma lock_ok_init: "lock_ok free_lock (map caller progs)"
  by (simp add: lock_ok_def free_lock_def count_at_def caller_def filter_empty_conv)

lemma run_lock_ok: "sys_run s n c ((m, w), ths) \<Longrightarrow> lock_ok (fst (fst c)) (snd c) \<Longrightarrow> lock_ok m ths"
  by (induction "n" c "((m, w), ths)" arbitrary: m w ths rule: sys_run.induct)
    (auto intro: thread_step_lock)


text \<open>Nobody else is at the map, or about to release the lock, while a thread writes it.\<close>

lemma lock_excludes:
  assumes "lock_ok m ths" and "i < length ths" "j < length ths" "i \<noteq> j" and "writing (th_point (ths ! i))"
  shows "\<not> writing (th_point (ths ! j)) \<and> \<not> reading (th_point (ths ! j))"
proof -
  have "0 < count_at writing ths" by (rule count_at_pos) fact+
  with assms(1) have one: "count_at writing ths = 1" "count_at reading ths = 0"
    by (auto simp: lock_ok_def split: if_splits)
  then have "\<not> reading (th_point (ths ! j))" using count_at_pos [OF assms(3), of reading] by auto
  moreover have "\<not> writing (th_point (ths ! j))"
  proof
    assume j: "writing (th_point (ths ! j))"
    have "count_at writing (ths[i := caller []]) + 1 = 1"
      using count_at_update [OF assms(2), of writing "caller []"] assms(5) one by (simp add: caller_def)
    moreover have "0 < count_at writing (ths[i := caller []])"
      using assms(3,4) j by (intro count_at_pos [of j]) simp_all
    ultimately show False by simp
  qed
  ultimately show ?thesis by blast
qed

section \<open>Every schedule ends\<close>

text \<open>The number of statements an operation has left at most.\<close>

fun stmts_left :: "point \<Rightarrow> nat" where
  "stmts_left Idle = 0"
| "stmts_left (Get_Sleep b k t) = 12"
| "stmts_left (Get_RLock b k) = 11"
| "stmts_left (Get_Read b k) = 10"
| "stmts_left (Get_RUnlock b k it) = 9"
| "stmts_left (Get_Test b k it) = 8"
| "stmts_left (Get_Lock b k) = 7"
| "stmts_left (Get_Delete b k) = 6"
| "stmts_left (Get_Unlock b k) = 5"
| "stmts_left (TTL_RLock k v) = 4"
| "stmts_left (TTL_Read k v) = 3"
| "stmts_left (TTL_RUnlock v e) = 2"
| "stmts_left (TTL_Report v e) = 1"
| "stmts_left (Set_Lock k it) = 3"
| "stmts_left (Set_Write k it) = 2"
| "stmts_left Set_Unlock = 1"
| "stmts_left (Delete_Lock k) = 3"
| "stmts_left (Delete_Remove k) = 2"
| "stmts_left Delete_Unlock = 1"
| "stmts_left Clear_Lock = 3"
| "stmts_left Clear_Make = 2"
| "stmts_left Clear_Unlock = 1"

definition next_left :: "next_stmt \<Rightarrow> nat" where
  "next_left n = (case n of Goto p \<Rightarrow> stmts_left p | Return r \<Rightarrow> 0)"

definition thread_left :: "thread \<Rightarrow> nat" where
  "thread_left th = 13 * length (th_ops th) + stmts_left (th_point th)"

definition system_left :: "thread list \<Rightarrow> nat" where
  "system_left ths = sum_list (map thread_left ths)"

lemma Get_returns_left: "4 < n \<Longrightarrow> next_left (Get_returns b k r) < n"
  by (simp add: Get_returns_def next_left_def split: outcome.split)

lemma stmt_left:
  assumes "stmt s p (m, w) = Some (n, sh')"
  shows "next_left n < stmts_left p"
proof (cases p)
  case (Get_Test b k it)
  with assms show ?thesis
    by (cases it) (auto simp: next_left_def [of "Goto _"] Get_returns_left split: if_splits)
qed (use assms in \<open>auto simp: next_left_def [of "Goto _"] next_left_def [of "Return _"] Get_returns_left split: if_splits\<close>)

lemma thread_step_left: "thread_step s th sh = Some (th', sh') \<Longrightarrow> thread_left th' < thread_left th"
proof -
  assume a: "thread_step s th sh = Some (th', sh')"
  have P: "thread_left (proceed th n) = 13 * length (th_ops th) + next_left n" for th n
    by (simp add: proceed_def thread_left_def next_left_def split: next_stmt.split)
  show ?thesis
  proof (cases "th_point th = Idle")
    case True
    then obtain p ops where "th_ops th = p # ops" "th' = proceed (th\<lparr>th_ops := ops\<rparr>) (enter s p (snd sh))"
      using a by (auto simp: thread_step_def split: list.splits)
    moreover have "next_left (enter s p (snd sh)) \<le> 12" by (cases p) (simp_all add: next_left_def)
    ultimately show ?thesis by (simp add: P) (simp add: thread_left_def)
  next
    case False
    then obtain n where "stmt s (th_point th) sh = Some (n, sh')" "th' = proceed th n"
      using a by (auto simp: thread_step_def)
    with stmt_left [of s "th_point th" "fst sh" "snd sh"] show ?thesis by (simp add: P) (simp add: thread_left_def)
  qed
qed

lemma run_left: "sys_run s n c c' \<Longrightarrow> n + system_left (snd c') \<le> system_left (snd c)"
proof (induction rule: sys_run.induct)
  case (run n c sh ths i th sh')
  have "system_left (ths[i := th]) + thread_left (ths ! i) = system_left ths + thread_left th"
    using run(2) unfolding system_left_def
    by (induction ths arbitrary: i) (auto simp: nth_Cons' split: nat.splits elim: less_natE)
  with thread_step_left [OF run(3)] run(4) show ?case by simp
qed auto


text \<open>
  Unless all threads have finished, one of them can go on, possibly after some time: the holder of
  the lock if there is one, and any thread otherwise.
\<close>

lemma stmt_enabled_holder: "reading p \<or> writing p \<Longrightarrow> stmt s p (m, w) \<noteq> None"
  by (cases p) auto

lemma stmt_enabled_free:
  assumes "p \<noteq> Idle" and "\<not> mu_writer m" "mu_readers m = 0"
  shows "\<exists>d \<ge> 0. stmt s p (m, wait d w) \<noteq> None"
proof (cases p)
  case (Get_Sleep b k t)
  then show ?thesis by (intro exI [of _ "max 0 (t - w_now w)"]) auto
next
  case (Get_Test b k it)
  then show ?thesis by (intro exI [of _ 0]) (cases it; simp)
qed (use assms in \<open>auto simp: RLock_def Lock_def intro!: exI [of _ 0]\<close>)

lemma progress:
  assumes "lock_ok m ths" and th: "th \<in> set ths" "\<not> finished th"
  shows "\<exists>d \<ge> 0. \<exists>i < length ths. thread_step s (ths ! i) (m, wait d w) \<noteq> None"
proof (cases "\<exists>th \<in> set ths. reading (th_point th) \<or> writing (th_point th)")
  case True
  then obtain i where i: "i < length ths" "reading (th_point (ths ! i)) \<or> writing (th_point (ths ! i))"
    by (metis in_set_conv_nth)
  then have "th_point (ths ! i) \<noteq> Idle" by auto
  with stmt_enabled_holder [OF i(2), of s m "wait 0 w"] have "thread_step s (ths ! i) (m, wait 0 w) \<noteq> None"
    by (auto simp: thread_step_def)
  with i(1) show ?thesis by blast
next
  case False
  then have free: "\<not> mu_writer m" "mu_readers m = 0"
    using assms(1) by (auto simp: lock_ok_def count_at_def filter_empty_conv split: if_splits)
  obtain i where i: "i < length ths" "ths ! i = th" using th(1) by (metis in_set_conv_nth)
  show ?thesis
  proof (cases "th_point th = Idle")
    case True
    with th(2) i have "thread_step s (ths ! i) (m, wait 0 w) \<noteq> None"
      by (auto simp: thread_step_def finished_def neq_Nil_conv)
    with i(1) show ?thesis by blast
  next
    case False
    with stmt_enabled_free [OF False free] obtain d where "0 \<le> d" "stmt s (th_point th) (m, wait d w) \<noteq> None"
      by blast
    moreover from this False i have "thread_step s (ths ! i) (m, wait d w) \<noteq> None" by (auto simp: thread_step_def)
    ultimately show ?thesis using i(1) by blast
  qed
qed

lemma run_to_end:
  assumes "lock_ok m ths"
  shows "\<exists>n sh ths'. sys_run s n ((m, w), ths) (sh, ths') \<and> (\<forall>th \<in> set ths'. finished th)"
  using assms
proof (induction "system_left ths" arbitrary: m w ths rule: less_induct)
  case less
  show ?case
  proof (cases "\<forall>th \<in> set ths. finished th")
    case True
    then show ?thesis by (blast intro: sys_run.start)
  next
    case False
    then obtain d i where d: "0 \<le> d" and i: "i < length ths" "thread_step s (ths ! i) (m, wait d w) \<noteq> None"
      using progress [OF less.prems] by blast
    then obtain th m' w' where st: "thread_step s (ths ! i) (m, wait d w) = Some (th, m', w')" by auto
    have one: "sys_run s (Suc 0) ((m, w), ths) ((m', w'), ths[i := th])"
      by (rule sys_run.run [OF sys_run.tick [OF sys_run.start d] i(1) st])
    then have "system_left (ths[i := th]) < system_left ths" by (auto dest: run_left)
    from less.hyps [OF this thread_step_lock [OF less.prems i(1) st]] one show ?thesis
      by (blast intro: sys_run_trans)
  qed
qed

section \<open>One operation at a time\<close>

text \<open>A thread that is not disturbed does what the sequential definition says.\<close>

fun seq_op :: "slow_map_store \<Rightarrow> op \<Rightarrow> map_heap world \<Rightarrow> reply \<times> map_heap world" where
  "seq_op s (OGet k) w = map_prod RVal id (SlowMapStore_Get s Background k [] w)"
| "seq_op s (OGetWithTTL k) w = map_prod RValTTL id (SlowMapStore_GetWithTTL s Background k [] w)"
| "seq_op s (OSet k v ttl) w = map_prod RUnit id (SlowMapStore_Set s Background k v ttl [] w)"
| "seq_op s (ODelete k) w = map_prod RUnit id (SlowMapStore_Delete s Background k [] w)"
| "seq_op s OClear w = map_prod RUnit id (SlowMapStore_Clear s Background w)"

definition alone :: "slow_map_store \<Rightarrow> op \<Rightarrow> map_heap world \<Rightarrow> turn list" where
  "alone s p w =
     (let nap = Tick (max 0 (sm_readDelay s)); steps = (\<lambda>n. replicate n (Turn 0));
          w' = sleep (sm_readDelay s) w; get = (\<lambda>k ttl. case map_data s w' k of
              None \<Rightarrow> 5 | Some it \<Rightarrow> if past (it_expireAt it) (w_now w') then 8 else if ttl then 9 else 5)
      in case p of
        OGet k \<Rightarrow> Turn 0 # nap # steps (get k False)
      | OGetWithTTL k \<Rightarrow> Turn 0 # nap # steps (get k True)
      | OSet k v ttl \<Rightarrow> steps (if ttl < 0 then 1 else 4)
      | ODelete k \<Rightarrow> steps 4
      | OClear \<Rightarrow> steps 4)"


lemma replicate_turns: "replicate (numeral n) (Turn i) = Turn i # replicate (pred_numeral n) (Turn i)"
  by (simp add: numeral_eq_Suc)

lemma turns_Turn:
  "turns s (Turn 0 # es) (sh, [th]) =
     (case thread_step s th sh of None \<Rightarrow> None | Some (th', sh') \<Rightarrow> turns s es (sh', [th']))"
  by (auto split: option.split)

lemmas exec_simps = replicate_turns turns_Turn thread_step_def caller_def proceed_def free_lock_def
  RLock_def RUnlock_def Lock_def Unlock_def Get_returns_def key_missing_def key_expired_def

lemma alone_runs:
  "turns s (alone s p w) ((free_lock, w), [caller [p]]) =
     (case seq_op s p w of (r, w') \<Rightarrow>
        Some ((free_lock, w'), [\<lparr>th_ops = [], th_point = Idle, th_replies = [r]\<rparr>]))"
proof (cases p)
  case (OGet k)
  then show ?thesis
    by (cases "map_data s (sleep (sm_readDelay s) w) k")
      (simp_all add: exec_simps alone_def Let_def past_def SlowMapStore_Get_def sleep_def del: turns.simps(3))
next
  case (OGetWithTTL k)
  then show ?thesis
    by (cases "map_data s (sleep (sm_readDelay s) w) k")
      (simp_all add: exec_simps alone_def Let_def past_def SlowMapStore_Get_def SlowMapStore_GetWithTTL_def sleep_def
        del: turns.simps(3))
qed (simp_all add: exec_simps alone_def Let_def SlowMapStore_Set_def SlowMapStore_Delete_def SlowMapStore_Clear_def
    del: turns.simps(3))

section \<open>Without expiry: one step at a time\<close>

text \<open>Where no item expires, an operation takes effect in a single step.\<close>

definition timeless :: "(key \<rightharpoonup> map_item) \<Rightarrow> bool" where
  "timeless m \<longleftrightarrow> (\<forall>k it. m k = Some it \<longrightarrow> it_expireAt it = zero_time)"

fun timeless_op :: "op \<Rightarrow> bool" where
  "timeless_op (OSet k v ttl) = (ttl \<le> 0)"
| "timeless_op p = True"

fun atomic :: "op \<Rightarrow> (key \<rightharpoonup> map_item) \<Rightarrow> reply \<times> (key \<rightharpoonup> map_item)" where
  "atomic (OGet k) m = (RVal (case m k of None \<Rightarrow> Err (key_missing k) | Some it \<Rightarrow> Ok (it_value it)), m)"
| "atomic (OGetWithTTL k) m =
     (RValTTL (case m k of None \<Rightarrow> Err (key_missing k) | Some it \<Rightarrow> Ok (it_value it, 0)), m)"
| "atomic (OSet k v ttl) m =
     (if ttl < 0 then (RUnit (Err (Errorf ''ttl must be >= 0'' [])), m)
      else (RUnit (Ok ()), m(k \<mapsto> \<lparr>it_value = v, it_expireAt = zero_time\<rparr>)))"
| "atomic (ODelete k) m = (RUnit (Ok ()), m(k := None))"
| "atomic OClear m = (RUnit (Ok ()), Map.empty)"

lemma atomic_seq:
  assumes "timeless (map_data s w)" and "timeless_op p" and "seq_op s p w = (r, w')"
  shows "atomic p (map_data s w) = (r, map_data s w') \<and> timeless (map_data s w')"
proof (cases p)
  case (OGet k)
  with assms show ?thesis
    by (auto simp: SlowMapStore_Get_def timeless_def key_missing_def IsZero_def Let_def split: option.splits if_splits)
next
  case (OGetWithTTL k)
  with assms show ?thesis
    by (auto simp: SlowMapStore_GetWithTTL_def SlowMapStore_Get_def timeless_def key_missing_def IsZero_def Let_def
        split: option.splits if_splits)
next
  case (OSet k v ttl)
  with assms show ?thesis by (auto simp: SlowMapStore_Set_def timeless_def Let_def split: if_splits)
qed (use assms in \<open>auto simp: SlowMapStore_Delete_def SlowMapStore_Clear_def timeless_def split: if_splits\<close>)

text \<open>The sequential store, run on a list of operations.\<close>

fun replay :: "slow_map_store \<Rightarrow> op list \<Rightarrow> map_heap world \<Rightarrow> reply list \<times> map_heap world" where
  "replay s [] w = ([], w)"
| "replay s (p # ps) w = (let (r, w) = seq_op s p w; (rs, w) = replay s ps w in (r # rs, w))"

lemma replay_append:
  "replay s (ps @ [p]) w = (let (rs, w) = replay s ps w; (r, w) = seq_op s p w in (rs @ [r], w))"
  by (induction ps arbitrary: w) (simp_all add: split_beta Let_def)

text \<open>
  The operation a thread has called and not carried out yet, and the reply it will give for the
  one it has carried out and not returned from.
\<close>

fun current :: "point \<Rightarrow> op list" where
  "current (Get_Sleep b k t) = [if b then OGetWithTTL k else OGet k]"
| "current (Get_RLock b k) = [if b then OGetWithTTL k else OGet k]"
| "current (Get_Read b k) = [if b then OGetWithTTL k else OGet k]"
| "current (Set_Lock k it) = [OSet k (it_value it) 0]"
| "current (Set_Write k it) = [OSet k (it_value it) 0]"
| "current (Delete_Lock k) = [ODelete k]"
| "current (Delete_Remove k) = [ODelete k]"
| "current Clear_Lock = [OClear]"
| "current Clear_Make = [OClear]"
| "current p = []"

definition read_reply :: "bool \<Rightarrow> key \<Rightarrow> map_item option \<Rightarrow> reply" where
  "read_reply b k it =
     (case it of None \<Rightarrow> if b then RValTTL (Err (key_missing k)) else RVal (Err (key_missing k))
      | Some it \<Rightarrow> if b then RValTTL (Ok (it_value it, 0)) else RVal (Ok (it_value it)))"

fun pending :: "point \<Rightarrow> reply list" where
  "pending (Get_RUnlock b k it) = [read_reply b k it]"
| "pending (Get_Test b k it) = [read_reply b k it]"
| "pending (TTL_RLock k v) = [RValTTL (Ok (v, 0))]"
| "pending (TTL_Read k v) = [RValTTL (Ok (v, 0))]"
| "pending (TTL_RUnlock v e) = [RValTTL (Ok (v, 0))]"
| "pending (TTL_Report v e) = [RValTTL (Ok (v, 0))]"
| "pending Set_Unlock = [RUnit (Ok ())]"
| "pending Delete_Unlock = [RUnit (Ok ())]"
| "pending Clear_Unlock = [RUnit (Ok ())]"
| "pending p = []"

text \<open>Points a thread can be at when nothing expires.\<close>

fun timeless_point :: "point \<Rightarrow> bool" where
  "timeless_point (Get_RUnlock b k it) = (\<forall>i. it = Some i \<longrightarrow> it_expireAt i = zero_time)"
| "timeless_point (Get_Test b k it) = (\<forall>i. it = Some i \<longrightarrow> it_expireAt i = zero_time)"
| "timeless_point (Get_Lock b k) = False"
| "timeless_point (Get_Delete b k) = False"
| "timeless_point (Get_Unlock b k) = False"
| "timeless_point (TTL_RUnlock v e) = (e = zero_time)"
| "timeless_point (TTL_Report v e) = (e = zero_time)"
| "timeless_point (Set_Lock k it) = (it_expireAt it = zero_time)"
| "timeless_point (Set_Write k it) = (it_expireAt it = zero_time)"
| "timeless_point p = True"

text \<open>What the next statement leads to, in the same terms.\<close>

definition next_current :: "next_stmt \<Rightarrow> op list" where
  "next_current n = (case n of Goto p \<Rightarrow> current p | Return r \<Rightarrow> [])"

definition next_pending :: "next_stmt \<Rightarrow> reply list" where
  "next_pending n = (case n of Goto p \<Rightarrow> pending p | Return r \<Rightarrow> [r])"

definition next_timeless :: "next_stmt \<Rightarrow> bool" where
  "next_timeless n = (case n of Goto p \<Rightarrow> timeless_point p | Return r \<Rightarrow> True)"

lemmas next_defs = next_current_def next_pending_def next_timeless_def

text \<open>A statement either leaves the map and the progress of the operation alone, or carries the operation out.\<close>

lemma stmt_commits:
  assumes "stmt s p (m, w) = Some (n, m', w')" and "timeless_point p" and "timeless (map_data s w)"
  shows "next_timeless n \<and>
     (map_data s w' = map_data s w \<and> next_current n = current p \<and> next_pending n = pending p \<or>
      (\<exists>q r. current p = [q] \<and> pending p = [] \<and> next_current n = [] \<and> next_pending n = [r] \<and> timeless_op q \<and>
         atomic q (map_data s w) = (r, map_data s w')))"
proof (cases p)
  case (Get_Test b k it)
  with assms show ?thesis
    by (cases it) (auto simp: next_defs Get_returns_def read_reply_def IsZero_def)
next
  case (Get_Read b k)
  with assms show ?thesis
    by (auto simp: next_defs read_reply_def timeless_def split: option.split)
next
  case (TTL_Read k v)
  with assms show ?thesis by (auto simp: next_defs timeless_def split: option.split)
next
  case (Set_Write k it)
  with assms show ?thesis by (cases it) (auto simp: next_defs)
qed (use assms in \<open>auto simp: next_defs IsZero_def split: if_splits\<close>)


lemma proceed_fields:
  "th_ops (proceed th n) = th_ops th" "current (th_point (proceed th n)) = next_current n"
  "th_replies (proceed th n) @ pending (th_point (proceed th n)) = th_replies th @ next_pending n"
  "timeless_point (th_point (proceed th n)) = next_timeless n"
  by (simp_all add: proceed_def next_defs split: next_stmt.split)

lemma enter_timeless:
  "timeless_op p \<Longrightarrow> next_timeless (enter s p w) \<and>
     (next_current (enter s p w) = [p] \<and> next_pending (enter s p w) = [] \<or>
      next_current (enter s p w) = [] \<and> (\<exists>r. next_pending (enter s p w) = [r] \<and> (\<forall>m. atomic p m = (r, m))))"
  by (cases p) (auto simp: next_defs)

text \<open>
  A log explains a system that started in world \<open>w0\<close> with the programs \<open>progs\<close>: run one after the
  other by the sequential store, its operations give its replies and the present map; and of each
  thread it holds, in order, what the thread has carried out so far.
\<close>

type_synonym log = "(nat \<times> op \<times> reply) list"

definition log_of :: "nat \<Rightarrow> log \<Rightarrow> (op \<times> reply) list" where
  "log_of i l = map snd (filter (\<lambda>e. fst e = i) l)"

definition explains :: "slow_map_store \<Rightarrow> map_heap world \<Rightarrow> op list list \<Rightarrow> log \<Rightarrow> system \<Rightarrow> bool" where
  "explains s w0 progs l c \<longleftrightarrow>
     fst (replay s (map (fst \<circ> snd) l) w0) = map (snd \<circ> snd) l \<and>
     map_data s (snd (replay s (map (fst \<circ> snd) l) w0)) = map_data s (snd (fst c)) \<and>
     length (snd c) = length progs \<and>
     (\<forall>i < length progs. let th = snd c ! i in
        progs ! i = map fst (log_of i l) @ current (th_point th) @ th_ops th \<and>
        map snd (log_of i l) = th_replies th @ pending (th_point th))"

definition calm :: "slow_map_store \<Rightarrow> system \<Rightarrow> bool" where
  "calm s c \<longleftrightarrow> timeless (map_data s (snd (fst c))) \<and>
     (\<forall>th \<in> set (snd c). timeless_point (th_point th) \<and> (\<forall>p \<in> set (th_ops th). timeless_op p))"

text \<open>A step of a thread is either invisible or one atomic operation.\<close>

lemma thread_step_commits:
  assumes "thread_step s th (m, w) = Some (th', m', w')" and "timeless (map_data s w)"
    and "timeless_point (th_point th)" and "\<forall>p \<in> set (th_ops th). timeless_op p"
  shows "timeless_point (th_point th') \<and> set (th_ops th') \<subseteq> set (th_ops th) \<and>
     (map_data s w' = map_data s w \<and> current (th_point th') @ th_ops th' = current (th_point th) @ th_ops th \<and>
        th_replies th' @ pending (th_point th') = th_replies th @ pending (th_point th) \<or>
      (\<exists>q r. current (th_point th) @ th_ops th = q # current (th_point th') @ th_ops th' \<and>
         th_replies th' @ pending (th_point th') = th_replies th @ pending (th_point th) @ [r] \<and>
         timeless_op q \<and> atomic q (map_data s w) = (r, map_data s w')))"
proof (cases "th_point th = Idle")
  case True
  obtain p ops where ops: "th_ops th = p # ops"
    using True assms(1) by (cases "th_ops th") (simp_all add: thread_step_def)
  have w: "w' = w" using assms(1) by (simp add: thread_step_def True ops)
  have p: "th' = proceed (th\<lparr>th_ops := ops\<rparr>) (enter s p w)"
    using assms(1) by (simp add: thread_step_def True ops w)
  let ?n = "enter s p w"
  have q: "timeless_op p" "set ops \<subseteq> set (th_ops th)" using assms(4) ops by auto
  note F = ops w p proceed_fields True
  from enter_timeless [OF q(1), of s w] have n: "next_timeless ?n" by blast
  from enter_timeless [OF q(1), of s w] consider "next_current ?n = [p]" "next_pending ?n = []"
    | r where "next_current ?n = []" "next_pending ?n = [r]" "atomic p (map_data s w) = (r, map_data s w)" by blast
  then show ?thesis
  proof cases
    case 1
    with n q(2) show ?thesis by (intro conjI disjI1) (simp_all add: F)
  next
    case (2 r)
    with n q show ?thesis by (intro conjI disjI2 exI [of _ p] exI [of _ r]) (simp_all add: F)
  qed
next
  case False
  then obtain n where n: "stmt s (th_point th) (m, w) = Some (n, m', w')" "th' = proceed th n"
    using assms(1) by (auto simp: thread_step_def)
  note F = n(2) proceed_fields
  from stmt_commits [OF n(1) assms(3,2)] have t: "next_timeless n" by blast
  from stmt_commits [OF n(1) assms(3,2)]
  consider "map_data s w' = map_data s w" "next_current n = current (th_point th)" "next_pending n = pending (th_point th)"
    | q r where "current (th_point th) = [q]" "pending (th_point th) = []" "next_current n = []" "next_pending n = [r]"
        "timeless_op q" "atomic q (map_data s w) = (r, map_data s w')" by blast
  then show ?thesis
  proof cases
    case 1
    with t show ?thesis by (intro conjI disjI1) (simp_all add: F)
  next
    case (2 q r)
    with t show ?thesis by (intro conjI disjI2 exI [of _ q] exI [of _ r]) (simp_all add: F)
  qed
qed

lemma atomic_timeless: "timeless m \<Longrightarrow> timeless_op q \<Longrightarrow> atomic q m = (r, m') \<Longrightarrow> timeless m'"
  by (cases q) (auto simp: timeless_def split: if_splits)

lemma seq_of_atomic:
  "timeless (map_data s w) \<Longrightarrow> timeless_op q \<Longrightarrow> atomic q (map_data s w) = (r, m') \<Longrightarrow>
   \<exists>w'. seq_op s q w = (r, w') \<and> map_data s w' = m'"
  by (cases "seq_op s q w") (auto dest: atomic_seq)


lemma log_of_append: "log_of i (l @ [(j, q, r)]) = log_of i l @ (if i = j then [(q, r)] else [])"
  by (simp add: log_of_def)

lemma explains_silent:
  assumes l: "explains s w0 progs l ((m, w), ths)" and i: "i < length ths" and w: "map_data s w' = map_data s w"
    and th: "current (th_point th) @ th_ops th = current (th_point (ths ! i)) @ th_ops (ths ! i)"
      "th_replies th @ pending (th_point th) = th_replies (ths ! i) @ pending (th_point (ths ! i))"
  shows "explains s w0 progs l ((m', w'), ths[i := th])"
  using l w th i by (auto simp: explains_def Let_def nth_list_update)

lemma explains_commit:
  assumes l: "explains s w0 progs l ((m, w), ths)" and i: "i < length ths"
    and w: "timeless (map_data s w)" "timeless_op q" "atomic q (map_data s w) = (r, map_data s w')"
    and th: "current (th_point (ths ! i)) @ th_ops (ths ! i) = q # current (th_point th) @ th_ops th"
      "th_replies th @ pending (th_point th) = th_replies (ths ! i) @ pending (th_point (ths ! i)) @ [r]"
  shows "explains s w0 progs (l @ [(i, q, r)]) ((m', w'), ths[i := th])"
proof -
  obtain rs w1 where rep: "replay s (map (fst \<circ> snd) l) w0 = (rs, w1)" by fastforce
  with l have R: "rs = map (snd \<circ> snd) l" "map_data s w1 = map_data s w" by (simp_all add: explains_def)
  with w obtain w2 where "seq_op s q w1 = (r, w2)" "map_data s w2 = map_data s w'"
    using seq_of_atomic [of s w1 q r] by auto
  then have "replay s (map (fst \<circ> snd) (l @ [(i, q, r)])) w0 = (rs @ [r], w2)" "map_data s w2 = map_data s w'"
    by (simp_all add: replay_append rep)
  with R l th i show ?thesis
    by (auto simp: explains_def Let_def nth_list_update log_of_append)
qed

lemma run_explained:
  assumes "sys_run s n c c'" and "explains s w0 progs l c" and "calm s c"
  shows "\<exists>l'. explains s w0 progs (l @ l') c' \<and> calm s c'"
  using assms
proof (induction rule: sys_run.induct)
  case (start c)
  then show ?case by (intro exI [of _ "[]"]) simp
next
  case (tick n c m w ths d)
  then obtain l' where "explains s w0 progs (l @ l') ((m, w), ths)" "calm s ((m, w), ths)" by blast
  then show ?case by (intro exI [of _ l']) (simp add: explains_def calm_def map_data_def)
next
  case (run n c sh ths i th sh')
  then obtain l' where l': "explains s w0 progs (l @ l') (sh, ths)" and c: "calm s (sh, ths)" by blast
  obtain m w m' w' where sh: "sh = (m, w)" "sh' = (m', w')" by (metis prod.exhaust)
  let ?th = "ths ! i"
  note i = run.hyps(2)
  have at: "timeless (map_data s w)" "timeless_point (th_point ?th)" "\<forall>p \<in> set (th_ops ?th). timeless_op p"
    using c nth_mem [OF i] by (auto simp: calm_def sh)
  note T = thread_step_commits [OF run.hyps(3) [unfolded sh] at]
  have keep: "calm s (sh', ths[i := th])" if "timeless (map_data s w')"
    using that T c nth_mem [OF i] set_update_subset_insert [of ths i th] by (fastforce simp: calm_def sh)
  from T consider "map_data s w' = map_data s w"
      "current (th_point th) @ th_ops th = current (th_point ?th) @ th_ops ?th"
      "th_replies th @ pending (th_point th) = th_replies ?th @ pending (th_point ?th)"
    | q r where "current (th_point ?th) @ th_ops ?th = q # current (th_point th) @ th_ops th"
      "th_replies th @ pending (th_point th) = th_replies ?th @ pending (th_point ?th) @ [r]"
      "timeless_op q" "atomic q (map_data s w) = (r, map_data s w')" by blast
  then show ?case
  proof cases
    case 1
    with explains_silent [OF l' [unfolded sh] i 1] keep at(1) show ?thesis by (auto simp: sh)
  next
    case (2 q r)
    with explains_commit [OF l' [unfolded sh] i at(1) 2(3,4,1,2)] keep atomic_timeless [OF at(1) 2(3,4)]
    show ?thesis by (auto simp: sh)
  qed
qed


lemma explains_start: "explains s w progs [] ((free_lock, w), map caller progs)"
  by (simp add: explains_def log_of_def caller_def)

lemma calm_start:
  "timeless (map_data s w) \<Longrightarrow> \<forall>ps \<in> set progs. \<forall>p \<in> set ps. timeless_op p \<Longrightarrow>
   calm s ((free_lock, w), map caller progs)"
  by (auto simp: calm_def caller_def)

section \<open>Properties\<close>

text \<open>The sequential definitions are what the statements of the source compute when nobody
  interferes: a thread that is alone with the store ends with the reply and the world of the
  sequential operation, and leaves the lock free.\<close>

theorem SlowMapStore_alone:
  assumes "seq_op s p w = (r, w')"
  shows "\<exists>n. sys_run s n ((free_lock, w), [caller [p]])
     ((free_lock, w'), [\<lparr>th_ops = [], th_point = Idle, th_replies = [r]\<rparr>])"
  using turns_run [OF _ sys_run.start, of s "alone s p w"] alone_runs [of s p w] assms by simp

text \<open>C14: the lock works: in every reachable state the counts of the lock are those of the threads
  between its acquisition and its release, and while one thread writes the map no other thread
  reads or writes it.\<close>

theorem SlowMapStore_exclusion:
  assumes "sys_run s n ((free_lock, w), map caller progs) ((m, w'), ths)"
  shows "mu_readers m = count_at reading ths \<and> count_at writing ths = (if mu_writer m then 1 else 0) \<and>
     (\<forall>i < length ths. \<forall>j < length ths. i \<noteq> j \<longrightarrow> writing (th_point (ths ! i)) \<longrightarrow>
        \<not> writing (th_point (ths ! j)) \<and> \<not> reading (th_point (ths ! j)))"
proof -
  have "lock_ok m ths" using run_lock_ok [OF assms] by (simp add: lock_ok_init)
  then have "mu_readers m = count_at reading ths" "count_at writing ths = (if mu_writer m then 1 else 0)"
    by (simp_all add: lock_ok_def)
  moreover have "\<forall>i < length ths. \<forall>j < length ths. i \<noteq> j \<longrightarrow> writing (th_point (ths ! i)) \<longrightarrow>
      \<not> writing (th_point (ths ! j)) \<and> \<not> reading (th_point (ths ! j))"
    by (intro allI impI lock_excludes [OF \<open>lock_ok m ths\<close>])
  ultimately show ?thesis by blast
qed

text \<open>C9: every schedule ends: threads that call the store concurrently make at most 13 steps per
  call in all, whatever the schedule, and from every state they can reach they can all finish, so
  that no schedule is stuck before that.\<close>

theorem SlowMapStore_terminates:
  assumes "sys_run s n ((free_lock, w), map caller progs) (sh, ths)"
  shows "n \<le> 13 * sum_list (map length progs) \<and>
     (\<exists>k sh' ths'. sys_run s k (sh, ths) (sh', ths') \<and> (\<forall>th \<in> set ths'. finished th)) \<and>
     ((\<forall>i < length ths. \<forall>d \<ge> 0. thread_step s (ths ! i) (fst sh, wait d (snd sh)) = None) \<longrightarrow>
        (\<forall>th \<in> set ths. finished th))"
proof -
  have "system_left (map caller progs) = 13 * sum_list (map length progs)"
    by (simp add: system_left_def thread_left_def caller_def o_def sum_list_const_mult)
  with run_left [OF assms] have n: "n \<le> 13 * sum_list (map length progs)" by simp
  obtain m w' where sh: "sh = (m, w')" by fastforce
  have ok: "lock_ok m ths" using run_lock_ok [OF assms [unfolded sh]] by (simp add: lock_ok_init)
  have F: "\<forall>th \<in> set ths. finished th"
    if stuck: "\<forall>i < length ths. \<forall>d \<ge> 0. thread_step s (ths ! i) (m, wait d w') = None"
  proof (rule ccontr)
    assume "\<not> (\<forall>th \<in> set ths. finished th)"
    then obtain th where "th \<in> set ths" "\<not> finished th" by blast
    from progress [OF ok this, of s w'] stuck show False by metis
  qed
  show ?thesis unfolding sh fst_conv snd_conv
    by (intro conjI impI n run_to_end [OF ok] F)
qed


text \<open>C10: with expiry it is not: a lookup that finds an expired item removes it after it has released
  the lock, and takes away what another thread has stored in between. Both calls succeed, the
  new value is gone long before its time, and in either order of the two calls it would stay.\<close>

theorem expired_Get_loses_Set:
  assumes "map_data s w k = Some it" and "past (it_expireAt it) (w_now w)"
    and "0 < ttl" and "sm_readDelay s \<le> ttl" and "zero_time < w_now w"
  shows "\<exists>n w'. sys_run s n ((free_lock, w), map caller [[OGet k], [OSet k v ttl]])
       ((free_lock, w'), [\<lparr>th_ops = [], th_point = Idle, th_replies = [RVal (Err (key_expired k))]\<rparr>,
                          \<lparr>th_ops = [], th_point = Idle, th_replies = [RUnit (Ok ())]\<rparr>]) \<and>
     map_data s w' k = None \<and>
     (\<forall>ps \<in> {[OGet k, OSet k v ttl], [OSet k v ttl, OGet k]}.
        map_option it_value (map_data s (snd (replay s ps w)) k) = Some v)"
proof -
  let ?es = "Turn 0 # Tick (max 0 (sm_readDelay s)) # replicate 5 (Turn 0) @ replicate 4 (Turn 1) @ replicate 3 (Turn 0)"
  have "past (it_expireAt it) (w_now w + max 0 (sm_readDelay s))" using assms(2) by (rule past_mono) simp
  then have "\<exists>w'. turns s ?es ((free_lock, w), map caller [[OGet k], [OSet k v ttl]]) =
      Some ((free_lock, w'), [\<lparr>th_ops = [], th_point = Idle, th_replies = [RVal (Err (key_expired k))]\<rparr>,
                          \<lparr>th_ops = [], th_point = Idle, th_replies = [RUnit (Ok ())]\<rparr>]) \<and> map_data s w' k = None"
    using assms(1,3)
    by (simp add: exec_simps past_def)
  then obtain w' where "turns s ?es ((free_lock, w), map caller [[OGet k], [OSet k v ttl]]) =
      Some ((free_lock, w'), [\<lparr>th_ops = [], th_point = Idle, th_replies = [RVal (Err (key_expired k))]\<rparr>,
                          \<lparr>th_ops = [], th_point = Idle, th_replies = [RUnit (Ok ())]\<rparr>])" "map_data s w' k = None"
    by blast
  with turns_run [OF this(1) sys_run.start] assms show ?thesis
    by (auto simp: SlowMapStore_Get_def SlowMapStore_Set_def Let_def After_def IsZero_def split: option.split)
qed


text \<open>\<open>GetWithTTL\<close> takes the lock twice, and what it reads the second time may belong to another
  value: it can return the old value together with the remaining time of the new one, or with no
  expiry after a deletion, which no order of the two calls gives.\<close>

theorem GetWithTTL_torn:
  assumes "map_data s w k = Some \<lparr>it_value = v0, it_expireAt = e\<rparr>"
    and "e \<noteq> zero_time" and "w_now w + max 0 (sm_readDelay s) \<le> e" and "0 < ttl" and "zero_time < w_now w"
  shows "\<exists>n w'. sys_run s n ((free_lock, w), map caller [[OGetWithTTL k], [OSet k v ttl]])
       ((free_lock, w'), [\<lparr>th_ops = [], th_point = Idle, th_replies = [RValTTL (Ok (v0, ttl))]\<rparr>,
                          \<lparr>th_ops = [], th_point = Idle, th_replies = [RUnit (Ok ())]\<rparr>])"
    and "\<exists>n w'. sys_run s n ((free_lock, w), map caller [[OGetWithTTL k], [ODelete k]])
       ((free_lock, w'), [\<lparr>th_ops = [], th_point = Idle, th_replies = [RValTTL (Ok (v0, 0))]\<rparr>,
                          \<lparr>th_ops = [], th_point = Idle, th_replies = [RUnit (Ok ())]\<rparr>])"
    and "fst (replay s [OGetWithTTL k, OSet k v ttl] w) =
       [RValTTL (Ok (v0, e - (w_now w + max 0 (sm_readDelay s)))), RUnit (Ok ())]"
proof -
  let ?es = "Turn 0 # Tick (max 0 (sm_readDelay s)) # replicate 5 (Turn 0) @ replicate 4 (Turn 1) @ replicate 4 (Turn 0)"
  have "\<exists>w'. turns s ?es ((free_lock, w), map caller [[OGetWithTTL k], [OSet k v ttl]]) =
      Some ((free_lock, w'), [\<lparr>th_ops = [], th_point = Idle, th_replies = [RValTTL (Ok (v0, ttl))]\<rparr>,
                          \<lparr>th_ops = [], th_point = Idle, th_replies = [RUnit (Ok ())]\<rparr>])"
    using assms by (simp add: exec_simps After_def IsZero_def)
  then show "\<exists>n w'. sys_run s n ((free_lock, w), map caller [[OGetWithTTL k], [OSet k v ttl]])
       ((free_lock, w'), [\<lparr>th_ops = [], th_point = Idle, th_replies = [RValTTL (Ok (v0, ttl))]\<rparr>,
                          \<lparr>th_ops = [], th_point = Idle, th_replies = [RUnit (Ok ())]\<rparr>])"
    using turns_run [OF _ sys_run.start, of s ?es] by blast
  have "\<exists>w'. turns s ?es ((free_lock, w), map caller [[OGetWithTTL k], [ODelete k]]) =
      Some ((free_lock, w'), [\<lparr>th_ops = [], th_point = Idle, th_replies = [RValTTL (Ok (v0, 0))]\<rparr>,
                          \<lparr>th_ops = [], th_point = Idle, th_replies = [RUnit (Ok ())]\<rparr>])"
    using assms by (simp add: exec_simps After_def IsZero_def)
  then show "\<exists>n w'. sys_run s n ((free_lock, w), map caller [[OGetWithTTL k], [ODelete k]])
       ((free_lock, w'), [\<lparr>th_ops = [], th_point = Idle, th_replies = [RValTTL (Ok (v0, 0))]\<rparr>,
                          \<lparr>th_ops = [], th_point = Idle, th_replies = [RUnit (Ok ())]\<rparr>])"
    using turns_run [OF _ sys_run.start, of s ?es] by blast
  show "fst (replay s [OGetWithTTL k, OSet k v ttl] w) =
       [RValTTL (Ok (v0, e - (w_now w + max 0 (sm_readDelay s)))), RUnit (Ok ())]"
    using assms by (simp add: SlowMapStore_GetWithTTL_def SlowMapStore_Get_def SlowMapStore_Set_def Let_def After_def IsZero_def)
qed

section \<open>Witnesses\<close>

lemma demo_run:
  "\<exists>n. sys_run demo_map n ((free_lock, demo_world), map caller [[OGet ''k''], [OSet ''k'' (VInt 7) 0]])
     ((\<lparr>mu_readers = 1, mu_writer = False\<rparr>, demo_world),
      [\<lparr>th_ops = [], th_point = Get_Read False ''k'', th_replies = []\<rparr>,
       \<lparr>th_ops = [], th_point = Set_Lock ''k'' \<lparr>it_value = VInt 7, it_expireAt = zero_time\<rparr>, th_replies = []\<rparr>])"
proof -
  have "turns demo_map [Turn 0, Turn 0, Turn 0, Turn 1]
      ((free_lock, demo_world), map caller [[OGet ''k''], [OSet ''k'' (VInt 7) 0]]) =
    Some ((\<lparr>mu_readers = 1, mu_writer = False\<rparr>, demo_world),
      [\<lparr>th_ops = [], th_point = Get_Read False ''k'', th_replies = []\<rparr>,
       \<lparr>th_ops = [], th_point = Set_Lock ''k'' \<lparr>it_value = VInt 7, it_expireAt = zero_time\<rparr>, th_replies = []\<rparr>])"
    by (simp add: exec_simps)
  from turns_run [OF this sys_run.start] show ?thesis .
qed

theorem SlowMapStore_alone_witness:
  "\<exists>n. sys_run demo_map n ((free_lock, demo_world), [caller [OGet ''k'']])
     ((free_lock, demo_world), [\<lparr>th_ops = [], th_point = Idle, th_replies = [RVal (Err (key_missing ''k''))]\<rparr>])"
  by (rule SlowMapStore_alone) (simp add: SlowMapStore_Get_def sleep_def Let_def key_missing_def)

theorem SlowMapStore_exclusion_witness:
  "count_at reading [\<lparr>th_ops = [], th_point = Get_Read False ''k'', th_replies = []\<rparr>,
       \<lparr>th_ops = [], th_point = Set_Lock ''k'' \<lparr>it_value = VInt 7, it_expireAt = zero_time\<rparr>, th_replies = []\<rparr>] = 1"
  using demo_run SlowMapStore_exclusion by fastforce

theorem SlowMapStore_terminates_witness:
  "\<exists>k sh' ths'. sys_run demo_map k ((\<lparr>mu_readers = 1, mu_writer = False\<rparr>, demo_world),
      [\<lparr>th_ops = [], th_point = Get_Read False ''k'', th_replies = []\<rparr>,
       \<lparr>th_ops = [], th_point = Set_Lock ''k'' \<lparr>it_value = VInt 7, it_expireAt = zero_time\<rparr>, th_replies = []\<rparr>])
      (sh', ths') \<and> (\<forall>th \<in> set ths'. finished th)"
proof -
  from demo_run obtain n where "sys_run demo_map n ((free_lock, demo_world), map caller [[OGet ''k''], [OSet ''k'' (VInt 7) 0]])
     ((\<lparr>mu_readers = 1, mu_writer = False\<rparr>, demo_world),
      [\<lparr>th_ops = [], th_point = Get_Read False ''k'', th_replies = []\<rparr>,
       \<lparr>th_ops = [], th_point = Set_Lock ''k'' \<lparr>it_value = VInt 7, it_expireAt = zero_time\<rparr>, th_replies = []\<rparr>])" ..
  from SlowMapStore_terminates [OF this] show ?thesis by blast
qed


theorem expired_Get_loses_Set_witness:
  "\<exists>w n w'. map_option it_value (map_data demo_map w ''k'') = Some (VInt 1) \<and>
     sys_run demo_map n ((free_lock, w), map caller [[OGet ''k''], [OSet ''k'' (VInt 7) Hour]])
       ((free_lock, w'), [\<lparr>th_ops = [], th_point = Idle, th_replies = [RVal (Err (key_expired ''k''))]\<rparr>,
                          \<lparr>th_ops = [], th_point = Idle, th_replies = [RUnit (Ok ())]\<rparr>]) \<and>
     map_data demo_map w' ''k'' = None"
proof -
  let ?w = "put_data demo_map [''k'' \<mapsto> \<lparr>it_value = VInt 1, it_expireAt = 5\<rparr>] demo_world"
  have "map_data demo_map ?w ''k'' = Some \<lparr>it_value = VInt 1, it_expireAt = 5\<rparr>" by simp
  from expired_Get_loses_Set [OF this, of Hour "VInt 7"]
  show ?thesis by (intro exI [of _ ?w]) (auto simp: past_def IsZero_def After_def zero_time_def duration_defs)
qed

end
