(* ===== verification/Example_Basic.thy ===== *)
theory Example_Basic
  imports Go_Program
begin

text \<open>
  examples/01\_basic/main.go and examples/02\_codec/main.go: a cache over ristretto with the
  defaults, and one with a JSON codec. The ristretto library, encoding/json, slog and singleflight
  are parameters; the mains are modelled statement by statement, with what they print.
\<close>

section \<open>Starting a program\<close>

text \<open>\<open>ristretto.NewCache(&ristretto.Config[string, any]{...})\<close>, the same call in every example.\<close>

record ristretto_config =
  rc_NumCounters :: int
  rc_MaxCost :: int
  rc_BufferItems :: int

type_synonym 'x ristretto_library = "ristretto_config \<Rightarrow> 'x world \<Rightarrow> 'x ristretto_client result \<times> 'x world"

definition example_config :: ristretto_config where
  "example_config = \<lparr>rc_NumCounters = 2 ^ 10, rc_MaxCost = 2 ^ 20, rc_BufferItems = 64\<rparr>"

text \<open>What is assumed of it: it makes an empty client with memory of its own.\<close>

definition opens ::
    "'x ristretto_library \<Rightarrow> ('x, 'y) part \<Rightarrow> 'y ristretto_client \<Rightarrow> 'y view \<Rightarrow> ('x, 'm) part \<Rightarrow> bool" where
  "opens new p cl view own \<longleftrightarrow> (\<forall>cfg w. \<exists>w'. new cfg w = (Ok (hosted_client p cl), w') \<and>
     pt_get own (w_ext w') = pt_get own (w_ext w) \<and> wipes (hosted_view p view) w w')"

lemma opens_at:
  assumes "opens new p cl view own" and "t0 \<le> w_now w"
  shows "\<exists>w'. new cfg w = (Ok (hosted_client p cl), w') \<and>
     program_at (hosted_view p view) own D t0 Map.empty (pt_get own (w_ext w)) w'"
proof -
  from assms(1) obtain w' where "new cfg w = (Ok (hosted_client p cl), w')"
    "pt_get own (w_ext w') = pt_get own (w_ext w)" and W: "wipes (hosted_view p view) w w'"
    unfolding opens_def by blast
  moreover have "w_now w \<le> w_now w'" using W by (simp add: wipes_def)
  ultimately show ?thesis using assms(2) W by (auto simp: program_at_def intro: holds_wiped)
qed

lemma ristretto_New_program:
  assumes "ristretto_cache cl view clock" and "memory_part p" "memory_part own" "apart p own"
  shows "program_store (RistrettoStore (ristretto_New (hosted_client p cl) [ristretto_WithStoreName n])) (hosted_view p view)
     (\<lambda>v. True) (\<lambda>ttl. True) clock [WithSynchronousSet True] own"
  using ristretto_program [OF assms, of n] by (simp add: ristretto_New_def ristretto_WithStoreName_def)

text \<open>A library over the in-memory store, for concrete runs.\<close>

definition map_library :: "slow_map_store \<Rightarrow> (proc \<times> map_heap) ristretto_library" where
  "map_library s cfg w =
     (Ok (hosted_client second_part (store_client (SlowMapStore s))),
      w\<lparr>w_ext := apsnd (\<lambda>h. h(sm_addr s := Map.empty)) (w_ext w)\<rparr>)"

lemma map_library_opens: "opens (map_library s) second_part (store_client (SlowMapStore s)) (map_view s) first_part"
  by (simp add: opens_def map_library_def wipes_def hosted_view_def map_view_def map_data_def)

definition idle_process :: "(proc \<times> map_heap) world" where
  "idle_process = \<lparr>w_now = 0, w_events = [], w_groups = 0, w_ext = (\<lparr>pr_out = [], pr_calls = 0\<rparr>, \<lambda>a. Map.empty)\<rparr>"

lemma Build_default_front:
  assumes "name \<noteq> []"
  shows "\<exists>b0. NewBuilder T slog name (Some st) [] = Ok b0 \<and>
     (\<exists>g l w'. built (Build T rt b0 w) = (Ok (front T rt g (NewBaseCache T st) (StoreName st) name l), w') \<and> telemetry_only w w')"
proof -
  obtain b0 where b: "NewBuilder T slog name (Some st) [] = Ok b0" using assms by (simp add: NewBuilder_def)
  then have f: "plain_builder b0" "ft_singleFlight (b_features b0)" "b_metrics b0 = Some NoopMetrics" "b_store b0 = st"
    "b_cacheName b0 = name" "b_features b0 = default_features"
    by (auto simp: NewBuilder_Ok plain_builder_def ttls_valid_def default_features_def observed_builder_def)
  have "compiled_factory T rt (b_features b0) (b_store b0) (builder_observable b0) w = (Ok (NewBaseCache T st), w)"
    by (simp add: f(4,6) compiled_factory_def default_features_def buildPlainTypedCache_def requiresBytePath_def)
  from Build_front [OF f(1-3) this] f(4,5) b show ?thesis by auto
qed

text \<open>Printing changes the process and nothing else.\<close>

lemma print_at:
  assumes "program_store st view storable whole clock os own" and "program_at view own D t0 m y w"
  shows "program_at view own D t0 m (y\<lparr>pr_out := pr_out y @ [l]\<rparr>) (print own l w)"
  using program_store.at_own [OF assms] assms(2) by (simp add: print_def program_at_def)

text \<open>\<open>if errors.Is(err, ErrNotFound) { ... } else if err != nil { panic(err) }\<close>\<close>

definition on_miss :: "gval result \<times> 'x world \<Rightarrow> ('x world \<Rightarrow> 'x world) \<Rightarrow> unit result \<times> 'x world" where
  "on_miss p f = (case p of
     (Ok v, w) \<Rightarrow> (Ok (), w)
   | (Panic m, w) \<Rightarrow> (Panic m, w)
   | (Err e, w) \<Rightarrow> if errors_is e ErrNotFound then (Ok (), f w) else (Panic ''panic(err)'', w))"

lemma on_miss_absent:
  assumes P: "program_store st view storable whole clock os own" and A: "program_at view own D t0 m y w" and k: "m k = None" and rt: "sequential rt"
  shows "until D (on_miss (c_Get (front T rt g (NewBaseCache T st) sn cn l) Background k opts w) (print own x))
     (\<lambda>_. program_at view own D t0 m (y\<lparr>pr_out := pr_out y @ [x]\<rparr>))"
  using program_store.default_Get_absent [OF P A k rt, of T g sn cn l opts] by (auto simp: on_miss_def intro: print_at [OF P])

lemma at_empty:
  assumes "program_at view own D t0 m y w" and "m k = None"
  shows "gone view w k"
proof -
  from assms(1) have "shows_entry D (m k) t (view w k t)" if "w_now w \<le> t" for t
    using that by (simp add: program_at_def holds_def)
  with assms(2) show ?thesis by (simp add: gone_def shows_entry_def)
qed

section \<open>01\_basic\<close>

definition basic_main ::
    "'x runtime \<Rightarrow> (string \<Rightarrow> 'x log_fn) \<Rightarrow> 'x ristretto_library \<Rightarrow> ('x, proc) part \<Rightarrow> 'x world \<Rightarrow> unit result \<times> 'x world" where
  "basic_main rt slog new out w =
     on_ok (must (new example_config w)) (\<lambda>client w.
     let store = RistrettoStore (ristretto_New client [ristretto_WithStoreName ''basic-ristretto'']) in
     on_ok (must (NewBuilder TString slog ''basic-cache'' (Some store) [], w)) (\<lambda>builder w.
     on_ok (must (built (Build TString rt builder w))) (\<lambda>c w.
     let w = Println out ''[1] Set key=user:1'' w in
     on_ok (must (c_Set c Background ''user:1'' (VString ''Alice'') (5 * Minute) [WithSynchronousSet True] w)) (\<lambda>_ w.
     let w = Println out ''[2] Get hit (user:1)'' w in
     on_ok (must (c_Get c Background ''user:1'' [] w)) (\<lambda>val w.
     let w = Printf out (lined ''    hit value: %q'') [OVal val] w;
         w = Println out ''[3] Get miss (user:404)'' w in
     on_ok (on_miss (c_Get c Background ''user:404'' [] w) (Println out ''    miss: key not found'')) (\<lambda>_ w.
     let w = Println out ''[4] Delete user:1 and verify miss'' w in
     on_ok (must (c_Delete c Background ''user:1'' [] w)) (\<lambda>_ w.
     on_miss (c_Get c Background ''user:1'' [] w)
       (Println out ''    delete success: key not found after delete''))))))))"

definition basic_output :: "line list" where
  "basic_output =
     [LPrintln ''[1] Set key=user:1'', LPrintln ''[2] Get hit (user:1)'',
      LPrintf (lined ''    hit value: %q'') [OVal (VString ''Alice'')],
      LPrintln ''[3] Get miss (user:404)'', LPrintln ''    miss: key not found'',
      LPrintln ''[4] Delete user:1 and verify miss'', LPrintln ''    delete success: key not found after delete'']"

text \<open>C0: the first example runs as it says: with any ristretto whose writes are seen after \<open>Wait\<close>, it
  prints exactly its seven lines, the value it stored among them, and leaves the store empty; the
  one way to fail is that the lookup comes back after the five minutes the value has.\<close>

theorem basic_main_runs:
  fixes w :: "(proc \<times> 'y) world"
  assumes "ristretto_cache cl view clock" and "opens new second_part cl view first_part"
    and "\<And>t. w_now w \<le> t \<Longrightarrow> clock t" and "sequential rt"
  shows "until (w_now w + 5 * Minute) (basic_main rt slog new first_part w) (\<lambda>_ w'.
     printed first_part w' = printed first_part w @ basic_output \<and>
     (\<forall>k. gone (hosted_view second_part view) w' k))"
proof -
  let ?D = "w_now w + 5 * Minute"
  let ?n = "''basic-ristretto''"
  let ?st = "RistrettoStore (ristretto_New (hosted_client second_part cl) [ristretto_WithStoreName ?n]) :: (proc \<times> 'y) store"
  note P = ristretto_New_program [OF assms(1) second.memory_part_axioms first.memory_part_axioms apart_pair(2), of ?n]
  note pr = print_at [OF P]
  note Set = until_step [OF program_store.default_Set [OF P pr opts_total_Nil, simplified]] and Get = until_step [OF program_store.default_Get_present [OF P pr]]
    and Delete = until_step [OF program_store.default_Delete [OF P pr]] and Miss = on_miss_absent [OF P _ _ assms(4)]
  obtain w1 where new: "new example_config w = (Ok (hosted_client second_part cl), w1)"
    "program_at (hosted_view second_part view) first_part ?D (w_now w) Map.empty (fst (w_ext w)) w1"
    using opens_at [OF assms(2)] by fastforce
  obtain b0 g l w2 where b: "NewBuilder TString slog ''basic-cache'' (Some ?st) [] = Ok b0"
    "built (Build TString rt b0 w1) = (Ok (front TString rt g (NewBaseCache TString ?st) (StoreName ?st) ''basic-cache'' l), w2)"
    "telemetry_only w1 w2"
    using Build_default_front [of "''basic-cache''"] by blast
  note A = program_store.at_telemetry [OF P new(2) b(3)]
  show ?thesis
    unfolding basic_main_def Let_def new(1) Println_def Printf_def
    apply (simp add: must_def b(1,2))
    apply (fold must_def)
    apply (rule Set, rule A, rule assms(3), assumption, simp, simp add: program_at_now [OF A])
    apply (rule Get, assumption, simp, simp add: type_assert_def, rule assms(4), erule conjE)
    apply (rule until_on_ok, rule Miss, rule pr, rule pr, assumption, simp)
    apply (rule Delete, assumption)
    apply (rule until_mono, rule Miss, assumption, simp)
    by (auto simp: printed_def basic_output_def program_at_def intro!: at_empty)
qed

theorem basic_main_runs_witness:
  "until (5 * Minute) (basic_main seq_runtime no_slog (map_library demo_map) first_part idle_process)
     (\<lambda>_ w'. printed first_part w' = basic_output \<and> (\<forall>k. gone (hosted_view second_part (map_view demo_map)) w' k))"
  using basic_main_runs [OF map_ristretto.ristretto_cache_axioms map_library_opens _ seq_runtime_sequential, of idle_process no_slog demo_map]
  by (simp add: idle_process_def printed_def zero_time_def duration_defs)

section \<open>02\_codec\<close>

text \<open>The conversion \<open>string(b)\<close>.\<close>

definition string_of :: "bytes \<Rightarrow> string" where
  "string_of b = map (\<lambda>x. char_of (unat x)) b"

definition codec_user :: gval where
  "codec_user = VStruct ''User'' [(''ID'', VInt 7), (''Name'', VString ''Alice''), (''Email'', VString ''alice@example.com'')]"

definition codec_main ::
    "'x runtime \<Rightarrow> (string \<Rightarrow> 'x log_fn) \<Rightarrow> codec \<Rightarrow> 'x ristretto_library \<Rightarrow> ('x, proc) part \<Rightarrow> 'x world \<Rightarrow> unit result \<times> 'x world" where
  "codec_main rt slog jsonCodec new out w =
     (let User = TStruct ''User''; key = ''user:7'' in
     on_ok (must (new example_config w)) (\<lambda>client w.
     let store = RistrettoStore (ristretto_New client [ristretto_WithStoreName ''codec-ristretto'']) in
     on_ok (must (NewBuilder User slog ''user-cache'' (Some store) [], w)) (\<lambda>builder w.
     on_ok (must (built (Build User rt (WithCodec (Some jsonCodec) builder) w))) (\<lambda>cache w.
     let w = Printf out (lined ''Original object: %+v'') [OVal codec_user] w in
     on_ok (must (cd_Marshal jsonCodec codec_user, w)) (\<lambda>encoded w.
     let w = Printf out (lined ''Marshal(User) -> JSON bytes: %s'') [OStr (string_of encoded)] w in
     on_ok (must (cd_Unmarshal jsonCodec encoded User, w)) (\<lambda>decoded w.
     let w = Printf out (lined ''Unmarshal(JSON) -> User: %+v'') [OVal decoded] w in
     on_ok (must (c_Set cache Background key codec_user (5 * Minute) [WithSynchronousSet True] w)) (\<lambda>_ w.
     let w = ri_Wait client w in
     on_ok (must (c_Get store Background key [] w)) (\<lambda>raw w.
     let w = Printf out (lined ''Underlying store value type: %T'') [OTypeOf raw] w in
     on_ok (bind_ok (must_assert TBytes raw) un_bytes, w) (\<lambda>b w.
     let w = Printf out (lined ''Underlying store raw bytes: %s'') [OStr (string_of b)] w in
     on_ok (must (c_Get cache Background key [] w)) (\<lambda>cachedUser w.
     (Ok (), Printf out (lined ''Cache.Get -> restored object: %+v'') [OVal cachedUser] w)))))))))))"

definition codec_output :: "bytes \<Rightarrow> line list" where
  "codec_output b =
     [LPrintf (lined ''Original object: %+v'') [OVal codec_user],
      LPrintf (lined ''Marshal(User) -> JSON bytes: %s'') [OStr (string_of b)],
      LPrintf (lined ''Unmarshal(JSON) -> User: %+v'') [OVal codec_user],
      LPrintf (lined ''Underlying store value type: %T'') [OTypeOf (VBytes b)],
      LPrintf (lined ''Underlying store raw bytes: %s'') [OStr (string_of b)],
      LPrintf (lined ''Cache.Get -> restored object: %+v'') [OVal codec_user]]"

lemma Build_codec_front:
  assumes "name \<noteq> []"
  shows "\<exists>b0. NewBuilder T slog name (Some st) [] = Ok b0 \<and>
     (\<exists>g l w'. built (Build T rt (WithCodec (Some cd) b0) w) =
        (Ok (front T rt g (CodecDecorator T cd (NewBaseCache TBytes st)) (StoreName st) name l), w') \<and> telemetry_only w w')"
proof -
  obtain b0 where b: "NewBuilder T slog name (Some st) [] = Ok b0" using assms by (simp add: NewBuilder_def)
  let ?b = "WithCodec (Some cd) b0"
  from b have f: "plain_builder ?b" "ft_singleFlight (b_features ?b)" "b_metrics ?b = Some NoopMetrics" "b_store ?b = st"
    "b_cacheName ?b = name" "b_features ?b = default_features\<lparr>ft_codec := Some cd\<rparr>"
    by (auto simp: NewBuilder_Ok plain_builder_def ttls_valid_def default_features_def observed_builder_def WithCodec_def)
  have "compiled_factory T rt (b_features ?b) (b_store ?b) (builder_observable ?b) w =
      (Ok (CodecDecorator T cd (NewBaseCache TBytes st)), w)"
    by (simp add: f(4,6) compiled_factory_def default_features_def buildPlainTypedCache_def requiresBytePath_def
        buildByteCache_def adaptBytesToType_def)
  from Build_front [OF f(1-3) this] f(4,5) b show ?thesis by auto
qed

lemma codec_over_base:
  "CodecDecorator T cd (NewBaseCache TBytes st) =
   transcode (\<lambda>v. bind_ok (codec_enc cd v) Ok) (\<lambda>v. bind_ok (assert_type TBytes v) (codec_dec T cd)) st"
  by (simp add: CodecDecorator_transcode NewBaseCache_transcode transcode_transcode)

text \<open>C20: the codec example runs as it says: if marshalling the user and back gives the user, it
  prints the object, its bytes, the object again, and finds in the store a byte slice with exactly
  these bytes and through the cache the object; it can fail only once the five minutes are over.\<close>

theorem codec_main_runs:
  fixes w :: "(proc \<times> 'y) world"
  assumes "ristretto_cache cl view clock" and "opens new second_part cl view first_part"
    and "\<And>t. w_now w \<le> t \<Longrightarrow> clock t" and "sequential rt"
    and "cd_Marshal cd codec_user = Ok b" and "cd_Unmarshal cd b (TStruct ''User'') = Ok codec_user"
  shows "until (w_now w + 5 * Minute) (codec_main rt slog cd new first_part w) (\<lambda>_ w'.
     printed first_part w' = printed first_part w @ codec_output b)"
proof -
  let ?D = "w_now w + 5 * Minute" and ?U = "TStruct ''User''"
  let ?n = "''codec-ristretto''" and ?client = "hosted_client second_part cl :: (proc \<times> 'y) ristretto_client"
  let ?V = "hosted_view second_part view :: (proc \<times> 'y) view"
  let ?st = "RistrettoStore (ristretto_New ?client [ristretto_WithStoreName ?n])"
  note P = ristretto_New_program [OF assms(1) second.memory_part_axioms first.memory_part_axioms apart_pair(2), of ?n]
  note pr = print_at [OF P]
  obtain w1 where new: "new example_config w = (Ok ?client, w1)"
    "program_at ?V first_part ?D (w_now w) Map.empty (fst (w_ext w)) w1"
    using opens_at [OF assms(2)] by fastforce
  obtain b0 g l w2 where b: "NewBuilder ?U slog ''user-cache'' (Some ?st) [] = Ok b0"
    "built (Build ?U rt (WithCodec (Some cd) b0) w1) =
       (Ok (front ?U rt g (CodecDecorator ?U cd (NewBaseCache TBytes ?st)) (StoreName ?st) ''user-cache'' l), w2)"
    "telemetry_only w1 w2"
    using Build_codec_front [of "''user-cache''"] by blast
  let ?c = "front ?U rt g (CodecDecorator ?U cd (NewBaseCache TBytes ?st)) (StoreName ?st) ''user-cache'' l"
  let ?enc = "\<lambda>v. bind_ok (codec_enc cd v) Ok" and ?dec = "\<lambda>v. bind_ok (assert_type TBytes v) (codec_dec ?U cd)"
  have enc: "?enc codec_user = Ok (VBytes b)" "?dec (VBytes b) = Ok codec_user" "type_assert ?U codec_user = Some codec_user"
    using assms(5,6) by (simp_all add: codec_enc_def codec_dec_def assert_type_def, simp add: type_assert_def codec_user_def)
  note A0 = program_store.at_telemetry [OF P new(2) b(3)]
  note A1 = pr [OF A0, of "LPrintf (lined ''Original object: %+v'') [OVal codec_user]"]
  note A2 = pr [OF A1, of "LPrintf (lined ''Marshal(User) -> JSON bytes: %s'') [OStr (string_of b)]"]
  note A = pr [OF A2, of "LPrintf (lined ''Unmarshal(JSON) -> User: %+v'') [OVal codec_user]"]
  let ?w3 = "print first_part (LPrintf (lined ''Unmarshal(JSON) -> User: %+v'') [OVal codec_user])
     (print first_part (LPrintf (lined ''Marshal(User) -> JSON bytes: %s'') [OStr (string_of b)])
     (print first_part (LPrintf (lined ''Original object: %+v'') [OVal codec_user]) w2))"
  obtain u w4 where s: "c_Set ?c Background ''user:7'' codec_user (5 * Minute) [WithSynchronousSet True] ?w3 = (u, w4)" by fastforce
  obtain ctx' w3' w4' y where S: "u = Ok ()" "program_at ?V first_part ?D (w_now w) [''user:7'' \<mapsto> VBytes b] y w4"
      "y = fst (w_ext w)\<lparr>pr_out := pr_out (fst (w_ext w)) @ take 3 (codec_output b)\<rparr>"
      "ctx_deadline ctx' = None" "c_Set ?st ctx' ''user:7'' (VBytes b) (5 * Minute) [WithSynchronousSet True] w3' = (u, w4')"
      "telemetry_only w4' w4"
    by (rule program_store.coded_Set [where enc = ?enc and u = codec_user and dec = ?dec and ttl = "5 * Minute",
          OF P A opts_total_Nil assms(3) enc(1), unfolded append_Nil, OF _ _ _ _ _ s [unfolded codec_over_base]])
      (use program_at_now [OF A] in \<open>auto simp: codec_output_def\<close>)
  have "\<exists>x. w4' = ri_Wait ?client x"
    using RistrettoStore_Set_waits [where opts = "[]", unfolded append_Nil, OF S(4) opts_total_Nil _ S(5)]
    by (simp add: ristretto_New_def ristretto_WithStoreName_def)
  then obtain x where "w_ext w4 = w_ext (ri_Wait ?client x)" using S(6) by (auto simp: telemetry_only_def)
  note Wait = hosted_Wait [OF assms(1) second.memory_part_axioms this]
  have A5: "program_at ?V first_part ?D (w_now w) [''user:7'' \<mapsto> VBytes b] y (ri_Wait ?client w4)"
    by (rule at_reads [OF S(2) Wait(1) Wait(2)]) simp
  obtain r w6 where g: "c_Get ?st Background ''user:7'' [] (ri_Wait ?client w4) = (r, w6)" by fastforce
  from program_store.store_Get [OF P A5 demo_simps(6) g]
  have A6: "program_at ?V first_part ?D (w_now w) [''user:7'' \<mapsto> VBytes b] y w6"
    and r: "r = Ok (VBytes b) \<or> not_found r \<and> ?D < w_now w6" by simp_all
  note G = until_step [OF program_store.coded_Get_present [where enc = ?enc and dec = ?dec and k = "''user:7''",
        OF P pr [OF pr [OF A6]] _ enc(2,3) assms(4), folded codec_over_base]]
  show ?thesis
  proof (cases "r = Ok (VBytes b)")
    case True
    show ?thesis
      unfolding codec_main_def Let_def new(1) Printf_def
      apply (simp add: must_def b assms(5,6) s S(1) g True del: RistrettoStore_ops)
      apply (fold must_def)
      by (rule G) (auto simp: S(3) codec_output_def program_at_def printed_def)
  next
    case False
    with r obtain e where "r = Err e" "?D < w_now w6" by (auto simp: not_found_def split: outcome.splits)
    then show ?thesis
      by (simp add: codec_main_def Printf_def must_def new(1) b assms(5,6) s S(1) g del: RistrettoStore_ops)
  qed
qed

text \<open>A codec that knows the JSON of this one user.\<close>

definition user_json :: bytes where
  \<open>user_json = bytes_of ''{"id":7,"name":"Alice","email":"alice@example.com"}''\<close>

definition user_codec :: codec where
  "user_codec = JSONCodec
     (\<lambda>v. if v = codec_user then Ok user_json else Err (Foreign ''json: unsupported value''))
     (\<lambda>b T. if b = user_json then Ok codec_user else Err (Foreign ''unexpected end of JSON input''))"

theorem codec_main_runs_witness:
  "until (5 * Minute) (codec_main seq_runtime no_slog user_codec (map_library demo_map) first_part idle_process)
     (\<lambda>_ w'. printed first_part w' = codec_output user_json)"
  using codec_main_runs [OF map_ristretto.ristretto_cache_axioms map_library_opens _ seq_runtime_sequential,
      of idle_process user_codec user_json no_slog demo_map]
  by (simp add: idle_process_def printed_def zero_time_def duration_defs user_codec_def JSONCodec_def)

end
