(* ===== verification/Example_Observability.thy ===== *)
theory Example_Observability
  imports Stats_Metrics Example_Basic
begin

text \<open>
  examples/04\_observability/main.go: a cache with the counting metrics and the console logger of
  \<open>Stats_Metrics\<close>. The program owns the counters and its output.
\<close>

type_synonym 'y observed_memory = "stats_metrics \<times> (proc \<times> 'y)"

definition own_part :: "('y observed_memory, stats_metrics \<times> proc) part" where
  "own_part = \<lparr>pt_get = (\<lambda>(s, p, y). (s, p)), pt_put = (\<lambda>(s, p) (s', p', y). (s, p, y))\<rparr>"

definition client_part :: "('y observed_memory, 'y) part" where
  "client_part = then_part second_part second_part"

lemma own_part_simps [simp]: "pt_get own_part (s, p, y) = (s, p)" "pt_put own_part (s, p) (s', p', y) = (s, p, y)"
  by (simp_all add: own_part_def)

lemma client_part_simps [simp]: "pt_get client_part (s, p, y) = y" "pt_put client_part z (s, p, y) = (s, p, z)"
  "pt_get stats_out (s, p, y) = p" "pt_put stats_out q (s, p, y) = (s, q, y)"
  by (simp_all add: client_part_def stats_out_def)

interpretation own: memory_part own_part
  by unfold_locales (auto simp: own_part_def)

interpretation client: memory_part client_part
  unfolding client_part_def by (rule then_memory_part) (rule second.memory_part_axioms)+

lemma client_own_apart: "apart client_part own_part"
  by (auto simp: apart_def own_part_def client_part_def)

section \<open>The program\<close>

text \<open>\<open>Report\<close> prints the figures.\<close>

definition report_line :: "report \<Rightarrow> line" where
  "report_line r = (case r of
     NoMetricsRecorded \<Rightarrow> LPrintln ''no metrics recorded''
   | Summary n hits misses fails hitRate avgLatency \<Rightarrow>
       LPrintf (lined ''total=%d hits=%d misses=%d fails=%d hit_rate=%.2f avg_latency=%s'')
         [OInt n, OInt hits, OInt misses, OInt fails, ORate hitRate, ODur avgLatency])"

definition print_Report :: "'y observed_memory world \<Rightarrow> 'y observed_memory world" where
  "print_Report w = print stats_out (report_line (statsMetrics_Report (fst (w_ext w)))) w"

definition delete_heading :: string where
  "delete_heading = ''[4] Delete (metrics intentionally returns an error to show custom logger output)''"

definition observability_main ::
    "'y observed_memory runtime \<Rightarrow> (string \<Rightarrow> 'y observed_memory log_fn) \<Rightarrow> 'y observed_memory ristretto_library \<Rightarrow>
     'y observed_memory world \<Rightarrow> unit result \<times> 'y observed_memory world" where
  "observability_main rt slog new w =
     on_ok (must (new example_config w)) (\<lambda>client w.
     let store = RistrettoStore (ristretto_New client [ristretto_WithStoreName ''obs-ristretto'']);
         logger = consoleLogger stats_out; metrics = statsMetrics stats_out;
         w = w\<lparr>w_ext := apfst (\<lambda>_. newStatsMetrics) (w_ext w)\<rparr> in
     on_ok (must (NewBuilder TString slog ''obs-cache'' (Some store) [], w)) (\<lambda>builder w.
     on_ok (must (built (Build TString rt (WithMetrics (Some metrics) (WithLogger (Some logger) builder)) w))) (\<lambda>cache w.
     let w = Println stats_out ''[1] Set'' w in
     on_ok (must (c_Set cache Background ''k1'' (VString ''hello'') Minute [WithSynchronousSet True] w)) (\<lambda>_ w.
     let w = Println stats_out ''[2] Get hit'' w in
     on_ok (must (c_Get cache Background ''k1'' [] w)) (\<lambda>_ w.
     let w = Println stats_out ''[3] Get miss'' w in
     on_ok (on_miss (c_Get cache Background ''k404'' [] w) (\<lambda>w. w)) (\<lambda>_ w.
     let w = Println stats_out delete_heading w in
     on_ok (must (c_Delete cache Background ''k1'' [] w)) (\<lambda>_ w.
     let w = Println stats_out ''[5] Metrics summary'' w in
     (Ok (), print_Report w))))))))"

section \<open>Observed calls\<close>

text \<open>The client of the example leaves the events alone; it does not know of them.\<close>

definition no_events :: "'x ristretto_client \<Rightarrow> bool" where
  "no_events cl \<longleftrightarrow> (\<forall>k v n d w. w_events (snd (ri_Get cl k w)) = w_events w \<and>
     w_events (snd (ri_SetWithTTL cl k v n d w)) = w_events w \<and> w_events (ri_Del cl k w) = w_events w \<and>
     w_events (ri_Wait cl w) = w_events w)"

lemma RistrettoStore_no_events:
  assumes "no_events (ts_client s)" and "ctx_deadline ctx = None"
  shows "w_events (snd (c_Get (RistrettoStore s) ctx k opts w)) = w_events w"
    "w_events (snd (c_Set (RistrettoStore s) ctx k v ttl opts w)) = w_events w"
    "w_events (snd (c_Delete (RistrettoStore s) ctx k opts w)) = w_events w"
  using assms
  by (auto simp: no_events_def RistrettoStore_Get_def RistrettoStore_Set_def RistrettoStore_Delete_def Let_def
      split: prod.splits option.splits outcome.splits) (metis snd_conv)+

lemma hosted_no_events: "no_events cl \<Longrightarrow> no_events (hosted_client p cl)"
  by (simp add: no_events_def hosted_client_def hosted_def inside_def outside_def split: prod.split) (metis snd_conv world.select_convs(2))

text \<open>
  What the metrics see of an event, and how the program's memory changes when it is recorded: the
  counters count it, a line is printed, and a deletion is reported as an error and logged.
\<close>

definition seen :: "string \<Rightarrow> string \<Rightarrow> duration \<Rightarrow> event" where
  "seen op res lat = \<lparr>ev_Op = op, ev_Result = res, ev_CacheName = ''obs-cache'', ev_StoreName = ''obs-ristretto'',
     ev_Latency = lat, ev_Error = None, ev_customFields = None\<rparr>"

definition delete_log :: line where
  "delete_log = LPrintf ''[ERROR] %s %v'' [OStr ''[ObservableDecorator.Delete] Record Metrics Failed.'',
     OArgs [(''err'', AErr (ErrorsNew ''demo metrics sink timeout''))]]"

definition recorded :: "string \<Rightarrow> event \<Rightarrow> stats_metrics \<times> proc \<Rightarrow> stats_metrics \<times> proc" where
  "recorded op e = (\<lambda>(s, p). (count_event e s,
     p\<lparr>pr_out := pr_out p @ metric_line e # (if op = OpDelete then [delete_log] else [])\<rparr>))"

definition keeps_tags :: "'x world \<Rightarrow> 'x world \<Rightarrow> bool" where
  "keeps_tags w w' \<longleftrightarrow> length (w_events w') = length (w_events w) \<and>
     (\<forall>i < length (w_events w). ev_Op (w_events w' ! i) = ev_Op (w_events w ! i) \<and>
        ev_Result (w_events w' ! i) = ev_Result (w_events w ! i) \<and>
        ev_CacheName (w_events w' ! i) = ev_CacheName (w_events w ! i) \<and>
        ev_StoreName (w_events w' ! i) = ev_StoreName (w_events w ! i))"

definition example_observer :: "'y observed_memory cache \<Rightarrow> 'y observed_memory observable_decorator" where
  "example_observer c = \<lparr>od_ob = Some \<lparr>ob_Metrics = Some (statsMetrics stats_out), ob_Logger = Some (consoleLogger stats_out)\<rparr>,
     od_storeName = ''obs-ristretto'', od_cacheName = ''obs-cache'', od_cache = c\<rparr>"

lemma keeps_tags_same: "w_events w' = w_events w \<Longrightarrow> keeps_tags w w'"
  by (simp add: keeps_tags_def)

lemma update_event_tags:
  assumes "\<And>e. ev_Op (f e) = ev_Op e \<and> ev_Result (f e) = ev_Result e \<and> ev_CacheName (f e) = ev_CacheName e \<and>
    ev_StoreName (f e) = ev_StoreName e"
  shows "keeps_tags w (update_event r f w)"
  using assms
  by (cases "r < length (w_events w)") (auto simp: keeps_tags_def update_event_def nth_list_update list_update_beyond)

lemma AddCustomFields_tags: "keeps_tags w (AddCustomFields ctx fs w)"
  by (auto simp: AddCustomFields_def getOrInitCustomFields_def keeps_tags_same split: option.split intro!: update_event_tags)

lemma keeps_tags_trans: "keeps_tags w w1 \<Longrightarrow> keeps_tags w1 w2 \<Longrightarrow> keeps_tags w w2"
  by (simp add: keeps_tags_def)

lemma obs_defer_recorded:
  assumes "length (w_events w) > evt" and "ev_Op (w_events w ! evt) = op" and "ev_Result (w_events w ! evt) = []"
    and "ev_CacheName (w_events w ! evt) = ''obs-cache''" and "ev_StoreName (w_events w ! evt) = ''obs-ristretto''"
    and "op = OpDelete \<Longrightarrow> msg = ''[ObservableDecorator.Delete] Record Metrics Failed.''"
    and "obs_defer (od_ob (example_observer c)) msg get ctx evt start (r, w) = (r', w')"
  shows "r' = r \<and> w_now w' = w_now w \<and>
     w_ext w' = pt_put own_part (recorded op (seen op (if get then ResultFromErr (final_err r) else []) (w_now w - start))
       (pt_get own_part (w_ext w))) (w_ext w)"
proof -
  let ?w = "update_event evt (complete_event get (final_err r) (w_now w - start)) w"
  let ?e = "complete_event get (final_err r) (w_now w - start) (w_events w ! evt)"
  let ?s = "seen op (if get then ResultFromErr (final_err r) else []) (w_now w - start)"
  obtain s p y where x: "w_ext w = (s, p, y)" by (metis prod.exhaust)
  have e: "w_events ?w ! evt = ?e" by (rule update_event_nth [OF assms(1)])
  have "count_event ?e = count_event ?s" and "metric_line ?e = metric_line ?s" and op: "ev_Op ?e = op"
    using assms(2-5) by (simp_all add: fun_eq_iff count_event_def seen_def metric_line_def complete_event_def Let_def)
  then show ?thesis
    using assms(6,7) e x
    by (auto simp: example_observer_def obs_defer_def record_event_def log_error_def statsMetrics_def statsMetrics_Record_def
        consoleLogger_def Printf_def print_def recorded_def delete_log_def Let_def split: if_splits)
qed

lemma example_call:
  assumes call: "(let start = w_now w; ((ctx', evt), w1) = obs_initCtx (example_observer c) Background op w in
      obs_defer (od_ob (example_observer c)) msg get ctx' evt start (call ctx' w1)) = (r, w')"
    and keeps: "\<And>ctx' w1. ctx_deadline ctx' = None \<Longrightarrow> keeps_tags w1 (snd (call ctx' w1))"
    and msg: "op = OpDelete \<Longrightarrow> msg = ''[ObservableDecorator.Delete] Record Metrics Failed.''"
  obtains ctx' w1 w2 lat where "ctx_deadline ctx' = None" "telemetry_only w w1" "call ctx' w1 = (r, w2)" "w_now w' = w_now w2"
    "w_ext w' = pt_put own_part (recorded op (seen op (if get then ResultFromErr (final_err r) else []) lat)
       (pt_get own_part (w_ext w2))) (w_ext w2)"
proof -
  obtain ctx' evt w1 where i: "obs_initCtx (example_observer c) Background op w = ((ctx', evt), w1)" by (metis prod.exhaust)
  note F = obs_initCtx_facts [OF i]
  from i have len: "evt < length (w_events w1)" by (auto simp: obs_initCtx_def new_event_def)
  have ctx: "ctx_deadline ctx' = None" by (simp add: F(1) demo_simps(6))
  obtain r2 w2 where c: "call ctx' w1 = (r2, w2)" by fastforce
  with keeps [OF ctx, of w1] have K: "keeps_tags w1 w2" by simp
  have E: "length (w_events w2) > evt" "ev_Op (w_events w2 ! evt) = op" "ev_Result (w_events w2 ! evt) = []"
    "ev_CacheName (w_events w2 ! evt) = ''obs-cache''" "ev_StoreName (w_events w2 ! evt) = ''obs-ristretto''"
    using K len F(6) by (auto simp: keeps_tags_def example_observer_def)
  from call i c have d: "obs_defer (od_ob (example_observer c)) msg get ctx' evt (w_now w) (r2, w2) = (r, w')" by simp
  from obs_defer_recorded [OF E msg d] have "r = r2" and W: "w_now w' = w_now w2"
    "w_ext w' = pt_put own_part (recorded op (seen op (if get then ResultFromErr (final_err r2) else []) (w_now w2 - w_now w))
       (pt_get own_part (w_ext w2))) (w_ext w2)" by simp_all
  with c F that [OF ctx _ _ W(1), of w1 "w_now w2 - w_now w"] show thesis by (simp add: telemetry_only_def)
qed

section \<open>The store of the example\<close>

definition example_cache :: "'y observed_memory runtime \<Rightarrow> nat \<Rightarrow> 'y observed_memory store \<Rightarrow> 'y observed_memory cache" where
  "example_cache rt g st = ObservableDecorator (example_observer (SingleflightDecorator TString rt g (NewBaseCache TString st)))"

lemma recorded_at:
  assumes P: "program_store st view storable whole clock os own_part" and A: "program_at view own_part D t0 m y w"
    and "w_now w' = w_now w" and "w_ext w' = pt_put own_part (recorded op e (pt_get own_part (w_ext w))) (w_ext w)"
  shows "program_at view own_part D t0 m (recorded op e y) w'"
proof -
  let ?w = "w\<lparr>w_ext := pt_put own_part (recorded op e y) (w_ext w)\<rparr>"
  have "telemetry_only ?w w'" using assms(3,4) A by (simp add: telemetry_only_def program_at_def)
  from program_store.at_telemetry [OF P program_store.at_own [OF P A] this] show ?thesis .
qed

lemma flight_over_base:
  assumes "sequential rt" and "c_Get st ctx k opts w = (r, w1)"
  obtains w2 where "SingleflightDecorator_Get T rt g (NewBaseCache T st) ctx k opts w =
     (bind_ok (bind_ok r (assert_type T)) (must_assert T), w2)" "telemetry_only w1 w2" "keeps_tags w1 w2"
proof -
  have "c_Get (NewBaseCache T st) ctx k opts w = (bind_ok r (assert_type T), w1)"
    using assms(2) by (cases r) (simp_all add: NewBaseCache_transcode transcode_Get_def)
  from sequential_Get [OF assms(1) this] that show thesis
    by (auto simp: sf_addTags_def telemetry_only_def keeps_tags_same AddCustomFields_tags split: if_splits)
qed

locale observed_program = program_store "RistrettoStore s" view "\<lambda>v. True" "\<lambda>ttl. True" clock "[WithSynchronousSet True]" own_part
  for s :: "'y observed_memory ristretto_store" and view :: "'y observed_memory view" and clock :: "int \<Rightarrow> bool" +
  fixes rt :: "'y observed_memory runtime"
  assumes client_quiet: "no_events (ts_client s)" and rt: "sequential rt"
begin

lemma example_Set:
  assumes A: "program_at view own_part D t0 m y w" and clock: "\<And>t. t0 \<le> t \<Longrightarrow> clock t"
    and ttl: "0 \<le> ttl" "ttl = 0 \<or> D \<le> w_now w + ttl"
  shows "until D (c_Set (example_cache rt g (RistrettoStore s)) Background k v ttl [WithSynchronousSet True] w)
     (\<lambda>_ w'. \<exists>lat. program_at view own_part D t0 (m(k \<mapsto> v)) (recorded OpSet (seen OpSet [] lat) y) w')"
proof -
  obtain u w' where c: "c_Set (example_cache rt g (RistrettoStore s)) Background k v ttl [WithSynchronousSet True] w = (u, w')" by fastforce
  obtain ctx' w1 w2 lat where F: "ctx_deadline ctx' = None" "telemetry_only w w1"
    "c_Set (RistrettoStore s) ctx' k v ttl [WithSynchronousSet True] w1 = (u, w2)" "w_now w' = w_now w2"
    "w_ext w' = pt_put own_part (recorded OpSet (seen OpSet [] lat) (pt_get own_part (w_ext w2))) (w_ext w2)"
    by (rule example_call [OF c [unfolded example_cache_def ObservableDecorator_ops ObservableDecorator_Set_def]])
      (use RistrettoStore_no_events(2) [OF client_quiet] in
        \<open>auto simp: example_observer_def SingleflightDecorator_Set_def BaseCache_Set_def telemetry_names intro!: keeps_tags_same\<close>)
  have "ttl = 0 \<or> D \<le> w_now w1 + ttl" using F(2) ttl(2) by (simp add: telemetry_only_def)
  from store_Set [OF at_telemetry [OF A F(2)] F(1) opts_total_Nil clock TrueI ttl(1) TrueI this, unfolded append_Nil, OF _ F(3)]
  have "u = Ok ()" "program_at view own_part D t0 (m(k \<mapsto> v)) y w2" by blast+
  with recorded_at [OF program_store_axioms this(2) F(4,5)] c show ?thesis by auto
qed

lemma example_Delete:
  assumes A: "program_at view own_part D t0 m y w"
  shows "until D (c_Delete (example_cache rt g (RistrettoStore s)) Background k opts w)
     (\<lambda>_ w'. \<exists>lat. program_at view own_part D t0 (m(k := None)) (recorded OpDelete (seen OpDelete [] lat) y) w')"
proof -
  obtain u w' where c: "c_Delete (example_cache rt g (RistrettoStore s)) Background k opts w = (u, w')" by fastforce
  obtain ctx' w1 w2 lat where F: "ctx_deadline ctx' = None" "telemetry_only w w1"
    "c_Delete (RistrettoStore s) ctx' k opts w1 = (u, w2)" "w_now w' = w_now w2"
    "w_ext w' = pt_put own_part (recorded OpDelete (seen OpDelete [] lat) (pt_get own_part (w_ext w2))) (w_ext w2)"
    by (rule example_call [OF c [unfolded example_cache_def ObservableDecorator_ops ObservableDecorator_Delete_def]])
      (use RistrettoStore_no_events(3) [OF client_quiet] in
        \<open>auto simp: example_observer_def SingleflightDecorator_Delete_def BaseCache_Delete_def telemetry_names intro!: keeps_tags_same\<close>)
  from store_Delete [OF at_telemetry [OF A F(2)] F(1) F(3)]
  have "u = Ok ()" "program_at view own_part D t0 (m(k := None)) y w2" by blast+
  with recorded_at [OF program_store_axioms this(2) F(4,5)] c show ?thesis by auto
qed

lemma example_Get:
  assumes A: "program_at view own_part D t0 m y w"
  obtains r r1 w' w2 lat where "c_Get (example_cache rt g (RistrettoStore s)) Background k opts w = (r, w')"
    "r = bind_ok (bind_ok r1 (assert_type TString)) (must_assert TString)"
    "program_at view own_part D t0 m (recorded OpGet (seen OpGet (ResultFromErr (final_err r)) lat) y) w'"
    "case m k of None \<Rightarrow> not_found r1 | Some v \<Rightarrow> r1 = Ok v \<or> not_found r1 \<and> D < w_now w'"
proof -
  obtain r w' where c: "c_Get (example_cache rt g (RistrettoStore s)) Background k opts w = (r, w')" by fastforce
  have K: "keeps_tags w1 (snd (SingleflightDecorator_Get TString rt g (NewBaseCache TString (RistrettoStore s)) ctx k opts w1))"
    if "ctx_deadline ctx = None" for ctx w1
  proof -
    obtain r1 w3 where g: "c_Get (RistrettoStore s) ctx k opts w1 = (r1, w3)" by fastforce
    with RistrettoStore_no_events(1) [OF client_quiet that, of k opts w1] have "keeps_tags w1 w3"
      by (simp add: keeps_tags_same)
    with flight_over_base [OF rt g, of TString g] show ?thesis by (metis keeps_tags_trans snd_conv)
  qed
  obtain ctx' w1 w2 lat where F: "ctx_deadline ctx' = None" "telemetry_only w w1"
    "SingleflightDecorator_Get TString rt g (NewBaseCache TString (RistrettoStore s)) ctx' k opts w1 = (r, w2)" "w_now w' = w_now w2"
    "w_ext w' = pt_put own_part (recorded OpGet (seen OpGet (ResultFromErr (final_err r)) lat) (pt_get own_part (w_ext w2))) (w_ext w2)"
    by (rule example_call [OF c [unfolded example_cache_def ObservableDecorator_ops ObservableDecorator_Get_def]])
      (auto simp: example_observer_def telemetry_names intro!: K)
  obtain r1 w3 where s: "c_Get (RistrettoStore s) ctx' k opts w1 = (r1, w3)" by fastforce
  obtain w4 where "r = bind_ok (bind_ok r1 (assert_type TString)) (must_assert TString)" "telemetry_only w3 w2"
    using flight_over_base [OF rt s, of TString g] F(3) by (metis prod.inject)
  moreover from store_Get [OF at_telemetry [OF A F(2)] F(1) s] have S: "program_at view own_part D t0 m y w3"
    "case m k of None \<Rightarrow> not_found r1 | Some v \<Rightarrow> r1 = Ok v \<or> not_found r1 \<and> D < w_now w3" by blast+
  ultimately show thesis
    using recorded_at [OF program_store_axioms at_telemetry [OF S(1)] F(4,5)] c F(4)
    by (intro that [of r w' r1 lat]) (auto simp: telemetry_only_def split: option.splits)
qed

lemma example_Get_hit:
  assumes "program_at view own_part D t0 m y w" and "m k = Some (VString v)"
  shows "until D (c_Get (example_cache rt g (RistrettoStore s)) Background k opts w)
     (\<lambda>r w'. \<exists>lat. program_at view own_part D t0 m (recorded OpGet (seen OpGet ResultHit lat) y) w')"
proof -
  obtain r r1 w' lat where G: "c_Get (example_cache rt g (RistrettoStore s)) Background k opts w = (r, w')"
    "r = bind_ok (bind_ok r1 (assert_type TString)) (must_assert TString)"
    "program_at view own_part D t0 m (recorded OpGet (seen OpGet (ResultFromErr (final_err r)) lat) y) w'"
    "r1 = Ok (VString v) \<or> not_found r1 \<and> D < w_now w'"
    by (rule example_Get [OF assms(1), of g k opts]) (simp add: assms(2))
  from G(4) show ?thesis
  proof
    assume "r1 = Ok (VString v)"
    with G(1-3) show ?thesis by (auto simp: assert_type_def type_assert_def final_err_def ResultFromErr_def)
  next
    assume "not_found r1 \<and> D < w_now w'"
    with G(1,2) show ?thesis by (auto simp: not_found_def split: outcome.splits)
  qed
qed

lemma example_Get_miss:
  assumes "program_at view own_part D t0 m y w" and "m k = None"
  shows "until D (on_miss (c_Get (example_cache rt g (RistrettoStore s)) Background k opts w) (\<lambda>w. w))
     (\<lambda>_ w'. \<exists>lat. program_at view own_part D t0 m (recorded OpGet (seen OpGet ResultMiss lat) y) w')"
proof -
  obtain r r1 w' lat where G: "c_Get (example_cache rt g (RistrettoStore s)) Background k opts w = (r, w')"
    "r = bind_ok (bind_ok r1 (assert_type TString)) (must_assert TString)"
    "program_at view own_part D t0 m (recorded OpGet (seen OpGet (ResultFromErr (final_err r)) lat) y) w'" "not_found r1"
    by (rule example_Get [OF assms(1), of g k opts]) (simp add: assms(2))
  then show ?thesis
    by (auto simp: on_miss_def final_err_def ResultFromErr_def not_found_def split: outcome.splits)
qed

end

section \<open>The run\<close>

lemma print_example_at:
  assumes "program_store st view storable whole clock os own_part" and A: "program_at view own_part D t0 m y w"
  shows "program_at view own_part D t0 m (fst y, snd y\<lparr>pr_out := pr_out (snd y) @ [l]\<rparr>) (print stats_out l w)"
proof -
  obtain s p z where "w_ext w = (s, p, z)" "y = (s, p)" using A by (cases "w_ext w") (auto simp: program_at_def)
  with program_store.at_own [OF assms, of "(s, p\<lparr>pr_out := pr_out p @ [l]\<rparr>)"] show ?thesis by (simp add: print_def)
qed

lemma Build_example_front:
  fixes st :: "'y observed_memory store"
  assumes "StoreName st = ''obs-ristretto''"
  shows "\<exists>b0. NewBuilder TString slog ''obs-cache'' (Some st) [] = Ok b0 \<and>
     (\<exists>g w'. built (Build TString rt (WithMetrics (Some (statsMetrics stats_out)) (WithLogger (Some (consoleLogger stats_out)) b0)) w) =
        (Ok (example_cache rt g st), w') \<and> telemetry_only w w')"
proof -
  obtain b0 where b0: "NewBuilder TString slog ''obs-cache'' (Some st) [] = Ok b0" by (simp add: NewBuilder_def)
  let ?b = "WithMetrics (Some (statsMetrics stats_out)) (WithLogger (Some (consoleLogger stats_out)) b0)"
  let ?od = "\<lambda>c ob w. (Ok (NewObservableDecorator c (StoreName st) ''obs-cache'' ob), w)"
  from b0 have b: "\<not> b_factoryCustomized ?b" "ttls_valid (b_features ?b)" "b_err ?b = None" "b_decorators ?b = map WithDecorator []"
    "b_obDecorators ?b = WithDecorator ?od" "b_options ?b = map WithDecorator []" and ft: "b_features ?b = default_features"
    "b_store ?b = st" "b_cacheName ?b = ''obs-cache''" "b_metrics ?b = Some (statsMetrics stats_out)" "b_logger ?b = Some (consoleLogger stats_out)"
    by (auto simp: NewBuilder_Ok WithMetrics_def WithLogger_def ttls_valid_def default_features_def)
  have f: "compiled_factory TString rt default_features st ob w = (Ok (NewBaseCache TString st), w)" for ob and w :: "'y observed_memory world"
    by (simp add: compiled_factory_def default_features_def buildPlainTypedCache_def requiresBytePath_def)
  have "fst (fst (Build TString rt ?b w)) = wrap_build_error ''obs-cache'' (Ok (example_cache rt (w_groups w) st)) \<and>
      snd (Build TString rt ?b w) = snd (new_group w)"
    using f assms
    by (intro Build_layers [OF b refl, unfolded ft(3)])
      (simp add: ft loader_group_def miss_layer_def nil_layer_def flight_layer_def default_features_def new_group_def
        NewObservableDecorator_def example_cache_def example_observer_def)
  with b0 show ?thesis by (auto simp: built_def wrap_build_error_def telemetry_only_def new_group_def)
qed

lemma float64_half: "float64 (1 / 2) = 1 / 2"
proof -
  have s: "float_scale (1 / 2) = 53" by (simp add: float_scale_def floorlog_def)
  have "round_even (of_int (2 ^ 52)) = 2 ^ 52" by (rule round_even_int)
  then show ?thesis by (simp add: float64_def s)
qed

lemma wrap64_plus: "wrap64 (wrap64 a + b) = wrap64 (a + b)"
  by (simp add: wrap64_def)

text \<open>The figures of the example, whatever the four latencies are.\<close>

definition example_events :: "duration \<Rightarrow> duration \<Rightarrow> duration \<Rightarrow> duration \<Rightarrow> event list" where
  "example_events l1 l2 l3 l4 =
     [seen OpSet [] l1, seen OpGet ResultHit l2, seen OpGet ResultMiss l3, seen OpDelete [] l4]"

lemma example_report:
  "statsMetrics_Report (fold count_event (example_events l1 l2 l3 l4) newStatsMetrics) =
   Summary 4 1 1 0 (Some (1 / 2)) (wrap64 (wrap64 (l1 + l2 + l3 + l4) sdiv 4))"
proof -
  have "fold count_event (example_events l1 l2 l3 l4) newStatsMetrics =
      \<lparr>sm_total = 4, sm_hits = 1, sm_misses = 1, sm_fails = 0, sm_totalLatency = wrap64 (l1 + l2 + l3 + l4)\<rparr>"
    by (simp add: example_events_def newStatsMetrics_def count_event_def seen_def telemetry_names Let_def wrap64_plus add.assoc)
  moreover have "float64 1 = 1" "float64 2 = 2" using float64_int [of 1] float64_int [of 2] by simp_all
  ultimately show ?thesis by (simp add: statsMetrics_Report_def float64_half)
qed

definition observability_output :: "duration \<Rightarrow> duration \<Rightarrow> duration \<Rightarrow> duration \<Rightarrow> line list" where
  "observability_output l1 l2 l3 l4 =
     [LPrintln ''[1] Set'', metric_line (seen OpSet [] l1),
      LPrintln ''[2] Get hit'', metric_line (seen OpGet ResultHit l2),
      LPrintln ''[3] Get miss'', metric_line (seen OpGet ResultMiss l3),
      LPrintln delete_heading, metric_line (seen OpDelete [] l4), delete_log,
      LPrintln ''[5] Metrics summary'',
      LPrintf (lined ''total=%d hits=%d misses=%d fails=%d hit_rate=%.2f avg_latency=%s'')
        [OInt 4, OInt 1, OInt 1, OInt 0, ORate (Some (1 / 2)), ODur (wrap64 (wrap64 (l1 + l2 + l3 + l4) sdiv 4))]]"

lemma example_ends:
  assumes "program_at view own_part D t0 m
      (fold count_event (example_events l1 l2 l3 l4) newStatsMetrics, p\<lparr>pr_out := out @ take 9 (observability_output l1 l2 l3 l4)\<rparr>) w"
  shows "\<exists>l1 l2 l3 l4. printed stats_out (print_Report (print stats_out (LPrintln ''[5] Metrics summary'') w)) =
     out @ observability_output l1 l2 l3 l4"
proof -
  obtain y where "w_ext w = (fold count_event (example_events l1 l2 l3 l4) newStatsMetrics,
      p\<lparr>pr_out := out @ take 9 (observability_output l1 l2 l3 l4)\<rparr>, y)"
    using assms by (cases "w_ext w") (auto simp: program_at_def)
  then have "printed stats_out (print_Report (print stats_out (LPrintln ''[5] Metrics summary'') w)) =
      out @ observability_output l1 l2 l3 l4"
    by (simp add: print_Report_def print_def printed_def example_report report_line_def observability_output_def)
  then show ?thesis by blast
qed

text \<open>C21: the observability example runs as it says: every call is counted and printed once, the miss
  and the failing metrics sink do not stop it, the sink's error is logged exactly once, for the
  deletion, and the summary shows four operations with one hit and one miss, a hit rate of one half
  and the mean of the latencies; it can fail only once the minute of the value is over.\<close>

theorem observability_main_runs:
  fixes w :: "'y observed_memory world"
  assumes "ristretto_cache cl view clock" and "no_events cl" and "opens new client_part cl view own_part"
    and "\<And>t. w_now w \<le> t \<Longrightarrow> clock t" and "sequential rt"
  shows "until (w_now w + Minute) (observability_main rt slog new w) (\<lambda>_ w'. \<exists>l1 l2 l3 l4.
     printed stats_out w' = printed stats_out w @ observability_output l1 l2 l3 l4)"
proof -
  let ?D = "w_now w + Minute" and ?n = "''obs-ristretto''"
  let ?V = "hosted_view client_part view :: 'y observed_memory view"
  let ?s = "ristretto_New (hosted_client client_part cl) [ristretto_WithStoreName ?n] :: 'y observed_memory ristretto_store"
  note P = ristretto_New_program [OF assms(1) client.memory_part_axioms own.memory_part_axioms client_own_apart, of ?n]
  have O: "observed_program ?s ?V clock rt"
    using P hosted_no_events [OF assms(2), of client_part] assms(5)
    by (simp add: observed_program_def observed_program_axioms_def ristretto_New_def ristretto_WithStoreName_def)
  note pr = print_example_at [OF P]
  note Set = until_step [OF observed_program.example_Set [OF O pr]] and Hit = until_step [OF observed_program.example_Get_hit [OF O pr]]
    and Miss = until_on_ok [OF observed_program.example_Get_miss [OF O pr]] and Delete = until_step [OF observed_program.example_Delete [OF O pr]]
  obtain s0 p0 y0 where x: "w_ext w = (s0, p0, y0)" by (metis prod.exhaust)
  obtain w1 where new: "new example_config w = (Ok (hosted_client client_part cl), w1)"
    "program_at ?V own_part ?D (w_now w) Map.empty (s0, p0) w1"
    using opens_at [OF assms(3), of "w_now w" w] x by auto
  have "w\<lparr>w_ext := apfst (\<lambda>_. newStatsMetrics) (w_ext w)\<rparr> = w\<lparr>w_ext := pt_put own_part (newStatsMetrics, p0) (w_ext w)\<rparr>"
    if "pt_get own_part (w_ext w) = (s0, p0)" for w :: "'y observed_memory world"
    using that by (cases "w_ext w") auto
  with program_store.at_own [OF P new(2)] new(2)
  have A1: "program_at ?V own_part ?D (w_now w) Map.empty (newStatsMetrics, p0) (w1\<lparr>w_ext := apfst (\<lambda>_. newStatsMetrics) (w_ext w1)\<rparr>)"
    by (simp add: program_at_def)
  let ?st = "RistrettoStore ?s"
  have sn: "StoreName ?st = ''obs-ristretto''" by (simp add: ristretto_New_def ristretto_WithStoreName_def)
  obtain b0 g w2 where b: "NewBuilder TString slog ''obs-cache'' (Some ?st) [] = Ok b0"
    "built (Build TString rt (WithMetrics (Some (statsMetrics stats_out)) (WithLogger (Some (consoleLogger stats_out)) b0))
       (w1\<lparr>w_ext := apfst (\<lambda>_. newStatsMetrics) (w_ext w1)\<rparr>)) = (Ok (example_cache rt g ?st), w2)"
    "telemetry_only (w1\<lparr>w_ext := apfst (\<lambda>_. newStatsMetrics) (w_ext w1)\<rparr>) w2"
    using Build_example_front [OF sn, of slog rt "w1\<lparr>w_ext := apfst (\<lambda>_. newStatsMetrics) (w_ext w1)\<rparr>"] by blast
  note A = program_store.at_telemetry [OF P A1 b(3)]
  show ?thesis
    unfolding observability_main_def Let_def new(1) Println_def
    apply (simp add: must_def b(1,2))
    apply (fold must_def)
    apply (rule Set, rule A, rule assms(4), assumption, simp, simp add: program_at_now [OF A], erule exE)
    apply (rule Hit, assumption, simp, erule exE)
    apply (rule Miss, assumption, simp, erule exE)
    apply (rule Delete, assumption, erule exE)
    apply (simp only: until_simps, rule example_ends)
    by (simp add: recorded_def example_events_def observability_output_def telemetry_names printed_def x)
qed

text \<open>The run over the in-memory store.\<close>

lemma store_client_no_events: "no_events (store_client (SlowMapStore s))"
  by (auto simp: no_events_def store_client_def SlowMapStore_Get_def SlowMapStore_Set_def SlowMapStore_Delete_def
      put_data_def sleep_def wait_def Let_def split: prod.splits outcome.splits option.splits)

lemma map_observed_program:
  "observed_program \<lparr>ts_client = hosted_client client_part (store_client (SlowMapStore s)), ts_name = n\<rparr>
     (hosted_view client_part (map_view s)) (\<lambda>t. zero_time < t) seq_runtime"
  using ristretto_program [OF map_ristretto.ristretto_cache_axioms client.memory_part_axioms own.memory_part_axioms client_own_apart]
  by (simp add: observed_program_def observed_program_axioms_def hosted_no_events store_client_no_events)

interpretation map_observed: observed_program
  "\<lparr>ts_client = hosted_client client_part (store_client (SlowMapStore s)), ts_name = n\<rparr>"
  "hosted_view client_part (map_view s)" "\<lambda>t. zero_time < t" seq_runtime for s n
  by (rule map_observed_program)

definition observed_library :: "slow_map_store \<Rightarrow> map_heap observed_memory ristretto_library" where
  "observed_library s cfg w =
     (Ok (hosted_client client_part (store_client (SlowMapStore s))),
      w\<lparr>w_ext := apsnd (apsnd (\<lambda>h. h(sm_addr s := Map.empty))) (w_ext w)\<rparr>)"

lemma observed_library_opens: "opens (observed_library s) client_part (store_client (SlowMapStore s)) (map_view s) own_part"
proof -
  have "pt_get own_part (apsnd (apsnd f) x) = pt_get own_part x" "pt_get client_part (apsnd (apsnd f) x) = f (pt_get client_part x)"
    for f :: "map_heap \<Rightarrow> map_heap" and x
    by (cases x; simp)+
  then show ?thesis
    by (simp add: opens_def observed_library_def wipes_def hosted_view_def map_view_def map_data_def)
qed

definition idle_observed :: "map_heap observed_memory world" where
  "idle_observed = \<lparr>w_now = 0, w_events = [], w_groups = 0, w_ext = (newStatsMetrics, \<lparr>pr_out = [], pr_calls = 0\<rparr>, \<lambda>a. Map.empty)\<rparr>"

theorem observability_main_runs_witness:
  "until Minute (observability_main seq_runtime no_slog (observed_library demo_map) idle_observed)
     (\<lambda>_ w'. \<exists>l1 l2 l3 l4. printed stats_out w' = observability_output l1 l2 l3 l4)"
  using observability_main_runs [OF map_ristretto.ristretto_cache_axioms store_client_no_events observed_library_opens
      _ seq_runtime_sequential, of idle_observed no_slog demo_map]
  by (simp add: idle_observed_def printed_def zero_time_def duration_defs)

end
