(* ===== verification/Logic_Program.thy ===== *)
theory Logic_Program
  imports Example_Basic
begin

text \<open>
  Programs whose cache combines logical expiry with a missed loader over a store that is quick
  enough, as examples/03 and examples/06 do: what one call of the built stack does to the store and
  to the program's memory, with the loader run in between. The cache below logical expiry is any
  that translates values (the base cache, or a codec over compression).
\<close>

section \<open>The stack\<close>

definition logic_stage :: "gotype \<Rightarrow> 'x runtime \<Rightarrow> nat \<Rightarrow> 'x loader \<Rightarrow> duration \<Rightarrow> duration \<Rightarrow> 'x observable option \<Rightarrow> 'x cache \<Rightarrow> 'x logic_ttl" where
  "logic_stage T rt g f ttl wb ob inner =
     \<lparr>lt_cache = inner, lt_ob = ob, lt_logicExpireMetrics = None, lt_defaultLogicTTL = ttl,
      lt_loadFn = Some (SingleflightWrapper T rt g f), lt_writeBackTTL = wb\<rparr>"

definition loading_stage :: "gotype \<Rightarrow> 'x runtime \<Rightarrow> nat \<Rightarrow> 'x loader \<Rightarrow> duration \<Rightarrow> 'x observable option \<Rightarrow> 'x cache \<Rightarrow> 'x cache" where
  "loading_stage T rt g f wb ob c =
     NewMissedLoaderDecorator \<lparr>ml_cache = c, ml_loadFn = Some (SingleflightWrapper T rt g f), ml_writeBackTTL = wb, ml_ob = ob\<rparr>"

lemma logic_stage_simps [simp]:
  "lt_cache (logic_stage T rt g f ttl wb ob inner) = inner" "lt_ob (logic_stage T rt g f ttl wb ob inner) = ob"
  "lt_logicExpireMetrics (logic_stage T rt g f ttl wb ob inner) = None"
  "lt_defaultLogicTTL (logic_stage T rt g f ttl wb ob inner) = ttl"
  "lt_loadFn (logic_stage T rt g f ttl wb ob inner) = Some (SingleflightWrapper T rt g f)"
  "lt_writeBackTTL (logic_stage T rt g f ttl wb ob inner) = wb"
  by (simp_all add: logic_stage_def)

lemma flight_loader:
  assumes "sequential rt" and "ctx_deadline ctx = None" and "f ctx k opts w = (Ok v, w')" and "type_assert T v = Some v"
  shows "SingleflightWrapper T rt g f ctx k opts w = (Ok v, w')"
  using assms by (simp add: SingleflightWrapper_def sequential_DoChan)

text \<open>A lookup of the stack that finds a value which is current, or stale, or no value.\<close>

lemma loading_Get_found:
  "c_Get c ctx k opts w = (Ok v, w') \<Longrightarrow> c_Get (loading_stage T rt g f wb ob c) ctx k opts w = (Ok v, w')"
  by (simp add: loading_stage_def MissedLoaderDecorator_Get_def)

lemma loading_Get_missing:
  assumes "sequential rt" and "ctx_deadline ctx = None" and "c_Get c ctx k opts w = (Err e, w1)" and "errors_is e ErrNotFound"
    and "f ctx k opts w1 = (Ok v, w2)" and "type_assert T v = Some v" and "c_Set c ctx k v wb opts w2 = (Ok u, w3)"
  shows "c_Get (loading_stage T rt g f wb ob c) ctx k opts w = (Ok v, w3)"
  using assms flight_loader [where f = f, OF assms(1,2,5,6)]
  by (simp add: loading_stage_def MissedLoaderDecorator_Get_def MissedLoaderDecorator_loadFromSource_def
      MissedLoaderDecorator_Set_def finish_write_back_def)

lemma logic_Get_current:
  "c_Get inner ctx k opts w = (Ok (VLogic T v e), w') \<Longrightarrow> w_now w' \<le> e \<Longrightarrow>
   c_Get (LogicTTLDecorator T (logic_stage T rt g f ttl wb ob inner)) ctx k opts w = (Ok v, w')"
  by (simp add: LogicTTLDecorator_Get_def LogicTTLValue_IsExpire_def After_def)

lemma logic_Get_stale:
  assumes "sequential rt" and "ctx_deadline ctx = None" and "opts_total opts"
    and "c_Get inner ctx k opts w = (Ok (VLogic T v e), w1)" and "e < w_now w1" and "e \<noteq> zero_time"
    and "f ctx k opts w1 = (Ok v', w2)" and "type_assert T v' = Some v'" and "0 < ttl"
    and "c_Set inner ctx k (VLogic T v' (w_now w2 + ttl)) wb opts w2 = (Ok u, w3)"
  shows "c_Get (LogicTTLDecorator T (logic_stage T rt g f ttl wb ob inner)) ctx k opts w = (Ok v, w3)"
  using assms flight_loader [where f = f, OF assms(1,2,7,8)]
  by (simp add: LogicTTLDecorator_Get_def LogicTTLValue_IsExpire_def After_def IsZero_def LogicTTLDecorator_onExpire_def
      LogicTTLDecorator_Set_total stamp_def)

lemma logic_Get_error:
  "c_Get inner ctx k opts w = (Err e, w') \<Longrightarrow>
   c_Get (LogicTTLDecorator T (logic_stage T rt g f ttl wb ob inner)) ctx k opts w = (Err e, w')"
  by (simp add: LogicTTLDecorator_Get_def)

lemma logic_Set:
  "opts_total opts \<Longrightarrow> 0 < ttl \<Longrightarrow>
   c_Set (LogicTTLDecorator T (logic_stage T rt g f ttl wb ob inner)) ctx k v ttl' opts w =
   c_Set inner ctx k (VLogic T v (w_now w + ttl)) ttl' opts w"
  by (simp add: LogicTTLDecorator_Set_total stamp_def)

section \<open>A quick store\<close>

text \<open>
  The state of such a program: one key with its entry or none, which stays at least until \<open>D\<close>, the
  memory of the program, and the clock between two bounds.
\<close>

definition moment ::
    "'x view \<Rightarrow> ('x, 'm) part \<Rightarrow> int \<Rightarrow> int \<Rightarrow> key \<Rightarrow> gval option \<Rightarrow> 'm \<Rightarrow> int \<Rightarrow> int \<Rightarrow> 'x world \<Rightarrow> bool" where
  "moment view own D t0 k x y a b w \<longleftrightarrow>
     program_at view own D t0 (case x of None \<Rightarrow> Map.empty | Some v \<Rightarrow> [k \<mapsto> v]) y w \<and> a \<le> w_now w \<and> w_now w \<le> b"

lemma moment_weaken: "moment view own D t0 k x y a b w \<Longrightarrow> a' \<le> a \<Longrightarrow> b \<le> b' \<Longrightarrow> moment view own D t0 k x y a' b' w"
  by (simp add: moment_def)

text \<open>Writing the only key forgets how long the old entry would have stayed.\<close>

lemma holds_replace:
  assumes "holds D view w (case x of None \<Rightarrow> Map.empty | Some u \<Rightarrow> [k \<mapsto> u])" and "writes view w w' k (stored v ttl)"
    and "ttl = 0 \<or> D' \<le> w_now w + ttl"
  shows "holds D' view w' [k \<mapsto> v]"
proof -
  from assms(2) obtain t0 where t0: "w_now w \<le> t0" "t0 \<le> w_now w'"
    and V: "\<And>k' t. w_now w' \<le> t \<Longrightarrow> view w' k' t = (if k' = k then stored v ttl t0 t else view w k' t)"
    by (auto simp: writes_def)
  show ?thesis unfolding holds_def
  proof (intro allI impI)
    fix k' t assume t: "w_now w' \<le> t"
    have "shows_entry D ((case x of None \<Rightarrow> Map.empty | Some u \<Rightarrow> [k \<mapsto> u]) k') t (view w k' t)"
      using assms(1) t t0 by (simp add: holds_def)
    then show "shows_entry D' ([k \<mapsto> v] k') t (view w' k' t)"
      using V [OF t, of k'] t t0 assms(3) by (auto simp: stored_def shows_entry_def split: option.splits)
  qed
qed

locale swift_store = program_store st view storable whole clock "[]" own
  for st :: "'x store" and view :: "'x view" and storable :: "gval \<Rightarrow> bool" and whole :: "duration \<Rightarrow> bool"
    and clock :: "int \<Rightarrow> bool" and own :: "('x, 'm) part" +
  fixes lag :: duration
  assumes quick: "w_now (snd (c_Get st ctx k opts w)) \<le> w_now w + lag"
      "w_now (snd (c_Set st ctx k v ttl opts w)) \<le> w_now w + lag"
      "w_now (snd (c_Delete st ctx k opts w)) \<le> w_now w + lag"
begin

lemma moment_telemetry: "moment view own D t0 k x y a b w \<Longrightarrow> telemetry_only w w' \<Longrightarrow> moment view own D t0 k x y a b w'"
  by (auto simp: moment_def telemetry_only_def intro: at_telemetry)

lemma moment_own:
  "moment view own D t0 k x y a b w \<Longrightarrow> moment view own D t0 k x y' a b (w\<lparr>w_ext := pt_put own y' (w_ext w)\<rparr>)"
  by (auto simp: moment_def intro: at_own)

lemma moment_wait:
  assumes "moment view own D t0 k x y a b w" and "0 \<le> d"
  shows "moment view own D t0 k x y (a + d) (b + d) (wait d w)"
proof -
  have "reads view w (wait d w)"
    using assms(2) by (intro blind_reads [OF store_contract.view_blind [OF contract]]) simp_all
  with assms show ?thesis by (auto simp: moment_def intro: at_reads)
qed

lemma moment_Get:
  assumes M: "moment view own D t0 k x y a b w" and ctx: "ctx_deadline ctx = None" and D: "b + lag \<le> D"
  shows "\<exists>r w'. c_Get st ctx k opts w = (r, w') \<and> moment view own D t0 k x y a (b + lag) w' \<and>
     (case x of None \<Rightarrow> not_found r | Some v \<Rightarrow> r = Ok v)"
proof -
  obtain r w' where g: "c_Get st ctx k opts w = (r, w')" by fastforce
  from quick(1) [of ctx k opts w] g M have t: "w_now w' \<le> b + lag" by (simp add: moment_def)
  from M have A: "program_at view own D t0 (case x of None \<Rightarrow> Map.empty | Some v \<Rightarrow> [k \<mapsto> v]) y w" by (simp add: moment_def)
  from store_contract.Get_law [OF contract ctx, of k opts w r w'] g have "w_now w \<le> w_now w'" by (auto dest: reads_now)
  with store_Get [OF A ctx g] t D M g show ?thesis by (cases x) (auto simp: moment_def)
qed

lemma moment_Set:
  assumes M: "moment view own D t0 k x y a b w" and ctx: "ctx_deadline ctx = None" and opts: "opts_total opts"
    and clock: "\<And>t. t0 \<le> t \<Longrightarrow> clock t" and v: "storable v" and ttl: "0 < ttl" "whole ttl" "D' \<le> a + ttl"
  shows "\<exists>w'. c_Set st ctx k v ttl opts w = (Ok (), w') \<and> moment view own D' t0 k (Some v) y a (b + lag) w'"
proof -
  obtain u w' where s: "c_Set st ctx k v ttl opts w = (u, w')" by fastforce
  from M have t: "t0 \<le> w_now w" "a \<le> w_now w" "w_now w \<le> b" "pt_get own (w_ext w) = y"
    and H: "holds D view w (case x of None \<Rightarrow> Map.empty | Some u \<Rightarrow> [k \<mapsto> u])"
    by (auto simp: moment_def program_at_def)
  from store_contract.Set_law [OF contract ctx opts v _ ttl(2) clock [OF t(1)], of k u w'] s ttl(1)
  have "u = Ok ()" and W: "writes view w w' k (stored v ttl)" by simp_all
  moreover have "holds D' view w' [k \<mapsto> v]" using t ttl by (intro holds_replace [OF H W]) simp
  ultimately show ?thesis
    using s t quick(2) [of ctx k v ttl opts w] keeps_own(2) [of ctx k v ttl opts w] writes_now [OF W]
    by (auto simp: moment_def program_at_def)
qed

lemma moment_Delete:
  assumes M: "moment view own D t0 k x y a b w" and ctx: "ctx_deadline ctx = None"
  shows "\<exists>w'. c_Delete st ctx k opts w = (Ok (), w') \<and> moment view own D t0 k None y a (b + lag) w'"
proof -
  obtain u w' where d: "c_Delete st ctx k opts w = (u, w')" by fastforce
  from M have A: "program_at view own D t0 (case x of None \<Rightarrow> Map.empty | Some v \<Rightarrow> [k \<mapsto> v]) y w" by (simp add: moment_def)
  from store_contract.Delete_law [OF contract ctx, of k opts w u w'] d have "w_now w \<le> w_now w'" by (auto dest: writes_now)
  moreover have "(case x of None \<Rightarrow> Map.empty | Some v \<Rightarrow> [k \<mapsto> v])(k := None) = Map.empty" by (cases x) auto
  ultimately show ?thesis
    using store_Delete [OF A ctx d] quick(3) [of ctx k opts w] d M by (auto simp: moment_def)
qed

text \<open>The same below logical expiry, where the entries are encoded \<open>LogicTTLValue\<close>s.\<close>

lemma coded_moment_Get:
  assumes "moment view own D t0 k (Some u) y a b w" and "ctx_deadline ctx = None" and "b + lag \<le> D" and "dec u = Ok v"
  shows "\<exists>w'. c_Get (transcode enc dec st) ctx k opts w = (Ok v, w') \<and> moment view own D t0 k (Some u) y a (b + lag) w'"
  using moment_Get [OF assms(1-3), of opts] assms(4) by (auto simp: transcode_Get_def)

lemma coded_moment_Get_none:
  assumes "moment view own D t0 k None y a b w" and "ctx_deadline ctx = None" and "b + lag \<le> D"
  shows "\<exists>e w'. c_Get (transcode enc dec st) ctx k opts w = (Err e, w') \<and> errors_is e ErrNotFound \<and>
     moment view own D t0 k None y a (b + lag) w'"
proof -
  obtain r w' where "c_Get st ctx k opts w = (r, w')" "moment view own D t0 k None y a (b + lag) w'" "not_found r"
    using moment_Get [OF assms, of opts] by auto
  then show ?thesis by (cases r) (auto simp: transcode_Get_def)
qed

lemma coded_moment_Set:
  assumes "moment view own D t0 k x y a b w" and "ctx_deadline ctx = None" and "opts_total opts"
    and "\<And>t. t0 \<le> t \<Longrightarrow> clock t" and "enc v = Ok u" "storable u" and "0 < ttl" "whole ttl" "D' \<le> a + ttl"
  shows "\<exists>w'. c_Set (transcode enc dec st) ctx k v ttl opts w = (Ok (), w') \<and> moment view own D' t0 k (Some u) y a (b + lag) w'"
  using moment_Set [OF assms(1-4,6-9)] assms(5) by (auto simp: transcode_Set_def)

end

section \<open>Calls of the whole stack\<close>

definition logic_program_cache ::
    "gotype \<Rightarrow> 'x runtime \<Rightarrow> nat \<times> nat \<times> nat \<Rightarrow> 'x loader \<Rightarrow> duration \<Rightarrow> duration \<Rightarrow> duration \<Rightarrow> 'x observable option \<Rightarrow>
     'x cache \<Rightarrow> string \<Rightarrow> string \<Rightarrow> 'x logger option \<Rightarrow> 'x cache" where
  "logic_program_cache T rt gs f ttl wb mwb ob inner sn cn l =
     front T rt (fst gs) (loading_stage T rt (fst (snd gs)) f mwb ob
       (LogicTTLDecorator T (logic_stage T rt (snd (snd gs)) f ttl wb ob inner))) sn cn l"

text \<open>An entry \<open>u\<close> of the store that stands for value \<open>v\<close> with logical deadline \<open>e\<close>.\<close>

definition codes ::
    "gotype \<Rightarrow> (gval \<Rightarrow> gval result) \<Rightarrow> (gval \<Rightarrow> gval result) \<Rightarrow> (gval \<Rightarrow> bool) \<Rightarrow> gval \<Rightarrow> int \<Rightarrow> gval \<Rightarrow> bool" where
  "codes T enc dec storable v e u \<longleftrightarrow> enc (VLogic T v e) = Ok u \<and> dec u = Ok (VLogic T v e) \<and> storable u \<and> type_assert T v = Some v"

text \<open>What the loader does, called between \<open>a\<close> and \<open>b\<close>: it takes \<open>d\<close>, and the value it returns and
  what it does to the program's memory are as \<open>good\<close> says.\<close>

definition loads ::
    "'x view \<Rightarrow> ('x, 'm) part \<Rightarrow> int \<Rightarrow> int \<Rightarrow> key \<Rightarrow> gval option \<Rightarrow> 'm \<Rightarrow> int \<Rightarrow> int \<Rightarrow> 'x loader \<Rightarrow> duration \<Rightarrow> (gval \<Rightarrow> 'm \<Rightarrow> bool) \<Rightarrow> bool" where
  "loads view own D t0 k x y a b f d good \<longleftrightarrow>
     (\<forall>ctx w. moment view own D t0 k x y a b w \<longrightarrow>
        (\<exists>v y' w'. f ctx k [] w = (Ok v, w') \<and> good v y' \<and> moment view own D t0 k x y' (a + d) (b + d) w'))"

context swift_store
begin

lemma stack_Set:
  assumes M: "moment view own D t0 k x y a b w" and opts: "opts_total opts" and clock: "\<And>t. t0 \<le> t \<Longrightarrow> clock t"
    and ttl: "0 < ttl" and code: "\<And>e. a + ttl \<le> e \<Longrightarrow> e \<le> b + ttl \<Longrightarrow> \<exists>u. codes T enc dec storable v e u"
    and ttl': "0 < ttl'" "whole ttl'" "D' \<le> a + ttl'"
  shows "\<exists>e u w'. c_Set (logic_program_cache T rt gs f ttl wb mwb ob (transcode enc dec st) sn cn l) Background k v ttl' opts w = (Ok (), w') \<and>
     a + ttl \<le> e \<and> e \<le> b + ttl \<and> codes T enc dec storable v e u \<and> moment view own D' t0 k (Some u) y a (b + lag) w'"
proof -
  obtain r w' where c: "c_Set (logic_program_cache T rt gs f ttl wb mwb ob (transcode enc dec st) sn cn l) Background k v ttl' opts w = (r, w')" by fastforce
  obtain ctx' w1 w2 where F: "ctx_deadline ctx' = None" "telemetry_only w w1"
    "c_Set (transcode enc dec st) ctx' k (VLogic T v (w_now w1 + ttl)) ttl' opts w1 = (r, w2)" "telemetry_only w2 w'"
    by (rule front_Set [OF c [unfolded logic_program_cache_def]])
      (auto simp: demo_simps(6) loading_stage_def MissedLoaderDecorator_Set_def logic_Set [OF opts ttl] simp del: LogicTTLDecorator_ops)
  have M1: "moment view own D t0 k x y a b w1" by (rule moment_telemetry [OF M F(2)])
  then have e: "a + ttl \<le> w_now w1 + ttl" "w_now w1 + ttl \<le> b + ttl" by (simp_all add: moment_def)
  from code [OF e] obtain u where u: "codes T enc dec storable v (w_now w1 + ttl) u" by blast
  then have "enc (VLogic T v (w_now w1 + ttl)) = Ok u" "storable u" by (simp_all add: codes_def)
  from coded_moment_Set [where enc = enc and dec = dec, OF M1 F(1) opts clock this ttl'] F(3)
  have "r = Ok ()" "moment view own D' t0 k (Some u) y a (b + lag) w2" by auto
  with moment_telemetry [OF this(2) F(4)] c e u show ?thesis by blast
qed

lemma stack_Delete:
  assumes M: "moment view own D t0 k x y a b w"
  shows "\<exists>w'. c_Delete (logic_program_cache T rt gs f ttl wb mwb ob (transcode enc dec st) sn cn l) Background k opts w = (Ok (), w') \<and>
     moment view own D t0 k None y a (b + lag) w'"
proof -
  obtain r w' where c: "c_Delete (logic_program_cache T rt gs f ttl wb mwb ob (transcode enc dec st) sn cn l) Background k opts w = (r, w')" by fastforce
  obtain ctx' w1 w2 where F: "ctx_deadline ctx' = None" "telemetry_only w w1"
    "c_Delete st ctx' k opts w1 = (r, w2)" "telemetry_only w2 w'"
    by (rule front_Delete [OF c [unfolded logic_program_cache_def]])
      (auto simp: demo_simps(6) loading_stage_def MissedLoaderDecorator_Delete_def LogicTTLDecorator_Delete_def)
  from moment_Delete [OF moment_telemetry [OF M F(2)] F(1), of opts] F(3)
  have "r = Ok ()" "moment view own D t0 k None y a (b + lag) w2" by auto
  with moment_telemetry [OF this(2) F(4)] c show ?thesis by blast
qed

text \<open>A lookup of the stack, once its inside is known.\<close>

lemma stack_Get:
  assumes M: "moment view own D t0 k x y a b w" and rt: "sequential rt" and T: "\<And>v. good v \<Longrightarrow> type_assert T v = Some v"
    and inside: "\<And>ctx w1. ctx_deadline ctx = None \<Longrightarrow> moment view own D t0 k x y a b w1 \<Longrightarrow>
      \<exists>v w2. c_Get (loading_stage T rt (fst (snd gs)) f mwb ob
         (LogicTTLDecorator T (logic_stage T rt (snd (snd gs)) f ttl wb ob inner))) ctx k [] w1 = (Ok v, w2) \<and> good v \<and> after v w2"
    and after: "\<And>v w1 w2. after v w1 \<Longrightarrow> telemetry_only w1 w2 \<Longrightarrow> after v w2"
  shows "\<exists>v w'. c_Get (logic_program_cache T rt gs f ttl wb mwb ob inner sn cn l) Background k [] w = (Ok v, w') \<and> good v \<and> after v w'"
proof -
  obtain r w' where c: "c_Get (logic_program_cache T rt gs f ttl wb mwb ob inner sn cn l) Background k [] w = (r, w')" by fastforce
  obtain ctx' w1 r0 w2 where F: "ctx_deadline ctx' = None" "telemetry_only w w1"
    "c_Get (loading_stage T rt (fst (snd gs)) f mwb ob (LogicTTLDecorator T (logic_stage T rt (snd (snd gs)) f ttl wb ob inner))) ctx' k [] w1 = (r0, w2)"
    "r = bind_ok r0 (must_assert T)" "telemetry_only w2 w'"
    by (rule front_Get [OF c [unfolded logic_program_cache_def] rt]) (auto simp: demo_simps(6))
  from inside [OF F(1) moment_telemetry [OF M F(2)]] F(3) obtain v where "r0 = Ok v" "good v" "after v w2" by auto
  with F(4,5) T after c show ?thesis by fastforce
qed

lemma stack_Get_current:
  assumes M: "moment view own D t0 k (Some u) y a b w" and rt: "sequential rt" and u: "codes T enc dec storable v e u"
    and t: "b + lag \<le> D" "b + lag \<le> e"
  shows "\<exists>w'. c_Get (logic_program_cache T rt gs f ttl wb mwb ob (transcode enc dec st) sn cn l) Background k [] w = (Ok v, w') \<and>
     moment view own D t0 k (Some u) y a (b + lag) w'"
proof -
  let ?after = "\<lambda>v' w'. v' = v \<and> moment view own D t0 k (Some u) y a (b + lag) w'"
  have inside: "\<exists>v' w2. c_Get (loading_stage T rt (fst (snd gs)) f mwb ob
      (LogicTTLDecorator T (logic_stage T rt (snd (snd gs)) f ttl wb ob (transcode enc dec st)))) ctx k [] w1 = (Ok v', w2) \<and> v' = v \<and> ?after v' w2"
    if ctx: "ctx_deadline ctx = None" and M1: "moment view own D t0 k (Some u) y a b w1" for ctx w1
  proof -
    have "dec u = Ok (VLogic T v e)" using u by (simp add: codes_def)
    from coded_moment_Get [where enc = enc and dec = dec, OF M1 ctx t(1) this, of "[]"] obtain w2 where
      g: "c_Get (transcode enc dec st) ctx k [] w1 = (Ok (VLogic T v e), w2)" "moment view own D t0 k (Some u) y a (b + lag) w2" by blast
    from g(2) t(2) have "w_now w2 \<le> e" by (simp add: moment_def)
    from loading_Get_found [OF logic_Get_current [OF g(1) this]] g(2) show ?thesis by blast
  qed
  have "\<exists>v' w'. c_Get (logic_program_cache T rt gs f ttl wb mwb ob (transcode enc dec st) sn cn l) Background k [] w = (Ok v', w') \<and>
      v' = v \<and> ?after v' w'"
    by (rule stack_Get [OF M rt _ inside]) (use u moment_telemetry in \<open>auto simp: codes_def\<close>)
  then show ?thesis by blast
qed

lemma stack_Get_stale:
  assumes M: "moment view own D t0 k (Some u) y a b w" and rt: "sequential rt" and u: "codes T enc dec storable v e u"
    and t: "b + lag \<le> D" "e < a" "e \<noteq> zero_time" and clock: "\<And>t. t0 \<le> t \<Longrightarrow> clock t"
    and load: "loads view own D t0 k (Some u) y a (b + lag) f d good"
    and code: "\<And>v y' e. good v y' \<Longrightarrow> a + d + ttl \<le> e \<Longrightarrow> e \<le> b + lag + d + ttl \<Longrightarrow> \<exists>u. codes T enc dec storable v e u"
    and ttl: "0 < ttl" "0 < wb" "whole wb" "D' \<le> a + d + wb"
  shows "\<exists>w' v' y' e' u'. c_Get (logic_program_cache T rt gs f ttl wb mwb ob (transcode enc dec st) sn cn l) Background k [] w = (Ok v, w') \<and>
     good v' y' \<and> a + d + ttl \<le> e' \<and> e' \<le> b + lag + d + ttl \<and> codes T enc dec storable v' e' u' \<and>
     moment view own D' t0 k (Some u') y' (a + d) (b + lag + d + lag) w'"
proof -
  let ?after = "\<lambda>v1 w'. \<exists>v' y' e' u'. good v' y' \<and> a + d + ttl \<le> e' \<and> e' \<le> b + lag + d + ttl \<and> codes T enc dec storable v' e' u' \<and>
     moment view own D' t0 k (Some u') y' (a + d) (b + lag + d + lag) w'"
  have inside: "\<exists>v1 w2. c_Get (loading_stage T rt (fst (snd gs)) f mwb ob
      (LogicTTLDecorator T (logic_stage T rt (snd (snd gs)) f ttl wb ob (transcode enc dec st)))) ctx k [] w1 = (Ok v1, w2) \<and> v1 = v \<and> ?after v1 w2"
    if ctx: "ctx_deadline ctx = None" and M1: "moment view own D t0 k (Some u) y a b w1" for ctx w1
  proof -
    have "dec u = Ok (VLogic T v e)" using u by (simp add: codes_def)
    from coded_moment_Get [where enc = enc and dec = dec, OF M1 ctx t(1) this, of "[]"] obtain w2 where
      g: "c_Get (transcode enc dec st) ctx k [] w1 = (Ok (VLogic T v e), w2)" "moment view own D t0 k (Some u) y a (b + lag) w2" by blast
    from load g(2) obtain v' y' w3 where f: "f ctx k [] w2 = (Ok v', w3)" "good v' y'"
      "moment view own D t0 k (Some u) y' (a + d) (b + lag + d) w3" unfolding loads_def by blast
    then have e': "a + d + ttl \<le> w_now w3 + ttl" "w_now w3 + ttl \<le> b + lag + d + ttl" by (simp_all add: moment_def)
    from code [OF f(2) e'] obtain u' where u': "codes T enc dec storable v' (w_now w3 + ttl) u'" by blast
    then have c: "enc (VLogic T v' (w_now w3 + ttl)) = Ok u'" "storable u'" "type_assert T v' = Some v'" by (simp_all add: codes_def)
    from coded_moment_Set [where enc = enc and dec = dec, OF f(3) ctx opts_total_Nil clock c(1,2) ttl(2-4)] obtain w4 where
      s: "c_Set (transcode enc dec st) ctx k (VLogic T v' (w_now w3 + ttl)) wb [] w3 = (Ok (), w4)"
      "moment view own D' t0 k (Some u') y' (a + d) (b + lag + d + lag) w4" by blast
    have past: "e < w_now w2" using g(2) t(2) by (simp add: moment_def)
    show ?thesis
      using loading_Get_found [OF logic_Get_stale [where f = f, OF rt ctx opts_total_Nil g(1) past t(3) f(1) c(3) ttl(1) s(1)]]
        f(2) e' u' s(2) by blast
  qed
  have after: "?after v w2" if A: "?after v w1" and T: "telemetry_only w1 w2" for v w1 w2
  proof -
    from A show ?thesis by (elim exE conjE) (intro exI conjI moment_telemetry [OF _ T])
  qed
  have "\<exists>v1 w'. c_Get (logic_program_cache T rt gs f ttl wb mwb ob (transcode enc dec st) sn cn l) Background k [] w = (Ok v1, w') \<and>
      v1 = v \<and> ?after v1 w'"
    by (rule stack_Get [OF M rt _ inside after]) (use u in \<open>auto simp: codes_def\<close>)
  then show ?thesis by blast
qed

lemma stack_Get_missing:
  assumes M: "moment view own D t0 k None y a b w" and rt: "sequential rt"
    and t: "b + lag \<le> D" and clock: "\<And>t. t0 \<le> t \<Longrightarrow> clock t"
    and load: "loads view own D t0 k None y a (b + lag) f d good"
    and code: "\<And>v y' e. good v y' \<Longrightarrow> a + d + ttl \<le> e \<Longrightarrow> e \<le> b + lag + d + ttl \<Longrightarrow> \<exists>u. codes T enc dec storable v e u"
    and ttl: "0 < ttl" "0 < mwb" "whole mwb" "D' \<le> a + d + mwb"
  shows "\<exists>v w' y' e' u'. c_Get (logic_program_cache T rt gs f ttl wb mwb ob (transcode enc dec st) sn cn l) Background k [] w = (Ok v, w') \<and>
     good v y' \<and> a + d + ttl \<le> e' \<and> e' \<le> b + lag + d + ttl \<and> codes T enc dec storable v e' u' \<and>
     moment view own D' t0 k (Some u') y' (a + d) (b + lag + d + lag) w'"
proof -
  let ?good = "\<lambda>v. type_assert T v = Some v"
  let ?after = "\<lambda>v w'. \<exists>y' e' u'. good v y' \<and> a + d + ttl \<le> e' \<and> e' \<le> b + lag + d + ttl \<and> codes T enc dec storable v e' u' \<and>
     moment view own D' t0 k (Some u') y' (a + d) (b + lag + d + lag) w'"
  have inside: "\<exists>v w2. c_Get (loading_stage T rt (fst (snd gs)) f mwb ob
      (LogicTTLDecorator T (logic_stage T rt (snd (snd gs)) f ttl wb ob (transcode enc dec st)))) ctx k [] w1 = (Ok v, w2) \<and> ?good v \<and> ?after v w2"
    if ctx: "ctx_deadline ctx = None" and M1: "moment view own D t0 k None y a b w1" for ctx w1
  proof -
    from coded_moment_Get_none [where enc = enc and dec = dec, OF M1 ctx t, of "[]"] obtain e w2 where
      g: "c_Get (transcode enc dec st) ctx k [] w1 = (Err e, w2)" "errors_is e ErrNotFound" "moment view own D t0 k None y a (b + lag) w2" by blast
    from load g(3) obtain v y' w3 where f: "f ctx k [] w2 = (Ok v, w3)" "good v y'"
      "moment view own D t0 k None y' (a + d) (b + lag + d) w3" unfolding loads_def by blast
    then have e': "a + d + ttl \<le> w_now w3 + ttl" "w_now w3 + ttl \<le> b + lag + d + ttl" by (simp_all add: moment_def)
    from code [OF f(2) e'] obtain u' where u': "codes T enc dec storable v (w_now w3 + ttl) u'" by blast
    then have c: "enc (VLogic T v (w_now w3 + ttl)) = Ok u'" "storable u'" "type_assert T v = Some v" by (simp_all add: codes_def)
    from coded_moment_Set [where enc = enc and dec = dec, OF f(3) ctx opts_total_Nil clock c(1,2) ttl(2-4)] obtain w4 where
      s: "c_Set (transcode enc dec st) ctx k (VLogic T v (w_now w3 + ttl)) mwb [] w3 = (Ok (), w4)"
      "moment view own D' t0 k (Some u') y' (a + d) (b + lag + d + lag) w4" by blast
    show ?thesis
      using loading_Get_missing [where f = f, OF rt ctx logic_Get_error [OF g(1)] g(2) f(1) c(3) trans [OF logic_Set [OF opts_total_Nil ttl(1)] s(1)]]
        c(3) f(2) e' u' s(2) by blast
  qed
  have after: "?after v w2" if A: "?after v w1" and T: "telemetry_only w1 w2" for v w1 w2
  proof -
    from A show ?thesis by (elim exE conjE) (intro exI conjI moment_telemetry [OF _ T])
  qed
  have "\<exists>v w'. c_Get (logic_program_cache T rt gs f ttl wb mwb ob (transcode enc dec st) sn cn l) Background k [] w = (Ok v, w') \<and>
      ?good v \<and> ?after v w'"
    by (rule stack_Get [OF M rt _ inside after])
  then show ?thesis by blast
qed

end

section \<open>What a program knows of its one key\<close>

text \<open>A program, or a part of one, that returns, with what holds then.\<close>

definition goes :: "'a result \<times> 'w \<Rightarrow> ('a \<Rightarrow> 'w \<Rightarrow> bool) \<Rightarrow> bool" where
  "goes p P \<longleftrightarrow> (\<exists>v w. p = (Ok v, w) \<and> P v w)"

lemma goes_Ok [simp]: "goes (Ok v, w) P \<longleftrightarrow> P v w"
  by (simp add: goes_def)

lemma goes_on_ok: "goes p P \<Longrightarrow> (\<And>v w. P v w \<Longrightarrow> goes (f v w) Q) \<Longrightarrow> goes (on_ok p f) Q"
  by (auto simp: goes_def)

lemma goes_must: "goes p P \<Longrightarrow> goes (must p) P"
  by (auto simp: goes_def must_def)

lemma goes_mono: "goes p P \<Longrightarrow> (\<And>v w. P v w \<Longrightarrow> Q v w) \<Longrightarrow> goes p Q"
  by (auto simp: goes_def)

lemmas goes_step = goes_on_ok [OF goes_must]

text \<open>
  \<open>entry_at\<close>: the store holds nothing under the key, or an entry for the value \<open>v\<close> whose logical
  deadline lies between \<open>lo\<close> and \<open>hi\<close>.
\<close>

definition entry_at ::
    "gotype \<Rightarrow> (gval \<Rightarrow> gval result) \<Rightarrow> (gval \<Rightarrow> gval result) \<Rightarrow> (gval \<Rightarrow> bool) \<Rightarrow> 'x view \<Rightarrow> ('x, 'm) part \<Rightarrow> int \<Rightarrow> key \<Rightarrow>
     int \<Rightarrow> (gval \<times> int \<times> int) option \<Rightarrow> 'm \<Rightarrow> int \<Rightarrow> int \<Rightarrow> 'x world \<Rightarrow> bool" where
  "entry_at T enc dec storable view own t0 k D x y a b w \<longleftrightarrow>
     (case x of
        None \<Rightarrow> moment view own D t0 k None y a b w
      | Some (v, lo, hi) \<Rightarrow>
          \<exists>e u. lo \<le> e \<and> e \<le> hi \<and> codes T enc dec storable v e u \<and> moment view own D t0 k (Some u) y a b w)"

lemma entry_at_simps:
  "entry_at T enc dec storable view own t0 k D None y a b w \<longleftrightarrow> moment view own D t0 k None y a b w"
  "entry_at T enc dec storable view own t0 k D (Some (v, lo, hi)) y a b w \<longleftrightarrow>
     (\<exists>e u. lo \<le> e \<and> e \<le> hi \<and> codes T enc dec storable v e u \<and> moment view own D t0 k (Some u) y a b w)"
  by (simp_all add: entry_at_def)

lemma entry_atE:
  assumes "entry_at T enc dec storable view own t0 k D x y a b w"
  obtains u where "moment view own D t0 k u y a b w"
    and "\<And>D' y' a' b' w'. moment view own D' t0 k u y' a' b' w' \<Longrightarrow> entry_at T enc dec storable view own t0 k D' x y' a' b' w'"
proof (cases x)
  case None
  with assms that [of None] show thesis by (simp add: entry_at_def)
next
  case (Some p)
  obtain v lo hi where p: "p = (v, lo, hi)" by (cases p) blast
  from assms obtain e u where c: "lo \<le> e" "e \<le> hi" "codes T enc dec storable v e u" and M: "moment view own D t0 k (Some u) y a b w"
    unfolding Some p entry_at_simps by blast
  show thesis
  proof (rule that [OF M])
    fix D' y' a' b' w' assume "moment view own D' t0 k (Some u) y' a' b' w'"
    with c show "entry_at T enc dec storable view own t0 k D' x y' a' b' w'" unfolding Some p entry_at_simps by blast
  qed
qed

lemma entry_weaken:
  assumes "entry_at T enc dec storable view own t0 k D x y a b w" and "a' \<le> a" and "b \<le> b'"
  shows "entry_at T enc dec storable view own t0 k D x y a' b' w"
  using assms(1) by (rule entry_atE) (use assms(2,3) in \<open>blast intro: moment_weaken\<close>)

text \<open>The values of \<open>P\<close>, with a logical deadline from \<open>t0\<close> to \<open>t1\<close>, can be stored and read back.\<close>

definition coded ::
    "gotype \<Rightarrow> (gval \<Rightarrow> gval result) \<Rightarrow> (gval \<Rightarrow> gval result) \<Rightarrow> (gval \<Rightarrow> bool) \<Rightarrow> int \<Rightarrow> int \<Rightarrow> (gval \<Rightarrow> bool) \<Rightarrow> bool" where
  "coded T enc dec storable t0 t1 P \<longleftrightarrow> (\<forall>v e. P v \<longrightarrow> t0 \<le> e \<longrightarrow> e \<le> t1 \<longrightarrow> (\<exists>u. codes T enc dec storable v e u))"

context swift_store
begin

lemma entry_telemetry:
  assumes "entry_at T enc dec storable view own t0 k D x y a b w" and "telemetry_only w w'"
  shows "entry_at T enc dec storable view own t0 k D x y a b w'"
  using assms(1) by (rule entry_atE) (use assms(2) in \<open>blast intro: moment_telemetry\<close>)

lemma entry_own:
  assumes "entry_at T enc dec storable view own t0 k D x y a b w"
  shows "entry_at T enc dec storable view own t0 k D x y' a b (w\<lparr>w_ext := pt_put own y' (w_ext w)\<rparr>)"
  using assms by (rule entry_atE) (blast intro: moment_own)

lemma entry_wait:
  assumes "entry_at T enc dec storable view own t0 k D x y a b w" and "0 \<le> d"
  shows "entry_at T enc dec storable view own t0 k D x y (a + d) (b + d) (wait d w)"
  using assms(1) by (rule entry_atE) (use assms(2) in \<open>blast intro: moment_wait\<close>)

lemma entry_Set:
  assumes E: "entry_at T enc dec storable view own t0 k D x y a b w" and opts: "opts_total opts" and clock: "\<And>t. t0 \<le> t \<Longrightarrow> clock t"
    and code: "coded T enc dec storable t0 t1 P" "P v" and a: "t0 \<le> a" "b + ttl \<le> t1" and ttl: "0 < ttl" "0 < ttl'" "whole ttl'" "D' \<le> a + ttl'"
  shows "goes (c_Set (logic_program_cache T rt gs f ttl wb mwb ob (transcode enc dec st) sn cn l) Background k v ttl' opts w)
     (\<lambda>_. entry_at T enc dec storable view own t0 k D' (Some (v, a + ttl, b + ttl)) y a (b + lag))"
proof -
  from E obtain u where M: "moment view own D t0 k u y a b w" by (rule entry_atE)
  have "\<exists>u. codes T enc dec storable v e u" if "a + ttl \<le> e" "e \<le> b + ttl" for e
    using code a ttl(1) that by (simp add: coded_def)
  from stack_Set [where enc = enc and dec = dec and v = v and T = T, OF M opts clock ttl(1) this ttl(2-4)] obtain e u w' where
    "c_Set (logic_program_cache T rt gs f ttl wb mwb ob (transcode enc dec st) sn cn l) Background k v ttl' opts w = (Ok (), w')"
    "a + ttl \<le> e" "e \<le> b + ttl" "codes T enc dec storable v e u" "moment view own D' t0 k (Some u) y a (b + lag) w'" by blast
  then show ?thesis unfolding goes_def entry_at_simps by blast
qed

lemma entry_Delete:
  assumes E: "entry_at T enc dec storable view own t0 k D x y a b w"
  shows "goes (c_Delete (logic_program_cache T rt gs f ttl wb mwb ob (transcode enc dec st) sn cn l) Background k opts w)
     (\<lambda>_. entry_at T enc dec storable view own t0 k D None y a (b + lag))"
proof -
  from E obtain u where "moment view own D t0 k u y a b w" by (rule entry_atE)
  from stack_Delete [where enc = enc and dec = dec and T = T, OF this] show ?thesis
    unfolding goes_def entry_at_simps by blast
qed

lemma entry_Get_current:
  assumes E: "entry_at T enc dec storable view own t0 k D (Some (v, lo, hi)) y a b w" and rt: "sequential rt"
    and t: "b + lag \<le> D" "b + lag \<le> lo"
  shows "goes (c_Get (logic_program_cache T rt gs f ttl wb mwb ob (transcode enc dec st) sn cn l) Background k [] w)
     (\<lambda>v'. \<lambda>w'. v' = v \<and> entry_at T enc dec storable view own t0 k D (Some (v, lo, hi)) y a (b + lag) w')"
proof -
  from E obtain e u where e: "lo \<le> e" "e \<le> hi" and c: "codes T enc dec storable v e u" and M: "moment view own D t0 k (Some u) y a b w"
    unfolding entry_at_simps by blast
  from t(2) e(1) have "b + lag \<le> e" by simp
  from stack_Get_current [where T = T and gs = gs and f = f and ttl = ttl and wb = wb and mwb = mwb and ob = ob and sn = sn and cn = cn and l = l,
      OF M rt c t(1) this] e c show ?thesis
    unfolding goes_def entry_at_simps by (elim exE conjE) (intro exI conjI; (assumption | rule refl))
qed

lemma entry_Get_stale:
  assumes E: "entry_at T enc dec storable view own t0 k D (Some (v, lo, hi)) y a b w" and rt: "sequential rt"
    and t: "b + lag \<le> D" "hi < a" "zero_time < lo" "t0 \<le> a" "0 \<le> d" "b + lag + d + ttl \<le> t1" and clock: "\<And>t. t0 \<le> t \<Longrightarrow> clock t"
    and load: "\<And>u. loads view own D t0 k (Some u) y a (b + lag) f d good"
    and code: "coded T enc dec storable t0 t1 P" "\<And>v y'. good v y' \<Longrightarrow> P v"
    and ttl: "0 < ttl" "0 < wb" "whole wb" "D' \<le> a + d + wb"
  shows "goes (c_Get (logic_program_cache T rt gs f ttl wb mwb ob (transcode enc dec st) sn cn l) Background k [] w)
     (\<lambda>v0 w'. v0 = v \<and> (\<exists>v' y'. good v' y' \<and> entry_at T enc dec storable view own t0 k D'
        (Some (v', a + d + ttl, b + lag + d + ttl)) y' (a + d) (b + lag + d + lag) w'))"
proof -
  from E obtain e u where e: "lo \<le> e" "e \<le> hi" and c: "codes T enc dec storable v e u" and M: "moment view own D t0 k (Some u) y a b w"
    unfolding entry_at_simps by blast
  from t(2,3) e have e': "e < a" "e \<noteq> zero_time" by simp_all
  have c': "\<exists>u. codes T enc dec storable v' e u" if "good v' y'" "a + d + ttl \<le> e" "e \<le> b + lag + d + ttl" for v' y' e
    using code(1) code(2) [OF that(1)] that(2,3) t(4-6) ttl(1) unfolding coded_def by (elim allE [of _ v'] allE [of _ e]) simp
  have "\<exists>w' v' y' e' u'. c_Get (logic_program_cache T rt gs f ttl wb mwb ob (transcode enc dec st) sn cn l) Background k [] w = (Ok v, w') \<and>
     good v' y' \<and> a + d + ttl \<le> e' \<and> e' \<le> b + lag + d + ttl \<and> codes T enc dec storable v' e' u' \<and>
     moment view own D' t0 k (Some u') y' (a + d) (b + lag + d + lag) w'"
    by (rule stack_Get_stale [OF M rt c t(1) e' clock load c' ttl])
  then obtain w' v' y' e' u' where
    "c_Get (logic_program_cache T rt gs f ttl wb mwb ob (transcode enc dec st) sn cn l) Background k [] w = (Ok v, w')"
    "good v' y'" "a + d + ttl \<le> e'" "e' \<le> b + lag + d + ttl" "codes T enc dec storable v' e' u'"
    "moment view own D' t0 k (Some u') y' (a + d) (b + lag + d + lag) w'"
    by (elim exE conjE)
  then show ?thesis unfolding goes_def entry_at_simps by (intro exI conjI) (assumption | rule refl)+
qed

lemma entry_Get_missing:
  assumes E: "entry_at T enc dec storable view own t0 k D None y a b w" and rt: "sequential rt"
    and t: "b + lag \<le> D" "t0 \<le> a" "0 \<le> d" "b + lag + d + ttl \<le> t1" and clock: "\<And>t. t0 \<le> t \<Longrightarrow> clock t"
    and load: "loads view own D t0 k None y a (b + lag) f d good"
    and code: "coded T enc dec storable t0 t1 P" "\<And>v y'. good v y' \<Longrightarrow> P v"
    and ttl: "0 < ttl" "0 < mwb" "whole mwb" "D' \<le> a + d + mwb"
  shows "goes (c_Get (logic_program_cache T rt gs f ttl wb mwb ob (transcode enc dec st) sn cn l) Background k [] w)
     (\<lambda>v w'. \<exists>y'. good v y' \<and> entry_at T enc dec storable view own t0 k D'
        (Some (v, a + d + ttl, b + lag + d + ttl)) y' (a + d) (b + lag + d + lag) w')"
proof -
  have c': "\<exists>u. codes T enc dec storable v' e u" if "good v' y'" "a + d + ttl \<le> e" "e \<le> b + lag + d + ttl" for v' y' e
    using code(1) code(2) [OF that(1)] that(2,3) t(2-4) ttl(1) unfolding coded_def by (elim allE [of _ v'] allE [of _ e]) simp
  have "\<exists>v w' y' e' u'. c_Get (logic_program_cache T rt gs f ttl wb mwb ob (transcode enc dec st) sn cn l) Background k [] w = (Ok v, w') \<and>
     good v y' \<and> a + d + ttl \<le> e' \<and> e' \<le> b + lag + d + ttl \<and> codes T enc dec storable v e' u' \<and>
     moment view own D' t0 k (Some u') y' (a + d) (b + lag + d + lag) w'"
    by (rule stack_Get_missing [OF E [unfolded entry_at_simps] rt t(1) clock load c' ttl])
  then obtain v w' y' e' u' where
    "c_Get (logic_program_cache T rt gs f ttl wb mwb ob (transcode enc dec st) sn cn l) Background k [] w = (Ok v, w')"
    "good v y'" "a + d + ttl \<le> e'" "e' \<le> b + lag + d + ttl" "codes T enc dec storable v e' u'"
    "moment view own D' t0 k (Some u') y' (a + d) (b + lag + d + lag) w'"
    by (elim exE conjE)
  then show ?thesis unfolding goes_def entry_at_simps by (intro exI conjI) (assumption | rule refl)+
qed

end

section \<open>Readers\<close>

lemma entry_owns:
  assumes "entry_at T enc dec storable view own t0 k D x y a b w"
  shows "pt_get own (w_ext w) = y"
  using assms by (rule entry_atE) (simp add: moment_def program_at_def)

lemma entry_print:
  assumes "swift_store st view storable whole clock own lag" and "entry_at T enc dec storable view own t0 k D x y a b w"
  shows "entry_at T enc dec storable view own t0 k D x (y\<lparr>pr_out := pr_out y @ [l]\<rparr>) a b (print own l w)"
  using swift_store.entry_own [OF assms] entry_owns [OF assms(2)] by (simp add: print_def)

text \<open>The goroutines of a \<open>WaitGroup\<close>, each run to its end, in the order the scheduler chooses.\<close>

fun run_all :: "('w \<Rightarrow> unit result \<times> 'w) list \<Rightarrow> 'w \<Rightarrow> unit result \<times> 'w" where
  "run_all [] w = (Ok (), w)"
| "run_all (f # fs) w = on_ok (f w) (\<lambda>_. run_all fs)"

text \<open>A goroutine that looks the key up, panics on an error and prints the value.\<close>

definition reader_on :: "('x, proc) part \<Rightarrow> 'x cache \<Rightarrow> key \<Rightarrow> (nat \<Rightarrow> gval \<Rightarrow> line) \<Rightarrow> nat \<Rightarrow> 'x world \<Rightarrow> unit result \<times> 'x world" where
  "reader_on out c k line i w = on_ok (must (c_Get c Background k [] w)) (\<lambda>v w. (Ok (), print out (line i v) w))"

lemma readers_current:
  assumes S: "swift_store st view storable whole clock own lag" and rt: "sequential rt" and L: "0 \<le> lag"
    and c: "c = logic_program_cache T rt gs f ttl wb mwb ob (transcode enc dec st) sn cn l"
  shows "entry_at T enc dec storable view own t0 k D (Some (v, lo, hi)) y a b w \<Longrightarrow>
     b + int (length order) * lag \<le> D \<Longrightarrow> b + int (length order) * lag \<le> lo \<Longrightarrow>
     goes (run_all (map (reader_on own c k line) order) w) (\<lambda>_. entry_at T enc dec storable view own t0 k D (Some (v, lo, hi))
       (y\<lparr>pr_out := pr_out y @ map (\<lambda>i. line i v) order\<rparr>) a (b + int (length order) * lag))"
proof (induction order arbitrary: y b w)
  case (Cons i order)
  have t: "int (length (i # order)) * lag = lag + int (length order) * lag" by (simp add: algebra_simps)
  have "0 \<le> int (length order) * lag" using L by simp
  with Cons.prems(2,3) t have "b + lag \<le> D" "b + lag \<le> lo" by linarith+
  from swift_store.entry_Get_current [OF S Cons.prems(1) rt this] have
    g: "goes (c_Get c Background k [] w)
      (\<lambda>v'. \<lambda>w'. v' = v \<and> entry_at T enc dec storable view own t0 k D (Some (v, lo, hi)) y a (b + lag) w')"
    unfolding c .
  have "goes (reader_on own c k line i w) (\<lambda>_. entry_at T enc dec storable view own t0 k D (Some (v, lo, hi))
      (y\<lparr>pr_out := pr_out y @ [line i v]\<rparr>) a (b + lag))"
    unfolding reader_on_def by (rule goes_step [OF g]) (auto intro: entry_print [OF S])
  then show ?case unfolding list.map run_all.simps
    by (rule goes_on_ok) (drule Cons.IH, insert Cons.prems(2,3) t, simp_all add: algebra_simps)
qed simp

text \<open>A burst of readers after the logical deadline: one refresh, whatever the order.\<close>

lemma burst:
  assumes S: "swift_store st view storable whole clock own lag" and rt: "sequential rt" and L: "0 \<le> lag"
    and c: "c = logic_program_cache T rt gs f ttl wb mwb ob (transcode enc dec st) sn cn l"
    and E: "entry_at T enc dec storable view own t0 k D (Some (v, lo, hi)) y a b w"
    and t: "b + lag \<le> D" "hi < a" "zero_time < lo" "t0 \<le> a" "0 \<le> d" "b + lag + d + ttl \<le> t1"
    and clock: "\<And>t. t0 \<le> t \<Longrightarrow> clock t"
    and load: "\<And>u. loads view own D t0 k (Some u) y a (b + lag) f d good"
    and code: "coded T enc dec storable t0 t1 P" "\<And>v y'. good v y' \<Longrightarrow> P v"
    and ttl: "0 < ttl" "0 < wb" "whole wb" "D' \<le> a + d + wb"
    and n: "order \<noteq> []" "b + (int (length order) + 1) * lag + d \<le> min D' (a + d + ttl)"
  shows "goes (run_all (map (reader_on own c k line) order) w) (\<lambda>_ w'. \<exists>v' y'. good v' y' \<and> entry_at T enc dec storable view own t0 k D'
     (Some (v', a + d + ttl, b + lag + d + ttl))
     (y'\<lparr>pr_out := pr_out y' @ line (hd order) v # map (\<lambda>i. line i v') (tl order)\<rparr>)
     (a + d) (b + (int (length order) + 1) * lag + d) w')"
proof -
  obtain i js where o: "order = i # js" using n(1) by (cases order) auto
  have e: "b + lag + d + lag + int (length js) * lag = b + (int (length order) + 1) * lag + d"
    by (simp add: o algebra_simps)
  have "goes (reader_on own c k line i w) (\<lambda>_ w'. \<exists>v' y'. good v' y' \<and> entry_at T enc dec storable view own t0 k D'
     (Some (v', a + d + ttl, b + lag + d + ttl)) (y'\<lparr>pr_out := pr_out y' @ [line i v]\<rparr>) (a + d) (b + lag + d + lag) w')"
    unfolding reader_on_def c
    apply (rule goes_step [OF swift_store.entry_Get_stale [OF S E rt t clock load code ttl]], assumption+)
    apply (elim conjE exE, simp only: goes_Ok)
    by (intro exI conjI, assumption) (rule entry_print [OF S], simp)
  then show ?thesis unfolding o list.map run_all.simps
  proof (rule goes_on_ok, elim exE conjE)
    fix w1 v' y' assume g: "good v' y'" and E1: "entry_at T enc dec storable view own t0 k D'
       (Some (v', a + d + ttl, b + lag + d + ttl)) (y'\<lparr>pr_out := pr_out y' @ [line i v]\<rparr>) (a + d) (b + lag + d + lag) w1"
    have n': "b + lag + d + lag + int (length js) * lag \<le> D'" "b + lag + d + lag + int (length js) * lag \<le> a + d + ttl"
      using n(2) unfolding e by simp_all
    from readers_current [where line = line, OF S rt L c E1 n'] g
    show "goes (run_all (map (reader_on own c k line) js) w1) (\<lambda>_ w'. \<exists>v' y'. good v' y' \<and>
       entry_at T enc dec storable view own t0 k D' (Some (v', a + d + ttl, b + lag + d + ttl))
       (y'\<lparr>pr_out := pr_out y' @ line (hd (i # js)) v # map (\<lambda>i. line i v') (tl (i # js))\<rparr>)
       (a + d) (b + (int (length (i # js)) + 1) * lag + d) w')"
      unfolding goes_def e [unfolded o] by (elim exE conjE) (intro exI conjI, assumption, assumption, simp)
  qed
qed

end
