(* ===== verification/Example_Logic_Expiry.thy ===== *)
theory Example_Logic_Expiry
  imports Logic_Program Multi_Cache
begin

text \<open>
  examples/03\_logical\_expiry/main.go: logical expiry and a missed loader over ristretto, with a
  burst of readers after the logical deadline. The readers run one after the other, in any order.
\<close>

section \<open>Building the stack\<close>

lemma Build_logic_front:
  assumes b: "\<not> b_factoryCustomized b" "ttls_valid (b_features b)" "b_err b = None" "b_decorators b = []" "b_options b = []"
      "observed_builder b" "b_metrics b = Some NoopMetrics"
    and ft: "ft_singleFlight (b_features b)" "le_enabled (ft_logicExpire (b_features b))"
      "le_loadFn (ft_logicExpire (b_features b)) = Some f" "mf_loadFn (ft_missLoader (b_features b)) = Some f"
      "nf_protectionFn (ft_nilCache (b_features b)) = None"
    and wire: "\<And>ob w. buildLogicWireCache T (b_features b) (b_store b) ob w = (Ok inner, w)"
  shows "\<exists>gs ob w'. built (Build T rt b w) =
       (Ok (logic_program_cache T rt gs f (le_defaultLogicTTL (ft_logicExpire (b_features b)))
          (le_defaultWriteBackTTL (ft_logicExpire (b_features b))) (mf_defaultWriteBackTTL (ft_missLoader (b_features b))) ob inner
          (StoreName (b_store b)) (b_cacheName b) (b_logger b)), w') \<and> telemetry_only w w'"
proof -
  let ?od = "\<lambda>c ob w. (Ok (NewObservableDecorator c (StoreName (b_store b)) (b_cacheName b) ob), w)"
  let ?w1 = "snd (new_group w)"
  let ?w2 = "snd (new_group ?w1)"
  let ?c = "logic_program_cache T rt (w_groups ?w2, w_groups w, w_groups ?w1) f (le_defaultLogicTTL (ft_logicExpire (b_features b)))
          (le_defaultWriteBackTTL (ft_logicExpire (b_features b))) (mf_defaultWriteBackTTL (ft_missLoader (b_features b)))
          (builder_observable b) inner (StoreName (b_store b)) (b_cacheName b) (b_logger b)"
  have "fst (fst (Build T rt b w)) = wrap_build_error (b_cacheName b) (Ok ?c) \<and> snd (Build T rt b w) = snd (new_group ?w2)"
    using b ft
    by (intro Build_layers [where ds = "[]" and od = ?od and os = "[]", OF _ _ _ _ _ _ refl])
      (auto simp: observed_builder_def builder_observable_def compiled_factory_def logic_factory_def wire buildTTLConfig_def
        NewLogicTTLDecorator_def NoopMetrics_def miss_layer_def nil_layer_def loader_group_def flight_layer_def new_group_def
        logic_program_cache_def loading_stage_def logic_stage_def front_def)
  then show ?thesis by (auto simp: built_def wrap_build_error_def telemetry_only_def new_group_def)
qed

section \<open>A quick client\<close>

text \<open>Every call of the client returns within \<open>lag\<close>.\<close>

definition quick_client :: "'x ristretto_client \<Rightarrow> duration \<Rightarrow> bool" where
  "quick_client cl lag \<longleftrightarrow> 0 \<le> lag \<and> (\<forall>k v n d w. w_now (snd (ri_Get cl k w)) \<le> w_now w + lag \<and>
     w_now (snd (ri_SetWithTTL cl k v n d w)) \<le> w_now w + lag \<and> w_now (ri_Del cl k w) \<le> w_now w + lag \<and>
     w_now (ri_Wait cl w) \<le> w_now w + lag)"

lemma RistrettoStore_quick:
  assumes "quick_client (ts_client s) lag"
  shows "w_now (snd (c_Get (RistrettoStore s) ctx k opts w)) \<le> w_now w + 2 * lag"
    "w_now (snd (c_Set (RistrettoStore s) ctx k v ttl opts w)) \<le> w_now w + 2 * lag"
    "w_now (snd (c_Delete (RistrettoStore s) ctx k opts w)) \<le> w_now w + 2 * lag"
proof -
  have Q: "0 \<le> lag" "\<And>k w. w_now (snd (ri_Get (ts_client s) k w)) \<le> w_now w + lag"
    "\<And>k v n d w. w_now (snd (ri_SetWithTTL (ts_client s) k v n d w)) \<le> w_now w + lag"
    "\<And>k w. w_now (ri_Del (ts_client s) k w) \<le> w_now w + lag" "\<And>w. w_now (ri_Wait (ts_client s) w) \<le> w_now w + lag"
    using assms by (simp_all add: quick_client_def)
  have W: "w_now (ri_Wait (ts_client s) (snd (ri_SetWithTTL (ts_client s) k v n d w))) \<le> w_now w + 2 * lag"
      "w_now (snd (ri_SetWithTTL (ts_client s) k v n d w)) \<le> w_now w + 2 * lag" for k v n d w
    using Q(5) [of "snd (ri_SetWithTTL (ts_client s) k v n d w)"] Q(1) Q(3) [of k v n d w] by linarith+
  show "w_now (snd (c_Get (RistrettoStore s) ctx k opts w)) \<le> w_now w + 2 * lag"
    using Q(1) Q(2) [of k w] by (auto simp: RistrettoStore_Get_def unless_done_def split: prod.splits option.splits)
  show "w_now (snd (c_Set (RistrettoStore s) ctx k v ttl opts w)) \<le> w_now w + 2 * lag"
    using Q(1) W by (auto simp: RistrettoStore_Set_def unless_done_def Let_def split: outcome.splits option.splits)
  show "w_now (snd (c_Delete (RistrettoStore s) ctx k opts w)) \<le> w_now w + 2 * lag"
    using Q(1) Q(4) [of k w] by (auto simp: RistrettoStore_Delete_def unless_done_def split: option.splits)
qed

lemma hosted_quick: "quick_client cl lag \<Longrightarrow> quick_client (hosted_client p cl) lag"
  unfolding quick_client_def
  by (simp add: hosted_client_def hosted_def inside_def outside_def split: prod.split) (metis snd_conv world.select_convs(1))

lemma ristretto_swift:
  fixes p :: "('x, 'y) part" and own :: "('x, 'm) part"
  assumes C: "ristretto_immediate cl view clock" and Q: "quick_client cl lag" and p: "memory_part p" "memory_part own" "apart p own"
  shows "swift_store (RistrettoStore (ristretto_New (hosted_client p cl) [ristretto_WithStoreName n])) (hosted_view p view)
     (\<lambda>v. True) (\<lambda>ttl. True) clock own (2 * lag)"
proof -
  let ?s = "ristretto_New (hosted_client p cl) [ristretto_WithStoreName n]"
  have R: "ristretto_cache cl view clock" using C by (simp add: ristretto_immediate_def)
  note P = ristretto_New_program [OF R p, of n]
  have s: "?s = \<lparr>ts_client = hosted_client p cl, ts_name = n\<rparr>" by (simp add: ristretto_New_def ristretto_WithStoreName_def)
  have "cache_contract (RistrettoStore ?s) (hosted_view p view) (\<lambda>v. True) clock"
    unfolding s memory_part.hosted_RistrettoStore [OF p(1)]
    by (rule memory_part.hosted_contract [OF p(1) ristretto_immediate.RistrettoStore_contract [OF C]]) simp
  then have "store_contract (setting [] (RistrettoStore ?s)) (hosted_view p view) (\<lambda>v. True) (\<lambda>ttl. True) clock"
    by (simp add: cache_contract_store)
  with P have "program_store (RistrettoStore ?s) (hosted_view p view) (\<lambda>v. True) (\<lambda>ttl. True) clock [] own"
    by (simp add: program_store_def)
  moreover have "quick_client (ts_client ?s) lag" using hosted_quick [OF Q] by (simp add: s)
  ultimately show ?thesis by (intro swift_store.intro swift_store_axioms.intro RistrettoStore_quick)
qed

lemma store_client_quick: "sm_readDelay s = 0 \<Longrightarrow> 0 \<le> lag \<Longrightarrow> quick_client (store_client (SlowMapStore s)) lag"
  by (auto simp: quick_client_def store_client_def SlowMapStore_Get_def SlowMapStore_Set_def SlowMapStore_Delete_def
      put_data_def sleep_def wait_def Let_def split: prod.splits outcome.splits option.splits)

interpretation map_swift: swift_store
  "RistrettoStore (ristretto_New (hosted_client second_part (store_client (SlowMapStore demo_map))) [ristretto_WithStoreName n])"
  "hosted_view second_part (map_view demo_map)" "\<lambda>v. True" "\<lambda>ttl. True" "\<lambda>t. zero_time < t"
  "first_part :: (proc \<times> map_heap, proc) part" "2 * 0" for n
  by (rule ristretto_swift [OF map_ristretto.ristretto_immediate_axioms store_client_quick second.memory_part_axioms
        first.memory_part_axioms apart_pair(2)]) simp_all

section \<open>The program\<close>

text \<open>\<open>calls.Add(1)\<close> and \<open>calls.Load()\<close> on the \<open>atomic.Int32\<close> of the program.\<close>

definition reset_calls :: "('x, proc) part \<Rightarrow> 'x world \<Rightarrow> 'x world" where
  "reset_calls q w = w\<lparr>w_ext := pt_put q (pt_get q (w_ext w)\<lparr>pr_calls := 0\<rparr>) (w_ext w)\<rparr>"

definition calls :: "('x, proc) part \<Rightarrow> 'x world \<Rightarrow> 32 word" where
  "calls q w = pr_calls (pt_get q (w_ext w))"

definition count_call :: "('x, proc) part \<Rightarrow> 'x world \<Rightarrow> 32 word \<times> 'x world" where
  "count_call q w = (let n = calls q w + 1 in
     (n, w\<lparr>w_ext := pt_put q (pt_get q (w_ext w)\<lparr>pr_calls := n\<rparr>) (w_ext w)\<rparr>))"

text \<open>What \<open>%d\<close> prints of an \<open>int32\<close>.\<close>

definition Itoa32 :: "32 word \<Rightarrow> string" where
  "Itoa32 n = (if sint n < 0 then ''-'' @ Itoa (nat (- sint n)) else Itoa (nat (sint n)))"

definition version :: "32 word \<Rightarrow> gval" where
  "version n = VString (''value-v'' @ Itoa32 n)"

definition loader_line :: "key \<Rightarrow> gval \<Rightarrow> line" where
  "loader_line k v = LPrintf (lined ''loader called for key=%s -> %s'') [OStr k, OVal v]"

definition reader_line :: "nat \<Rightarrow> gval \<Rightarrow> line" where
  "reader_line i v = LPrintf (lined ''  reader-%d got: %s'') [OInt (int i), OVal v]"

definition loadFn :: "('x, proc) part \<Rightarrow> 'x loader" where
  "loadFn out ctx key opts w =
     (let (n, w) = count_call out w;
          w = wait (250 * Millisecond) w;
          v = version n;
          w = print out (loader_line key v) w
      in (Ok v, w))"

definition reader :: "('x, proc) part \<Rightarrow> 'x cache \<Rightarrow> nat \<Rightarrow> 'x world \<Rightarrow> unit result \<times> 'x world" where
  "reader out c i w =
     on_ok (must (c_Get c Background ''article:1'' [] w)) (\<lambda>v w. (Ok (), print out (reader_line i v) w))"

definition expiry_builder :: "'x loader \<Rightarrow> 'x builder \<Rightarrow> 'x builder" where
  "expiry_builder f builder =
     (let minute = Second in
      WithCacheMissDefaultWriteBackTTL (10 * minute) (WithCacheMissLoader (Some f)
        (WithLogicExpireLoader (Some f) (WithLogicExpireDefaultWriteBackTTL (10 * minute)
          (WithLogicExpireDefaultLogicTTL (8 * minute) builder)))))"

definition burst_heading :: string where
  "burst_heading = ''T=8m: concurrent reads after logical expiry (returns old value + triggers refresh)''"

definition delete_step :: string where
  "delete_step = ''T=10m: delete key (simulate physical removal step in timeline)''"

definition expiry_main ::
    "'x runtime \<Rightarrow> (string \<Rightarrow> 'x log_fn) \<Rightarrow> 'x ristretto_library \<Rightarrow> nat list \<Rightarrow> ('x, proc) part \<Rightarrow> 'x world \<Rightarrow> unit result \<times> 'x world" where
  "expiry_main rt slog new order out w =
     (let minute = Second in
     on_ok (must (new example_config w)) (\<lambda>client w.
     let store = RistrettoStore (ristretto_New client [ristretto_WithStoreName ''logic-expire-ristretto'']);
         w = reset_calls out w in
     on_ok (must (NewBuilder TString slog ''logic-expire-cache'' (Some store) [], w)) (\<lambda>builder w.
     on_ok (must (built (Build TString rt (expiry_builder (loadFn out) builder) w))) (\<lambda>cache w.
     let w = Println out ''T=0m: set initial value'' w in
     on_ok (must (c_Set cache Background ''article:1'' (VString ''seed-v0'') (10 * minute) [WithSynchronousSet True] w)) (\<lambda>_ w.
     let w = wait (8 * minute + 100 * Millisecond) w;
         w = Println out burst_heading w in
     on_ok (run_all (map (reader out cache) order) w) (\<lambda>_ w.
     let w = Printf out (lined ''loader call count after T=8m burst: %d'') [OInt (sint (calls out w))] w in
     on_ok (must (c_Get cache Background ''article:1'' [] w)) (\<lambda>fresh w.
     let w = Printf out (lined ''after refresh, next get returns: %s'') [OVal fresh] w;
         w = wait (2 * minute) w;
         w = Println out delete_step w in
     on_ok (must (c_Delete cache Background ''article:1'' [] w)) (\<lambda>_ w.
     on_ok (must (c_Get cache Background ''article:1'' [] w)) (\<lambda>v w.
     let w = Printf out (lined ''after delete, miss-loader reloads value: %s'') [OVal v] w in
     (Ok (), Printf out (lined ''total loader calls: %d'') [OInt (sint (calls out w))] w))))))))))"

text \<open>What it prints: the first reader gets the stale value and pays for the refresh.\<close>

definition expiry_output :: "nat list \<Rightarrow> line list" where
  "expiry_output order =
     [LPrintln ''T=0m: set initial value'', LPrintln burst_heading,
      loader_line ''article:1'' (version 1), reader_line (hd order) (VString ''seed-v0'')] @
     map (\<lambda>i. reader_line i (version 1)) (tl order) @
     [LPrintf (lined ''loader call count after T=8m burst: %d'') [OInt 1],
      LPrintf (lined ''after refresh, next get returns: %s'') [OVal (version 1)],
      LPrintln delete_step, loader_line ''article:1'' (version 2),
      LPrintf (lined ''after delete, miss-loader reloads value: %s'') [OVal (version 2)],
      LPrintf (lined ''total loader calls: %d'') [OInt 2]]"

section \<open>Its steps\<close>

lemma expiry_builder_features:
  assumes "NewBuilder T slog name (Some st) [] = Ok b0" and b: "b = expiry_builder f b0"
  shows "\<exists>gs ob l w'. built (Build TString rt b w) = (Ok (logic_program_cache TString rt gs f (8 * Second) (10 * Second) (10 * Second) ob
       (NewBaseCache (TLogic TString) st) (StoreName st) name l), w') \<and> telemetry_only w w'"
proof -
  have F: "\<not> b_factoryCustomized b" "ttls_valid (b_features b)" "b_err b = None" "b_decorators b = []" "b_options b = []"
      "b_metrics b = Some NoopMetrics" "ft_singleFlight (b_features b)" "le_enabled (ft_logicExpire (b_features b))"
      "le_loadFn (ft_logicExpire (b_features b)) = Some f" "mf_loadFn (ft_missLoader (b_features b)) = Some f"
      "nf_protectionFn (ft_nilCache (b_features b)) = None" "le_defaultLogicTTL (ft_logicExpire (b_features b)) = 8 * Second"
      "le_defaultWriteBackTTL (ft_logicExpire (b_features b)) = 10 * Second"
      "mf_defaultWriteBackTTL (ft_missLoader (b_features b)) = 10 * Second" "b_store b = st" "b_cacheName b = name"
    using assms(1) by (auto simp: b expiry_builder_def NewBuilder_Ok option_defs ttls_valid_def default_features_def Let_def duration_defs)
  have o: "observed_builder b"
    using assms(1) by (auto simp: b expiry_builder_def NewBuilder_Ok option_defs observed_builder_def Let_def duration_defs)
  have "buildLogicWireCache TString (b_features b) (b_store b) ob w = (Ok (NewBaseCache (TLogic TString) st), w)" for ob w
    using assms(1) by (auto simp: b expiry_builder_def NewBuilder_Ok option_defs buildLogicWireCache_def requiresBytePath_def
        default_features_def Let_def duration_defs)
  from Build_logic_front [OF F(1-5) o F(6-11) this] show ?thesis unfolding F(12-16) by blast
qed

lemma entry_reset:
  assumes "swift_store st view storable whole clock own lag" and "entry_at T enc dec storable view own t0 k D x y a b w"
  shows "entry_at T enc dec storable view own t0 k D x (y\<lparr>pr_calls := 0\<rparr>) a b (reset_calls own w)"
  using swift_store.entry_own [OF assms] entry_owns [OF assms(2)] by (simp add: reset_calls_def)

text \<open>The loader counts, takes its quarter of a second, and prints.\<close>

definition loaded :: "key \<Rightarrow> proc \<Rightarrow> gval \<Rightarrow> proc \<Rightarrow> bool" where
  "loaded k y v y' \<longleftrightarrow> v = version (pr_calls y + 1) \<and>
     y' = y\<lparr>pr_calls := pr_calls y + 1, pr_out := pr_out y @ [loader_line k v]\<rparr>"

lemma loadFn_loads:
  assumes S: "swift_store st view storable whole clock own lag"
  shows "loads view own D t0 k x y a b (loadFn own) (250 * Millisecond) (loaded k y)"
  unfolding loads_def
proof (intro allI impI)
  fix ctx w assume M: "moment view own D t0 k x y a b w"
  let ?n = "pr_calls y + 1" and ?l = "loader_line k (version (pr_calls y + 1))"
  let ?w = "w\<lparr>w_ext := pt_put own (y\<lparr>pr_calls := ?n\<rparr>) (w_ext w)\<rparr>"
  have y: "pt_get own (w_ext w) = y" using M by (simp add: moment_def program_at_def)
  have M1: "moment view own D t0 k x (y\<lparr>pr_calls := ?n\<rparr>) (a + 250 * Millisecond) (b + 250 * Millisecond) (wait (250 * Millisecond) ?w)"
    by (rule swift_store.moment_wait [OF S swift_store.moment_own [OF S M]]) (simp add: duration_defs)
  then have "pt_get own (w_ext (wait (250 * Millisecond) ?w)) = y\<lparr>pr_calls := ?n\<rparr>" by (simp add: moment_def program_at_def)
  with swift_store.moment_own [OF S M1, of "y\<lparr>pr_calls := ?n, pr_out := pr_out y @ [?l]\<rparr>"]
  have "moment view own D t0 k x (y\<lparr>pr_calls := ?n, pr_out := pr_out y @ [?l]\<rparr>) (a + 250 * Millisecond) (b + 250 * Millisecond)
      (print own ?l (wait (250 * Millisecond) ?w))"
    by (simp add: print_def)
  moreover have "loadFn own ctx k [] w = (Ok (version ?n), print own ?l (wait (250 * Millisecond) ?w))"
    by (simp add: loadFn_def count_call_def calls_def y Let_def)
  ultimately show "\<exists>v y' w'. loadFn own ctx k [] w = (Ok v, w') \<and> loaded k y v y' \<and>
      moment view own D t0 k x y' (a + 250 * Millisecond) (b + 250 * Millisecond) w'"
    unfolding loaded_def by blast
qed

lemma version_coded: "coded TString Ok (assert_type (TLogic TString)) (\<lambda>v. True) t0 t1 (\<lambda>v. \<exists>s. v = VString s)"
  by (auto simp: coded_def codes_def assert_type_def type_assert_def)

lemma reader_on_key: "reader out c = reader_on out c ''article:1'' reader_line"
  by (simp add: fun_eq_iff reader_def reader_on_def)



end
