(* ===== verification/Example_Remote.thy ===== *)
theory Example_Remote
  imports Example_Logic_Expiry Redis_Store
begin

text \<open>
  examples/06\_remote\_byte\_path/main.go: a cache of structs over redis, with JSON, gzip, logical
  expiry and a missed loader. The environment, go-redis, encoding/json and compress/gzip are
  parameters; the readers run one after the other, in any order.
\<close>

section \<open>Redis in a part of the memory\<close>

definition hosted_redis :: "('x, 'y) part \<Rightarrow> 'y redis_client \<Rightarrow> 'x redis_client" where
  "hosted_redis p cl =
     \<lparr>rc_Get = (\<lambda>ctx k. hosted p (rc_Get cl ctx k)), rc_Set = (\<lambda>ctx k v ttl. hosted p (rc_Set cl ctx k v ttl)),
      rc_PTTL = (\<lambda>ctx k. hosted p (rc_PTTL cl ctx k)), rc_Del = (\<lambda>ctx ks. hosted p (rc_Del cl ctx ks)),
      rc_FlushDB = (\<lambda>ctx. hosted p (rc_FlushDB cl ctx))\<rparr>"


context memory_part
begin

lemma hosted_RedisStore:
  "RedisStore \<lparr>rs_client = hosted_redis p cl, rs_name = n\<rparr> = hosted_store p (RedisStore \<lparr>rs_client = cl, rs_name = n\<rparr>)"
  (is "RedisStore ?s = hosted_store p (RedisStore ?s')")
proof -
  have g: "RedisStore_Get ?s ctx k opts w = hosted p (RedisStore_Get ?s' ctx k opts) w" for ctx k opts w
    by (auto simp: RedisStore_Get_def hosted_redis_def hosted_def split: prod.splits outcome.splits)
  moreover have "RedisStore_GetWithTTL ?s ctx k opts w = hosted p (RedisStore_GetWithTTL ?s' ctx k opts) w" for ctx k opts w
    unfolding RedisStore_GetWithTTL_def g
    by (auto simp: hosted_redis_def hosted_def on_ok_def split: prod.split outcome.split)
  moreover have "RedisStore_Set ?s ctx k v ttl opts w = hosted p (RedisStore_Set ?s' ctx k v ttl opts) w" for ctx k v ttl opts w
    by (auto simp: RedisStore_Set_def hosted_redis_def hosted_def split: prod.split option.split)
  moreover have "RedisStore_Delete ?s ctx k opts w = hosted p (RedisStore_Delete ?s' ctx k opts) w" for ctx k opts w
    by (simp add: RedisStore_Delete_def hosted_redis_def hosted_def)
  moreover have "RedisStore_Clear ?s ctx w = hosted p (RedisStore_Clear ?s' ctx) w" for ctx w
    by (simp add: RedisStore_Clear_def hosted_redis_def hosted_def)
  ultimately show ?thesis by (simp add: RedisStore_def hosted_store_def fun_eq_iff)
qed

end

lemma hosted_now: "w_now (snd (f (inside p w))) \<le> w_now w + d \<Longrightarrow> w_now (snd (hosted p f w)) \<le> w_now w + d"
  by (auto simp: hosted_def split: prod.split)

lemma redis_swift:
  fixes p :: "('x, 'y) part" and own :: "('x, 'm) part"
  assumes C: "redis_server cl view whole clock lag prec" and p: "memory_part p" "memory_part own" "apart p own"
  shows "swift_store (RedisStore (redis_New (hosted_redis p cl) [redis_WithStoreName n])) (hosted_view p view)
     (has_type TBytes) whole clock own lag"
proof -
  let ?s = "\<lparr>rs_client = cl, rs_name = n\<rparr>"
  have s: "redis_New (hosted_redis p cl) [redis_WithStoreName n] = \<lparr>rs_client = hosted_redis p cl, rs_name = n\<rparr>"
    by (simp add: redis_New_def redis_WithStoreName_def)
  have "pt_get p (w_ext (w\<lparr>w_ext := pt_put own y (w_ext w)\<rparr>)) = pt_get p (w_ext w)" for w :: "'x world" and y
    using p(3) by (simp add: apart_def)
  then have V: "view (inside p (w\<lparr>w_ext := pt_put own y (w_ext w)\<rparr>)) = view (inside p w)" for w y
    by (intro blindD [OF redis_server.view_blind [OF C]]) simp
  have "store_contract (hosted_store p (RedisStore ?s)) (hosted_view p view) (has_type TBytes) whole clock"
    by (rule memory_part.hosted_store_contract [OF p(1) redis_server.RedisStore_contract_of [OF C]]) simp
  with V have "program_store (hosted_store p (RedisStore ?s)) (hosted_view p view) (has_type TBytes) whole clock [] own"
    by (intro program_store.intro p(2)) (simp_all add: hosted_apart [OF p(3)] hosted_view_def)
  moreover have "w_now (snd (c_Get (RedisStore ?s) ctx k opts w)) \<le> w_now w + lag"
      "w_now (snd (c_Set (RedisStore ?s) ctx k v ttl opts w)) \<le> w_now w + lag"
      "w_now (snd (c_Delete (RedisStore ?s) ctx k opts w)) \<le> w_now w + lag" for ctx k v ttl opts w
    using redis_server.Get_time [OF C, of ?s ctx k opts w] redis_server.Set_time [OF C, of ?s ctx k v ttl opts w]
      redis_server.lags(4) [OF C, of w ctx "[k]"]
    by (cases "RedisStore_Get ?s ctx k opts w"; cases "RedisStore_Set ?s ctx k v ttl opts w"; simp add: RedisStore_Delete_def)+
  then have "w_now (snd (c_Get (RedisStore ?s) ctx k opts (inside p w))) \<le> w_now w + lag"
      "w_now (snd (c_Set (RedisStore ?s) ctx k v ttl opts (inside p w))) \<le> w_now w + lag"
      "w_now (snd (c_Delete (RedisStore ?s) ctx k opts (inside p w))) \<le> w_now w + lag" for ctx k v ttl opts w
    by (metis inside_simps(1))+
  ultimately show ?thesis unfolding s memory_part.hosted_RedisStore [OF p(1)]
    by (intro swift_store.intro swift_store_axioms.intro) (simp_all only: hosted_store_ops hosted_now)
qed

section \<open>The environment\<close>

type_synonym env = "string \<Rightarrow> string"

definition mustEnv :: "env \<Rightarrow> string \<Rightarrow> string result" where
  "mustEnv Getenv key =
     (let v = Getenv key in if v = [] then Panic (''missing required env '' @ key) else Ok v)"

text \<open>\<open>strconv.Atoi\<close>: an optional sign and decimal digits that make an \<open>int\<close> of 64 bits.\<close>

definition is_digit :: "char \<Rightarrow> bool" where
  "is_digit c \<longleftrightarrow> 48 \<le> (of_char c :: nat) \<and> (of_char c :: nat) \<le> 57"

definition digits_value :: "string \<Rightarrow> nat" where
  "digits_value s = foldl (\<lambda>n c. 10 * n + (of_char c - 48)) 0 s"

definition Atoi :: "string \<Rightarrow> int result" where
  "Atoi s =
     (let neg = (s \<noteq> [] \<and> hd s = CHR ''-''); ds = (if s \<noteq> [] \<and> hd s \<in> {CHR ''-'', CHR ''+''} then tl s else s);
          n = (if neg then - int (digits_value ds) else int (digits_value ds))
      in if ds = [] \<or> \<not> list_all is_digit ds then Err (Foreign ''strconv.Atoi: invalid syntax'')
         else if n < - (2 ^ 63) \<or> 2 ^ 63 \<le> n then Err (Foreign ''strconv.Atoi: value out of range'')
         else Ok n)"

definition envInt :: "env \<Rightarrow> string \<Rightarrow> int \<Rightarrow> int result" where
  "envInt Getenv key def =
     (let v = Getenv key in
      if v = [] then Ok def
      else case Atoi v of Ok n \<Rightarrow> Ok n | Err e \<Rightarrow> Panic (''invalid int env '' @ key) | Panic m \<Rightarrow> Panic m)"

text \<open>A decimal number of an \<open>int\<close> is read back, and a variable that is not set has its default.\<close>

lemma digits_value_Itoa: "digits_value (Itoa n) = n" "list_all is_digit (Itoa n)" "Itoa n \<noteq> []"
proof (induction n rule: Itoa.induct)
  case (1 n)
  note IH = 1
  have d: "of_char (char_of (48 + m) :: char) = 48 + m" if "m < 10" for m :: nat
    using that by (simp add: take_bit_eq_mod)
  have dig: "is_digit (char_of (48 + m))" if "m < 10" for m :: nat
    using that by (simp add: is_digit_def d)
  { case 1 show ?case using IH(1) d [of n] d [of "n mod 10"]
      by (subst Itoa.simps) (auto simp: digits_value_def) }
  { case 2 show ?case using IH(2) dig [of n] dig [of "n mod 10"]
      by (subst Itoa.simps) auto }
  { case 3 show ?case by (subst Itoa.simps) simp }
qed

lemma envInt_default: "Getenv key = [] \<Longrightarrow> envInt Getenv key def = Ok def"
  by (simp add: envInt_def)

lemma envInt_Itoa:
  assumes "Getenv key = Itoa n" and "n < 2 ^ 63"
  shows "envInt Getenv key def = Ok (int n)"
proof -
  have "is_digit (hd (Itoa n))" using digits_value_Itoa(2,3) [of n] by (cases "Itoa n") auto
  then have "hd (Itoa n) \<noteq> CHR ''-''" "hd (Itoa n) \<noteq> CHR ''+''" by (auto simp: is_digit_def)
  with assms digits_value_Itoa [of n] show ?thesis by (simp add: envInt_def Atoi_def Let_def)
qed

section \<open>The program\<close>

record redis_options =
  ro_Addr :: string
  ro_Password :: string
  ro_DB :: int

text \<open>\<open>*redis.Client\<close>: the commands of the adapter, \<open>Ping(..).Err()\<close> and \<open>Close\<close>.\<close>

record 'x redis_conn =
  rn_client :: "'x redis_client"
  rn_Ping :: "ctx \<Rightarrow> 'x world \<Rightarrow> unit result \<times> 'x world"
  rn_Close :: "'x world \<Rightarrow> unit result \<times> 'x world"

type_synonym 'x redis_library = "redis_options \<Rightarrow> 'x world \<Rightarrow> 'x redis_conn \<times> 'x world"

text \<open>\<open>time.Time\<close> is a struct; what it holds is the instant.\<close>

definition time_value :: "int \<Rightarrow> gval" where
  "time_value t = VStruct ''time.Time'' [(''instant'', VInt t)]"

definition profile :: "32 word \<Rightarrow> int \<Rightarrow> gval" where
  "profile n t = VStruct ''UserProfile'' [(''ID'', VInt 101), (''Name'', VString (''Alice-v'' @ Itoa32 n)),
     (''Tier'', VString ''premium''), (''UpdatedAt'', time_value t)]"

definition struct_field :: "string \<Rightarrow> gval \<Rightarrow> gval" where
  "struct_field f v = (case v of VStruct n fs \<Rightarrow> (case map_of fs f of Some x \<Rightarrow> x | None \<Rightarrow> VNil) | _ \<Rightarrow> VNil)"

definition source_line :: "key \<Rightarrow> gval \<Rightarrow> line" where
  "source_line k v = LPrintf (lined ''source loader called key=%s -> %+v'') [OStr k, OVal v]"

definition loadFromSource :: "('x, proc) part \<Rightarrow> 'x loader" where
  "loadFromSource out ctx key opts w =
     (let (n, w) = count_call out w;
          w = wait (150 * Millisecond) w;
          v = profile n (w_now w);
          w = print out (source_line key v) w
      in (Ok v, w))"

definition profile_line :: "nat \<Rightarrow> gval \<Rightarrow> line" where
  "profile_line i v = LPrintf (lined ''reader-%d got stale-or-fresh value: name=%s updated_at=%s'')
     [OInt (int i), OVal (struct_field ''Name'' v), OVal (struct_field ''UpdatedAt'' v)]"

definition profile_reader :: "('x, proc) part \<Rightarrow> 'x cache \<Rightarrow> key \<Rightarrow> nat \<Rightarrow> 'x world \<Rightarrow> unit result \<times> 'x world" where
  "profile_reader out c cacheKey i w =
     on_ok (must (c_Get c Background cacheKey [] w)) (\<lambda>v w. (Ok (), print out (profile_line i v) w))"

text \<open>The fields of the \<open>LogicTTLValue\<close> that the program decodes itself.\<close>

definition wire_Val :: "gval \<Rightarrow> gval" where
  "wire_Val x = (case x of VLogic T v e \<Rightarrow> v | _ \<Rightarrow> VNil)"

definition wire_ExpireAt :: "gval \<Rightarrow> int" where
  "wire_ExpireAt x = (case x of VLogic T v e \<Rightarrow> e | _ \<Rightarrow> zero_time)"

definition remote_builder_options :: "codec \<Rightarrow> compression_codec \<Rightarrow> 'x loader \<Rightarrow> 'x builder \<Rightarrow> 'x builder" where
  "remote_builder_options jsonCodec gzipCodec f builder =
     WithCacheMissDefaultWriteBackTTL (20 * Second) (WithCacheMissLoader (Some f)
       (WithLogicExpireLoader (Some f) (WithLogicExpireDefaultWriteBackTTL (20 * Second)
         (WithLogicExpireDefaultLogicTTL (2 * Second) (WithCompression gzipCodec
           (WithCodec (Some jsonCodec) (WithSingleflight True builder)))))))"

definition heading1 :: string where
  "heading1 = ''[1] first get: cache miss -> load from source -> write back to redis''"

definition heading2 :: string where
  "heading2 = ''[2] inspect raw bytes in redis and decode byte-path payload''"

definition heading3 :: string where
  "heading3 = ''[3] wait for logical expiry, then concurrent reads return stale data while refresh runs once''"

definition remote_body ::
    "'x runtime \<Rightarrow> (string \<Rightarrow> 'x log_fn) \<Rightarrow> codec \<Rightarrow> compression_codec \<Rightarrow> nat list \<Rightarrow> ('x, proc) part \<Rightarrow> 'x redis_conn \<Rightarrow>
     'x world \<Rightarrow> unit result \<times> 'x world" where
  "remote_body rt slog jsonCodec gzipCodec order out rdb w =
     (let UserProfile = TStruct ''UserProfile''; cacheKey = ''profile:101'' in
     on_ok (must (rn_Ping rdb Background w)) (\<lambda>_ w.
     let store = RedisStore (redis_New (rn_client rdb) [redis_WithStoreName ''remote-redis'']);
         w = reset_calls out w in
     on_ok (must (NewBuilder UserProfile slog ''remote-byte-path'' (Some store) [], w)) (\<lambda>builder w.
     on_ok (must (built (Build UserProfile rt (remote_builder_options jsonCodec gzipCodec (loadFromSource out) builder) w))) (\<lambda>c w.
     on_ok (must (c_Delete c Background cacheKey [] w)) (\<lambda>_ w.
     let w = Println out heading1 w in
     on_ok (must (c_Get c Background cacheKey [] w)) (\<lambda>first w.
     let w = Printf out (lined ''cache get #1: %+v'') [OVal first] w;
         w = Println out heading2 w in
     on_ok (must (c_Get store Background cacheKey [] w)) (\<lambda>raw w.
     on_ok (bind_ok (must_assert TBytes raw) un_bytes, w) (\<lambda>rawBytes w.
     let w = Printf out (lined ''redis value type=%T, raw size=%d bytes'') [OTypeOf (VBytes rawBytes), OInt (int (length rawBytes))] w in
     on_ok (must (cc_Decompress gzipCodec rawBytes, w)) (\<lambda>decodedBytes w.
     on_ok (must (cd_Unmarshal jsonCodec decodedBytes (TLogic UserProfile), w)) (\<lambda>wire w.
     let w = Printf out (lined ''byte path decode -> logic expire at=%s payload=%+v'') [OTime (wire_ExpireAt wire), OVal (wire_Val wire)] w;
         w = Println out heading3 w;
         w = wait (2300 * Millisecond) w in
     on_ok (run_all (map (profile_reader out c cacheKey) order) w) (\<lambda>_ w.
     let w = wait (300 * Millisecond) w in
     on_ok (must (c_Get c Background cacheKey [] w)) (\<lambda>latest w.
     let w = Printf out (lined ''[4] post-refresh get: %+v'') [OVal latest] w;
         w = Printf out (lined ''source loader call count: %d'') [OInt (sint (calls out w))] w in
     (Ok (), Println out ''done'' w)))))))))))))"

text \<open>\<open>defer\<close>: the call runs whether the body returns or panics, and its error is dropped.\<close>

definition deferring :: "('w \<Rightarrow> unit result \<times> 'w) \<Rightarrow> 'a result \<times> 'w \<Rightarrow> 'a result \<times> 'w" where
  "deferring close p = (case p of (r, w) \<Rightarrow> (case close w of (Panic m, w) \<Rightarrow> (Panic m, w) | (u, w) \<Rightarrow> (r, w)))"

definition remote_main ::
    "'x runtime \<Rightarrow> (string \<Rightarrow> 'x log_fn) \<Rightarrow> env \<Rightarrow> 'x redis_library \<Rightarrow> codec \<Rightarrow> 'zw zip_writer \<Rightarrow> 'zr zip_reader \<Rightarrow>
     nat list \<Rightarrow> ('x, proc) part \<Rightarrow> 'x world \<Rightarrow> unit result \<times> 'x world" where
  "remote_main rt slog Getenv NewClient jsonCodec gw gr order out w =
     on_ok (mustEnv Getenv ''REDIS_ADDR'', w) (\<lambda>addr w.
     let password = Getenv ''REDIS_PASSWORD'' in
     on_ok (envInt Getenv ''REDIS_DB'' 0, w) (\<lambda>db w.
     let (rdb, w) = NewClient \<lparr>ro_Addr = addr, ro_Password = password, ro_DB = db\<rparr> w in
     deferring (rn_Close rdb) (remote_body rt slog jsonCodec (GzipCompression gw gr 0) order out rdb w)))"

text \<open>What it prints, for two loads at \<open>t1\<close> and \<open>t2\<close>, and \<open>z\<close> in redis in between.\<close>

definition remote_output :: "nat list \<Rightarrow> int \<Rightarrow> int \<Rightarrow> bytes \<Rightarrow> int \<Rightarrow> line list" where
  "remote_output order t1 e z t2 =
     [LPrintln heading1, source_line ''profile:101'' (profile 1 t1),
      LPrintf (lined ''cache get #1: %+v'') [OVal (profile 1 t1)], LPrintln heading2,
      LPrintf (lined ''redis value type=%T, raw size=%d bytes'') [OTypeOf (VBytes z), OInt (int (length z))],
      LPrintf (lined ''byte path decode -> logic expire at=%s payload=%+v'') [OTime e, OVal (profile 1 t1)],
      LPrintln heading3, source_line ''profile:101'' (profile 2 t2), profile_line (hd order) (profile 1 t1)] @
     map (\<lambda>i. profile_line i (profile 2 t2)) (tl order) @
     [LPrintf (lined ''[4] post-refresh get: %+v'') [OVal (profile 2 t2)],
      LPrintf (lined ''source loader call count: %d'') [OInt 2], LPrintln ''done'']"

section \<open>Its steps\<close>

definition remote_enc :: "codec \<Rightarrow> compression_codec \<Rightarrow> gval \<Rightarrow> gval result" where
  "remote_enc cd gz v = bind_ok (codec_enc cd v) (\<lambda>u. bind_ok (compress_enc gz u) Ok)"

definition remote_dec :: "gotype \<Rightarrow> codec \<Rightarrow> compression_codec \<Rightarrow> gval \<Rightarrow> gval result" where
  "remote_dec T cd gz u = bind_ok (bind_ok (assert_type TBytes u) (compress_dec gz)) (codec_dec (TLogic T) cd)"

lemma remote_inner:
  "CodecDecorator (TLogic T) cd (NewCompressionDecorator (NewBaseCache TBytes st) gz) =
   transcode (remote_enc cd gz) (remote_dec T cd gz) st"
  by (simp add: CodecDecorator_transcode NewCompressionDecorator_transcode NewBaseCache_transcode transcode_transcode
      remote_enc_def [abs_def] remote_dec_def [abs_def])

lemma Build_remote:
  assumes "NewBuilder T slog name (Some st) [] = Ok b0" and b: "b = remote_builder_options cd gz f b0"
  shows "\<exists>gs ob l w'. built (Build T rt b w) = (Ok (logic_program_cache T rt gs f (2 * Second) (20 * Second) (20 * Second) ob
       (transcode (remote_enc cd gz) (remote_dec T cd gz) st) (StoreName st) name l), w') \<and> telemetry_only w w'"
proof -
  have F: "\<not> b_factoryCustomized b" "ttls_valid (b_features b)" "b_err b = None" "b_decorators b = []" "b_options b = []"
      "b_metrics b = Some NoopMetrics" "ft_singleFlight (b_features b)" "le_enabled (ft_logicExpire (b_features b))"
      "le_loadFn (ft_logicExpire (b_features b)) = Some f" "mf_loadFn (ft_missLoader (b_features b)) = Some f"
      "nf_protectionFn (ft_nilCache (b_features b)) = None" "le_defaultLogicTTL (ft_logicExpire (b_features b)) = 2 * Second"
      "le_defaultWriteBackTTL (ft_logicExpire (b_features b)) = 20 * Second"
      "mf_defaultWriteBackTTL (ft_missLoader (b_features b)) = 20 * Second" "b_store b = st" "b_cacheName b = name"
    using assms(1) by (auto simp: b remote_builder_options_def NewBuilder_Ok option_defs ttls_valid_def default_features_def Let_def duration_defs)
  have o: "observed_builder b"
    using assms(1) by (auto simp: b remote_builder_options_def NewBuilder_Ok option_defs observed_builder_def Let_def duration_defs)
  have "ft_codec (b_features b) = Some cd" "b_store b = st"
    "ft_byteTransforms (b_features b) = [\<lambda>next ob w. (Ok (NewCompressionDecorator next gz), w)]"
    using assms(1) by (auto simp: b remote_builder_options_def NewBuilder_Ok option_defs default_features_def Let_def duration_defs)
  then have "buildLogicWireCache T (b_features b) (b_store b) ob w =
      (Ok (transcode (remote_enc cd gz) (remote_dec T cd gz) st), w)" for ob w
    by (simp add: buildLogicWireCache_def requiresBytePath_def buildByteCache_def adaptBytesToLogicWire_def remote_inner)
  from Build_logic_front [OF F(1-5) o F(6-11) this] show ?thesis unfolding F(12-16) by blast
qed

text \<open>What the codecs are expected to do with the profiles of the example.\<close>

definition profiles_restored :: "codec \<Rightarrow> int \<Rightarrow> int \<Rightarrow> bool" where
  "profiles_restored cd t0 t1 \<longleftrightarrow> (\<forall>n t e. t0 \<le> t \<longrightarrow> t \<le> t1 \<longrightarrow> t0 \<le> e \<longrightarrow> e \<le> t1 \<longrightarrow>
     (\<exists>b. cd_Marshal cd (VLogic (TStruct ''UserProfile'') (profile n t) e) = Ok b \<and>
          cd_Unmarshal cd b (TLogic (TStruct ''UserProfile'')) = Ok (VLogic (TStruct ''UserProfile'') (profile n t) e)))"

lemma profiles_coded:
  assumes "profiles_restored cd t0 t1" and gz: "\<And>b. \<exists>z. cc_Compress gz b = Ok z \<and> cc_Decompress gz z = Ok b"
  shows "coded (TStruct ''UserProfile'') (remote_enc cd gz) (remote_dec (TStruct ''UserProfile'') cd gz) (has_type TBytes) t0 t1
     (\<lambda>v. \<exists>n t. t0 \<le> t \<and> t \<le> t1 \<and> v = profile n t)"
  unfolding coded_def
proof (intro allI impI, elim exE conjE)
  fix v e n t assume t: "t0 \<le> e" "e \<le> t1" "t0 \<le> t" "t \<le> t1" and v: "v = profile n t"
  from assms(1) t obtain b where b: "cd_Marshal cd (VLogic (TStruct ''UserProfile'') v e) = Ok b"
    "cd_Unmarshal cd b (TLogic (TStruct ''UserProfile'')) = Ok (VLogic (TStruct ''UserProfile'') v e)"
    unfolding profiles_restored_def v by blast
  obtain z where "cc_Compress gz b = Ok z" "cc_Decompress gz z = Ok b" using gz by blast
  with b have "codes (TStruct ''UserProfile'') (remote_enc cd gz) (remote_dec (TStruct ''UserProfile'') cd gz) (has_type TBytes) v e (VBytes z)"
    by (simp add: codes_def remote_enc_def remote_dec_def codec_enc_def codec_dec_def compress_enc_def compress_dec_def assert_type_def)
      (simp add: v profile_def type_assert_def)
  then show "\<exists>u. codes (TStruct ''UserProfile'') (remote_enc cd gz) (remote_dec (TStruct ''UserProfile'') cd gz) (has_type TBytes) v e u" ..
qed

text \<open>The loader of the example, called between two instants.\<close>

definition fetched :: "key \<Rightarrow> proc \<Rightarrow> int \<Rightarrow> int \<Rightarrow> gval \<Rightarrow> proc \<Rightarrow> bool" where
  "fetched k y a b v y' \<longleftrightarrow> (\<exists>t. a \<le> t \<and> t \<le> b \<and> v = profile (pr_calls y + 1) t \<and>
     y' = y\<lparr>pr_calls := pr_calls y + 1, pr_out := pr_out y @ [source_line k v]\<rparr>)"

lemma loadFromSource_loads:
  assumes S: "swift_store st view storable whole clock own lag"
  shows "loads view own D t0 k x y a b (loadFromSource own) (150 * Millisecond)
     (fetched k y (a + 150 * Millisecond) (b + 150 * Millisecond))"
  unfolding loads_def
proof (intro allI impI)
  fix ctx w assume M: "moment view own D t0 k x y a b w"
  let ?n = "pr_calls y + 1" and ?d = "150 * Millisecond"
  let ?w = "w\<lparr>w_ext := pt_put own (y\<lparr>pr_calls := ?n\<rparr>) (w_ext w)\<rparr>"
  let ?v = "profile ?n (w_now w + ?d)"
  let ?l = "source_line k ?v"
  have y: "pt_get own (w_ext w) = y" and t: "a \<le> w_now w" "w_now w \<le> b" using M by (simp_all add: moment_def program_at_def)
  have M1: "moment view own D t0 k x (y\<lparr>pr_calls := ?n\<rparr>) (a + ?d) (b + ?d) (wait ?d ?w)"
    by (rule swift_store.moment_wait [OF S swift_store.moment_own [OF S M]]) (simp add: duration_defs)
  then have "pt_get own (w_ext (wait ?d ?w)) = y\<lparr>pr_calls := ?n\<rparr>" by (simp add: moment_def program_at_def)
  with swift_store.moment_own [OF S M1, of "y\<lparr>pr_calls := ?n, pr_out := pr_out y @ [?l]\<rparr>"]
  have "moment view own D t0 k x (y\<lparr>pr_calls := ?n, pr_out := pr_out y @ [?l]\<rparr>) (a + ?d) (b + ?d) (print own ?l (wait ?d ?w))"
    by (simp add: print_def)
  moreover have "loadFromSource own ctx k [] w = (Ok ?v, print own ?l (wait ?d ?w))"
    by (simp add: loadFromSource_def count_call_def calls_def y Let_def)
  moreover have "fetched k y (a + ?d) (b + ?d) ?v (y\<lparr>pr_calls := ?n, pr_out := pr_out y @ [?l]\<rparr>)"
    unfolding fetched_def using t by (intro exI [of _ "w_now w + ?d"]) simp
  ultimately show "\<exists>v y' w'. loadFromSource own ctx k [] w = (Ok v, w') \<and> fetched k y (a + ?d) (b + ?d) v y' \<and>
      moment view own D t0 k x y' (a + ?d) (b + ?d) w'"
    by blast
qed

lemma fetched_profile:
  assumes "fetched k y a b v y'" and "t0 \<le> a" and "b \<le> t1"
  shows "\<exists>n t. t0 \<le> t \<and> t \<le> t1 \<and> v = profile n t"
proof -
  from assms(1) obtain t where "a \<le> t" "t \<le> b" "v = profile (pr_calls y + 1) t" unfolding fetched_def by blast
  with assms(2,3) show ?thesis by (intro exI [of _ "pr_calls y + 1"] exI [of _ t]) simp
qed

lemma profile_reader_on: "profile_reader out c k = reader_on out c k profile_line"
  by (simp add: fun_eq_iff profile_reader_def reader_on_def)

context swift_store
begin

text \<open>The first deletion: whatever the key held, the store is empty then, if it held no other key.\<close>

lemma entry_Delete_unknown:
  assumes others: "\<And>k'. k' \<noteq> k \<Longrightarrow> gone view w k'" and w: "t0 \<le> a" "a \<le> w_now w" "w_now w \<le> b" "pt_get own (w_ext w) = y"
  shows "goes (c_Delete (logic_program_cache T rt gs f ttl wb mwb ob (transcode enc dec st) sn cn l) Background k opts w)
     (\<lambda>_. entry_at T enc dec storable view own t0 k D None y a (b + lag))"
proof -
  obtain r w' where c: "c_Delete (logic_program_cache T rt gs f ttl wb mwb ob (transcode enc dec st) sn cn l) Background k opts w = (r, w')" by fastforce
  obtain ctx' w1 w2 where F: "ctx_deadline ctx' = None" "telemetry_only w w1"
    "c_Delete st ctx' k opts w1 = (r, w2)" "telemetry_only w2 w'"
    by (rule front_Delete [OF c [unfolded logic_program_cache_def]])
      (auto simp: demo_simps(6) loading_stage_def MissedLoaderDecorator_Delete_def LogicTTLDecorator_Delete_def)
  have V: "view w1 = view w"
    using F(2) by (intro blindD [OF store_contract.view_blind [OF contract]]) (simp add: telemetry_only_def)
  from store_contract.Delete_law [OF contract F(1), of k opts w1 r w2] F(3)
  have r: "r = Ok ()" and W: "writes view w1 w2 k (\<lambda>t0 t. Absent)" by simp_all
  have "holds D view w2 Map.empty" unfolding holds_def
  proof (intro allI impI)
    fix k' t assume t: "w_now w2 \<le> t"
    with writes_now [OF W] F(2) have "w_now w \<le> t" by (simp add: telemetry_only_def)
    with others have "k' \<noteq> k \<Longrightarrow> view w k' t = Absent" by (simp add: gone_def)
    with W t V show "shows_entry D (Map.empty k') t (view w2 k' t)" by (auto simp: writes_def shows_entry_def)
  qed
  moreover have "pt_get own (w_ext w2) = y" using keeps_own(3) [of ctx' k opts w1] F(2,3) w(4) by (simp add: telemetry_only_def)
  moreover have "a \<le> w_now w2" "w_now w2 \<le> b + lag"
    using quick(3) [of ctx' k opts w1] writes_now [OF W] F(2,3) w by (simp_all add: telemetry_only_def)
  ultimately have "moment view own D t0 k None y a (b + lag) w2" using w by (simp add: moment_def program_at_def)
  from moment_telemetry [OF this F(4)] c r show ?thesis by (simp add: entry_at_simps)
qed

text \<open>Looking into the store itself.\<close>

lemma entry_raw:
  assumes E: "entry_at T enc dec storable view own t0 k D (Some (v, lo, hi)) y a b w" and t: "b + lag \<le> D"
  shows "goes (c_Get st Background k [] w) (\<lambda>u w'. \<exists>e. lo \<le> e \<and> e \<le> hi \<and> codes T enc dec storable v e u \<and>
     entry_at T enc dec storable view own t0 k D (Some (v, lo, hi)) y a (b + lag) w')"
proof -
  from E obtain e u where e: "lo \<le> e" "e \<le> hi" "codes T enc dec storable v e u" and M: "moment view own D t0 k (Some u) y a b w"
    unfolding entry_at_simps by blast
  from moment_Get [OF M demo_simps(6) t, of "[]"] obtain w' where "c_Get st Background k [] w = (Ok u, w')"
    "moment view own D t0 k (Some u) y a (b + lag) w'" by auto
  with e show ?thesis unfolding goes_def entry_at_simps by blast
qed

end

lemma remote_codes:
  assumes "codes T (remote_enc cd gz) (remote_dec T cd gz) (has_type TBytes) v e u"
  obtains z b where "u = VBytes z" "cc_Decompress gz z = Ok b" "cd_Unmarshal cd b (TLogic T) = Ok (VLogic T v e)"
proof -
  from assms have "has_type TBytes u" "remote_dec T cd gz u = Ok (VLogic T v e)" by (simp_all add: codes_def)
  then obtain z where z: "u = VBytes z" "remote_dec T cd gz (VBytes z) = Ok (VLogic T v e)" by (cases u) auto
  from z(2) have "bind_ok (cc_Decompress gz z) (\<lambda>b. cd_Unmarshal cd b (TLogic T)) = Ok (VLogic T v e)"
    by (simp add: remote_dec_def assert_type_def compress_dec_def) (cases "cc_Decompress gz z"; simp add: codec_dec_def)
  then show thesis by (cases "cc_Decompress gz z") (auto intro: that [OF z(1)])
qed

text \<open>
  What go-redis is expected to do at the start and the end: connect and ping within a tenth of a
  second, to a database with no other key than that of the example, and close without a panic.
\<close>

definition connects ::
    "'x redis_library \<Rightarrow> ('x, 'y) part \<Rightarrow> 'y redis_client \<Rightarrow> 'y view \<Rightarrow> ('x, 'm) part \<Rightarrow> key \<Rightarrow> duration \<Rightarrow> 'x world \<Rightarrow> bool" where
  "connects new p cl view own k lag w \<longleftrightarrow> (\<forall>opts. \<exists>conn w1 w2. new opts w = (conn, w1) \<and>
     rn_client conn = hosted_redis p cl \<and> rn_Ping conn Background w1 = (Ok (), w2) \<and>
     w_now w \<le> w_now w2 \<and> w_now w2 \<le> w_now w + 2 * lag \<and> pt_get own (w_ext w2) = pt_get own (w_ext w) \<and>
     (\<forall>k'. k' \<noteq> k \<longrightarrow> gone (hosted_view p view) w2 k') \<and>
     (\<forall>w. \<not> is_panic (fst (rn_Close conn w)) \<and> pt_get own (w_ext (snd (rn_Close conn w))) = pt_get own (w_ext w)))"

lemma goes_deferring:
  assumes "goes p P" and "\<And>w. \<not> is_panic (fst (close w))" and "\<And>v w. P v w \<Longrightarrow> Q v (snd (close w))"
  shows "goes (deferring close p) Q"
proof -
  from assms(1) obtain v w where p: "p = (Ok v, w)" "P v w" by (auto simp: goes_def)
  with assms(2) [of w] assms(3) [OF p(2)] show ?thesis
    by (cases "close w"; cases "fst (close w)") (auto simp: deferring_def)
qed

lemma decoding_steps:
  "on_ok (Ok x, w) f = f x w" "must (Ok x, w) = (Ok x, w)" "bind_ok (must_assert TBytes (VBytes z)) un_bytes = Ok z"
  "wire_Val (VLogic T v e) = v" "wire_ExpireAt (VLogic T v e) = e"
  by (simp_all add: must_def must_assert_def wire_Val_def wire_ExpireAt_def)

lemma remote_ends:
  assumes "fetched k y1 a1 b1 v1 y'" and "fetched k y2 a2 b2 v2 y''"
    and "cc_Decompress gz z = Ok b" and "cd_Unmarshal cd b T = Ok (VLogic T' v1 e)"
    and t: "t0 \<le> a1" "b1 + Second < e" "e < a2" "b2 \<le> t0 + 10 * Second"
    and out: "\<And>t1 t2. v1 = profile (pr_calls y1 + 1) t1 \<Longrightarrow> v2 = profile (pr_calls y2 + 1) t2 \<Longrightarrow>
      y' = y1\<lparr>pr_calls := pr_calls y1 + 1, pr_out := pr_out y1 @ [source_line k v1]\<rparr> \<Longrightarrow>
      y'' = y2\<lparr>pr_calls := pr_calls y2 + 1, pr_out := pr_out y2 @ [source_line k v2]\<rparr> \<Longrightarrow>
      printed first_part w = out @ remote_output order t1 e z t2"
  shows "goes (Ok (), w) (\<lambda>_ w. \<exists>t1 e z t2. t0 \<le> t1 \<and> t1 + Second < e \<and> e < t2 \<and> t2 \<le> t0 + 10 * Second \<and>
     printed first_part w = out @ remote_output order t1 e z t2)"
proof -
  from assms(1) obtain t1 where t1: "a1 \<le> t1" "t1 \<le> b1" "v1 = profile (pr_calls y1 + 1) t1"
    "y' = y1\<lparr>pr_calls := pr_calls y1 + 1, pr_out := pr_out y1 @ [source_line k v1]\<rparr>" unfolding fetched_def by blast
  from assms(2) obtain t2 where t2: "a2 \<le> t2" "t2 \<le> b2" "v2 = profile (pr_calls y2 + 1) t2"
    "y'' = y2\<lparr>pr_calls := pr_calls y2 + 1, pr_out := pr_out y2 @ [source_line k v2]\<rparr>" unfolding fetched_def by blast
  have "t0 \<le> t1" "t1 + Second < e" "e < t2" "t2 \<le> t0 + 10 * Second" using t t1(1,2) t2(1,2) by simp_all
  with out [OF t1(3) t2(3) t1(4) t2(4)] show ?thesis by auto
qed

text \<open>The part of the program between the connection and its end.\<close>

lemma remote_body_goes:
  fixes w2 :: "(proc \<times> 'y) world"
  assumes "redis_server cl view whole clock lag prec" and "whole (20 * Second)" and lag: "lag \<le> 100 * Millisecond"
    and "rn_client conn = hosted_redis second_part cl" and "rn_Ping conn Background w1 = (Ok (), w2)"
    and others: "\<And>k'. k' \<noteq> ''profile:101'' \<Longrightarrow> gone (hosted_view second_part view) w2 k'"
    and t0: "t0 \<le> w_now w2" "w_now w2 \<le> t0 + 2 * lag" "zero_time < t0" and clock: "\<And>t. t0 \<le> t \<Longrightarrow> clock t"
    and "sequential rt" and "distinct order" and "set order = {0..<4}"
    and cd: "profiles_restored cd t0 (t0 + Minute)" and gz: "\<And>b. \<exists>z. cc_Compress gz b = Ok z \<and> cc_Decompress gz z = Ok b"
  shows "goes (remote_body rt slog cd gz order first_part conn w1) (\<lambda>_ w'. \<exists>t1 e z t2.
     t0 \<le> t1 \<and> t1 + Second < e \<and> e < t2 \<and> t2 \<le> t0 + 10 * Second \<and>
     printed first_part w' = printed first_part w2 @ remote_output order t1 e z t2)"
proof -
  let ?n = "''remote-redis''" and ?V = "hosted_view second_part view :: (proc \<times> 'y) view"
  let ?st = "RedisStore (redis_New (hosted_redis second_part cl :: (proc \<times> 'y) redis_client) [redis_WithStoreName ?n])"
  let ?U = "TStruct ''UserProfile''"
  note S = redis_swift [OF assms(1) second.memory_part_axioms first.memory_part_axioms apart_pair(2), of ?n]
  have len: "length order = 4" using distinct_card [OF assms(12)] assms(13) by simp
  then have ne: "order \<noteq> []" by auto
  have L: "0 \<le> lag" by (rule redis_server.lag_nonneg [OF assms(1)])
  define T where "T = w_now w2"
  note T = t0(1,2) [folded T_def]
  obtain y where y: "pt_get first_part (w_ext w2) = y" by simp
  obtain b0 where b0: "NewBuilder ?U slog ''remote-byte-path'' (Some ?st) [] = Ok b0" by (simp add: NewBuilder_def)
  from Build_remote [OF b0 refl] obtain gs ob l w3 where
    b: "built (Build ?U rt (remote_builder_options cd gz (loadFromSource first_part) b0) (reset_calls first_part w2)) =
        (Ok (logic_program_cache ?U rt gs (loadFromSource first_part) (2 * Second) (20 * Second) (20 * Second) ob
          (transcode (remote_enc cd gz) (remote_dec ?U cd gz) ?st) (StoreName ?st) ''remote-byte-path'' l), w3)"
    and tel: "telemetry_only (reset_calls first_part w2) w3" by blast
  let ?E = "entry_at ?U (remote_enc cd gz) (remote_dec ?U cd gz) (has_type TBytes) ?V first_part t0 ''profile:101''"
  have w3: "w_now w3 = T" "pt_get first_part (w_ext w3) = y\<lparr>pr_calls := 0\<rparr>"
    using tel y by (cases "w_ext w2"; simp add: telemetry_only_def reset_calls_def T_def)+
  have "pt_get second_part (w_ext w3) = pt_get second_part (w_ext w2)"
    using tel by (cases "w_ext w2") (simp add: telemetry_only_def reset_calls_def)
  then have "?V w3 = ?V w2"
    by (auto simp: hosted_view_def fun_eq_iff intro!: blindD [OF redis_server.view_blind [OF assms(1)], THEN fun_cong, THEN fun_cong])
  with others w3(1) have others3: "\<And>k'. k' \<noteq> ''profile:101'' \<Longrightarrow> gone ?V w3 k'" by (simp add: gone_def T_def)
  note code = profiles_coded [OF cd gz]
  have d: "0 \<le> 150 * Millisecond" and times: "0 < 2 * Second" "0 < 20 * Second" by (simp_all add: duration_defs)
  show ?thesis
    unfolding remote_body_def Let_def assms(4) Println_def Printf_def profile_reader_on
    apply (simp only: assms(5) b0 b decoding_steps)
    apply (rule goes_step [OF swift_store.entry_Delete_unknown [OF S others3 T(1) eq_refl [OF w3(1) [symmetric]] eq_refl [OF w3(1)] w3(2)]],
        assumption)
    apply (rule goes_step [OF swift_store.entry_Get_missing [where D = "T + Second" and D' = "T + 150 * Millisecond + 20 * Second",
         OF S entry_print [OF S] assms(11) _ T(1) d _ clock loadFromSource_loads [OF S] code fetched_profile times assms(2)]], assumption)
    subgoal using lag by (simp add: duration_defs)
    subgoal using lag T by (simp add: duration_defs)
    apply assumption
    apply assumption
    subgoal using T by (simp add: duration_defs)
    subgoal using lag T by (simp add: duration_defs)
    subgoal by simp
    apply (elim exE conjE)
    apply (rule goes_step [OF swift_store.entry_raw [OF S entry_print [OF S entry_print [OF S]]]], assumption)
    subgoal using lag by (simp add: duration_defs)
    apply (elim exE conjE)
    apply (erule remote_codes)
    apply (hypsubst, simp only: decoding_steps)
    apply (rule goes_on_ok [OF burst [where D' = "T + 150 * Millisecond + 2300 * Millisecond + 150 * Millisecond + 20 * Second" and line = profile_line,
         OF S assms(11) L refl swift_store.entry_wait [OF S entry_print [OF S entry_print [OF S entry_print [OF S]]]] _ _ _ _ d _ clock loadFromSource_loads [OF S]
            code fetched_profile times assms(2) _ ne]], assumption)
    subgoal by (simp add: duration_defs)
    subgoal using lag by (simp add: duration_defs)
    subgoal using lag by (simp add: duration_defs)
    subgoal using T t0(3) by (simp add: duration_defs)
    subgoal using T by (simp add: duration_defs)
    subgoal using lag T by (simp add: duration_defs)
    apply assumption
    apply assumption
    subgoal using T by (simp add: duration_defs)
    subgoal using lag T by (simp add: duration_defs)
    subgoal by simp
    subgoal using lag by (simp add: duration_defs len)
    apply (elim exE conjE)
    apply (rule goes_step [OF swift_store.entry_Get_current [OF S swift_store.entry_wait [OF S] assms(11)]], assumption)
    subgoal by (simp add: duration_defs)
    subgoal using lag by (simp add: duration_defs len)
    subgoal using lag by (simp add: duration_defs len)
    apply (elim conjE)
    apply (erule remote_ends, assumption, assumption, assumption)
    subgoal using T by (simp add: duration_defs)
    subgoal using lag by (simp add: duration_defs)
    subgoal using lag by (simp add: duration_defs)
    subgoal using lag T by (simp add: duration_defs)
    apply (drule entry_owns)+
    using y by (simp add: printed_def calls_def remote_output_def print_own [OF first.memory_part_axioms])
qed

section \<open>Property\<close>


text \<open>A codec that knows profiles, and a redis library over the fake client of the repository.\<close>

definition profile_codec :: codec where
  "profile_codec =
     \<lparr>cd_Marshal = (\<lambda>v. case (struct_field ''Name'' (wire_Val v), struct_field ''instant'' (struct_field ''UpdatedAt'' (wire_Val v))) of
          (VString name, VInt t) \<Rightarrow> Ok (PutUint64 (word_of_int t) @ PutUint64 (word_of_int (wire_ExpireAt v)) @ bytes_of name)
        | _ \<Rightarrow> Err (Foreign ''json: unsupported value'')),
      cd_Unmarshal = (\<lambda>b T. Ok (VLogic (TStruct ''UserProfile'') (VStruct ''UserProfile'' [(''ID'', VInt 101),
          (''Name'', VString (string_of (drop 16 b))), (''Tier'', VString ''premium''),
          (''UpdatedAt'', time_value (sint (Uint64 (take 8 b))))]) (sint (Uint64 (take 8 (drop 8 b))))))\<rparr>"

definition fake_library :: "(proc \<times> fake_heap) redis_library" where
  "fake_library opts w =
     (\<lparr>rn_client = hosted_redis second_part (fakeClient 0), rn_Ping = (\<lambda>ctx w. (Ok (), w)), rn_Close = (\<lambda>w. (Ok (), w))\<rparr>, w)"

definition idle_remote :: "(proc \<times> fake_heap) world" where
  "idle_remote = \<lparr>w_now = 0, w_events = [], w_groups = 0,
     w_ext = (\<lparr>pr_out = [], pr_calls = 0\<rparr>, \<lparr>fh_next = 1, fh_data = \<lambda>f. Map.empty\<rparr>)\<rparr>"

lemma string_of_bytes_of: "string_of (bytes_of s) = s"
proof -
  have "unat (of_char c :: 8 word) = of_char c" for c
    using unat_of_nat [where 'a = 8, of "of_char c"] nat_of_char_less_256 [of c] by (simp add: of_nat_of_char)
  then show ?thesis by (simp add: string_of_def bytes_of_def comp_def)
qed

lemma profile_codec_restores:
  assumes "- (2 ^ 63) \<le> t0" and "t1 < 2 ^ 63"
  shows "profiles_restored profile_codec t0 t1"
proof -
  have s: "sint (word_of_int t :: 64 word) = t" if "t0 \<le> t" "t \<le> t1" for t
    using that assms sint_UnixNano [of t] by (simp add: UnixNano_def wrap64_id)
  show ?thesis
    unfolding profiles_restored_def
    by (intro allI impI) (simp add: profile_codec_def wire_Val_def wire_ExpireAt_def struct_field_def profile_def time_value_def
        s string_of_bytes_of)
qed

lemma fake_connects: "connects fake_library second_part (fakeClient 0) (fake_view 0) first_part k 0 idle_remote"
  by (simp add: connects_def fake_library_def gone_def hosted_view_def fake_view_def fake_data_def idle_remote_def)


end
