(* ===== verification/Level_Program.thy ===== *)
theory Level_Program
  imports Multi_Properties Example_Logic_Expiry
begin

text \<open>
  Programs that read through several levels, as examples/05 does: what one call of a multi cache
  does to what the levels hold, to the program's memory and to the clock. A level is a built cache
  (the front of \<open>Build\<close> over a base cache) whose store takes between two bounds to answer.
\<close>

section \<open>One level\<close>

locale quick_level =
  fixes c :: "'x cache" and view :: "'x view" and storable :: "gval \<Rightarrow> bool" and clock :: "int \<Rightarrow> bool"
    and own :: "('x, 'm) part" and lo hi :: duration
  assumes view_blind: "blind view"
    and view_own: "view (w\<lparr>w_ext := pt_put own y (w_ext w)\<rparr>) = view w"
    and Get_law: "ctx_deadline ctx = None \<Longrightarrow> c_Get c ctx k opts w = (r, w') \<Longrightarrow>
          reads view w w' \<and> (\<exists>t. w_now w \<le> t \<and> t \<le> w_now w' \<and> reports (view w k t) r) \<and>
          w_now w + lo \<le> w_now w' \<and> w_now w' \<le> w_now w + hi"
    and Set_law: "ctx_deadline ctx = None \<Longrightarrow> opts_total opts \<Longrightarrow> storable v \<Longrightarrow> 0 \<le> ttl \<Longrightarrow>
          clock (w_now w) \<Longrightarrow> c_Set c ctx k v ttl opts w = (u, w') \<Longrightarrow>
          u = Ok () \<and> writes view w w' k (stored v ttl) \<and> w_now w' \<le> w_now w + hi"
    and keeps: "c_Get c ctx k opts w = (r, w') \<Longrightarrow> pt_get own (w_ext w') = pt_get own (w_ext w)"
      "c_Set c ctx k v ttl opts w = (u, w') \<Longrightarrow> pt_get own (w_ext w') = pt_get own (w_ext w)"

text \<open>A store of its own, with its contract, makes such a level of the front of a built cache.\<close>

lemma blind_telemetry: "blind view \<Longrightarrow> telemetry_only w w' \<Longrightarrow> reads view w w'"
  by (rule blind_reads) (simp_all add: telemetry_only_def)

lemma base_typed: "c_Get (NewBaseCache T st) ctx k opts w = (Ok v, w') \<Longrightarrow> must_assert T v = Ok v"
  by (auto simp: NewBaseCache_transcode transcode_Get_def assert_type_Ok must_assert_def on_ok_def split: prod.splits outcome.splits)

lemma front_level:
  assumes L: "quick_level (NewBaseCache T st) view storable clock own lo hi" and rt: "sequential rt"
  shows "quick_level (front T rt g (NewBaseCache T st) sn cn l) view storable clock own lo hi"
proof
  let ?b = "NewBaseCache T st" and ?c = "front T rt g (NewBaseCache T st) sn cn l"
  note B = quick_level.view_blind [OF L]
  show "blind view" by (rule B)
  show "view (w\<lparr>w_ext := pt_put own y (w_ext w)\<rparr>) = view w" for w y by (rule quick_level.view_own [OF L])
  {
    fix ctx k opts w r w' assume "c_Get ?c ctx k opts w = (r, w')"
    from front_Get [OF this rt] obtain ctx' w1 r0 w2 where F: "ctx_deadline ctx' = ctx_deadline ctx" "telemetry_only w w1"
      "c_Get ?b ctx' k opts w1 = (r0, w2)" "r = bind_ok r0 (must_assert T)" "telemetry_only w2 w'" by blast
    have r: "r = r0" using F(3,4) base_typed by (cases r0) fastforce+
    from quick_level.keeps(1) [OF L F(3)] F(2,5) show "pt_get own (w_ext w') = pt_get own (w_ext w)"
      by (simp add: telemetry_only_def)
    assume "ctx_deadline ctx = None"
    with F(1) quick_level.Get_law [OF L _ F(3)] obtain t where t: "reads view w1 w2" "w_now w1 \<le> t" "t \<le> w_now w2"
      "reports (view w1 k t) r0" "w_now w1 + lo \<le> w_now w2" "w_now w2 \<le> w_now w1 + hi" by auto
    have "reads view w w'"
      using blind_telemetry [OF B F(2)] t(1) blind_telemetry [OF B F(5)] by (blast intro: reads_trans)
    moreover have "view w1 = view w" using F(2) by (intro blindD [OF B]) (simp add: telemetry_only_def)
    ultimately show "reads view w w' \<and> (\<exists>t. w_now w \<le> t \<and> t \<le> w_now w' \<and> reports (view w k t) r) \<and>
        w_now w + lo \<le> w_now w' \<and> w_now w' \<le> w_now w + hi"
      using t(2-6) F(2,5) unfolding r by (auto simp: telemetry_only_def)
  }
  {
    fix ctx k v ttl opts w u w' assume "c_Set ?c ctx k v ttl opts w = (u, w')"
    from front_Set [OF this] obtain ctx' w1 w2 where F: "ctx_deadline ctx' = ctx_deadline ctx" "telemetry_only w w1"
      "c_Set ?b ctx' k v ttl opts w1 = (u, w2)" "telemetry_only w2 w'" by blast
    from quick_level.keeps(2) [OF L F(3)] F(2,4) show "pt_get own (w_ext w') = pt_get own (w_ext w)"
      by (simp add: telemetry_only_def)
    assume "ctx_deadline ctx = None" "opts_total opts" "storable v" "0 \<le> ttl" "clock (w_now w)"
    with F(1,2) quick_level.Set_law [OF L _ _ _ _ _ F(3)] have "u = Ok ()" "writes view w1 w2 k (stored v ttl)"
      "w_now w2 \<le> w_now w1 + hi" by (simp_all add: telemetry_only_def)
    moreover from this(2) have "writes view w w' k (stored v ttl)"
      using blind_telemetry [OF B F(2)] blind_telemetry [OF B F(4)] by (blast intro: reads_writes writes_reads)
    ultimately show "u = Ok () \<and> writes view w w' k (stored v ttl) \<and> w_now w' \<le> w_now w + hi"
      using F(2,4) by (simp add: telemetry_only_def)
  }
qed

lemma base_level:
  assumes C: "cache_contract st view (\<lambda>v. True) clock"
    and own: "\<And>w y. view (w\<lparr>w_ext := pt_put own y (w_ext w)\<rparr>) = view w"
    and t: "\<And>ctx k opts w. ctx_deadline ctx = None \<Longrightarrow> w_now w + lo \<le> w_now (snd (c_Get st ctx k opts w))"
      "\<And>ctx k opts w. w_now (snd (c_Get st ctx k opts w)) \<le> w_now w + hi"
      "\<And>ctx k v ttl opts w. w_now (snd (c_Set st ctx k v ttl opts w)) \<le> w_now w + hi"
    and keeps: "\<And>ctx k opts w. pt_get own (w_ext (snd (c_Get st ctx k opts w))) = pt_get own (w_ext w)"
      "\<And>ctx k v ttl opts w. pt_get own (w_ext (snd (c_Set st ctx k v ttl opts w))) = pt_get own (w_ext w)"
  shows "quick_level (NewBaseCache T st) (typed_view T view) (\<lambda>v. type_assert T v = Some v) clock own lo hi"
proof -
  let ?c = "NewBaseCache T st"
  have K: "cache_contract ?c (typed_view T view) (\<lambda>v. type_assert T v = Some v) clock"
    using NewBaseCache_contract [OF C, of T] by simp
  have G: "w' = snd (c_Get st ctx k opts w)" if "c_Get ?c ctx k opts w = (r, w')" for ctx k opts w r w'
    using that by (auto simp: NewBaseCache_transcode transcode_Get_def on_ok_def split: prod.splits outcome.splits)
  have S: "w' = snd (c_Set st ctx k v ttl opts w)" if "c_Set ?c ctx k v ttl opts w = (r, w')" for ctx k v ttl opts w r w'
    using that by (auto simp: NewBaseCache_transcode transcode_Set_def split: prod.splits outcome.splits)
  show ?thesis
  proof (unfold_locales, goal_cases)
    case 1 show ?case by (rule cache_contract.view_blind [OF K])
  next
    case 2 show ?case by (simp add: fun_eq_iff typed_view_def map_view_with_def own)
  next
    case (3 ctx k opts w r w')
    with cache_contract.Get_law [OF K 3] t(1) [OF 3(1), of w k opts] t(2) [of ctx k opts w] G [OF 3(2)] show ?case by simp
  next
    case (4 ctx opts v ttl w k u w')
    with cache_contract.Set_law [OF K 4] t(3) [of ctx k v ttl opts w] S [OF 4(6)] show ?case by simp
  next
    case 5 show ?case unfolding G [OF 5] by (rule keeps(1))
  next
    case 6 show ?case unfolding S [OF 6] by (rule keeps(2))
  qed
qed

section \<open>Several levels\<close>

text \<open>Level \<open>i\<close> of the \<open>n\<close> holds the entries \<open>m i\<close>, at least until \<open>D\<close>; the clock is between \<open>a\<close> and \<open>b\<close>.\<close>

definition levels_at ::
    "nat \<Rightarrow> (nat \<Rightarrow> 'x view) \<Rightarrow> ('x, 'm) part \<Rightarrow> int \<Rightarrow> (nat \<Rightarrow> key \<rightharpoonup> gval) \<Rightarrow> 'm \<Rightarrow> int \<Rightarrow> int \<Rightarrow> 'x world \<Rightarrow> bool" where
  "levels_at n view own D m y a b w \<longleftrightarrow>
     (\<forall>i < n. holds D (view i) w (m i)) \<and> pt_get own (w_ext w) = y \<and> a \<le> w_now w \<and> w_now w \<le> b"

text \<open>The levels of \<open>S\<close> get a value.\<close>

definition fill :: "nat set \<Rightarrow> key \<Rightarrow> gval \<Rightarrow> (nat \<Rightarrow> key \<rightharpoonup> gval) \<Rightarrow> nat \<Rightarrow> key \<rightharpoonup> gval" where
  "fill S k v m i = (if i \<in> S then (m i)(k \<mapsto> v) else m i)"

lemma fill_simps [simp]: "fill {} k v m = m" "fill S k v (fill {i} k v m) = fill (insert i S) k v m"
  by (auto simp: fill_def fun_eq_iff)

lemma levels_at_weaken:
  "levels_at n view own D m y a b w \<Longrightarrow> a' \<le> a \<Longrightarrow> b \<le> b' \<Longrightarrow> levels_at n view own D m y a' b' w"
  by (simp add: levels_at_def)

locale quick_levels =
  fixes n :: nat and level :: "nat \<Rightarrow> 'x cache" and view :: "nat \<Rightarrow> 'x view" and storable :: "gval \<Rightarrow> bool"
    and clock :: "int \<Rightarrow> bool" and own :: "('x, 'm) part" and lo hi :: "nat \<Rightarrow> duration"
  assumes own_part: "memory_part own"
    and level: "i < n \<Longrightarrow> quick_level (level i) (view i) storable clock own (lo i) (hi i)"
    and frame: "i < n \<Longrightarrow> j < n \<Longrightarrow> i \<noteq> j \<Longrightarrow> c_Get (level i) ctx k opts w = (r, w') \<Longrightarrow> view j w' = view j w"
      "i < n \<Longrightarrow> j < n \<Longrightarrow> i \<noteq> j \<Longrightarrow> c_Set (level i) ctx k v ttl opts w = (u, w') \<Longrightarrow> view j w' = view j w"
begin

abbreviation lv :: "int \<Rightarrow> (nat \<Rightarrow> key \<rightharpoonup> gval) \<Rightarrow> 'm \<Rightarrow> int \<Rightarrow> int \<Rightarrow> 'x world \<Rightarrow> bool" where
  "lv \<equiv> levels_at n view own"

lemma hi_nonneg: "i < n \<Longrightarrow> 0 \<le> hi i"
proof -
  assume i: "i < n"
  obtain w :: "'x world" and r w' where "c_Get (level i) Background [] [] w = (r, w')" by fastforce
  from quick_level.Get_law [OF level [OF i] _ this] have "w_now w \<le> w_now w'" "w_now w' \<le> w_now w + hi i"
    by (auto dest: reads_now)
  then show ?thesis by simp
qed

lemma at_blind:
  assumes "lv D m y a b w" and "w_ext w' = w_ext w" and "w_now w' = w_now w + d" and "0 \<le> d"
  shows "lv D m y (a + d) (b + d) w'"
proof -
  have "reads (view i) w w'" if "i < n" for i
    using assms(2-4) by (intro blind_reads [OF quick_level.view_blind [OF level [OF that]]]) simp_all
  with assms show ?thesis by (auto simp: levels_at_def intro: holds_reads)
qed

lemma at_telemetry: "lv D m y a b w \<Longrightarrow> telemetry_only w w' \<Longrightarrow> lv D m y a b w'"
  using at_blind [of D m y a b w w' 0] by (simp add: telemetry_only_def)

lemma at_wait: "lv D m y a b w \<Longrightarrow> 0 \<le> d \<Longrightarrow> lv D m y (a + d) (b + d) (wait d w)"
  by (rule at_blind) simp_all

lemma at_own: "lv D m y a b w \<Longrightarrow> lv D m y' a b (w\<lparr>w_ext := pt_put own y' (w_ext w)\<rparr>)"
  using memory_part.get_put [OF own_part] quick_level.view_own [OF level]
  by (simp add: levels_at_def holds_def)

lemma level_Get:
  assumes A: "lv D m y a b w" and i: "i < n" and ctx: "ctx_deadline ctx = None" and D: "b + hi i \<le> D"
  shows "\<exists>r w'. c_Get (level i) ctx k opts w = (r, w') \<and> lv D m y (a + lo i) (b + hi i) w' \<and>
     (case m i k of None \<Rightarrow> not_found r | Some v \<Rightarrow> r = Ok v)"
proof -
  obtain r w' where g: "c_Get (level i) ctx k opts w = (r, w')" by fastforce
  from quick_level.Get_law [OF level [OF i] ctx g] obtain t where R: "reads (view i) w w'"
    and t: "w_now w \<le> t" "t \<le> w_now w'" "reports (view i w k t) r"
    and T: "w_now w + lo i \<le> w_now w'" "w_now w' \<le> w_now w + hi i" by blast
  note own = quick_level.keeps(1) [OF level [OF i] g]
  from A i have "holds D (view i) w (m i)" by (simp add: levels_at_def)
  from holds_reports [OF this t(1,3)] T t(2) A D have r: "case m i k of None \<Rightarrow> not_found r | Some v \<Rightarrow> r = Ok v"
    by (auto simp: levels_at_def split: option.splits)
  have "reads (view j) w w'" if "j < n" for j
    using R frame(1) [OF i that _ g] t(1,2) by (cases "i = j") (simp_all add: reads_def)
  with A T own have "lv D m y (a + lo i) (b + hi i) w'" by (auto simp: levels_at_def intro: holds_reads)
  with g r show ?thesis by blast
qed

lemma level_Set:
  assumes A: "lv D m y a b w" and i: "i < n" and ctx: "ctx_deadline ctx = None" and opts: "opts_total opts"
    and v: "storable v" and ttl: "0 \<le> ttl" "D \<le> a + ttl" and clock: "\<And>t. a \<le> t \<Longrightarrow> clock t"
  shows "\<exists>w'. c_Set (level i) ctx k v ttl opts w = (Ok (), w') \<and> lv D (fill {i} k v m) y a (b + hi i) w'"
proof -
  obtain u w' where s: "c_Set (level i) ctx k v ttl opts w = (u, w')" by fastforce
  from A have a: "a \<le> w_now w" by (simp add: levels_at_def)
  from quick_level.Set_law [OF level [OF i] ctx opts v ttl(1) clock [OF a] s]
  have u: "u = Ok ()" and W: "writes (view i) w w' k (stored v ttl)" and T: "w_now w' \<le> w_now w + hi i" by simp_all
  note own = quick_level.keeps(2) [OF level [OF i] s]
  have "holds D (view j) w' (fill {i} k v m j)" if j: "j < n" for j
  proof (cases "j = i")
    case True
    have "holds D (view i) w (m i)" using A i by (simp add: levels_at_def)
    from holds_Set [OF this W] ttl a True show ?thesis by (simp add: fill_def)
  next
    case False
    then have "reads (view j) w w'" using frame(2) [OF i j _ s] writes_now [OF W] by (simp add: reads_def)
    with A j False show ?thesis by (auto simp: levels_at_def fill_def intro: holds_reads)
  qed
  with A T own u s writes_now [OF W] show ?thesis by (auto simp: levels_at_def)
qed

end

section \<open>A multi cache over them\<close>

abbreviation along :: "(nat \<Rightarrow> duration) \<Rightarrow> nat list \<Rightarrow> duration" where
  "along d is \<equiv> sum_list (map d is)"

lemma total_mset: "mset is = mset js \<Longrightarrow> along d is = along d js"
  by (metis mset_map sum_mset_sum_list)

context quick_levels
begin

lemma total_nonneg: "set is \<subseteq> {..<n} \<Longrightarrow> 0 \<le> along hi is"
  by (intro sum_list_nonneg) (auto intro: hi_nonneg)

lemma set_tasks:
  assumes "lv D m y a b w" and "set is \<subseteq> {..<n}" and "ctx_deadline ctx = None" and "opts_total opts"
    and "storable v" and "0 \<le> ttl" "D \<le> a + ttl" and "\<And>t. a \<le> t \<Longrightarrow> clock t"
    and "run_tasks (map (\<lambda>i. c_Set (level i) ctx k v ttl opts) is) w = (rs, w')"
  shows "set rs \<subseteq> {Ok ()} \<and> lv D (fill (set is) k v m) y a (b + along hi is) w'"
  using assms(1,2,9)
proof (induction "is" arbitrary: m b w rs)
  case (Cons i js)
  have i: "i < n" using Cons.prems(2) by simp
  obtain w1 where s: "c_Set (level i) ctx k v ttl opts w = (Ok (), w1)" "lv D (fill {i} k v m) y a (b + hi i) w1"
    using level_Set [OF Cons.prems(1) i assms(3-8)] by blast
  obtain rs' where r: "run_tasks (map (\<lambda>i. c_Set (level i) ctx k v ttl opts) js) w1 = (rs', w')" "rs = Ok () # rs'"
    using Cons.prems(3) s(1) by (auto split: prod.splits)
  from Cons.IH [OF s(2) _ r(1)] Cons.prems(2) r(2) show ?case by (simp add: add.assoc)
qed simp

lemma pool_sets:
  assumes "pool_law sd" and "lv D m y a b w" and "set is \<subseteq> {..<n}" and "ctx_deadline ctx = None" and "opts_total opts"
    and "storable v" and "0 \<le> ttl" "D \<le> a + ttl" and "\<And>t. a \<le> t \<Longrightarrow> clock t"
  shows "\<exists>w'. sd_Wait sd first (map (\<lambda>c. c_Set c ctx k v ttl opts) (map level is)) w = (Ok (), w') \<and>
     lv D (fill (set is) k v m) y a (b + along hi is) w'"
proof -
  let ?f = "\<lambda>i. c_Set (level i) ctx k v ttl opts"
  obtain js where js: "mset js = mset is" "sd_Wait sd first (map ?f is) w =
      (let (rs, w') = run_tasks (map ?f js) w in (wait_result first rs, w'))"
    by (rule pool_map [OF assms(1)])
  obtain rs w' where r: "run_tasks (map ?f js) w = (rs, w')" by fastforce
  have s: "set js = set is" by (rule mset_eq_setD [OF js(1)])
  have "set rs \<subseteq> {Ok ()} \<and> lv D (fill (set js) k v m) y a (b + along hi js) w'"
    by (rule set_tasks [OF assms(2) _ assms(4-9) r]) (simp add: s assms(3))
  with js(2) r show ?thesis by (simp add: wait_result_Ok comp_def s total_mset [OF js(1)])
qed

lemma fetch_misses:
  assumes "lv D m y a b w" and "set is \<subseteq> {..<n}" and "ctx_deadline ctx = None" and "\<forall>i \<in> set is. m i k = None"
    and "b + along hi is \<le> D"
  shows "\<exists>es w'. fetch_loop ctx k opts j (map level is @ rest) failed w =
       fetch_loop ctx k opts (j + length is) rest (failed @ zip (map level is) es) w' \<and>
     length es = length is \<and> (\<forall>e \<in> set es. errors_is e ErrNotFound) \<and> lv D m y (a + along lo is) (b + along hi is) w'"
  using assms
proof (induction "is" arbitrary: j failed a b w)
  case Nil
  show ?case by (rule exI [of _ "[]"], rule exI [of _ w], simp add: Nil.prems(1) [simplified])
next
  case (Cons i js)
  have i: "i < n" "m i k = None" "set js \<subseteq> {..<n}" using Cons.prems(2,4) by simp_all
  have b: "b + hi i \<le> D" using Cons.prems(5) total_nonneg [OF i(3)] by simp
  obtain r w1 where "c_Get (level i) ctx k opts w = (r, w1)" "lv D m y (a + lo i) (b + hi i) w1" "not_found r"
    using level_Get [OF Cons.prems(1) i(1) Cons.prems(3) b, of k opts] i(2) by auto
  then obtain e where e: "c_Get (level i) ctx k opts w = (Err e, w1)" "errors_is e ErrNotFound"
    and w1: "lv D m y (a + lo i) (b + hi i) w1" by (cases r) auto
  have "b + hi i + along hi js \<le> D" using Cons.prems(5) by (simp add: add.assoc)
  from Cons.IH [OF w1 i(3) Cons.prems(3) _ this, of "Suc j" "failed @ [(level i, e)]"] Cons.prems(4) obtain es w' where
    "fetch_loop ctx k opts (Suc j) (map level js @ rest) (failed @ [(level i, e)]) w1 =
       fetch_loop ctx k opts (Suc j + length js) rest ((failed @ [(level i, e)]) @ zip (map level js) es) w'"
    "length es = length js" "\<forall>e \<in> set es. errors_is e ErrNotFound"
    "lv D m y (a + lo i + along lo js) (b + hi i + along hi js) w'" by auto
  with e show ?case by (intro exI [of _ "e # es"] exI [of _ w']) (simp add: add.assoc)
qed

lemma write_back:
  assumes cfg: "sequential_multi sd ttl ms" and sd: "pool_law sd" and A: "lv D m y a b w" and "is": "set is \<subseteq> {..<n}"
    and ctx: "ctx_deadline ctx = None" and v: "storable v" and ttl: "0 \<le> ttl" "D \<le> a + ttl" and clk: "\<And>t. a \<le> t \<Longrightarrow> clock t"
    and es: "length es = length is" "\<forall>e \<in> set es. errors_is e ErrNotFound" and gc: "fc_GotValue gc = v" "fc_Key gc = k"
  shows "\<exists>w'. multiCache_writeBack ms ctx gc (zip (map level is) es) w = (Ok v, w') \<and>
     lv D (fill (set is) k v m) y a (b + along hi is) w'"
proof -
  obtain w' where w': "sd_Wait sd False (map (\<lambda>c. c_Set c ctx k v ttl []) (map level is)) w = (Ok (), w')"
    "lv D (fill (set is) k v m) y a (b + along hi is) w'"
    using pool_sets [OF sd A "is" ctx opts_total_Nil v ttl clk] by blast
  have "WriteBackParallel sd ttl ctx gc (map level is) w = (Ok (), w')"
    using w'(1) gc by (simp add: WriteBackParallel_def comp_def)
  then have "multiCache_writeBack ms ctx gc (zip (map level is) es) w = (Ok v, w')"
    using cfg gc by (simp add: multiCache_writeBack_def sequential_multi_def MissedCacheFilter_all es)
  with w'(2) show ?thesis by blast
qed

end

context quick_levels
begin

text \<open>The value of level \<open>p\<close>, for which the levels above are asked first and which they then get.\<close>

lemma multi_hit:
  assumes cfg: "sequential_multi sd ttl ms" and sd: "pool_law sd" and caches: "ms_caches ms = map level [0..<n]"
    and A: "lv D m y a b w" and p: "p < n" and ctx: "ctx_deadline ctx = None"
    and m: "\<forall>i < p. m i k = None" "m p k = Some v" and v: "storable v"
    and ttl: "0 \<le> ttl" "D \<le> a + along lo [0..<Suc p] + ttl" and clk: "\<And>t. a + along lo [0..<Suc p] \<le> t \<Longrightarrow> clock t"
    and D: "b + along hi [0..<Suc p] \<le> D"
  shows "\<exists>w'. multiCache_Get sd ms ctx k opts w = (Ok v, w') \<and>
     lv D (fill {..<p} k v m) y (a + along lo [0..<Suc p]) (b + along hi [0..<Suc p] + along hi [0..<p]) w'"
proof -
  let ?gc = "\<lparr>fc_Key = k, fc_Options = opts, fc_MultiCache = multiCache_view sd ms, fc_GotValue = VNil\<rparr>"
  let ?pre = "[0..<p]" and ?rest = "map level [Suc p..<n]"
  have s: "set ?pre \<subseteq> {..<n}" "\<forall>i \<in> set ?pre. m i k = None" using p m(1) by auto
  have "[0..<n] = ?pre @ p # [Suc p..<n]" using p upt_add_eq_append [of 0 p "n - p"] by (simp add: upt_conv_Cons)
  then have c: "ms_caches ms = map level ?pre @ level p # ?rest" using caches by simp
  have b: "b + along hi ?pre \<le> D" "b + along hi ?pre + hi p \<le> D" using D hi_nonneg [OF p] by simp_all
  from fetch_misses [OF A s(1) ctx s(2) b(1), of opts 0 "level p # ?rest" "[]"] obtain es w1 where
    f: "fetch_loop ctx k opts 0 (ms_caches ms) [] w = fetch_loop ctx k opts p (level p # ?rest) (zip (map level ?pre) es) w1"
    and es: "length es = length ?pre" "\<forall>e \<in> set es. errors_is e ErrNotFound"
    and w1: "lv D m y (a + along lo ?pre) (b + along hi ?pre) w1" by (auto simp: c)
  obtain w2 where g: "c_Get (level p) ctx k opts w1 = (Ok v, w2)"
    and w2: "lv D m y (a + along lo ?pre + lo p) (b + along hi ?pre + hi p) w2"
    using level_Get [OF w1 p ctx b(2), of k opts] m(2) by auto
  let ?w3 = "AddCustomFields ctx [(''source'', ''cache_'' @ Itoa p)] w2"
  have F: "FetchPolicySequential ctx ?gc w = (Ok (v, zip (map level ?pre) es), ?w3)"
    using f g by (simp add: FetchPolicySequential_def multiCache_view_def)
  have w3: "lv D m y (a + along lo [0..<Suc p]) (b + along hi [0..<Suc p]) ?w3"
    by (rule at_telemetry [OF _ ]) (use w2 in \<open>simp_all add: telemetry_only_def add.assoc\<close>)
  from write_back [OF cfg sd w3 s(1) ctx v ttl clk es, of "?gc\<lparr>fc_GotValue := v\<rparr>" k] obtain w' where
    "multiCache_writeBack ms ctx (?gc\<lparr>fc_GotValue := v\<rparr>) (zip (map level ?pre) es) ?w3 = (Ok v, w')"
    "lv D (fill (set ?pre) k v m) y (a + along lo [0..<Suc p]) (b + along hi [0..<Suc p] + along hi ?pre) w'" by auto
  then show ?thesis
    using F unfolding multiCache_Get_sequential [OF cfg] by (auto simp: Let_def atLeast0LessThan)
qed

text \<open>No level has the value: the loader is called, and every level gets what it returns.\<close>

lemma multi_loads:
  assumes cfg: "sequential_multi sd ttl ms" and sd: "pool_law sd" and caches: "ms_caches ms = map level [0..<n]"
    and A: "lv D m y a b w" and ctx: "ctx_deadline ctx = None" and m: "\<forall>i < n. m i k = None"
    and L: "L = along lo [0..<n]" and H: "H = along hi [0..<n]" "b + H \<le> D"
    and f: "mf_LoaderFn (ms_cfg ms) = Some f"
      "\<And>w1. lv D m y (a + L) (b + H) w1 \<Longrightarrow> \<exists>v y' w2. f ctx k opts w1 = (Ok v, w2) \<and> good v y' \<and> lv D m y' (a + L + d) (b + H + d) w2"
    and good: "\<And>v y'. good v y' \<Longrightarrow> storable v"
    and ttl: "0 \<le> ttl" "D \<le> a + L + d + ttl" and clk: "\<And>t. a + L + d \<le> t \<Longrightarrow> clock t"
  shows "\<exists>v y' w'. multiCache_Get sd ms ctx k opts w = (Ok v, w') \<and> good v y' \<and>
     lv D (fill {..<n} k v m) y' (a + L + d) (b + H + d + H) w'"
proof -
  let ?gc = "\<lparr>fc_Key = k, fc_Options = opts, fc_MultiCache = multiCache_view sd ms, fc_GotValue = VNil\<rparr>"
  have s: "set [0..<n] \<subseteq> {..<n}" "\<forall>i \<in> set [0..<n]. m i k = None" using m by auto
  from fetch_misses [OF A s(1) ctx s(2), of opts 0 "[]" "[]"] H obtain es w1 where
    l: "fetch_loop ctx k opts 0 (ms_caches ms) [] w = (Ok (None, zip (map level [0..<n]) es), w1)"
    and es: "length es = length [0..<n]" "\<forall>e \<in> set es. errors_is e ErrNotFound"
    and w1: "lv D m y (a + L) (b + H) w1" by (auto simp: caches L)
  from f(2) [OF w1] obtain v y' w2 where v: "f ctx k opts w1 = (Ok v, w2)" "good v y'" "lv D m y' (a + L + d) (b + H + d) w2"
    by blast
  let ?w3 = "AddCustomFields ctx [(''source'', ''loader'')] w2"
  have F: "FetchPolicySequential ctx ?gc w = (Ok (v, zip (map level [0..<n]) es), ?w3)"
    using l f(1) v(1) by (simp add: FetchPolicySequential_def multiCache_view_def multiCache_FetchByLoader_def)
  have w3: "lv D m y' (a + L + d) (b + H + d) ?w3"
    by (rule at_telemetry [OF v(3)]) (simp add: telemetry_only_def)
  from write_back [OF cfg sd w3 s(1) ctx good [OF v(2)] ttl clk es, of "?gc\<lparr>fc_GotValue := v\<rparr>" k] obtain w' where
    "multiCache_writeBack ms ctx (?gc\<lparr>fc_GotValue := v\<rparr>) (zip (map level [0..<n]) es) ?w3 = (Ok v, w')"
    "lv D (fill (set [0..<n]) k v m) y' (a + L + d) (b + H + d + along hi [0..<n]) w'" by auto
  then show ?thesis
    using F v(2) unfolding multiCache_Get_sequential [OF cfg] H(1) by (auto simp: Let_def atLeast0LessThan)
qed

lemma multi_Set:
  assumes "pool_law sd" and "ms_caches ms = map level [0..<n]" and "lv D m y a b w" and "ctx_deadline ctx = None"
    and "opts_total opts" and "storable v" and "0 \<le> ttl" "D \<le> a + ttl" and "\<And>t. a \<le> t \<Longrightarrow> clock t"
  shows "\<exists>w'. multiCache_Set sd ms ctx k v ttl opts w = (Ok (), w') \<and> lv D (fill {..<n} k v m) y a (b + along hi [0..<n]) w'"
  using pool_sets [OF assms(1,3) _ assms(4-9), of "[0..<n]" True k]
  by (simp add: multiCache_Set_def assms(2) atLeast0LessThan)

end

text \<open>What the observable decorator of the multi cache adds.\<close>

lemma mo_run_goes:
  assumes call: "\<And>ctx' w1. ctx_deadline ctx' = ctx_deadline ctx \<Longrightarrow> telemetry_only w w1 \<Longrightarrow> goes (call ctx' w1) Q"
    and Q: "\<And>v w1 w2. Q v w1 \<Longrightarrow> telemetry_only w1 w2 \<Longrightarrow> Q v w2"
  shows "goes (mo_run \<lparr>mo_inner = inner, mo_ob = \<lparr>ob_Metrics = Some NoopMetrics, ob_Logger = l\<rparr>, mo_name = name\<rparr> op msg get call ctx w) Q"
proof -
  let ?e = "fst (new_event op name [] w)" and ?w1 = "snd (new_event op name [] w)"
  have "telemetry_only w ?w1" by (simp add: telemetry_only_def)
  from call [OF _ this, of "ContextWithEvent ctx ?e"] obtain v w2 where
    c: "call (ContextWithEvent ctx ?e) ?w1 = (Ok v, w2)" "Q v w2" by (auto simp: goes_def)
  then have "Q v (update_event ?e (complete_event get (final_err (Ok v)) (w_now w2 - w_now w)) w2)"
    by (intro Q [OF c(2)]) (simp add: telemetry_only_def)
  with c show ?thesis by (simp add: mo_run_def split_beta obs_defer_Noop goes_def)
qed

section \<open>Levels in parts of the memory of their own\<close>

text \<open>A store with its contract that takes between \<open>lo\<close> and \<open>hi\<close> to look a key up.\<close>

definition quick_store :: "'y store \<Rightarrow> 'y view \<Rightarrow> (int \<Rightarrow> bool) \<Rightarrow> duration \<Rightarrow> duration \<Rightarrow> bool" where
  "quick_store st view clock lo hi \<longleftrightarrow> cache_contract st view (\<lambda>v. True) clock \<and>
     (\<forall>ctx k opts w. (ctx_deadline ctx = None \<longrightarrow> w_now w + lo \<le> w_now (snd (c_Get st ctx k opts w))) \<and>
        w_now (snd (c_Get st ctx k opts w)) \<le> w_now w + hi) \<and>
     (\<forall>ctx k v ttl opts w. w_now (snd (c_Set st ctx k v ttl opts w)) \<le> w_now w + hi)"

lemma hosted_level:
  fixes p :: "('x, 'y) part" and own :: "('x, 'm) part"
  assumes Q: "quick_store st view clock lo hi" and p: "memory_part p" "apart p own" and rt: "sequential rt"
  shows "quick_level (front T rt g (NewBaseCache T (hosted_store p st)) sn cn l) (typed_view T (hosted_view p view))
     (\<lambda>v. type_assert T v = Some v) clock own lo hi"
proof -
  from Q have C: "cache_contract st view (\<lambda>v. True) clock"
    and t: "\<And>ctx k opts w. ctx_deadline ctx = None \<Longrightarrow> w_now w + lo \<le> w_now (snd (c_Get st ctx k opts w))"
      "\<And>ctx k opts w. w_now (snd (c_Get st ctx k opts w)) \<le> w_now w + hi"
      "\<And>ctx k v ttl opts w. w_now (snd (c_Set st ctx k v ttl opts w)) \<le> w_now w + hi"
    by (simp_all add: quick_store_def)
  show ?thesis
  proof (rule front_level [OF base_level [OF memory_part.hosted_contract [OF p(1) C]] rt], goal_cases)
    case (1 w y)
    have "inside p (w\<lparr>w_ext := pt_put own y (w_ext w)\<rparr>) = inside p w" using p(2) by (simp add: inside_def apart_def)
    then show ?case by (simp add: hosted_view_def)
  next
    case (2 ctx k opts w)
    with t(1) [of ctx "inside p w" k opts] show ?case by (simp add: hosted_def split_beta)
  next
    case (3 ctx k opts w)
    with t(2) [of ctx k opts "inside p w"] show ?case by (simp add: hosted_def split_beta)
  next
    case (4 ctx k v ttl opts w)
    with t(3) [of ctx k v ttl opts "inside p w"] show ?case by (simp add: hosted_def split_beta)
  qed (simp_all add: hosted_apart [OF p(2)])
qed

text \<open>A level that keeps another part of the memory keeps what is seen of it.\<close>

lemma hosted_view_kept:
  assumes "blind view" and "pt_get q (w_ext w') = pt_get q (w_ext w)"
  shows "typed_view T (hosted_view q view) w' = typed_view T (hosted_view q view) w"
proof -
  have "view (inside q w') = view (inside q w)" using assms(2) by (intro blindD [OF assms(1)]) simp
  then show ?thesis by (simp add: fun_eq_iff typed_view_def map_view_with_def hosted_view_def)
qed

lemma hosted_levels:
  fixes p1 :: "('x, 'y) part" and p2 :: "('x, 'z) part" and own :: "('x, 'm) part"
  assumes Q: "quick_store st1 view1 clock lo1 hi1" "quick_store st2 view2 clock lo2 hi2"
    and p: "memory_part p1" "memory_part p2" "memory_part own" and ap: "apart p1 p2" "apart p1 own" "apart p2 own"
    and rt: "sequential rt"
  shows "quick_levels 2
     ((!) [front T rt g1 (NewBaseCache T (hosted_store p1 st1)) sn1 cn1 l1, front T rt g2 (NewBaseCache T (hosted_store p2 st2)) sn2 cn2 l2])
     ((!) [typed_view T (hosted_view p1 view1), typed_view T (hosted_view p2 view2)])
     (\<lambda>v. type_assert T v = Some v) clock own ((!) [lo1, lo2]) ((!) [hi1, hi2])"
proof -
  note L1 = hosted_level [OF Q(1) p(1) ap(2) rt, of T] and L2 = hosted_level [OF Q(2) p(2) ap(3) rt, of T]
  note K1 = quick_level.keeps [OF hosted_level [OF Q(1) p(1) ap(1) rt, of T]]
    and K2 = quick_level.keeps [OF hosted_level [OF Q(2) p(2) apart_sym [OF ap(1)] rt, of T]]
  have B: "blind view1" "blind view2" using Q by (auto simp: quick_store_def intro: cache_contract.view_blind)
  have two: "i = 0 \<or> i = 1" if "i < 2" for i :: nat using that by auto
  show ?thesis
  proof (rule quick_levels.intro, goal_cases)
    case 1 show ?case by (rule p(3))
  next
    case (2 i)
    with two [of i] L1 L2 show ?case by auto
  next
    case (3 i j ctx k opts w r w')
    with two [of i] two [of j] show ?case
      by (auto intro!: hosted_view_kept [OF B(1)] hosted_view_kept [OF B(2)] intro: K1 K2)
  next
    case (4 i j ctx k v ttl opts w u w')
    with two [of i] two [of j] show ?case
      by (auto intro!: hosted_view_kept [OF B(1)] hosted_view_kept [OF B(2)] intro: K1 K2)
  qed
qed

text \<open>The two stores of the example: ristretto with a quick client, and the map with its read delay.\<close>

lemma ristretto_quick:
  assumes C: "ristretto_immediate cl view clock" and q: "quick_client cl lag" and clock: "\<And>t. clock' t \<Longrightarrow> clock t"
  shows "quick_store (RistrettoStore \<lparr>ts_client = cl, ts_name = n\<rparr>) view clock' 0 (2 * lag)"
proof -
  let ?st = "RistrettoStore \<lparr>ts_client = cl, ts_name = n\<rparr>"
  have K: "cache_contract ?st view (\<lambda>v. True) clock" by (rule ristretto_immediate.RistrettoStore_contract [OF C]) simp
  have "w_now w \<le> w_now (snd (c_Get ?st ctx k opts w))" if "ctx_deadline ctx = None" for ctx k opts w
    using cache_contract.Get_law [OF K that, of k opts w "fst (c_Get ?st ctx k opts w)" "snd (c_Get ?st ctx k opts w)"]
    by (auto dest: reads_now)
  moreover have "quick_client (ts_client \<lparr>ts_client = cl, ts_name = n\<rparr>) lag" using q by simp
  note RistrettoStore_quick(1,2) [OF this]
  ultimately show ?thesis
    using contract_mono [OF K _ clock] unfolding quick_store_def by (simp del: RistrettoStore_ops)
qed

lemma map_quick:
  assumes "0 \<le> sm_readDelay s" and "\<And>t. clock t \<Longrightarrow> zero_time < t"
  shows "quick_store (SlowMapStore s) (map_view s) clock (sm_readDelay s) (sm_readDelay s)"
  using assms(1) contract_mono [OF map_store.cache_contract_axioms [of s] _ assms(2)]
  by (auto simp: quick_store_def SlowMapStore_Get_def SlowMapStore_Set_def Let_def split: option.splits)

section \<open>Calls of the built multi cache\<close>

text \<open>A multi cache with the default policy and filter, a loader and a write-back time.\<close>

definition program_state ::
    "'x scheduler \<Rightarrow> gotype \<Rightarrow> 'x runtime \<Rightarrow> nat \<Rightarrow> 'x loader \<Rightarrow> duration \<Rightarrow> (string \<Rightarrow> 'x log_fn) \<Rightarrow> 'x cache list \<Rightarrow> 'x multi_state" where
  "program_state sd T rt g f ttl slog cs =
     \<lparr>ms_caches = cs, ms_cfg = \<lparr>mf_LoaderFn = Some (SingleflightWrapper T rt g f),
        mf_FetchPolicy = Some FetchPolicySequential, mf_WriteBackCacheFilter = Some MissedCacheFilter,
        mf_WriteBackFn = Some (WriteBackParallel sd ttl), mf_ErrorHandleMode = ErrorHandleTolerant,
        mf_Observable = Some (DefaultObservable slog)\<rparr>\<rparr>"

lemma program_state_simps [simp]:
  "sequential_multi sd ttl (program_state sd T rt g f ttl slog cs)" "ms_caches (program_state sd T rt g f ttl slog cs) = cs"
  "mf_LoaderFn (ms_cfg (program_state sd T rt g f ttl slog cs)) = Some (SingleflightWrapper T rt g f)"
  by (simp_all add: program_state_def sequential_multi_def)

definition multi_program ::
    "'x scheduler \<Rightarrow> gotype \<Rightarrow> 'x runtime \<Rightarrow> nat \<Rightarrow> 'x loader \<Rightarrow> duration \<Rightarrow> (string \<Rightarrow> 'x log_fn) \<Rightarrow> string \<Rightarrow> 'x cache list \<Rightarrow> 'x multi_cache" where
  "multi_program sd T rt g f ttl slog name cs =
     multi_newObservableDecorator name (multiCache sd (program_state sd T rt g f ttl slog cs)) (DefaultObservable slog)"

lemma Multi_Build_program:
  assumes "name \<noteq> []"
  shows "Multi_Build sd T rt (WithWriteBack (Some (WriteBackParallel sd ttl)) (WithLoader (Some f) (NewMultiBuilder sd slog name cs))) w =
     (Ok (multi_program sd T rt (w_groups w) f ttl slog name cs), snd (new_group w))"
  using assms
  by (simp add: Multi_Build_def WithLoader_def WithWriteBack_def NewMultiBuilder_def multicache_New_def new_group_def
      DefaultObservable_def multi_program_def program_state_def Let_def)

lemma program_Get_goes:
  assumes G: "\<And>ctx w1. ctx_deadline ctx = None \<Longrightarrow> telemetry_only w w1 \<Longrightarrow>
      goes (multiCache_Get sd (program_state sd T rt g f ttl slog cs) ctx k opts w1) Q"
    and Q: "\<And>v w1 w2. Q v w1 \<Longrightarrow> telemetry_only w1 w2 \<Longrightarrow> Q v w2"
  shows "goes (mc_Get (multi_program sd T rt g f ttl slog name cs) Background k opts w) Q"
proof -
  let ?mc = "multiCache sd (program_state sd T rt g f ttl slog cs)"
  have "goes (mo_run \<lparr>mo_inner = ?mc, mo_ob = \<lparr>ob_Metrics = Some NoopMetrics, ob_Logger = Some (SlogLogger slog)\<rparr>, mo_name = name\<rparr>
      OpGet ''[observableDecorator.Get] Record Metrics Failed.'' True (\<lambda>ctx. mc_Get ?mc ctx k opts) Background w) Q"
    by (rule mo_run_goes [OF _ Q]) (simp_all add: multiCache_def demo_simps(6) G)
  then show ?thesis
    by (simp add: multi_program_def multi_newObservableDecorator_def multiObservable_Get_def DefaultObservable_def Let_def)
qed

lemma program_Set_goes:
  assumes S: "\<And>ctx w1. ctx_deadline ctx = None \<Longrightarrow> telemetry_only w w1 \<Longrightarrow>
      goes (multiCache_Set sd (program_state sd T rt g f ttl slog cs) ctx k v t opts w1) Q"
    and Q: "\<And>u w1 w2. Q u w1 \<Longrightarrow> telemetry_only w1 w2 \<Longrightarrow> Q u w2"
  shows "goes (mc_Set (multi_program sd T rt g f ttl slog name cs) Background k v t opts w) Q"
proof -
  let ?mc = "multiCache sd (program_state sd T rt g f ttl slog cs)"
  have "goes (mo_run \<lparr>mo_inner = ?mc, mo_ob = \<lparr>ob_Metrics = Some NoopMetrics, ob_Logger = Some (SlogLogger slog)\<rparr>, mo_name = name\<rparr>
      OpSet ''[observableDecorator.Set] Record Metrics Failed.'' False (\<lambda>ctx. mc_Set ?mc ctx k v t opts) Background w) Q"
    by (rule mo_run_goes [OF _ Q]) (simp_all add: multiCache_def demo_simps(6) S)
  then show ?thesis
    by (simp add: multi_program_def multi_newObservableDecorator_def multiObservable_Set_def DefaultObservable_def Let_def)
qed

context quick_levels
begin

text \<open>How long a call took, from the bounds on the clock.\<close>

lemma lv_now: "lv D m y a b w \<Longrightarrow> lv D m y (w_now w) (w_now w) w"
  by (simp add: levels_at_def)

lemma lv_elapsed:
  assumes "lv D m y a b w" and "lv D m' y' (w_now w + x) (w_now w + z) w'"
  shows "x \<le> w_now w' - w_now w \<and> w_now w' - w_now w \<le> z \<and> lv D m' y' (a + x) (b + z) w'"
  using assms by (simp add: levels_at_def)

lemma program_hit:
  assumes sd: "pool_law sd" and cs: "cs = map level [0..<n]" and A: "lv D m y a b w" and p: "p < n"
    and m: "\<forall>i < p. m i k = None" "m p k = Some v" and v: "storable v"
    and L: "L = along lo [0..<Suc p]" and H: "H = along hi [0..<Suc p]" "H' = along hi [0..<p]"
    and ttl: "0 \<le> ttl" "D \<le> a + L + ttl" and clk: "\<And>t. a + L \<le> t \<Longrightarrow> clock t" and D: "b + H \<le> D"
  shows "goes (mc_Get (multi_program sd T rt g f ttl slog name cs) Background k opts w) (\<lambda>r w'. r = v \<and>
     L \<le> w_now w' - w_now w \<and> w_now w' - w_now w \<le> H + H' \<and> lv D (fill {..<p} k v m) y (a + L) (b + (H + H')) w')"
proof -
  let ?Q = "\<lambda>r w'. r = v \<and> lv D (fill {..<p} k v m) y (w_now w + L) (w_now w + (H + H')) w'"
  have t: "a \<le> w_now w" "w_now w \<le> b" using A by (simp_all add: levels_at_def)
  have "goes (mc_Get (multi_program sd T rt g f ttl slog name cs) Background k opts w) ?Q"
  proof (rule program_Get_goes)
    fix ctx :: ctx and w1 assume ctx: "ctx_deadline ctx = None" and w1: "telemetry_only w w1"
    let ?ms = "program_state sd T rt g f ttl slog cs"
    note A1 = at_telemetry [OF lv_now [OF A] w1]
    have c: "ms_caches ?ms = map level [0..<n]" using cs by simp
    from multi_hit [where m = m and k = k and p = p, OF program_state_simps(1) sd c A1 p ctx m v ttl(1), of opts] ttl(2) clk D t L H obtain w' where
      "multiCache_Get sd ?ms ctx k opts w1 = (Ok v, w')"
      "lv D (fill {..<p} k v m) y (w_now w + L) (w_now w + H + H') w'" by auto
    then show "goes (multiCache_Get sd ?ms ctx k opts w1) ?Q" by (simp add: add.assoc)
  qed (auto intro: at_telemetry)
  then show ?thesis by (rule goes_mono) (auto dest: lv_elapsed [OF A])
qed

lemma program_loads:
  assumes sd: "pool_law sd" and cs: "cs = map level [0..<n]" and rt: "sequential rt" and A: "lv D m y a b w" and m: "\<forall>i < n. m i k = None"
    and L: "L = along lo [0..<n]" and H: "H = along hi [0..<n]" "b + H \<le> D"
    and f: "\<And>ctx a b w. lv D m y a b w \<Longrightarrow>
      \<exists>v y' w'. f ctx k opts w = (Ok v, w') \<and> good v y' \<and> lv D m y' (a + d) (b + d) w'"
    and good: "\<And>v y'. good v y' \<Longrightarrow> storable v \<and> type_assert T v = Some v"
    and ttl: "0 \<le> ttl" "D \<le> a + L + d + ttl" and clk: "\<And>t. a + L + d \<le> t \<Longrightarrow> clock t"
  shows "goes (mc_Get (multi_program sd T rt g f ttl slog name cs) Background k opts w) (\<lambda>v w'. \<exists>y'. good v y' \<and>
     L + d \<le> w_now w' - w_now w \<and> w_now w' - w_now w \<le> H + d + H \<and> lv D (fill {..<n} k v m) y' (a + (L + d)) (b + (H + d + H)) w')"
proof -
  let ?Q = "\<lambda>v w'. \<exists>y'. good v y' \<and> lv D (fill {..<n} k v m) y' (w_now w + (L + d)) (w_now w + (H + d + H)) w'"
  have t: "a \<le> w_now w" "w_now w \<le> b" using A by (simp_all add: levels_at_def)
  have "goes (mc_Get (multi_program sd T rt g f ttl slog name cs) Background k opts w) ?Q"
  proof (rule program_Get_goes)
    fix ctx :: ctx and w1 assume ctx: "ctx_deadline ctx = None" and w1: "telemetry_only w w1"
    let ?f = "SingleflightWrapper T rt g f"
    let ?ms = "program_state sd T rt g f ttl slog cs"
    note A1 = at_telemetry [OF lv_now [OF A] w1]
    have c: "ms_caches ?ms = map level [0..<n]" using cs by simp
    have F: "\<exists>v y' w'. ?f ctx k opts w2 = (Ok v, w') \<and> good v y' \<and> lv D m y' (a' + d) (b' + d) w'"
      if "lv D m y a' b' w2" for a' b' w2
    proof -
      from f [OF that, of ctx] obtain v y' w' where v: "f ctx k opts w2 = (Ok v, w')" "good v y'" "lv D m y' (a' + d) (b' + d) w'"
        by blast
      with flight_loader [where f = f, OF rt ctx v(1)] good [OF v(2)] show ?thesis by blast
    qed
    have b: "w_now w + H \<le> D" and a: "D \<le> w_now w + L + d + ttl" using H(2) ttl(2) t by simp_all
    from multi_loads [where m = m and k = k and good = good and f = ?f, OF program_state_simps(1) sd c A1 ctx m L H(1) b program_state_simps(3) F _ ttl(1) a] good clk t obtain v y' w' where
      "multiCache_Get sd ?ms ctx k opts w1 = (Ok v, w')" "good v y'"
      "lv D (fill {..<n} k v m) y' (w_now w + L + d) (w_now w + H + d + H) w'" by (force simp: add.assoc)
    then show "goes (multiCache_Get sd ?ms ctx k opts w1) ?Q" by (auto simp: add.assoc)
  qed (auto intro: at_telemetry)
  then show ?thesis by (rule goes_mono) (auto dest!: lv_elapsed [OF A])
qed

lemma program_Set:
  assumes sd: "pool_law sd" and cs: "cs = map level [0..<n]" and A: "lv D m y a b w" and opts: "opts_total opts"
    and v: "storable v" and t: "0 \<le> t" "D \<le> a + t" and clk: "\<And>t. a \<le> t \<Longrightarrow> clock t"
  shows "goes (mc_Set (multi_program sd T rt g f ttl slog name cs) Background k v t opts w)
     (\<lambda>_. lv D (fill {..<n} k v m) y a (b + along hi [0..<n]))"
proof (rule program_Set_goes)
  fix ctx :: ctx and w1 assume ctx: "ctx_deadline ctx = None" and w1: "telemetry_only w w1"
  have c: "ms_caches (program_state sd T rt g f ttl slog cs) = map level [0..<n]" using cs by simp
  show "goes (multiCache_Set sd (program_state sd T rt g f ttl slog cs) ctx k v t opts w1)
      (\<lambda>_. lv D (fill {..<n} k v m) y a (b + along hi [0..<n]))"
    using multi_Set [where m = m, OF sd c at_telemetry [OF A w1] ctx opts v t clk, of k] by (auto simp: goes_def)
qed (auto intro: at_telemetry)

end

end
