(* ===== verification/Example_Multi.thy ===== *)
theory Example_Multi
  imports Level_Program
begin

text \<open>
  examples/05\_advanced\_multi\_cache/main.go: a multi cache over ristretto and the slow in-memory
  store, with a loader. The process, the ristretto client and the maps have a part of the memory
  each; what the main prints includes how long every lookup took.
\<close>

section \<open>The program\<close>

definition L1_part :: "('p \<times> 'y \<times> 'z, 'y) part" where
  "L1_part = then_part second_part first_part"

definition L2_part :: "('p \<times> 'y \<times> 'z, 'z) part" where
  "L2_part = then_part second_part second_part"

definition newL1Cache ::
    "'x runtime \<Rightarrow> (string \<Rightarrow> 'x log_fn) \<Rightarrow> 'x ristretto_library \<Rightarrow> 'x world \<Rightarrow> 'x cache result \<times> 'x world" where
  "newL1Cache rt slog new w =
     on_ok (must (new example_config w)) (\<lambda>client w.
     let store = RistrettoStore (ristretto_New client [ristretto_WithStoreName ''L1-ristretto'']) in
     on_ok (must (NewBuilder TString slog ''L1-cache'' (Some store) [], w)) (\<lambda>builder w.
     must (built (Build TString rt builder w))))"

text \<open>The map of the second level lives at the address \<open>a\<close> of the part \<open>p\<close>.\<close>

definition newL2Cache ::
    "'x runtime \<Rightarrow> (string \<Rightarrow> 'x log_fn) \<Rightarrow> ('x, map_heap) part \<Rightarrow> nat \<Rightarrow> 'x world \<Rightarrow> 'x cache result \<times> 'x world" where
  "newL2Cache rt slog p a w =
     (let (s, w) = hosted p (NewSlowMapStore a ''L2-slow-map'' (80 * Millisecond)) w;
          store = hosted_store p (SlowMapStore s) in
      on_ok (must (NewBuilder TString slog ''L2-cache'' (Some store) [], w)) (\<lambda>builder w.
      must (built (Build TString rt builder w))))"

definition got_line :: "key \<Rightarrow> gval \<Rightarrow> duration \<Rightarrow> line" where
  "got_line key v d = LPrintf (lined ''get %-12s -> %-18q (%s)'') [OStr key, OVal v, ODur d]"

definition timedGet :: "('x, proc) part \<Rightarrow> ctx \<Rightarrow> 'x multi_cache \<Rightarrow> key \<Rightarrow> 'x world \<Rightarrow> unit result \<times> 'x world" where
  "timedGet out ctx c key w =
     (let start = w_now w in
      on_ok (must (mc_Get c ctx key [] w)) (\<lambda>v w. (Ok (), print out (got_line key v (w_now w - start)) w)))"

definition loader_value :: "32 word \<Rightarrow> gval" where
  "loader_value n = VString (''loader-value-'' @ Itoa32 n)"

definition multi_loader :: "('x, proc) part \<Rightarrow> 'x loader" where
  "multi_loader out ctx key opts w =
     (let (n, w) = count_call out w;
          w = wait (120 * Millisecond) w;
          v = loader_value n;
          w = print out (loader_line key v) w
      in (Ok v, w))"

definition L1_heading :: string where "L1_heading = ''[1] L1 hit: fast return''"
definition L2_heading :: string where "L2_heading = ''[2] L2 hit: first slower, then write-back makes second fast''"
definition miss_heading :: string where "miss_heading = ''[3] Full miss: loader fetches once and writes back to both levels''"

text \<open>The main: from the first \<open>Set\<close> on, and as a whole.\<close>

definition multi_body ::
    "'x scheduler \<Rightarrow> 'x runtime \<Rightarrow> (string \<Rightarrow> 'x log_fn) \<Rightarrow> ('x, proc) part \<Rightarrow> 'x cache \<Rightarrow> 'x cache \<Rightarrow> 'x world \<Rightarrow> unit result \<times> 'x world" where
  "multi_body sd rt slog out l1 l2 w =
     (let ctx = Background in
     on_ok (must (c_Set l2 ctx ''only-l2'' (VString ''value-from-L2'') Minute [] w)) (\<lambda>_ w.
     let w = reset_calls out w in
     on_ok (must (Multi_Build sd TString rt
         (WithWriteBack (Some (WriteBackParallel sd Minute)) (WithLoader (Some (multi_loader out))
           (NewMultiBuilder sd slog ''multi-L1-L2'' [l1, l2]))) w)) (\<lambda>mc w.
     let w = Println out L1_heading w in
     on_ok (must (mc_Set mc ctx ''hot'' (VString ''value-in-L1'') Minute [WithSynchronousSet True] w)) (\<lambda>_ w.
     on_ok (timedGet out ctx mc ''hot'' w) (\<lambda>_ w.
     let w = Println out L2_heading w in
     on_ok (timedGet out ctx mc ''only-l2'' w) (\<lambda>_ w.
     on_ok (timedGet out ctx mc ''only-l2'' w) (\<lambda>_ w.
     let w = Println out miss_heading w in
     on_ok (timedGet out ctx mc ''missing-key'' w) (\<lambda>_ w.
     on_ok (timedGet out ctx mc ''missing-key'' w) (\<lambda>_ w.
     (Ok (), Printf out (lined ''loader calls: %d'') [OInt (sint (calls out w))] w))))))))))"

definition multi_main ::
    "'x scheduler \<Rightarrow> 'x runtime \<Rightarrow> (string \<Rightarrow> 'x log_fn) \<Rightarrow> 'x ristretto_library \<Rightarrow> ('x, map_heap) part \<Rightarrow> nat \<Rightarrow>
     ('x, proc) part \<Rightarrow> 'x world \<Rightarrow> unit result \<times> 'x world" where
  "multi_main sd rt slog new p a out w =
     on_ok (newL1Cache rt slog new w) (\<lambda>l1 w.
     on_ok (newL2Cache rt slog p a w) (\<lambda>l2 w.
     multi_body sd rt slog out l1 l2 w))"

text \<open>What it prints, for the five times the lookups took.\<close>

definition multi_output :: "(nat \<Rightarrow> duration) \<Rightarrow> line list" where
  "multi_output d =
     [LPrintln L1_heading, got_line ''hot'' (VString ''value-in-L1'') (d 1),
      LPrintln L2_heading, got_line ''only-l2'' (VString ''value-from-L2'') (d 2),
      got_line ''only-l2'' (VString ''value-from-L2'') (d 3),
      LPrintln miss_heading, loader_line ''missing-key'' (loader_value 1),
      got_line ''missing-key'' (loader_value 1) (d 4), got_line ''missing-key'' (loader_value 1) (d 5),
      LPrintf (lined ''loader calls: %d'') [OInt 1]]"

section \<open>Its steps\<close>

lemma parts:
  "memory_part L1_part" "memory_part L2_part" "apart L1_part L2_part" "apart L1_part first_part" "apart L2_part first_part"
  unfolding L1_part_def L2_part_def
  by (rule then_memory_part apart_siblings first.memory_part_axioms second.memory_part_axioms apart_pair)+
    (simp_all add: apart_def second_part_def first_part_def then_part_def)

lemma apartD: "apart p q \<Longrightarrow> pt_get q (pt_put p y x) = pt_get q x"
  by (simp add: apart_def)

lemma newL1Cache_runs:
  assumes "new example_config w = (Ok client, w1)"
  shows "\<exists>g l w2. newL1Cache rt slog new w =
     (Ok (front TString rt g (NewBaseCache TString (RistrettoStore (ristretto_New client [ristretto_WithStoreName ''L1-ristretto''])))
        ''L1-ristretto'' ''L1-cache'' l), w2) \<and> telemetry_only w1 w2"
proof -
  let ?st = "RistrettoStore (ristretto_New client [ristretto_WithStoreName ''L1-ristretto''])"
  have "StoreName ?st = ''L1-ristretto''" by (simp add: ristretto_New_def ristretto_WithStoreName_def)
  moreover obtain b g l w2 where "NewBuilder TString slog ''L1-cache'' (Some ?st) [] = Ok b"
    "built (Build TString rt b w1) = (Ok (front TString rt g (NewBaseCache TString ?st) (StoreName ?st) ''L1-cache'' l), w2)"
    "telemetry_only w1 w2" using Build_default_front [of "''L1-cache''"] by blast
  ultimately show ?thesis using assms by (simp add: newL1Cache_def must_def del: RistrettoStore_ops) blast
qed

lemma newL2Cache_runs:
  fixes w :: "'x world"
  assumes "s = \<lparr>sm_addr = a, sm_name = ''L2-slow-map'', sm_readDelay = 80 * Millisecond\<rparr>"
  shows "\<exists>g l w2. newL2Cache rt slog p a w =
     (Ok (front TString rt g (NewBaseCache TString (hosted_store p (SlowMapStore s))) ''L2-slow-map'' ''L2-cache'' l), w2) \<and>
     telemetry_only (outside p w (put_data s Map.empty (inside p w))) w2"
proof -
  let ?st = "hosted_store p (SlowMapStore s)" and ?w = "outside p w (put_data s Map.empty (inside p w))"
  obtain b g l w2 where "NewBuilder TString slog ''L2-cache'' (Some ?st) [] = Ok b"
    "built (Build TString rt b ?w) = (Ok (front TString rt g (NewBaseCache TString ?st) (StoreName ?st) ''L2-cache'' l), w2)"
    "telemetry_only ?w w2" using Build_default_front [of "''L2-cache''"] by blast
  then show ?thesis
    by (simp add: newL2Cache_def must_def hosted_def NewSlowMapStore_def Let_def assms del: hosted_store_ops) (auto simp: assms)
qed

lemma timedGet_goes:
  assumes "goes (mc_Get c ctx k [] w) (\<lambda>v w'. R v (w_now w' - w_now w) w')"
  shows "goes (timedGet out ctx c k w) (\<lambda>_ w'. \<exists>v d w2. R v d w2 \<and> w' = print out (got_line k v d) w2)"
  using assms unfolding goes_def timedGet_def must_def Let_def by (elim exE conjE) auto

lemma lv_print:
  assumes "quick_levels n level view storable clock own lo hi" and "levels_at n view own D m y a b w"
  shows "levels_at n view own D m (y\<lparr>pr_out := pr_out y @ [l]\<rparr>) a b (print own l w)"
  using quick_levels.at_own [OF assms] assms(2) by (simp add: print_def levels_at_def)

lemma lv_reset:
  assumes "quick_levels n level view storable clock own lo hi" and "levels_at n view own D m y a b w"
  shows "levels_at n view own D m (y\<lparr>pr_calls := 0\<rparr>) a b (reset_calls own w)"
  using quick_levels.at_own [OF assms] assms(2) by (simp add: reset_calls_def levels_at_def)

definition multi_loaded :: "key \<Rightarrow> proc \<Rightarrow> gval \<Rightarrow> proc \<Rightarrow> bool" where
  "multi_loaded k y v y' \<longleftrightarrow> v = loader_value (pr_calls y + 1) \<and>
     y' = y\<lparr>pr_calls := pr_calls y + 1, pr_out := pr_out y @ [loader_line k v]\<rparr>"

lemma multi_loader_loads:
  assumes S: "quick_levels n level view storable clock own lo hi" and A: "levels_at n view own D m y a b w"
  shows "\<exists>v y' w'. multi_loader own ctx k opts w = (Ok v, w') \<and> multi_loaded k y v y' \<and>
     levels_at n view own D m y' (a + 120 * Millisecond) (b + 120 * Millisecond) w'"
proof -
  let ?n = "pr_calls y + 1" and ?l = "loader_line k (loader_value (pr_calls y + 1))"
  let ?w = "w\<lparr>w_ext := pt_put own (y\<lparr>pr_calls := ?n\<rparr>) (w_ext w)\<rparr>"
  have y: "pt_get own (w_ext w) = y" using A by (simp add: levels_at_def)
  have "levels_at n view own D m (y\<lparr>pr_calls := ?n\<rparr>) (a + 120 * Millisecond) (b + 120 * Millisecond) (wait (120 * Millisecond) ?w)"
    by (rule quick_levels.at_wait [OF S quick_levels.at_own [OF S A]]) (simp add: duration_defs)
  from lv_print [OF S this, of ?l]
  have "levels_at n view own D m (y\<lparr>pr_calls := ?n, pr_out := pr_out y @ [?l]\<rparr>) (a + 120 * Millisecond) (b + 120 * Millisecond)
      (print own ?l (wait (120 * Millisecond) ?w))" by simp
  moreover have "multi_loader own ctx k opts w = (Ok (loader_value ?n), print own ?l (wait (120 * Millisecond) ?w))"
    by (simp add: multi_loader_def count_call_def calls_def y Let_def)
  ultimately show ?thesis unfolding multi_loaded_def by blast
qed

lemma timed_hit:
  assumes S: "quick_levels n level view storable clock own lo hi" and sd: "pool_law sd" and cs: "cs = map level [0..<n]"
    and A: "levels_at n view own D m y a b w" and p: "p < n" and m: "\<forall>i < p. m i k = None" "m p k = Some v" and v: "storable v"
    and L: "L = along lo [0..<Suc p]" and H: "H = along hi [0..<Suc p]" "H' = along hi [0..<p]"
    and ttl: "0 \<le> ttl" "D \<le> a + L + ttl" and clk: "\<And>t. a + L \<le> t \<Longrightarrow> clock t" and D: "b + H \<le> D"
  shows "goes (timedGet own Background (multi_program sd T rt g f ttl slog name cs) k w) (\<lambda>_ w'. \<exists>d. L \<le> d \<and> d \<le> H + H' \<and>
     levels_at n view own D (fill {..<p} k v m) (y\<lparr>pr_out := pr_out y @ [got_line k v d]\<rparr>) (a + L) (b + (H + H')) w')"
  by (rule goes_mono [OF timedGet_goes [where R = "\<lambda>r d w'. r = v \<and> L \<le> d \<and> d \<le> H + H' \<and>
        levels_at n view own D (fill {..<p} k v m) y (a + L) (b + (H + H')) w'",
        OF quick_levels.program_hit [where m = m, OF S sd cs A p m v L H ttl clk D]]])
    (auto intro: lv_print [OF S])

lemma timed_loads:
  assumes S: "quick_levels n level view storable clock own lo hi" and sd: "pool_law sd" and cs: "cs = map level [0..<n]"
    and rt: "sequential rt" and A: "levels_at n view own D m y a b w" and m: "\<forall>i < n. m i k = None"
    and L: "L = along lo [0..<n]" and H: "H = along hi [0..<n]" "b + H \<le> D"
    and v: "v = loader_value (pr_calls y + 1)" "storable v" "type_assert T v = Some v"
    and d: "d = 120 * Millisecond" and ttl: "0 \<le> ttl" "D \<le> a + L + d + ttl" and clk: "\<And>t. a + L + d \<le> t \<Longrightarrow> clock t"
  shows "goes (timedGet own Background (multi_program sd T rt g (multi_loader own) ttl slog name cs) k w) (\<lambda>_ w'. \<exists>x. L + d \<le> x \<and>
     levels_at n view own D (fill {..<n} k v m)
       (y\<lparr>pr_calls := pr_calls y + 1, pr_out := pr_out y @ [loader_line k v, got_line k v x]\<rparr>) (a + (L + d)) (b + (H + d + H)) w')"
proof -
  have good: "storable u \<and> type_assert T u = Some u" if "multi_loaded k y u y'" for u y'
    using that v by (simp add: multi_loaded_def)
  note G = quick_levels.program_loads [where m = m and good = "multi_loaded k y" and d = d and T = T and f = "multi_loader own",
      OF S sd cs rt A m L H _ good ttl clk]
  have "goes (timedGet own Background (multi_program sd T rt g (multi_loader own) ttl slog name cs) k w)
      (\<lambda>_ w'. \<exists>u x w2. (\<exists>y'. multi_loaded k y u y' \<and> L + d \<le> x \<and> x \<le> H + d + H \<and>
        levels_at n view own D (fill {..<n} k u m) y' (a + (L + d)) (b + (H + d + H)) w2) \<and> w' = print own (got_line k u x) w2)"
    by (rule timedGet_goes, rule G) (use multi_loader_loads [OF S] d in auto)
  then show ?thesis
    by (rule goes_mono) (force simp: multi_loaded_def v(1) dest: lv_print [OF S])
qed

text \<open>The levels of the example keep the laws, here over a ristretto that is an in-memory store.\<close>

abbreviation example_map :: "nat \<Rightarrow> slow_map_store" where
  "example_map a \<equiv> \<lparr>sm_addr = a, sm_name = ''L2-slow-map'', sm_readDelay = 80 * Millisecond\<rparr>"

lemma example_map_quick: "quick_store (SlowMapStore (example_map a)) (map_view (example_map a)) (\<lambda>t. zero_time < t) (80 * Millisecond) (80 * Millisecond)"
  using map_quick [of "example_map a" "\<lambda>t. zero_time < t"] by (simp add: duration_defs)

lemma demo_ristretto_quick:
  "quick_store (RistrettoStore \<lparr>ts_client = store_client (SlowMapStore demo_map), ts_name = n\<rparr>) (map_view demo_map) (\<lambda>t. zero_time < t) 0 (2 * 0)"
  by (rule ristretto_quick [OF map_ristretto.ristretto_immediate_axioms store_client_quick]) simp_all

interpretation slow_level: quick_level
  "front TString seq_runtime g (NewBaseCache TString (hosted_store L2_part (SlowMapStore (example_map a)))) sn cn l"
  "typed_view TString (hosted_view L2_part (map_view (example_map a)))" "\<lambda>v. type_assert TString v = Some v" "\<lambda>t. zero_time < t"
  "first_part :: (proc \<times> map_heap \<times> map_heap, proc) part" "80 * Millisecond" "80 * Millisecond" for g a sn cn l
  by (rule hosted_level [OF example_map_quick parts(2,5) seq_runtime_sequential])

interpretation both_levels: quick_levels 2
  "(!) [front TString seq_runtime 0 (NewBaseCache TString (hosted_store L1_part
          (RistrettoStore \<lparr>ts_client = store_client (SlowMapStore demo_map), ts_name = ''L1-ristretto''\<rparr>))) ''L1-ristretto'' ''L1-cache'' l,
        front TString seq_runtime 1 (NewBaseCache TString (hosted_store L2_part (SlowMapStore (example_map a)))) ''L2-slow-map'' ''L2-cache'' l]"
  "(!) [typed_view TString (hosted_view L1_part (map_view demo_map)), typed_view TString (hosted_view L2_part (map_view (example_map a)))]"
  "\<lambda>v. type_assert TString v = Some v" "\<lambda>t. zero_time < t" "first_part :: (proc \<times> map_heap \<times> map_heap, proc) part"
  "(!) [0, 80 * Millisecond]" "(!) [2 * 0, 80 * Millisecond]" for a l
  by (rule hosted_levels [OF demo_ristretto_quick example_map_quick parts(1,2) first.memory_part_axioms parts(3-5) seq_runtime_sequential])

section \<open>The run\<close>

lemma two [simp]: "[0..<2] = [0, 1]" "[0..<Suc 0] = [0]" "[0..<Suc (Suc 0)] = [0, Suc 0]"
  by (simp_all add: upt_rec)

text \<open>An empty level holds nothing, whatever the deadline.\<close>

lemma wiped_level: "wipes view w w' \<Longrightarrow> holds D (typed_view T view) w' Map.empty"
  unfolding typed_view_def by (rule holds_wiped [OF map_view_with_wipes])

text \<open>The two levels of the example, at the instant \<open>T\<close> and for a minute.\<close>

definition example_levels :: "(proc \<times> 'y) cache list \<Rightarrow> (nat \<Rightarrow> (proc \<times> 'y) view) \<Rightarrow> int \<Rightarrow> duration \<Rightarrow> bool" where
  "example_levels cs vs t0 lag \<longleftrightarrow> length cs = 2 \<and> 0 \<le> lag \<and> 2 * lag < 80 * Millisecond \<and>
     quick_levels 2 ((!) cs) vs (\<lambda>v. type_assert TString v = Some v) (\<lambda>t. t0 \<le> t) first_part
       ((!) [0, 80 * Millisecond]) ((!) [2 * lag, 80 * Millisecond])"

abbreviation multi_at ::
    "(nat \<Rightarrow> (proc \<times> 'y) view) \<Rightarrow> int \<Rightarrow> (nat \<Rightarrow> key \<rightharpoonup> gval) \<Rightarrow> proc \<Rightarrow> duration \<Rightarrow> duration \<Rightarrow> (proc \<times> 'y) world \<Rightarrow> bool" where
  "multi_at vs T m y a b \<equiv> levels_at 2 vs first_part (T + Minute) m y (T + a) (T + b)"

abbreviation example_multi ::
    "'x scheduler \<Rightarrow> 'x runtime \<Rightarrow> nat \<Rightarrow> ('x, proc) part \<Rightarrow> (string \<Rightarrow> 'x log_fn) \<Rightarrow> 'x cache list \<Rightarrow> 'x multi_cache" where
  "example_multi sd rt g out slog cs \<equiv> multi_program sd TString rt g (multi_loader out) Minute slog ''multi-L1-L2'' cs"

text \<open>Both levels, once they are built.\<close>

lemma levels_built:
  fixes w :: "(proc \<times> 'y \<times> map_heap) world"
  assumes C: "ristretto_immediate cl view clock" and Q: "quick_client cl lag" and h: "2 * lag < 80 * Millisecond" and new: "opens new L1_part cl view first_part"
    and clock: "\<And>t. w_now w \<le> t \<Longrightarrow> clock t" "zero_time < w_now w" and rt: "sequential rt"
  shows "goes (newL1Cache rt slog new w) (\<lambda>l1 w1. goes (newL2Cache rt slog L2_part a w1) (\<lambda>l2 w2. \<exists>vs. w_now w \<le> w_now w2 \<and>
     example_levels [l1, l2] vs (w_now w) lag \<and> multi_at vs (w_now w2) (\<lambda>_. Map.empty) (fst (w_ext w)) 0 0 w2))"
proof -
  let ?s = "example_map a"
  let ?client = "hosted_client L1_part cl :: (proc \<times> 'y \<times> map_heap) ristretto_client" and ?n = "''L1-ristretto''"
  let ?st1 = "RistrettoStore \<lparr>ts_client = cl, ts_name = ?n\<rparr>" and ?st2 = "SlowMapStore ?s"
  let ?V1 = "hosted_view L1_part view :: (proc \<times> 'y \<times> map_heap) view"
  let ?V2 = "hosted_view L2_part (map_view ?s) :: (proc \<times> 'y \<times> map_heap) view"
  have st1: "RistrettoStore (ristretto_New ?client [ristretto_WithStoreName ?n]) = hosted_store L1_part ?st1"
    using memory_part.hosted_RistrettoStore [OF parts(1)] by (simp add: ristretto_New_def ristretto_WithStoreName_def)
  obtain w1 where w1: "new example_config w = (Ok ?client, w1)" "pt_get first_part (w_ext w1) = fst (w_ext w)" "wipes ?V1 w w1"
    using new unfolding opens_def by fastforce
  obtain g1 k1 w2 where w2: "newL1Cache rt slog new w =
      (Ok (front TString rt g1 (NewBaseCache TString (hosted_store L1_part ?st1)) ?n ''L1-cache'' k1), w2)" "telemetry_only w1 w2"
    using newL1Cache_runs [where new = new and w = w, OF w1(1)] unfolding st1 by blast
  let ?w3 = "outside L2_part w2 (put_data ?s Map.empty (inside L2_part w2))"
  obtain g2 k2 w4 where w4: "newL2Cache rt slog L2_part a w2 =
      (Ok (front TString rt g2 (NewBaseCache TString (hosted_store L2_part ?st2)) ''L2-slow-map'' ''L2-cache'' k2), w4)" "telemetry_only ?w3 w4"
    using newL2Cache_runs [OF refl] by blast
  have q1: "quick_store ?st1 view (\<lambda>t. w_now w \<le> t) 0 (2 * lag)" by (rule ristretto_quick [OF C Q clock(1)])
  have q2: "quick_store ?st2 (map_view ?s) (\<lambda>t. w_now w \<le> t) (80 * Millisecond) (80 * Millisecond)"
    using map_quick [of ?s "\<lambda>t. w_now w \<le> t"] clock(2) by (simp add: duration_defs)
  note S = hosted_levels [OF q1 q2 parts(1,2) first.memory_part_axioms parts(3-5) rt, of TString g1 ?n "''L1-cache''" k1 g2 "''L2-slow-map''" "''L2-cache''" k2]
  have e: "w_now w4 = w_now w1" "w_ext w4 = pt_put L2_part ((pt_get L2_part (w_ext w1))(a := Map.empty)) (w_ext w1)"
    using w2(2) w4(2) by (simp_all add: telemetry_only_def put_data_def)
  have kept: "pt_get L1_part (w_ext w4) = pt_get L1_part (w_ext w1)" "fst (w_ext w4) = fst (w_ext w1)"
    using apartD [OF apart_sym [OF parts(3)]] apartD [OF parts(5)] unfolding e(2) by simp_all
  have "reads ?V1 w1 w4"
    using kept(1) e(1) blindD [OF ristretto_cache.view_blind, of cl view clock "inside L1_part w4" "inside L1_part w1"] C
    by (simp add: reads_def hosted_view_def ristretto_immediate_def)
  then have "wipes ?V1 w w4" by (rule wipes_reads [OF w1(3)])
  moreover have "wipes ?V2 w4 w4"
    by (simp add: wipes_def hosted_view_def map_view_def map_data_def e(2) memory_part.get_put [OF parts(2)])
  ultimately have "levels_at 2 ((!) [typed_view TString ?V1, typed_view TString ?V2]) first_part D (\<lambda>_. Map.empty) (fst (w_ext w)) (w_now w4 + 0) (w_now w4 + 0) w4" for D
    using kept(2) w1(2) by (auto simp: levels_at_def less_2_cases_iff wiped_level)
  moreover have "w_now w \<le> w_now w4" using w1(3) e(1) by (simp add: wipes_def)
  ultimately show ?thesis
    using Q h S unfolding w2(1) goes_Ok w4(1) example_levels_def quick_client_def by (intro exI conjI) (assumption | simp)+
qed

lemma example_caches: "example_levels cs vs t0 lag \<Longrightarrow> cs = map ((!) cs) [0..<2]"
  by (metis example_levels_def map_nth)

lemma string_typed [simp]: "type_assert TString (VString s) = Some (VString s)" "type_assert TString (loader_value n) = Some (loader_value n)"
  by (simp_all add: type_assert_def loader_value_def)

lemma first_hit:
  assumes E: "example_levels cs vs t0 lag" and sd: "pool_law sd" and A: "multi_at vs T m y a b w"
    and m: "m 0 k = Some v" "type_assert TString v = Some v" and t: "t0 \<le> T" "0 \<le> a" "b + 2 * lag \<le> Minute"
  shows "goes (timedGet first_part Background (example_multi sd rt g first_part slog cs) k w) (\<lambda>_ w'. \<exists>d. d < 80 * Millisecond \<and>
     multi_at vs T m (y\<lparr>pr_out := pr_out y @ [got_line k v d]\<rparr>) a (b + 2 * lag) w')"
proof -
  from E have S: "quick_levels 2 ((!) cs) vs (\<lambda>v. type_assert TString v = Some v) (\<lambda>t. t0 \<le> t) first_part
       ((!) [0, 80 * Millisecond]) ((!) [2 * lag, 80 * Millisecond])" and h: "2 * lag < 80 * Millisecond"
    by (simp_all add: example_levels_def)
  have "goes (timedGet first_part Background (example_multi sd rt g first_part slog cs) k w) (\<lambda>_ w'. \<exists>d. 0 \<le> d \<and> d \<le> 2 * lag + 0 \<and>
     levels_at 2 vs first_part (T + Minute) (fill {..<0} k v m) (y\<lparr>pr_out := pr_out y @ [got_line k v d]\<rparr>) (T + a + 0) (T + b + (2 * lag + 0)) w')"
    by (rule timed_hit [where m = m, OF S sd example_caches [OF E] A]) (use m t in \<open>simp_all add: duration_defs\<close>)
  then show ?thesis
    by (rule goes_mono) (elim exE conjE, intro exI conjI, erule le_less_trans, use h in \<open>simp_all add: add.assoc\<close>)
qed

lemma second_hit:
  assumes E: "example_levels cs vs t0 lag" and sd: "pool_law sd" and A: "multi_at vs T m y a b w"
    and m: "m 0 k = None" "m 1 k = Some v" "type_assert TString v = Some v"
    and t: "t0 \<le> T" "0 \<le> a" "b + 2 * lag + 80 * Millisecond \<le> Minute"
  shows "goes (timedGet first_part Background (example_multi sd rt g first_part slog cs) k w) (\<lambda>_ w'. \<exists>d. 80 * Millisecond \<le> d \<and>
     multi_at vs T (fill {0} k v m) (y\<lparr>pr_out := pr_out y @ [got_line k v d]\<rparr>) a (b + 4 * lag + 80 * Millisecond) w')"
proof -
  from E have S: "quick_levels 2 ((!) cs) vs (\<lambda>v. type_assert TString v = Some v) (\<lambda>t. t0 \<le> t) first_part
       ((!) [0, 80 * Millisecond]) ((!) [2 * lag, 80 * Millisecond])"
    by (simp add: example_levels_def)
  have z: "{..<1} = {0 :: nat}" by auto
  show ?thesis
    by (rule goes_mono [OF timed_hit [where m = m and p = 1 and v = v and L = "80 * Millisecond" and H = "2 * lag + 80 * Millisecond" and H' = "2 * lag",
          OF S sd example_caches [OF E] A]])
      (use m t in \<open>auto simp: duration_defs add.assoc z [simplified] elim!: levels_at_weaken\<close>)
qed

lemma full_miss:
  assumes E: "example_levels cs vs t0 lag" and sd: "pool_law sd" and rt: "sequential rt" and A: "multi_at vs T m y a b w"
    and m: "m 0 k = None" "m 1 k = None" and v: "v = loader_value (pr_calls y + 1)"
    and t: "t0 \<le> T" "0 \<le> a" "b + 2 * lag + 80 * Millisecond \<le> Minute"
  shows "goes (timedGet first_part Background (example_multi sd rt g first_part slog cs) k w) (\<lambda>_ w'. \<exists>d. 200 * Millisecond \<le> d \<and>
     multi_at vs T (fill {..<2} k v m)
       (y\<lparr>pr_calls := pr_calls y + 1, pr_out := pr_out y @ [loader_line k v, got_line k v d]\<rparr>) a (b + 4 * lag + 280 * Millisecond) w')"
proof -
  from E have S: "quick_levels 2 ((!) cs) vs (\<lambda>v. type_assert TString v = Some v) (\<lambda>t. t0 \<le> t) first_part
       ((!) [0, 80 * Millisecond]) ((!) [2 * lag, 80 * Millisecond])"
    by (simp add: example_levels_def)
  have m': "\<forall>i < 2. m i k = None" using m by (auto simp: less_2_cases_iff)
  show ?thesis
    by (rule goes_mono [OF timed_loads [where m = m and v = v and L = "80 * Millisecond" and H = "2 * lag + 80 * Millisecond" and d = "120 * Millisecond",
          OF S sd example_caches [OF E] rt A m']])
      (use v t in \<open>auto simp: duration_defs add.assoc elim!: levels_at_weaken\<close>)
qed

lemma must_step: "on_ok (must (Ok x, w)) f = f x w"
  by (simp add: must_def)

lemma multi_print:
  "example_levels cs vs t0 lag \<Longrightarrow> multi_at vs T m y a b w \<Longrightarrow>
   multi_at vs T m (y\<lparr>pr_out := pr_out y @ [l]\<rparr>) a b (print first_part l w)"
  using lv_print by (auto simp: example_levels_def)

text \<open>The writes of the example: to the second level, and to both.\<close>

lemma second_Set:
  assumes E: "example_levels [l1, l2] vs t0 lag" and A: "multi_at vs T m y a b w" and v: "type_assert TString v = Some v"
    and t: "t0 \<le> T" "0 \<le> a"
  shows "goes (c_Set l2 Background k v Minute [] w) (\<lambda>_. multi_at vs T (fill {1} k v m) y a (b + 80 * Millisecond))"
proof -
  from E have S: "quick_levels 2 ((!) [l1, l2]) vs (\<lambda>v. type_assert TString v = Some v) (\<lambda>t. t0 \<le> t) first_part
       ((!) [0, 80 * Millisecond]) ((!) [2 * lag, 80 * Millisecond])" by (simp add: example_levels_def)
  from quick_levels.level_Set [OF S A, of 1 Background "[]" v Minute k] v t show ?thesis
    by (auto simp: goes_def demo_simps(6) duration_defs add.assoc)
qed

lemma both_Set:
  assumes E: "example_levels cs vs t0 lag" and sd: "pool_law sd" and A: "multi_at vs T m y a b w" and v: "type_assert TString v = Some v"
    and t: "t0 \<le> T" "0 \<le> a"
  shows "goes (mc_Set (example_multi sd rt g first_part slog cs) Background k v Minute [WithSynchronousSet True] w)
     (\<lambda>_. multi_at vs T (fill {..<2} k v m) y a (b + 2 * lag + 80 * Millisecond))"
proof -
  from E have S: "quick_levels 2 ((!) cs) vs (\<lambda>v. type_assert TString v = Some v) (\<lambda>t. t0 \<le> t) first_part
       ((!) [0, 80 * Millisecond]) ((!) [2 * lag, 80 * Millisecond])" by (simp add: example_levels_def)
  show ?thesis
    by (rule goes_mono [OF quick_levels.program_Set [where m = m, OF S sd example_caches [OF E] A]])
      (use v t in \<open>simp_all add: duration_defs add.assoc\<close>)
qed

lemma multi_owns: "multi_at vs T m y a b w \<Longrightarrow> fst (w_ext w) = y"
  by (simp add: levels_at_def)

lemma multi_body_runs:
  fixes w :: "(proc \<times> 'y) world"
  assumes E: "example_levels [l1, l2] vs t0 lag" and T: "t0 \<le> w_now w"
    and A: "multi_at vs (w_now w) (\<lambda>_. Map.empty) y 0 0 w" and sd: "pool_law sd" and rt: "sequential rt"
  shows "goes (multi_body sd rt slog first_part l1 l2 w) (\<lambda>_ w'. \<exists>d.
     printed first_part w' = pr_out y @ multi_output d \<and> calls first_part w' = 1 \<and>
     d 1 < 80 * Millisecond \<and> 80 * Millisecond \<le> d 2 \<and> d 3 < 80 * Millisecond \<and>
     200 * Millisecond \<le> d 4 \<and> d 5 < 80 * Millisecond)"
proof -
  let ?cs = "[l1, l2]"
  from E have h: "0 \<le> lag" "2 * lag < 80 * Millisecond" by (simp_all add: example_levels_def)
  note S = E [unfolded example_levels_def, THEN conjunct2, THEN conjunct2, THEN conjunct2]
  note name = Multi_Build_program [of "''multi-L1-L2''", OF list.simps(3)]
  have tel: "telemetry_only u (snd (new_group u))" for u :: "(proc \<times> 'y) world"
    by (simp add: telemetry_only_def new_group_def)
  note pr = multi_print [OF E] and miss = goes_on_ok [OF full_miss [OF E sd rt]]
  show ?thesis
    unfolding multi_body_def Let_def Println_def Printf_def
    apply (rule goes_step [OF second_Set [OF E A _ T]], simp, simp)
    apply (unfold name must_step)
    apply (rule goes_step [OF both_Set [OF E sd pr [OF quick_levels.at_telemetry [OF S lv_reset [OF S] tel]] _ T]], assumption, simp, simp)
    apply (rule goes_on_ok [OF first_hit [where v = "VString ''value-in-L1''", OF E sd]], assumption, simp add: fill_def, simp, rule T, simp)
     apply (use h in \<open>simp add: duration_defs\<close>)[1]
    apply (elim exE conjE)
    apply (rule goes_on_ok [OF second_hit [where v = "VString ''value-from-L2''", OF E sd]], erule pr, simp add: fill_def, simp add: fill_def, simp, rule T, simp)
     apply (use h in \<open>simp add: duration_defs\<close>)[1]
    apply (elim exE conjE)
    apply (rule goes_on_ok [OF first_hit [where v = "VString ''value-from-L2''", OF E sd]], assumption, simp add: fill_def, simp, rule T, simp)
     apply (use h in \<open>simp add: duration_defs\<close>)[1]
    apply (elim exE conjE)
    apply (rule miss [OF _ _ _ refl], erule pr, simp add: fill_def, simp add: fill_def, rule T, simp)
     apply (use h in \<open>simp add: duration_defs\<close>)[1]
    apply (elim exE conjE)
    apply (rule goes_on_ok [OF first_hit [where v = "loader_value 1", OF E sd]], assumption, simp add: fill_def, simp, rule T, simp)
     apply (use h in \<open>simp add: duration_defs\<close>)[1]
    apply (elim exE conjE)
    apply (drule multi_owns)+
    subgoal for _ _ _ _ _ _ d1 _ _ d2 _ _ d3 _ _ d4 _ _ d5
      by (simp add: printed_def calls_def print_own [OF first.memory_part_axioms] multi_output_def)
        (rule exI [of _ "(!) [0, d1, d2, d3, d4, d5]"], simp)
    done
qed


text \<open>A library over an in-memory store in a part of the memory.\<close>

definition map_library_in :: "('x, map_heap) part \<Rightarrow> slow_map_store \<Rightarrow> 'x ristretto_library" where
  "map_library_in p s cfg w =
     (Ok (hosted_client p (store_client (SlowMapStore s))), outside p w (put_data s Map.empty (inside p w)))"

lemma map_library_in_opens:
  assumes "memory_part p" and "apart p own"
  shows "opens (map_library_in p s) p (store_client (SlowMapStore s)) (map_view s) own"
  using memory_part.get_put [OF assms(1)] apartD [OF assms(2)]
  by (auto simp: opens_def map_library_in_def wipes_def hosted_view_def map_view_def map_data_def put_data_def)

definition idle_levels :: "(proc \<times> map_heap \<times> map_heap) world" where
  "idle_levels = \<lparr>w_now = 0, w_events = [], w_groups = 0, w_ext = (\<lparr>pr_out = [], pr_calls = 0\<rparr>, \<lambda>a. Map.empty, \<lambda>a. Map.empty)\<rparr>"


end
