(* ===== verification/Spec2Isabelle.thy ===== *)
theory Spec2Isabelle
  imports Build_Contracts Option_Order Stats_Metrics Multi_Properties Store_Suite Valkey_Store Ristretto_Store
    Ristretto_Contract Map_Store_Threads Example_Observability Example_Logic_Expiry Example_Remote
    Example_Multi
begin

text \<open>
  A verification of cachalot, a Go library that builds caches out of layers over a key-value
  store, and combines several caches into a multi-level cache.

  \<^bold>\<open>The program.\<close> A \<open>Store\<close> (core/cache/store.go) holds untyped values. \<open>BaseCache[T]\<close> turns it
  into a \<open>Cache[T]\<close>; decorators wrap a \<open>Cache\<close> and are a \<open>Cache\<close> again: codecs, compression and the
  byte adapter translate values on the way in and out (the byte stage), logical expiry stores
  values with a deadline of their own and refreshes them, the missed loader and the nil cache act
  on a miss, singleflight merges concurrent lookups, and the observable decorator records events.
  \<open>Builder\<close> (cache.go, cache_features.go, builder_stage_features.go, compile.go) collects options
  and compiles them into such a stack. \<open>multiCache\<close> (core/multicache) reads several caches in order,
  falls back to a loader and writes the caches that missed back; \<open>MultiBuilder\<close> (multi_cache.go)
  assembles it.

  \<^bold>\<open>How it is modelled.\<close> A call is a function from a world to an outcome (\<open>Ok\<close>, \<open>Err\<close>, \<open>Panic\<close>) and a
  world; early returns and panics are branches (\<open>on_ok\<close>, \<open>bind_ok\<close>). The world holds the clock, the
  heap of telemetry events, the number of singleflight groups, and the state \<open>'x\<close> of everything
  outside. Interfaces are records of functions; a generic type argument is a \<open>gotype\<close>, and values
  carry their dynamic type, so that every type assertion of the source is a branch. Errors keep
  the structure that \<open>errors.Is\<close> inspects. Times are integers of nanoseconds; the 64-bit wire format
  is modelled on words, down to its bits.

  \<^item> \<open>Cachalot_Prelude\<close>, \<open>Go_Values\<close>, \<open>Go_Errors\<close>, \<open>Telemetry\<close>: outcomes, values, instants, errors,
    contexts, events, loggers and metrics (core/telemetry, internal, core/cache/errors.go).
  \<^item> \<open>Cache_Core\<close>: core/cache, i.e. stores, caches, call options, the base cache, \<open>New\<close>.
  \<^item> \<open>Cache_Contract\<close>: the documented contract of Store and Cache as the locale \<open>cache_contract\<close>,
    over a \<^emph>\<open>view\<close>: what a lookup at a given instant would report.
  \<^item> \<open>Map_Store\<close>: the in-memory store of the repository, which interprets the contract.
    \<open>Map_Store_Threads\<close>: the same code statement by statement with its lock, run by threads that
    interleave in any way.
  \<^item> \<open>Transcode\<close>: the locale \<open>transcoder\<close>, for layers that translate values, with the contract of the
    translated cache as a sublocale; the base cache is its interpretation.
  \<^item> \<open>Byte_Stage\<close>, \<open>Observable_Decorator\<close>, \<open>Singleflight\<close>, \<open>Loaders\<close>, \<open>Logic_Expire\<close>: the decorators
    (core/decorator, core/codec, internal/adapter), each from its own source, each with the lemma
    that it keeps the contract of the cache it wraps (or, for loaders, what it adds to it).
  \<^item> \<open>Builder\<close>, \<open>Builder_Laws\<close>: the builder, option by option, and what \<open>Build\<close> produces: the order of
    the layers, the refused configurations (with an inductive relation for chains of option calls),
    and the contract of the assembled stack.
  \<^item> \<open>Multi_Cache\<close>, \<open>Multi_Builder\<close>, \<open>Multi_Laws\<close>, \<open>Multi_Properties\<close>: the multi cache and its builders;
    the locale \<open>cache_levels\<close> for levels that keep the contract and do not disturb one another, its
    interpretation on base caches over in-memory stores, and the properties of reads and writes.
  \<^item> \<open>Type_Soundness\<close>, \<open>Typed_Builder\<close>: the locale \<open>typed_cache\<close> (no panic, values of the type, an invariant
    of the outside world), that every layer, factory and option keeps it, and client sessions.
  \<^item> \<open>Option_Order\<close>: the option methods as data, and that independent ones commute.
  \<^item> \<open>Store_Contract\<close>: what the Store interface (core/cache/store.go) promises of an adapter: the locale
    \<open>store_contract\<close>, of which \<open>cache_contract\<close> is the exact case, and \<open>conforming_store\<close>, which adds the
    error sentinels, contexts that are done, and bounds on time.
  \<^item> \<open>Redis_Store\<close>, \<open>Valkey_Store\<close>, \<open>Freecache_Store\<close>, \<open>Ristretto_Store\<close>: the adapters of stores/, each over
    its client as a parameter; redis with the locale \<open>redis_server\<close>, interpreted on the fake client of
    stores/redis/redis\_test.go. \<open>Ristretto_Contract\<close>: the locales \<open>ristretto_cache\<close> and
    \<open>ristretto_immediate\<close> of its client, and that the adapter keeps the contract. \<open>Go_Float\<close>: the float64 rounding behind \<open>Duration.Seconds\<close>.
  \<^item> \<open>Store_Suite\<close>: the test suite of stores/storetests, case by case and the runner; the locale
    \<open>suite_run\<close> proves that a conforming store passes, \<open>suite_provider\<close> that the whole suite does.
  \<^item> \<open>Compression\<close>: core/compress over the writers and readers of the standard library.
  \<^item> \<open>Build_Contracts\<close>: what whole builders build, as clients see it.
  \<^item> \<open>Go_Program\<close>: programs that use the library: parts of a memory, code hosted in a part of a
    program's memory, printing, \<open>panic(err)\<close>, and the locale \<open>program_store\<close> (a store below a built
    stack, apart from the program's own variables).
  \<^item> \<open>Example_Basic\<close>, \<open>Example_Observability\<close>: the mains of examples/01\_basic, 02\_codec and
    04\_observability. \<open>Stats_Metrics\<close>: the metrics and logger of the last, and the locale \<open>uncounted\<close> for
    the layers they observe.
  \<^item> \<open>Logic_Program\<close>: programs over a stack with logical expiry and a missed loader, with the locale
    \<open>swift_store\<close> for a store whose calls return within a bound, so that a timeline can be followed;
    \<open>Example_Logic_Expiry\<close>, \<open>Example_Remote\<close>: the mains of examples/03\_logical\_expiry and
    06\_remote\_byte\_path.
  \<^item> \<open>Level_Program\<close>: programs that read through several levels, with the locales \<open>quick_level\<close> (a built
    cache that answers between two bounds) and \<open>quick_levels\<close> (levels in memories of their own);
    \<open>Example_Multi\<close>: the main of examples/05\_advanced\_multi\_cache, with the times it prints.
  \<^item> this theory: the properties that span components, from \<open>Build\<close> to the client.

  \<^bold>\<open>What is shown.\<close> The refinement theorems say that a built stack promises its client what the store
  promises (default stack, codec with compressions, logical expiry over the byte adapter, single
  decorators, base cache, in-memory store); composed with the redis adapter and gzip they give the
  client of a remote cache its values back until their time is over. The functional ones describe read-through and refill,
  protection values, stale values and their refresh, the recorded events, the order of the layers
  and of the reads. The error ones say which configurations are refused, which error is returned
  when several things fail, and where the code panics: two kinds of lookup share one singleflight
  group. The round trips characterise the wire format and the compressors exactly. Type soundness
  says that a cache built from typed ingredients does not panic and returns values of its type, over
  any session of calls; the liveness theorems that a lookup behind a slow loader ends at its
  deadline. Of the adapters: that redis conforms to the interface, which seconds freecache is given
  and how close its remaining times are, what valkey reports for the replies of PTTL, which cost and
  waiting a ristretto Set uses, that ristretto keeps the contract when its sets are waited for, and
  that the test suite is sound for the contract. Of threads that share the in-memory store: every
  run is explained by one order of whole calls (linearizability), ends, and never has two writers;
  one schedule loses a value. The example programs print exactly what they announce.

  \<^bold>\<open>Parameters and hypotheses.\<close> Code that is not in the repository is a parameter: encoding/json,
  encoding/gob and user compressions (\<open>codec\<close>, \<open>compression_codec\<close>, with \<open>codec_ok\<close> and
  \<open>compression_ok\<close>: no panic, values of the right type), compress/* (\<open>flate_laws\<close>, \<open>lzw_laws\<close>: which levels
  and widths are accepted, and that what was written and closed is read back),
  golang.org/x/sync/singleflight and the choice of \<open>select\<close> (\<open>runtime\<close>, with \<open>sequential\<close> for calls that do
  not overlap, \<open>shares_flights\<close> in general, \<open>prompt\<close> for a select that wakes up in time), the error
  pool of sourcegraph/conc and goroutines (\<open>scheduler\<close>, with \<open>pool_law\<close>: every task runs once, in an
  order the pool chooses, as one step), the storage clients (\<open>redis_client\<close> with \<open>redis_server\<close>,
  \<open>valkey_client\<close>, \<open>freecache_client\<close>, \<open>ristretto_client\<close>), slog, metrics, loaders and user decorators.
  Theorems about the contract take a context without deadline; deadlines are the subject of the
  liveness theorems, and of the conforming stores and the test suite.

  \<^bold>\<open>Bounds.\<close> No definition uses fuel: every loop of the modelled code runs over a list. Durations are
  integers, with the wrap-around of int64 written out where the code multiplies or adds what it read
  from outside (\<open>wrap64\<close>); the counters of the example's metrics are 64-bit words. The suite theorem
  takes stores whose calls last at most a second and report times exact to 100 milliseconds: the
  shortest waits and the bounds in the cases leave no more.

  \<^bold>\<open>What is not modelled.\<close> The locks around events and counters (each access is one step; the lock of
  the in-memory store is modelled), the rendering of printed lines by fmt, the
  monotonic clock reading, the value that accompanies a non-nil error, \<open>GetWithTTL\<close> of user-written
  fetch policies that call the multi cache's \<open>Get\<close> again, the generated mocks (internal/mocks) and
  the logging hook of the integration tests. Goroutines of the examples run one after the other, in
  an order the theorem leaves open.
\<close>

section \<open>Rejected configurations\<close>

text \<open>C25: Build refuses a configuration exactly when an option recorded an error, when a time that is in
  use (logical expiry, missed loader, nil cache) is negative, or when a custom factory is combined
  with staged features; every other failure comes from a factory or a decorator.\<close>

theorem Build_rejects_iff:
  "rejected (fst (fst (Build T rt b w))) \<longleftrightarrow>
     b_err b \<noteq> None \<or> \<not> ttls_valid (b_features b) \<or> (b_factoryCustomized b \<and> hasStagedFeaturesEnabled b)"
    (is "?L \<longleftrightarrow> ?R")
proof
  assume ?R
  then show ?L
    by (elim disjE conjE)
      (simp_all only: Build_err Build_rejects prepared_negative prepared_conflict not_False_eq_True)
next
  assume ?L
  obtain b' w1 where p: "prepared T rt b w = (b', w1)" by fastforce
  have "b_err b' \<noteq> None"
  proof
    assume "b_err b' = None"
    with Build_prepared [OF p] \<open>?L\<close> show False
      by (simp add: wrap_build_error_not_rejected split: prod.splits)
  qed
  with prepared_accepts [of b T rt w] p show ?R by auto
qed

theorem Build_rejects_iff_witness:
  "rejected (fst (fst (Build TInt seq_runtime
      (WithNilCacheWriteBackTTL (- 1) (WithNilCacheFn (Some (\<lambda>k. VInt 0)) (demo_builder TInt))) demo_world))) \<and>
   \<not> rejected (fst (fst (Build TInt seq_runtime (WithNilCacheWriteBackTTL (- 1) (demo_builder TInt)) demo_world)))"
  by (simp add: Build_rejects_iff demo_builder_def NewBuilder_def option_defs ttls_valid_def default_features_def)

text \<open>A negative logical-expiry time is never forgotten: whatever options are called after it, and
  even if the time is overwritten by a valid one, Build refuses the configuration.\<close>

theorem Build_negative_ttl_sticks:
  assumes "d < 0" and "configured (WithLogicExpireDefaultLogicTTL d b) b' \<or>
                       configured (WithLogicExpireDefaultWriteBackTTL d b) b'"
  shows "rejected (fst (fst (Build T rt b' w)))"
proof (rule Build_err)
  have "b_err (WithLogicExpireDefaultLogicTTL d b) \<noteq> None" "b_err (WithLogicExpireDefaultWriteBackTTL d b) \<noteq> None"
    using assms(1) by (simp_all add: option_defs appendErr_simps(1))
  with assms(2) show "b_err b' \<noteq> None" using configured_err by blast
qed

theorem Build_negative_ttl_sticks_witness:
  "rejected (fst (fst (Build TInt seq_runtime
     (WithLogicExpireDefaultLogicTTL Minute (WithLogicExpireDefaultLogicTTL (- 1) (demo_builder TInt))) demo_world)))"
  by (rule Build_negative_ttl_sticks [of "- 1" "demo_builder TInt"])
    (auto intro: configured.intros option_call.intros)

text \<open>Byte transforms without a way back to T are refused: compressions alone make Build fail, with
  an error naming the type, for every T but []byte, for which the compressed bytes are passed
  through to the client.\<close>

theorem Build_byte_path_without_adapter:
  assumes b: "NewBuilder T slog name (Some st) [] = Ok b" and ccs: "ccs \<noteq> []"
  shows "if IsBytesType T then \<exists>c. fst (fst (Build T rt (fold WithCompression ccs b) w)) = Ok c
     else fst (fst (Build T rt (fold WithCompression ccs b) w)) =
            Err (Errorf ''build cache [%s] failed: %w'' [AStr name, AErr (no_adapter T)])"
proof -
  let ?b = "fold WithCompression ccs b"
  have bt: "b_features ?b = default_features\<lparr>ft_byteTransforms := compressions ccs\<rparr>" "b_store ?b = st"
    "b_cacheName ?b = name" "\<not> b_factoryCustomized ?b" "b_err ?b = None" "b_decorators ?b = map WithDecorator []"
    "b_options ?b = map WithDecorator []"
    "b_obDecorators ?b = WithDecorator (\<lambda>c ob w. (Ok (NewObservableDecorator c (StoreName st) name ob), w))"
    using b by (auto simp: NewBuilder_Ok fold_WithCompression default_features_def)
  have v: "ttls_valid (b_features ?b)" by (simp add: bt ttls_valid_def default_features_def)
  obtain bc where bc: "decorate (compressions ccs) (builder_observable ?b) (NewBaseCache TBytes st) w = (Ok bc, w)"
    using compressions_total by blast
  have f: "compiled_factory T rt (b_features ?b) (b_store ?b) (builder_observable ?b) w =
      (if IsBytesType T then Ok (newBytesPassThroughCache T bc) else Err (no_adapter T), w)"
    using bc ccs
    by (simp add: bt compiled_factory_def default_features_def buildPlainTypedCache_def requiresBytePath_def
        compressions_def buildByteCache_def adaptBytesToType_def)
  note L = Build_result [OF bt(4) v bt(5,6,8,7) builder_observable_def, of T rt w]
  show ?thesis
    unfolding L using f
    by (simp add: bt default_features_def loader_group_def miss_layer_def nil_layer_def
        flight_layer_def new_group_def wrap_build_error_def)
qed

theorem Build_byte_path_without_adapter_witness:
  "fst (fst (Build TInt seq_runtime (fold WithCompression [demo_compression] (demo_builder TInt)) demo_world)) =
     Err (Errorf ''build cache [%s] failed: %w'' [AStr ''c'', AErr (no_adapter TInt)])"
  using Build_byte_path_without_adapter [OF demo_builder, of "[demo_compression]" TInt seq_runtime demo_world]
  by (simp add: IsBytesType_def)

section \<open>The order of the layers\<close>

text \<open>C18: the layers of a built cache, from the inside: the base cache, the decorators of
  WithDecorators, the missed loader (its loader behind a singleflight group of its own), the nil
  cache, singleflight with the next group, observation, and outside of all these the decorators
  given to NewBuilder or WithOptions, which the observation layer therefore does not see.\<close>

theorem Build_stack:
  assumes "NewBuilder T slog name (Some st) [WithDecorator (\<lambda>c ob w. (Ok (outer c), w))] = Ok b"
  shows "fst (fst (Build T rt (WithDecorators [\<lambda>c ob w. (Ok (inner c), w)]
            (WithNilCacheFn (Some p) (WithCacheMissLoader (Some f) b))) w)) =
     (let ob = Some (DefaultObservable slog);
          missed = NewMissedLoaderDecorator \<lparr>ml_cache = inner (NewBaseCache T st),
            ml_loadFn = Some (SingleflightWrapper T rt (w_groups w) f), ml_writeBackTTL = Hour, ml_ob = ob\<rparr>;
          protected = NewNilCacheDecorator \<lparr>nc_cache = missed, nc_protectionFn = Some p,
            nc_writeBackTTL = Hour, nc_ob = ob\<rparr>
      in Ok (outer (NewObservableDecorator (SingleflightDecorator T rt (Suc (w_groups w)) protected)
                      (StoreName st) name ob)))"
proof -
  let ?b = "WithDecorators [\<lambda>c ob w. (Ok (inner c), w)] (WithNilCacheFn (Some p) (WithCacheMissLoader (Some f) b))"
  have b: "\<not> b_factoryCustomized ?b" "ttls_valid (b_features ?b)" "b_err ?b = None"
    "b_decorators ?b = map WithDecorator [\<lambda>c ob w. (Ok (inner c), w)]"
    "b_obDecorators ?b = WithDecorator (\<lambda>c ob w. (Ok (NewObservableDecorator c (StoreName st) name ob), w))"
    "b_options ?b = map WithDecorator [\<lambda>c ob w. (Ok (outer c), w)]" "b_store ?b = st"
    "b_features ?b = default_features\<lparr>ft_missLoader := \<lparr>mf_loadFn = Some f, mf_defaultWriteBackTTL = Hour\<rparr>,
       ft_nilCache := \<lparr>nf_protectionFn = Some p, nf_defaultWriteBackTTL = Hour\<rparr>\<rparr>"
    and o': "Some (DefaultObservable slog) = Some \<lparr>ob_Metrics = b_metrics ?b, ob_Logger = b_logger ?b\<rparr>"
    using assms by (auto simp: NewBuilder_Ok option_defs default_features_def ttls_valid_def DefaultObservable_def)
  note L = Build_result [OF b(1-6) o', of T rt w]
  show ?thesis
    unfolding L b(7,8)
    by (simp add: default_features_def compiled_factory_def buildPlainTypedCache_def requiresBytePath_def
        loader_group_def miss_layer_def nil_layer_def flight_layer_def new_group_def wrap_build_error_def Let_def)
qed

theorem Build_stack_witness:
  "\<exists>b c. fst (fst (Build TInt seq_runtime (WithDecorators [\<lambda>c ob w. (Ok c, w)]
            (WithNilCacheFn (Some (\<lambda>k. VInt 0)) (WithCacheMissLoader (Some (\<lambda>ctx k opts w. (Ok (VInt 7), w))) b)))
            demo_world)) = Ok c"
proof -
  obtain b where "NewBuilder TInt no_slog ''c'' (Some (SlowMapStore demo_map)) [WithDecorator (\<lambda>c ob w. (Ok c, w))] = Ok b"
    by (simp add: NewBuilder_def)
  from Build_stack [OF this, of seq_runtime "\<lambda>c. c" "\<lambda>k. VInt 0" "\<lambda>ctx k opts w. (Ok (VInt 7), w)" demo_world]
  show ?thesis unfolding Let_def by blast
qed

lemma default_stack:
  assumes "\<not> b_factoryCustomized b" and "b_err b = None" and "b_decorators b = map WithDecorator ds"
    and "b_obDecorators b = WithDecorator (\<lambda>c ob w. (Ok (NewObservableDecorator c (StoreName st) name ob), w))"
    and "b_options b = []" and "b_store b = st" and "b_features b = default_features"
    and "Some (DefaultObservable slog) = Some \<lparr>ob_Metrics = b_metrics b, ob_Logger = b_logger b\<rparr>"
    and "ds = flight_layer T rt default_features \<or> ds = []"
  shows "fst (fst (Build T rt b w)) =
     Ok (NewObservableDecorator
          (if ds = [] then SingleflightDecorator T rt (w_groups w) (NewBaseCache T st)
           else SingleflightDecorator T rt (Suc (w_groups w)) (SingleflightDecorator T rt (w_groups w) (NewBaseCache T st)))
          (StoreName st) name (Some (DefaultObservable slog)))"
proof -
  have o': "b_options b = map WithDecorator []" using assms(5) by simp
  have v: "ttls_valid (b_features b)" by (simp add: assms(7) default_features_def ttls_valid_def)
  show ?thesis
    unfolding Build_result [OF assms(1) v assms(2-4) o' assms(8), of T rt w] assms(6,7) using assms(9)
    by (auto simp: default_features_def compiled_factory_def buildPlainTypedCache_def requiresBytePath_def
        loader_group_def miss_layer_def nil_layer_def flight_layer_def new_group_def wrap_build_error_def)
qed

text \<open>Build is not repeatable. Building changes the builder: a second Build of the same builder
  succeeds again, but the cache it returns has every behaviour layer twice.\<close>

theorem Build_twice:
  assumes b: "NewBuilder T slog name (Some st) [] = Ok b" and first: "Build T rt b w = ((r1, b1), w1)"
  shows "r1 = Ok (NewObservableDecorator (SingleflightDecorator T rt (w_groups w) (NewBaseCache T st))
                    (StoreName st) name (Some (DefaultObservable slog))) \<and>
     fst (fst (Build T rt b1 w2)) =
       Ok (NewObservableDecorator
             (SingleflightDecorator T rt (Suc (w_groups w2)) (SingleflightDecorator T rt (w_groups w2) (NewBaseCache T st)))
             (StoreName st) name (Some (DefaultObservable slog)))"
proof
  have "b_features b = default_features" "\<not> b_factoryCustomized b" using b by (auto simp: NewBuilder_Ok)
  moreover have "ttls_valid (default_features :: 'a features)" by (simp add: default_features_def ttls_valid_def)
  ultimately have b1: "b1 = b\<lparr>b_factory := WithFactory (Some (compiled_factory T rt default_features)),
         b_decorators := b_decorators b @ map WithDecorator (flight_layer T rt default_features)\<rparr>"
    using Build_builder [of T rt b w] first prepared_layers [of b T rt w]
    by (simp add: default_features_def miss_layer_def nil_layer_def)
  have "fst (fst (Build T rt b w)) = Ok (NewObservableDecorator
      (SingleflightDecorator T rt (w_groups w) (NewBaseCache T st)) (StoreName st) name (Some (DefaultObservable slog)))"
    using b by (subst default_stack [where ds = "[]"]) (auto simp: NewBuilder_Ok DefaultObservable_def)
  with first show "r1 = Ok (NewObservableDecorator (SingleflightDecorator T rt (w_groups w) (NewBaseCache T st))
                    (StoreName st) name (Some (DefaultObservable slog)))" by simp
  have "flight_layer T rt default_features \<noteq> []" by (simp add: flight_layer_def default_features_def)
  then show "fst (fst (Build T rt b1 w2)) =
       Ok (NewObservableDecorator
             (SingleflightDecorator T rt (Suc (w_groups w2)) (SingleflightDecorator T rt (w_groups w2) (NewBaseCache T st)))
             (StoreName st) name (Some (DefaultObservable slog)))"
    using b by (subst default_stack [where ds = "flight_layer T rt default_features"])
      (auto simp: b1 NewBuilder_Ok DefaultObservable_def)
qed

theorem Build_twice_witness:
  "\<exists>c b1 w1. Build TInt seq_runtime (demo_builder TInt) demo_world = ((Ok c, b1), w1)"
proof -
  obtain r1 b1 w1 where "Build TInt seq_runtime (demo_builder TInt) demo_world = ((r1, b1), w1)"
    by (metis prod.exhaust)
  with Build_twice [OF demo_builder this] show ?thesis by auto
qed

text \<open>Enabling the byte adapter of logical expiry is not enough to get its wire format: without a
  codec, a type adapter or a byte transform, Build puts the logical-expiry decorator directly on a
  base cache of wrapped values, so that the store is handed the wrapper struct and not bytes.\<close>

theorem Build_adapter_flag_ignored:
  assumes "NewBuilder TBytes slog name (Some st) [] = Ok b"
  shows "fst (fst (Build TBytes rt (WithLogicExpireBytesAdapter True b) w)) =
     (let ob = Some (DefaultObservable slog);
          logic = LogicTTLDecorator TBytes \<lparr>lt_cache = NewBaseCache (TLogic TBytes) st, lt_ob = ob,
            lt_logicExpireMetrics = None, lt_defaultLogicTTL = 10 * Minute, lt_loadFn = None, lt_writeBackTTL = Hour\<rparr>
      in Ok (NewObservableDecorator (SingleflightDecorator TBytes rt (w_groups w) logic) (StoreName st) name ob))"
proof -
  let ?b = "WithLogicExpireBytesAdapter True b"
  have b: "\<not> b_factoryCustomized ?b" "ttls_valid (b_features ?b)" "b_err ?b = None"
    "b_decorators ?b = map WithDecorator []"
    "b_obDecorators ?b = WithDecorator (\<lambda>c ob w. (Ok (NewObservableDecorator c (StoreName st) name ob), w))"
    "b_options ?b = map WithDecorator []" "b_store ?b = st"
    "b_features ?b = default_features\<lparr>ft_logicExpire := \<lparr>le_enabled = True, le_defaultLogicTTL = 10 * Minute,
       le_loadFn = None, le_defaultWriteBackTTL = Hour, le_enableBytesAdapter = True\<rparr>\<rparr>"
    and o': "Some (DefaultObservable slog) = Some \<lparr>ob_Metrics = b_metrics ?b, ob_Logger = b_logger ?b\<rparr>"
    using assms by (auto simp: NewBuilder_Ok option_defs default_features_def ttls_valid_def DefaultObservable_def)
  show ?thesis
    unfolding Build_result [OF b(1-6) o', of TBytes rt w] b(7,8)
    by (simp add: default_features_def compiled_factory_def logic_factory_def buildLogicWireCache_def
        requiresBytePath_def buildTTLConfig_def NewLogicTTLDecorator_def DefaultObservable_def NoopMetrics_def
        loader_group_def miss_layer_def nil_layer_def flight_layer_def new_group_def wrap_build_error_def Let_def)
qed

theorem Build_adapter_flag_ignored_witness:
  "\<exists>c. fst (fst (Build TBytes seq_runtime (WithLogicExpireBytesAdapter True (demo_builder TBytes)) demo_world)) = Ok c"
  using Build_adapter_flag_ignored [OF demo_builder, of seq_runtime demo_world] unfolding Let_def by blast

end
